(* ===== verification/Prelude.thy ===== *)
theory Prelude
  imports Main "HOL-Library.Word"
begin

text \<open>
  Shared vocabulary of the development: the machine types of the modelled target
  (x86_64, System V, ELF, so \<open>size_t\<close> and pointers have 64 bits and \<open>int\<close> has 32), the ways in
  which a call of the library can end without returning, sequencing of such calls,
  the relation between a linked list in the heap and the list of its nodes, and the contract of a handler of
  events with an abstract state.
\<close>

section \<open>Machine types\<close>

type_synonym byte = "8 word"
type_synonym addr = "64 word"
type_synonym size_t = "64 word"
type_synonym cint = "32 word"

abbreviation NULL :: addr where
  "NULL \<equiv> 0"

section \<open>How a call can end\<close>

text \<open>
  \<open>mmk_panic\<close> prints a message and aborts; each message of the library is a constructor with
  the values it prints. \<open>mmk_assert\<close> prints the failed condition and aborts. \<open>UB\<close> is
  an access through a null or dangling pointer, \<open>Diverges\<close> a loop that does not end.
\<close>

datatype panic =
    Unknown_selector string
  | Unknown_target string
  | Mock_allocation_failed string
  | No_got_entry string
  | Never_called
  | Called_more_than_once cint
  | Vital_not_found string

datatype fault =
    UB
  | Diverges
  | Assert_failed string
  | Init_error bool bool
  | Panic panic

definition andthen :: "'e + 'a \<Rightarrow> ('a \<Rightarrow> 'e + 'b) \<Rightarrow> 'e + 'b" where
  "andthen r f = (case r of Inl e \<Rightarrow> Inl e | Inr x \<Rightarrow> f x)"

definition returns :: "'a option \<Rightarrow> fault + 'a" where
  "returns r = (case r of None \<Rightarrow> Inl Diverges | Some x \<Rightarrow> Inr x)"

definition finishes :: "(fault + 'a) option \<Rightarrow> fault + 'a" where
  "finishes r = (case r of None \<Rightarrow> Inl Diverges | Some x \<Rightarrow> x)"

definition mmk_assert :: "string \<Rightarrow> bool \<Rightarrow> fault + unit" where
  "mmk_assert cond holds = (if holds then Inr () else Inl (Assert_failed cond))"

definition deref :: "'a option \<Rightarrow> fault + 'a" where
  "deref obj = (case obj of None \<Rightarrow> Inl UB | Some x \<Rightarrow> Inr x)"

named_theorems ends
  \<open>when a sequence of calls returns\<close>

lemma andthen_simps [simp]:
  "andthen (Inl e) f = Inl e"
  "andthen (Inr x) f = f x"
  by (simp_all add: andthen_def)

lemma andthen_Inr_iff [ends]: "andthen r f = Inr y \<longleftrightarrow> (\<exists>x. r = Inr x \<and> f x = Inr y)"
  by (cases r) auto

lemma andthen_Inl_iff: "andthen r f = Inl e \<longleftrightarrow> r = Inl e \<or> (\<exists>x. r = Inr x \<and> f x = Inl e)"
  by (cases r) auto

lemma andthen_assoc: "andthen (andthen r f) g = andthen r (\<lambda>x. andthen (f x) g)"
  by (cases r) auto

lemma returns_simps [simp]:
  "returns None = Inl Diverges"
  "returns (Some x) = Inr x"
  by (simp_all add: returns_def)

lemma returns_Inr_iff [ends]: "returns r = Inr x \<longleftrightarrow> r = Some x"
  by (cases r) auto

lemma finishes_simps [simp]:
  "finishes None = Inl Diverges"
  "finishes (Some r) = r"
  by (simp_all add: finishes_def)

lemma finishes_Inr_iff [ends]: "finishes r = Inr x \<longleftrightarrow> r = Some (Inr x)"
  by (cases r) auto

lemma mmk_assert_simps [simp]:
  "mmk_assert c True = Inr ()"
  "mmk_assert c False = Inl (Assert_failed c)"
  by (simp_all add: mmk_assert_def)

lemma mmk_assert_Inr_iff [ends]: "mmk_assert c b = Inr u \<longleftrightarrow> b"
  by (simp add: mmk_assert_def)

lemma deref_simps [simp]:
  "deref None = Inl UB"
  "deref (Some x) = Inr x"
  by (simp_all add: deref_def)

lemma deref_Inr_iff [ends]: "deref r = Inr x \<longleftrightarrow> r = Some x"
  by (cases r) auto

section \<open>Linked lists in the heap\<close>

text \<open>
  \<open>links nx h p ps\<close>: following the link field \<open>nx\<close> from the pointer \<open>p\<close> through the
  objects of \<open>h\<close> visits exactly the addresses \<open>ps\<close>, in order, and then reaches \<open>NULL\<close>.
\<close>

fun links :: "('n \<Rightarrow> addr) \<Rightarrow> (addr \<rightharpoonup> 'n) \<Rightarrow> addr \<Rightarrow> addr list \<Rightarrow> bool" where
  "links nx h p [] \<longleftrightarrow> p = NULL"
| "links nx h p (q # qs) \<longleftrightarrow> p = q \<and> q \<noteq> NULL \<and> (\<exists>n. h q = Some n \<and> links nx h (nx n) qs)"

lemma links_NULL [simp]: "links nx h NULL ps \<longleftrightarrow> ps = []"
  by (cases ps) auto

lemma links_functional: "links nx h p ps \<Longrightarrow> links nx h p qs \<Longrightarrow> ps = qs"
proof (induction ps arbitrary: p qs)
  case Nil
  then show ?case by simp
next
  case (Cons a ps)
  then show ?case by (cases qs) auto
qed

lemma links_update [simp]: "a \<notin> set ps \<Longrightarrow> links nx (h(a := v)) p ps = links nx h p ps"
  by (induction ps arbitrary: p) auto

lemma links_not_NULL: "links nx h p ps \<Longrightarrow> NULL \<notin> set ps"
  by (induction ps arbitrary: p) auto

lemma links_dom: "links nx h p ps \<Longrightarrow> set ps \<subseteq> dom h"
  by (induction ps arbitrary: p) auto

lemma links_suffix: "links nx h p (ps @ q # qs) \<Longrightarrow> links nx h q (q # qs)"
  by (induction ps arbitrary: p) auto

lemma links_head_fresh: "links nx h p (q # qs) \<Longrightarrow> q \<notin> set qs"
proof
  assume l: "links nx h p (q # qs)" and "q \<in> set qs"
  then obtain as bs where "qs = as @ q # bs"
    by (meson split_list)
  with l have "links nx h q (q # as @ q # bs)" and "links nx h q (q # bs)"
    using links_suffix [of nx h p "q # as" q bs] by auto
  then have "q # as @ q # bs = q # bs"
    by (rule links_functional)
  then have "length (q # as @ q # bs) = length (q # bs)"
    by (rule arg_cong)
  then show False
    by simp
qed

lemma links_distinct: "links nx h p ps \<Longrightarrow> distinct ps"
proof (induction ps arbitrary: p)
  case Nil
  then show ?case by simp
next
  case (Cons a ps)
  then show ?case
    using links_head_fresh [OF Cons.prems] by auto
qed

lemma links_cong: "links nx h p ps \<Longrightarrow> (\<And>a. a \<in> set ps \<Longrightarrow> h' a = h a) \<Longrightarrow> links nx h' p ps"
  by (induction ps arbitrary: p) auto

section \<open>Sequences of events\<close>

text \<open>
  \<open>run_events h s es\<close> handles the events \<open>es\<close> one after the other and collects the answers. \<open>event_contract\<close> is the contract of a
  handler with an abstract state: while the abstract state \<open>admits\<close> the event, the handler \<open>follow\<close>s it and gives its answer.
\<close>

fun run_events :: "('s \<Rightarrow> 'e \<Rightarrow> fault + 'r \<times> 's) \<Rightarrow> 's \<Rightarrow> 'e list \<Rightarrow> fault + 'r list \<times> 's" where
  "run_events h s [] = Inr ([], s)"
| "run_events h s (e # es) =
     andthen (h s e) (\<lambda>(r, s). andthen (run_events h s es) (\<lambda>(rs, s). Inr (r # rs, s)))"

fun admitted :: "('e \<Rightarrow> 'a \<Rightarrow> 'a) \<Rightarrow> ('a \<Rightarrow> 'e \<Rightarrow> bool) \<Rightarrow> 'a \<Rightarrow> 'e list \<Rightarrow> bool" where
  "admitted f adm a [] \<longleftrightarrow> True"
| "admitted f adm a (e # es) \<longleftrightarrow> adm a e \<and> admitted f adm (f e a) es"

lemma admitted_append: "admitted f adm a (es @ es') \<longleftrightarrow> admitted f adm a es \<and> admitted f adm (fold f es a) es'"
  by (induction es arbitrary: a) auto

lemma admitted_map:
  "admitted (f \<circ> g) (\<lambda>a e. Q e \<and> adm a (g e)) a es \<longleftrightarrow> (\<forall>e \<in> set es. Q e) \<and> admitted f adm a (map g es)"
  by (induction es arbitrary: a) auto

locale event_contract =
  fixes handle :: "'s \<Rightarrow> 'e \<Rightarrow> fault + 'r \<times> 's"
    and models :: "'a \<Rightarrow> 's \<Rightarrow> bool"
    and follow :: "'e \<Rightarrow> 'a \<Rightarrow> 'a"
    and answer :: "'a \<Rightarrow> 's \<Rightarrow> 'e \<Rightarrow> 'r"
    and admits :: "'a \<Rightarrow> 'e \<Rightarrow> bool"
  assumes handled: "models a s \<Longrightarrow> admits a e \<Longrightarrow> handle s e = Inr (r, s') \<Longrightarrow>
      models (follow e a) s' \<and> r = answer a s' e"
begin

lemma run_models:
  "models a s \<Longrightarrow> admitted follow admits a es \<Longrightarrow> run_events handle s es = Inr (rs, s') \<Longrightarrow> models (fold follow es a) s'"
proof (induction es arbitrary: a s rs)
  case (Cons e es)
  then obtain r s1 rs1 where "handle s e = Inr (r, s1)" and "run_events handle s1 es = Inr (rs1, s')"
    by (auto simp: ends)
  with Cons.prems Cons.IH [of "follow e a" s1 rs1] handled show ?case
    by auto
qed simp

text \<open>The answer of the last event of a run, and so of each of them.\<close>

lemma run_answers:
  assumes "models a s" and "admitted follow admits a (es @ [e])" and "run_events handle s es = Inr (rs, s1)"
    and "handle s1 e = Inr (r, s2)"
  shows "r = answer (fold follow es a) s2 e"
  using handled [OF run_models [OF assms(1) _ assms(3)] _ assms(4)] assms(2) by (simp add: admitted_append)

end

end
