(* ===== verification/Memory.thy ===== *)
theory Memory
  imports Prelude
begin

text \<open>
  The memory of the process: a total function from 64-bit addresses to bytes, little
  endian, with wrap-around address arithmetic. Reads and writes of byte runs, of the
  32- and 64-bit objects the tables of the loader are made of, and the separation lemmas
  for them. Also the heap: the blocks handed out by the allocator the library finds
  at start-up, whose choice of addresses is a parameter of the model.
\<close>

section \<open>Bytes and integers\<close>

type_synonym mem = "addr \<Rightarrow> byte"

fun le_bytes :: "nat \<Rightarrow> nat \<Rightarrow> byte list" where
  "le_bytes 0 v = []"
| "le_bytes (Suc n) v = of_nat v # le_bytes n (v div 256)"

fun le_val :: "byte list \<Rightarrow> nat" where
  "le_val [] = 0"
| "le_val (b # bs) = unat b + 256 * le_val bs"

lemma length_le_bytes [simp]: "length (le_bytes n v) = n"
  by (induction n arbitrary: v) auto

lemma unat_byte_less [simp]: "unat (b :: byte) < 256"
  using unsigned_less [of b] by simp

lemma le_val_bound: "le_val bs < 256 ^ length bs"
proof (induction bs)
  case Nil
  then show ?case by simp
next
  case (Cons b bs)
  have "unat b + 256 * le_val bs < 256 + 256 * le_val bs"
    by simp
  also have "\<dots> \<le> 256 * 256 ^ length bs"
    using Cons.IH by simp
  finally show ?case by simp
qed

lemma unat_of_nat_byte: "unat (of_nat v :: byte) = v mod 256"
  by (simp add: unat_of_nat)

lemma le_val_le_bytes: "le_val (le_bytes n v) = v mod 256 ^ n"
proof (induction n arbitrary: v)
  case 0
  then show ?case by simp
next
  case (Suc n)
  have "v mod 256 ^ Suc n = 256 * (v div 256 mod 256 ^ n) + v mod 256"
    by (simp add: mod_mult2_eq)
  with Suc show ?case
    by (simp add: unat_of_nat_byte)
qed

lemma le_bytes_le_val: "le_bytes (length bs) (le_val bs) = bs"
proof (induction bs)
  case Nil
  then show ?case by simp
next
  case (Cons b bs)
  have "(unat b + 256 * le_val bs) div 256 = le_val bs"
    by simp
  moreover have "(of_nat (unat b + 256 * le_val bs) :: byte) = b"
    by (simp only: word_unat_eq_iff unat_of_nat_byte) simp
  ultimately show ?case
    using Cons.IH by simp
qed

section \<open>Regions\<close>

text \<open>\<open>in_region a n x\<close>: \<open>x\<close> is one of the \<open>n\<close> addresses from \<open>a\<close> on (modulo \<open>2^64\<close>).\<close>

definition in_region :: "addr \<Rightarrow> nat \<Rightarrow> addr \<Rightarrow> bool" where
  "in_region a n x \<longleftrightarrow> unat (x - a) < n"

definition separate :: "addr \<Rightarrow> nat \<Rightarrow> addr \<Rightarrow> nat \<Rightarrow> bool" where
  "separate a n b k \<longleftrightarrow> (\<forall>x. \<not> (in_region a n x \<and> in_region b k x))"

lemma separate_sym: "separate a n b k \<longleftrightarrow> separate b k a n"
  by (auto simp: separate_def)

lemma separate_sub:
  "separate a n b k \<Longrightarrow> (\<And>x. in_region a' n' x \<Longrightarrow> in_region a n x) \<Longrightarrow>
    (\<And>x. in_region b' k' x \<Longrightarrow> in_region b k x) \<Longrightarrow> separate a' n' b' k'"
  by (auto simp: separate_def)

lemma separate_iff [code]:
  "separate a n b k \<longleftrightarrow> n = 0 \<or> k = 0 \<or> n \<le> unat (b - a) \<and> k \<le> unat (a - b)"
proof
  assume s: "separate a n b k"
  then have "\<not> (in_region a n a \<and> in_region b k a)" and "\<not> (in_region a n b \<and> in_region b k b)"
    by (auto simp: separate_def)
  then show "n = 0 \<or> k = 0 \<or> n \<le> unat (b - a) \<and> k \<le> unat (a - b)"
    by (auto simp: in_region_def)
next
  assume r: "n = 0 \<or> k = 0 \<or> n \<le> unat (b - a) \<and> k \<le> unat (a - b)"
  show "separate a n b k"
    unfolding separate_def in_region_def
  proof (intro allI notI)
    fix x
    assume x: "unat (x - a) < n \<and> unat (x - b) < k"
    have "b - a = (x - a) - (x - b)" and "a - b = (x - b) - (x - a)"
      by simp_all
    then have "unat (b - a) \<le> unat (x - a) \<or> unat (a - b) \<le> unat (x - b)"
      by (metis diff_le_self linear unat_sub word_le_nat_alt)
    with r x show False
      by linarith
  qed
qed

lemma in_region_shift:
  assumes "in_region (a + of_nat i) k x" and "i + k \<le> n" and "n \<le> 2 ^ 64"
  shows "in_region a n x"
proof -
  have k: "unat (x - (a + of_nat i)) < k"
    using assms(1) by (simp add: in_region_def)
  have "x - a = (x - (a + of_nat i)) + of_nat i"
    by simp
  then have "unat (x - a) = (unat (x - (a + of_nat i)) + unat (of_nat i :: addr)) mod 2 ^ 64"
    by (simp only: unat_word_ariths) simp
  also have "\<dots> \<le> unat (x - (a + of_nat i)) + i"
    by (rule order_trans [OF mod_less_eq_dividend])
      (simp add: unat_of_nat mod_less_eq_dividend)
  finally show ?thesis
    using k assms(2) by (simp add: in_region_def)
qed

lemma in_region_nth: "i < n \<Longrightarrow> n \<le> 2 ^ 64 \<Longrightarrow> in_region a n (a + of_nat i)"
  by (simp add: in_region_def unat_of_nat)

lemma in_region_prefix: "in_region a k x \<Longrightarrow> k \<le> n \<Longrightarrow> in_region a n x"
  by (simp add: in_region_def)

section \<open>Reading and writing byte runs\<close>

fun rd :: "mem \<Rightarrow> addr \<Rightarrow> nat \<Rightarrow> byte list" where
  "rd m a 0 = []"
| "rd m a (Suc n) = m a # rd m (a + 1) n"

fun wr :: "mem \<Rightarrow> addr \<Rightarrow> byte list \<Rightarrow> mem" where
  "wr m a [] = m"
| "wr m a (b # bs) = wr (m(a := b)) (a + 1) bs"

lemma length_rd [simp]: "length (rd m a n) = n"
  by (induction n arbitrary: a) auto

lemma rd_nth: "i < n \<Longrightarrow> rd m a n ! i = m (a + of_nat i)"
proof (induction n arbitrary: a i)
  case 0
  then show ?case by simp
next
  case (Suc n)
  then show ?case
    by (cases i) (auto simp: add.assoc)
qed

lemma rd_cong: "(\<And>i. i < n \<Longrightarrow> m' (a + of_nat i) = m (a + of_nat i)) \<Longrightarrow> rd m' a n = rd m a n"
  by (rule nth_equalityI) (simp_all add: rd_nth)

lemma rd_append: "rd m a (n + k) = rd m a n @ rd m (a + of_nat n) k"
  by (induction n arbitrary: a) (auto simp: add.assoc)

lemma unat_minus_1: "w \<noteq> 0 \<Longrightarrow> unat (w :: addr) = Suc (unat (w - 1))"
  using unat_sub [of 1 w] unat_gt_0 [of w]
  by (simp add: word_le_nat_alt Suc_leI)

lemma unat_m1: "unat (- 1 :: addr) = 2 ^ 64 - 1"
  by (simp add: unsigned_minus_1_eq_mask mask_eq_exp_minus_1)

lemma wr_apply:
  "length bs \<le> 2 ^ 64 \<Longrightarrow>
    wr m a bs x = (if unat (x - a) < length bs then bs ! unat (x - a) else m x)"
proof (induction bs arbitrary: m a x)
  case Nil
  then show ?case by simp
next
  case (Cons b bs)
  then have len: "length bs < 2 ^ 64"
    by simp
  show ?case
  proof (cases "x = a")
    case True
    have "\<not> unat (a - (a + 1)) < length bs"
      using unat_m1 len by simp
    then have "wr (m(a := b)) (a + 1) bs a = b"
      using len by (subst Cons.IH) auto
    with True show ?thesis
      by simp
  next
    case False
    then have "unat (x - a) = Suc (unat (x - (a + 1)))"
      using unat_minus_1 [of "x - a"] by (simp add: algebra_simps)
    with False len show ?thesis
      by (subst wr.simps, subst Cons.IH) auto
  qed
qed

lemma wr_outside:
  "length bs \<le> 2 ^ 64 \<Longrightarrow> \<not> in_region a (length bs) x \<Longrightarrow> wr m a bs x = m x"
  by (simp add: wr_apply in_region_def)

lemma wr_append: "wr m a (bs @ cs) = wr (wr m a bs) (a + of_nat (length bs)) cs"
  by (induction bs arbitrary: m a) (auto simp: add.assoc)

lemma rd_wr_same: "length bs \<le> 2 ^ 64 \<Longrightarrow> rd (wr m a bs) a (length bs) = bs"
  by (rule nth_equalityI) (simp_all add: rd_nth wr_apply unat_of_nat)

lemma rd_wr_same': "length bs = n \<Longrightarrow> n \<le> 2 ^ 64 \<Longrightarrow> rd (wr m a bs) a n = bs"
  using rd_wr_same by blast

lemma rd_wr_separate:
  assumes "separate a (length bs) b n" and "length bs \<le> 2 ^ 64" and "n \<le> 2 ^ 64"
  shows "rd (wr m a bs) b n = rd m b n"
proof (rule rd_cong)
  fix i
  assume "i < n"
  then have "in_region b n (b + of_nat i)"
    using assms(3) by (rule in_region_nth)
  with assms(1) have "\<not> in_region a (length bs) (b + of_nat i)"
    by (auto simp: separate_def)
  then show "wr m a bs (b + of_nat i) = m (b + of_nat i)"
    using assms(2) by (rule wr_outside [rotated])
qed

lemma wr_rd_id: "n \<le> 2 ^ 64 \<Longrightarrow> wr m a (rd m a n) = m"
  by (rule ext) (simp add: wr_apply rd_nth)

lemma wr_wr_same:
  assumes "length bs = length cs" and "length cs \<le> 2 ^ 64"
  shows "wr (wr m a bs) a cs = wr m a cs"
  using assms by (intro ext) (simp add: wr_apply)

lemma wr_wr_swap:
  assumes "separate a (length bs) b (length cs)"
    and "length bs \<le> 2 ^ 64" and "length cs \<le> 2 ^ 64"
  shows "wr (wr m a bs) b cs = wr (wr m b cs) a bs"
proof (rule ext)
  fix x
  have "\<not> (unat (x - a) < length bs \<and> unat (x - b) < length cs)"
    using assms(1) by (auto simp: separate_def in_region_def)
  then show "wr (wr m a bs) b cs x = wr (wr m b cs) a bs x"
    using assms(2,3) by (auto simp: wr_apply)
qed

section \<open>Integers in memory\<close>

definition ld32 :: "mem \<Rightarrow> addr \<Rightarrow> 32 word" where
  "ld32 m a = of_nat (le_val (rd m a 4))"

definition ld64 :: "mem \<Rightarrow> addr \<Rightarrow> 64 word" where
  "ld64 m a = of_nat (le_val (rd m a 8))"

definition st64 :: "mem \<Rightarrow> addr \<Rightarrow> 64 word \<Rightarrow> mem" where
  "st64 m a v = wr m a (le_bytes 8 (unat v))"

lemma unat_ld64: "unat (ld64 m a) = le_val (rd m a 8)"
  using le_val_bound [of "rd m a 8"] by (simp add: ld64_def unat_of_nat)

lemma unat_less_64: "unat (v :: 64 word) < 2 ^ 64"
proof -
  have "unat v < 2 ^ LENGTH(64)"
    by (rule unsigned_less)
  then show ?thesis
    by simp
qed

lemma of_nat_le_val_le_bytes: "of_nat (le_val (le_bytes 8 (unat v))) = (v :: 64 word)"
  using unat_less_64 [of v] by (simp add: le_val_le_bytes)

lemma ld64_st64_same [simp]: "ld64 (st64 m a v) a = v"
  by (simp add: ld64_def st64_def rd_wr_same' of_nat_le_val_le_bytes)

lemma st64_ld64_id [simp]: "st64 m a (ld64 m a) = m"
  using le_bytes_le_val [of "rd m a 8"] by (simp add: st64_def unat_ld64 wr_rd_id)

lemma st64_st64_same [simp]: "st64 (st64 m a v) a w = st64 m a w"
  by (simp add: st64_def wr_wr_same)

lemma rd_st64_separate:
  "separate a 8 b n \<Longrightarrow> n \<le> 2 ^ 64 \<Longrightarrow> rd (st64 m a v) b n = rd m b n"
  by (simp add: st64_def rd_wr_separate)

lemma ld64_st64_separate: "separate a 8 b 8 \<Longrightarrow> ld64 (st64 m a v) b = ld64 m b"
  by (simp add: ld64_def rd_st64_separate)

lemma st64_swap: "separate a 8 b 8 \<Longrightarrow> st64 (st64 m a v) b w = st64 (st64 m b w) a v"
  unfolding st64_def by (rule wr_wr_swap) simp_all

lemma st64_outside: "\<not> in_region a 8 x \<Longrightarrow> st64 m a v x = m x"
  by (simp add: st64_def wr_outside)

lemma st64_cong: "m x = m' x \<Longrightarrow> st64 m a v x = st64 m' a v x"
  by (simp add: st64_def wr_apply)

lemma ld64_cong: "rd m a 8 = rd m' a 8 \<Longrightarrow> ld64 m a = ld64 m' a"
  by (simp add: ld64_def)

lemma unat_add_no_wrap: "unat (a :: addr) + k < 2 ^ 64 \<Longrightarrow> unat (a + of_nat k) = unat a + k"
  by (simp add: unat_word_ariths unat_of_nat)

section \<open>C strings in memory\<close>

text \<open>\<open>cstring m a s\<close>: the bytes \<open>s\<close>, none of them zero, start at \<open>a\<close> and are followed by a zero.\<close>

fun cstring :: "mem \<Rightarrow> addr \<Rightarrow> byte list \<Rightarrow> bool" where
  "cstring m a [] \<longleftrightarrow> m a = 0"
| "cstring m a (c # cs) \<longleftrightarrow> m a = c \<and> c \<noteq> 0 \<and> cstring m (a + 1) cs"

lemma cstring_functional: "cstring m a s \<Longrightarrow> cstring m a t \<Longrightarrow> s = t"
proof (induction s arbitrary: a t)
  case Nil
  then show ?case by (cases t) auto
next
  case (Cons c s)
  then show ?case by (cases t) auto
qed

lemma cstring_no_zero: "cstring m a s \<Longrightarrow> 0 \<notin> set s"
  by (induction s arbitrary: a) auto

lemma cstring_rd: "cstring m a s \<Longrightarrow> rd m a (length s) = s"
  by (induction s arbitrary: a) auto

lemma cstring_end: "cstring m a s \<Longrightarrow> m (a + of_nat (length s)) = 0"
proof (induction s arbitrary: a)
  case Nil
  then show ?case by simp
next
  case (Cons c s)
  then have "m (a + 1 + of_nat (length s)) = 0"
    by simp
  then show ?case
    by (simp add: add.assoc)
qed

lemma cstring_iff:
  "cstring m a s \<longleftrightarrow> rd m a (length s) = s \<and> 0 \<notin> set s \<and> m (a + of_nat (length s)) = 0"
proof (induction s arbitrary: a)
  case Nil
  then show ?case by simp
next
  case (Cons c s)
  show ?case
    by (simp add: Cons.IH add.assoc) blast
qed

lemma cstring_cong:
  "cstring m a s \<Longrightarrow> (\<And>i. i \<le> length s \<Longrightarrow> m' (a + of_nat i) = m (a + of_nat i)) \<Longrightarrow> cstring m' a s"
proof (induction s arbitrary: a)
  case Nil
  then show ?case using Nil.prems(2) [of 0] by simp
next
  case (Cons c s)
  have "m' (a + 1 + of_nat i) = m (a + 1 + of_nat i)" if "i \<le> length s" for i
    using Cons.prems(2) [of "Suc i"] that by (simp add: add.assoc)
  then have "cstring m' (a + 1) s"
    using Cons by simp
  then show ?case
    using Cons.prems Cons.prems(2) [of 0] by simp
qed

end
