(* ===== verification/Vitals.thy ===== *)
theory Vitals
  imports Memory
begin

text \<open>
  \<open>src/vitals.c\<close>: the string and memory functions the library keeps for itself, and its
  allocator. A C string is modelled twice. First as the list of its characters up to the
  terminator, where a pointer into it is a suffix and the terminator is the empty suffix: the
  rest of the development uses these. Then in the byte memory, with pointers and a terminating
  zero byte, where a loop over an unterminated string may not end; the two are
  proved to agree on every string in memory.
\<close>

section \<open>Strings as lists\<close>

fun mmk_strneq :: "'c list \<Rightarrow> 'c list \<Rightarrow> nat \<Rightarrow> bool" where
  "mmk_strneq (s # src) (r # ref) (Suc n) = (if s \<noteq> r then False else mmk_strneq src ref n)"
| "mmk_strneq src ref n \<longleftrightarrow> n = 0 \<or> ref = []"

fun mmk_streq :: "'c list \<Rightarrow> 'c list \<Rightarrow> bool" where
  "mmk_streq (s # src) (r # ref) = (if s \<noteq> r then False else mmk_streq src ref)"
| "mmk_streq src ref \<longleftrightarrow> src = [] \<and> ref = []"

fun mmk_strchr :: "'c list \<Rightarrow> 'c \<Rightarrow> 'c list option" where
  "mmk_strchr [] c = None"
| "mmk_strchr (b # buf) c = (if b = c then Some (b # buf) else mmk_strchr buf c)"

fun mmk_strlen :: "'c list \<Rightarrow> nat" where
  "mmk_strlen [] = 0"
| "mmk_strlen (_ # s) = Suc (mmk_strlen s)"

definition mmk_isspace :: "cint \<Rightarrow> bool" where
  "mmk_isspace c \<longleftrightarrow> c = 32 \<or> c = 9 \<or> c = 13 \<or> c = 10"

lemma mmk_streq_eq [simp]: "mmk_streq s t \<longleftrightarrow> s = t"
  by (induction s t rule: mmk_streq.induct) auto

lemma mmk_strlen_length [simp]: "mmk_strlen s = length s"
  by (induction s) auto

lemma mmk_strneq_take: "mmk_strneq s r n \<longleftrightarrow> (\<exists>t. s = take n r @ t)"
  by (induction s r n rule: mmk_strneq.induct) auto

lemma mmk_strneq_append [simp]: "mmk_strneq (r @ t) r (length r)"
  by (simp add: mmk_strneq_take)

lemma mmk_strchr_None_iff: "mmk_strchr s c = None \<longleftrightarrow> c \<notin> set s"
  by (induction s) auto

lemma mmk_strchr_Some_iff:
  "mmk_strchr s c = Some t \<longleftrightarrow> (\<exists>p. s = p @ t \<and> c \<notin> set p \<and> (\<exists>u. t = c # u))"
proof (induction s)
  case Nil
  then show ?case by simp
next
  case (Cons b s)
  then show ?case
    by (cases "b = c") (auto simp: Cons_eq_append_conv)
qed

lemma mmk_strchr_first [simp]: "c \<notin> set p \<Longrightarrow> mmk_strchr (p @ c # u) c = Some (c # u)"
  by (simp add: mmk_strchr_Some_iff)

section \<open>Strings and runs of bytes in memory\<close>

text \<open>
  \<open>char\<close> is signed on the modelled target, so \<open>mmk_memcmp\<close> orders two different bytes by
  their signed values; \<open>mmk_strchr\<close> compares the sign-extended character with its \<open>int\<close>.
\<close>

fun mmk_memcmp :: "mem \<Rightarrow> addr \<Rightarrow> addr \<Rightarrow> nat \<Rightarrow> int" where
  "mmk_memcmp m s1 s2 0 = 0"
| "mmk_memcmp m s1 s2 (Suc n) =
     (if m s1 \<noteq> m s2 then (if sint (m s1) < sint (m s2) then - 1 else 1)
      else mmk_memcmp m (s1 + 1) (s2 + 1) n)"

fun memcpy_loop :: "mem \<Rightarrow> addr \<Rightarrow> addr \<Rightarrow> nat \<Rightarrow> mem" where
  "memcpy_loop m dst src 0 = m"
| "memcpy_loop m dst src (Suc n) = memcpy_loop (m(dst := m src)) (dst + 1) (src + 1) n"

definition mmk_memcpy :: "mem \<Rightarrow> addr \<Rightarrow> addr \<Rightarrow> nat \<Rightarrow> addr \<times> mem" where
  "mmk_memcpy m dst src n = (dst, memcpy_loop m dst src n)"

fun mem_strneq :: "mem \<Rightarrow> addr \<Rightarrow> addr \<Rightarrow> nat \<Rightarrow> bool" where
  "mem_strneq m src ref 0 = True"
| "mem_strneq m src ref (Suc n) =
     (if m src \<noteq> 0 \<and> m ref \<noteq> 0
      then (if m src \<noteq> m ref then False else mem_strneq m (src + 1) (ref + 1) n)
      else m ref = 0)"

partial_function (option) mem_streq :: "mem \<Rightarrow> addr \<Rightarrow> addr \<Rightarrow> bool option" where
  "mem_streq m src ref =
     (if m src \<noteq> 0 \<and> m ref \<noteq> 0
      then (if m src \<noteq> m ref then Some False else mem_streq m (src + 1) (ref + 1))
      else Some (m ref = m src))"

partial_function (option) mem_strchr :: "mem \<Rightarrow> addr \<Rightarrow> cint \<Rightarrow> addr option" where
  "mem_strchr m buf c =
     (if m buf \<noteq> 0
      then (if scast (m buf) = c then Some buf else mem_strchr m (buf + 1) c)
      else Some NULL)"

partial_function (option) mem_strcpy :: "mem \<Rightarrow> addr \<Rightarrow> addr \<Rightarrow> (addr \<times> mem) option" where
  "mem_strcpy m dst src =
     (if m src \<noteq> 0 then mem_strcpy (m(dst := m src)) (dst + 1) (src + 1)
      else Some (dst, m(dst := 0)))"

fun mem_strncpy :: "mem \<Rightarrow> addr \<Rightarrow> addr \<Rightarrow> nat \<Rightarrow> addr \<times> mem" where
  "mem_strncpy m dst src 0 = (dst, m(dst := 0))"
| "mem_strncpy m dst src (Suc n) =
     (if m src \<noteq> 0 then mem_strncpy (m(dst := m src)) (dst + 1) (src + 1) n
      else (dst, m(dst := 0)))"

partial_function (option) mem_strlen :: "mem \<Rightarrow> addr \<Rightarrow> size_t \<Rightarrow> size_t option" where
  "mem_strlen m s len =
     (if m s \<noteq> 0 then mem_strlen m (s + 1) (len + 1) else Some len)"

declare mem_streq.simps [simp del] mem_strchr.simps [simp del]
  mem_strcpy.simps [simp del] mem_strlen.simps [simp del]

subsection \<open>Comparing and copying runs\<close>

lemma mmk_memcmp_zero_iff: "mmk_memcmp m a b n = 0 \<longleftrightarrow> rd m a n = rd m b n"
  by (induction m a b n rule: mmk_memcmp.induct) auto

lemma mmk_memcmp_range: "mmk_memcmp m a b n \<in> {- 1, 0, 1}"
  by (induction m a b n rule: mmk_memcmp.induct) auto

lemma mmk_memcmp_first_difference:
  assumes "rd m a i = rd m b i" and "m (a + of_nat i) \<noteq> m (b + of_nat i)" and "i < n"
  shows "mmk_memcmp m a b n = (if sint (m (a + of_nat i)) < sint (m (b + of_nat i)) then - 1 else 1)"
  using assms
proof (induction m a b n arbitrary: i rule: mmk_memcmp.induct)
  case (1 m s1 s2)
  then show ?case by simp
next
  case (2 m s1 s2 n)
  show ?case
  proof (cases i)
    case 0
    with "2.prems" show ?thesis by simp
  next
    case (Suc j)
    with "2.prems" have "m s1 = m s2" and "rd m (s1 + 1) j = rd m (s2 + 1) j"
      and "m (s1 + 1 + of_nat j) \<noteq> m (s2 + 1 + of_nat j)" and "j < n"
      by (auto simp: add.assoc)
    with "2.IH" [of j] Suc show ?thesis
      by (simp add: add.assoc)
  qed
qed

lemma memcpy_loop_wr:
  "dst = src \<or> n \<le> unat (dst - src) \<Longrightarrow> memcpy_loop m dst src n = wr m dst (rd m src n)"
proof (induction m dst src n rule: memcpy_loop.induct)
  case (1 m dst src)
  then show ?case by simp
next
  case (2 m dst src n)
  have "rd (m(dst := m src)) (src + 1) n = rd m (src + 1) n"
  proof (rule rd_cong)
    fix i
    assume "i < n"
    have "src + 1 + of_nat i \<noteq> dst \<or> dst = src"
    proof (rule ccontr)
      assume "\<not> ?thesis"
      then have d: "dst - src = of_nat (Suc i)" and "dst \<noteq> src"
        by (auto simp: algebra_simps)
      have "unat (dst - src) \<le> Suc i"
        by (simp only: d unat_of_nat mod_less_eq_dividend)
      with "2.prems" \<open>i < n\<close> \<open>dst \<noteq> src\<close> show False
        by simp
    qed
    then show "(m(dst := m src)) (src + 1 + of_nat i) = m (src + 1 + of_nat i)"
      by (cases "dst = src") auto
  qed
  moreover have "dst + 1 = src + 1 \<or> n \<le> unat ((dst + 1) - (src + 1))"
    using "2.prems" by auto
  then have "memcpy_loop (m(dst := m src)) (dst + 1) (src + 1) n =
      wr (m(dst := m src)) (dst + 1) (rd (m(dst := m src)) (src + 1) n)"
    by (rule "2.IH")
  ultimately show ?case
    by simp
qed

lemma snd_mmk_memcpy:
  "dst = src \<or> n \<le> unat (dst - src) \<Longrightarrow> snd (mmk_memcpy m dst src n) = wr m dst (rd m src n)"
  by (simp add: mmk_memcpy_def memcpy_loop_wr)

lemma separate_start: "separate a n b k \<Longrightarrow> 0 < k \<Longrightarrow> n \<le> unat (b - a)"
proof -
  assume "separate a n b k" and "0 < k"
  moreover from \<open>0 < k\<close> have "in_region b k b"
    by (simp add: in_region_def)
  ultimately have "\<not> in_region a n b"
    by (auto simp: separate_def)
  then show ?thesis
    by (simp add: in_region_def)
qed

lemma memcpy_separate:
  assumes "separate src n dst n"
  shows "snd (mmk_memcpy m dst src n) = wr m dst (rd m src n)"
proof (cases "n = 0")
  case True
  then show ?thesis by (simp add: mmk_memcpy_def)
next
  case False
  then show ?thesis
    using separate_start [OF assms] by (simp add: snd_mmk_memcpy)
qed

subsection \<open>The list functions are implemented by the memory functions\<close>

lemma mem_strneq_refines:
  "cstring m a s \<Longrightarrow> cstring m b t \<Longrightarrow> mem_strneq m a b n = mmk_strneq s t n"
proof (induction s t n arbitrary: a b rule: mmk_strneq.induct [case_names 1 NoSrc NoRef Zero])
  case (1 s src r ref n)
  then show ?case by simp
next
  case (NoSrc ref n)
  then show ?case by (cases n; cases ref) auto
next
  case (NoRef src n)
  then show ?case by (cases n) auto
next
  case (Zero src ref)
  then show ?case by simp
qed

lemma mem_streq_refines:
  "cstring m a s \<Longrightarrow> cstring m b t \<Longrightarrow> mem_streq m a b = Some (mmk_streq s t)"
proof (induction s t arbitrary: a b rule: mmk_streq.induct [case_names 1 NoSrc NoRef])
  case (1 s src r ref)
  then show ?case by (subst mem_streq.simps) simp
next
  case (NoSrc ref)
  then show ?case by (subst mem_streq.simps; cases ref) auto
next
  case (NoRef src)
  then show ?case by (subst mem_streq.simps; cases src) auto
qed

lemma mem_strlen_refines:
  "cstring m a s \<Longrightarrow> mem_strlen m a l = Some (l + of_nat (mmk_strlen s))"
proof (induction s arbitrary: a l)
  case Nil
  then show ?case by (subst mem_strlen.simps) simp
next
  case (Cons c s)
  then show ?case by (subst mem_strlen.simps) (simp add: add.assoc)
qed

lemma scast_scast_byte: "scast (scast (b :: byte) :: cint) = b"
  by (rule bit_word_eqI) (simp add: bit_simps)

lemma scast_byte_eq_iff: "(scast (b :: byte) :: cint) = scast c \<longleftrightarrow> b = c"
  by (metis scast_scast_byte)

lemma mem_strchr_refines:
  "cstring m a s \<Longrightarrow> mem_strchr m a (scast c) =
    Some (case mmk_strchr s c of None \<Rightarrow> NULL | Some t \<Rightarrow> a + of_nat (length s - length t))"
proof (induction s arbitrary: a)
  case Nil
  then show ?case by (subst mem_strchr.simps) simp
next
  case (Cons b s)
  show ?case
  proof (cases "b = c")
    case True
    with Cons.prems show ?thesis by (subst mem_strchr.simps) simp
  next
    case False
    have "of_nat (Suc (length s) - length t) = (1 + of_nat (length s - length t) :: addr)"
      if "mmk_strchr s c = Some t" for t
      using that by (auto simp: mmk_strchr_Some_iff Suc_diff_le)
    with False Cons show ?thesis
      by (subst mem_strchr.simps) (auto simp: scast_byte_eq_iff add.assoc split: option.splits)
  qed
qed

lemma in_region_tail: "in_region (a + 1) n x \<Longrightarrow> in_region a (Suc n) x"
proof -
  assume "in_region (a + 1) n x"
  then have n: "unat (x - (a + 1)) < n"
    by (simp add: in_region_def)
  have "unat (x - a) \<le> Suc (unat (x - (a + 1)))"
    using unat_minus_1 [of "x - a"] by (cases "x = a") (auto simp: algebra_simps)
  with n show ?thesis
    by (simp add: in_region_def)
qed

lemma cstring_in_region:
  assumes "cstring m a s" and "i \<le> length s"
  shows "in_region a (Suc (length s)) (a + of_nat i)"
proof -
  have "unat (of_nat i :: addr) \<le> i"
    by (simp only: unat_of_nat mod_less_eq_dividend)
  with assms(2) show ?thesis
    by (simp add: in_region_def)
qed

lemma cstring_upd: "cstring m a s \<Longrightarrow> \<not> in_region a (Suc (length s)) x \<Longrightarrow> cstring (m(x := v)) a s"
  by (rule cstring_cong, assumption) (auto simp: cstring_in_region)

lemma mem_strcpy_refines:
  "cstring m src s \<Longrightarrow> separate src (Suc (length s)) dst (Suc (length s)) \<Longrightarrow>
    mem_strcpy m dst src = Some (dst + of_nat (length s), wr m dst (s @ [0]))"
proof (induction s arbitrary: m src dst)
  case Nil
  then show ?case by (subst mem_strcpy.simps) simp
next
  case (Cons c s)
  let ?n = "Suc (length s)"
  have apart: "separate (src + 1) ?n (dst + 1) ?n"
    by (rule separate_sub [OF Cons.prems(2)])
      (use in_region_tail in auto)
  have "\<not> in_region (src + 1) ?n dst"
    using Cons.prems(2) in_region_tail [of src "Suc (length s)" dst]
    by (auto simp: separate_def in_region_def dest: spec [of _ dst])
  with Cons.prems have "cstring (m(dst := c)) (src + 1) s"
    by (auto intro: cstring_upd)
  then have "mem_strcpy (m(dst := c)) (dst + 1) (src + 1) =
      Some (dst + 1 + of_nat (length s), wr (m(dst := c)) (dst + 1) (s @ [0]))"
    using apart by (rule Cons.IH)
  with Cons.prems show ?case
    by (subst mem_strcpy.simps) (simp add: add.assoc)
qed

lemma mem_strncpy_refines:
  "cstring m src s \<Longrightarrow> separate src (Suc (length s)) dst (Suc n) \<Longrightarrow>
    mem_strncpy m dst src n = (dst + of_nat (min n (length s)), wr m dst (take n s @ [0]))"
proof (induction n arbitrary: m src dst s)
  case 0
  then show ?case by (simp add: fun_upd_def)
next
  case (Suc n)
  show ?case
  proof (cases s)
    case Nil
    with Suc.prems show ?thesis by (simp add: fun_upd_def)
  next
    case (Cons c t)
    have apart: "separate (src + 1) (Suc (length t)) (dst + 1) (Suc n)"
      by (rule separate_sub [OF Suc.prems(2)]) (use Cons in_region_tail in auto)
    have "\<not> in_region (src + 1) (Suc (length t)) dst"
      using Suc.prems(2) in_region_tail [of src "Suc (length t)" dst] Cons
      by (auto simp: separate_def in_region_def dest: spec [of _ dst])
    with Suc.prems Cons have "cstring (m(dst := c)) (src + 1) t"
      by (auto intro: cstring_upd)
    then have "mem_strncpy (m(dst := c)) (dst + 1) (src + 1) n =
        (dst + 1 + of_nat (min n (length t)), wr (m(dst := c)) (dst + 1) (take n t @ [0]))"
      using apart by (rule Suc.IH)
    with Suc.prems Cons show ?thesis
      by (simp add: add.assoc)
  qed
qed

lemma cstring_wr: "0 \<notin> set s \<Longrightarrow> length s < 2 ^ 64 \<Longrightarrow> cstring (wr m a (s @ [0])) a s"
  unfolding cstring_iff
proof (intro conjI)
  assume z: "0 \<notin> set s" and l: "length s < 2 ^ 64"
  then have "rd (wr m a (s @ [0])) a (length (s @ [0])) = s @ [0]"
    by (intro rd_wr_same) simp
  then show "rd (wr m a (s @ [0])) a (length s) = s"
    and "wr m a (s @ [0]) (a + of_nat (length s)) = 0"
    using rd_append [of "wr m a (s @ [0])" a "length s" 1] by auto
  show "0 \<notin> set s"
    by (rule z)
qed

section \<open>The heap and the vital functions\<close>

text \<open>
  The library calls the C library only through pointers it looks up at start-up, so that
  mocking \<open>malloc\<close> does not break it. \<open>vitals\<close> are these pointers; calling one before it is set
  is a call through \<open>NULL\<close>. What the functions do is a parameter: \<open>libc_malloc\<close>,
  \<open>libc_realloc\<close> and \<open>libc_mmap\<close> choose an address given the blocks now allocated, and
  \<open>libc_mprotect\<close> says whether the protection could be changed. The heap records the live blocks,
  so freeing a block twice, or one that was never allocated, is \<open>UB\<close>. \<open>realloc_block\<close>
  is the effect of \<open>mmk_realloc\<close> on the blocks; arrays whose elements the model keeps in a list use
  it alone, since the list carries the contents that \<open>mmk_realloc\<close> copies.
\<close>

type_synonym blocks = "(addr \<times> size_t) list"

record vitals =
  fp_vfprintf :: addr
  fp_abort :: addr
  fp_malloc :: addr
  fp_realloc :: addr
  fp_free :: addr
  fp_mprotect :: addr

record heap =
  mem :: mem
  live :: blocks
  prot :: "addr \<Rightarrow> cint"
  vit :: vitals

record libc =
  libc_malloc :: "blocks \<Rightarrow> size_t \<Rightarrow> addr"
  libc_realloc :: "blocks \<Rightarrow> addr \<Rightarrow> size_t \<Rightarrow> addr"
  libc_mmap :: "blocks \<Rightarrow> size_t \<Rightarrow> addr"
  libc_mprotect :: "addr \<Rightarrow> size_t \<Rightarrow> cint \<Rightarrow> cint"

definition unblock :: "addr \<Rightarrow> blocks \<Rightarrow> blocks" where
  "unblock p bs = filter (\<lambda>b. fst b \<noteq> p) bs"

definition mmk_mprotect ::
  "libc \<Rightarrow> 'a heap_scheme \<Rightarrow> addr \<Rightarrow> size_t \<Rightarrow> cint \<Rightarrow> fault + cint \<times> 'a heap_scheme" where
  "mmk_mprotect L s a len p =
     (if fp_mprotect (vit s) = NULL then Inl UB
      else let r = libc_mprotect L a len p
        in Inr (r, if r = 0
             then s\<lparr>prot := (\<lambda>x. if in_region a (unat len) x then p else prot s x)\<rparr> else s))"

definition mmk_malloc :: "libc \<Rightarrow> 'a heap_scheme \<Rightarrow> size_t \<Rightarrow> fault + addr \<times> 'a heap_scheme" where
  "mmk_malloc L s n =
     (if fp_malloc (vit s) = NULL then Inl UB
      else let p = libc_malloc L (live s) n
        in Inr (p, if p = NULL then s else s\<lparr>live := (p, n) # live s\<rparr>))"

definition realloc_block ::
  "libc \<Rightarrow> 'a heap_scheme \<Rightarrow> addr \<Rightarrow> size_t \<Rightarrow> fault + addr \<times> 'a heap_scheme" where
  "realloc_block L s ptr n =
     (if fp_realloc (vit s) = NULL then Inl UB
      else if ptr \<noteq> NULL \<and> ptr \<notin> fst ` set (live s) then Inl UB
      else let q = libc_realloc L (live s) ptr n
        in Inr (q, if q = NULL then s else s\<lparr>live := (q, n) # unblock ptr (live s)\<rparr>))"

definition mmk_realloc ::
  "libc \<Rightarrow> 'a heap_scheme \<Rightarrow> addr \<Rightarrow> size_t \<Rightarrow> fault + addr \<times> 'a heap_scheme" where
  "mmk_realloc L s ptr n =
     andthen (realloc_block L s ptr n) (\<lambda>(q, s').
       let old = (case map_of (live s) ptr of None \<Rightarrow> 0 | Some k \<Rightarrow> k)
       in Inr (q, if q = NULL then s'
            else s'\<lparr>mem := wr (mem s') q (rd (mem s) ptr (min (unat old) (unat n)))\<rparr>))"

definition mmk_free :: "'a heap_scheme \<Rightarrow> addr \<Rightarrow> fault + 'a heap_scheme" where
  "mmk_free s ptr =
     (if fp_free (vit s) = NULL then Inl UB
      else if ptr = NULL then Inr s
      else if ptr \<in> fst ` set (live s) then Inr (s\<lparr>live := unblock ptr (live s)\<rparr>)
      else Inl UB)"

text \<open>
  What the library relies on: the address past a new block does not wrap around the address space and the block is
  separate from every block still allocated.
\<close>

definition fresh_block :: "blocks \<Rightarrow> addr \<Rightarrow> size_t \<Rightarrow> bool" where
  "fresh_block bs p n \<longleftrightarrow> p \<noteq> NULL \<and> unat p + unat n < 2 ^ 64 \<and>
     (\<forall>(q, k) \<in> set bs. p \<noteq> q \<and> separate p (unat n) q (unat k))"

definition libc_ok :: "libc \<Rightarrow> bool" where
  "libc_ok L \<longleftrightarrow>
     (\<forall>bs n. libc_malloc L bs n \<noteq> NULL \<longrightarrow> fresh_block bs (libc_malloc L bs n) n) \<and>
     (\<forall>bs p n. libc_realloc L bs p n \<noteq> NULL \<longrightarrow>
        fresh_block (unblock p bs) (libc_realloc L bs p n) n) \<and>
     (\<forall>bs n. libc_mmap L bs n \<noteq> - 1 \<longrightarrow> fresh_block bs (libc_mmap L bs n) n)"

subsection \<open>Finding the vital functions\<close>

text \<open>
  \<open>INIT_VITAL_FUNC\<close> looks one function up and panics when it is missing; \<open>vfprintf\<close> and \<open>abort\<close>,
  on which \<open>mmk_panic\<close> depends, come first and are reported without it. \<open>real_fn\<close> is
  \<open>plt_get_real_fn\<close> of the back end with its context applied.
\<close>

definition init_vital_func ::
  "(string \<Rightarrow> fault + addr) \<Rightarrow> string \<Rightarrow> (addr \<Rightarrow> vitals \<Rightarrow> vitals) \<Rightarrow> vitals \<Rightarrow> fault + vitals" where
  "init_vital_func real_fn ident upd v =
     andthen (real_fn ident) (\<lambda>p.
       if p = NULL then Inl (Panic (Vital_not_found ident)) else Inr (upd p v))"

definition mmk_init_vital_functions ::
  "(string \<Rightarrow> fault + addr) \<Rightarrow> vitals \<Rightarrow> fault + vitals" where
  "mmk_init_vital_functions real_fn v =
     andthen (real_fn ''vfprintf'') (\<lambda>vf.
     andthen (real_fn ''abort'') (\<lambda>ab.
       if ab = NULL \<or> vf = NULL then Inl (Init_error (ab = NULL) (vf = NULL))
       else
         andthen (init_vital_func real_fn ''malloc'' (\<lambda>p. fp_malloc_update (\<lambda>_. p))
                    (v\<lparr>fp_vfprintf := vf, fp_abort := ab\<rparr>)) (\<lambda>v.
         andthen (init_vital_func real_fn ''realloc'' (\<lambda>p. fp_realloc_update (\<lambda>_. p)) v) (\<lambda>v.
         andthen (init_vital_func real_fn ''free'' (\<lambda>p. fp_free_update (\<lambda>_. p)) v) (\<lambda>v.
           init_vital_func real_fn ''mprotect'' (\<lambda>p. fp_mprotect_update (\<lambda>_. p)) v)))))"

definition vitals_ready :: "vitals \<Rightarrow> bool" where
  "vitals_ready v \<longleftrightarrow> fp_vfprintf v \<noteq> NULL \<and> fp_abort v \<noteq> NULL \<and> fp_malloc v \<noteq> NULL \<and>
     fp_realloc v \<noteq> NULL \<and> fp_free v \<noteq> NULL \<and> fp_mprotect v \<noteq> NULL"

subsection \<open>Blocks stay apart\<close>

fun blocks_wf :: "blocks \<Rightarrow> bool" where
  "blocks_wf [] = True"
| "blocks_wf (b # bs) \<longleftrightarrow> fresh_block bs (fst b) (snd b) \<and> blocks_wf bs"

lemma fresh_block_unblock: "fresh_block bs p n \<Longrightarrow> fresh_block (unblock q bs) p n"
  by (auto simp: fresh_block_def unblock_def)

lemma blocks_wf_unblock: "blocks_wf bs \<Longrightarrow> blocks_wf (unblock q bs)"
  by (induction bs) (auto simp: unblock_def fresh_block_def)

lemma unblock_fresh: "p \<notin> fst ` set bs \<Longrightarrow> unblock p bs = bs"
  by (auto simp: unblock_def filter_id_conv)

lemma fresh_block_notin: "fresh_block bs p n \<Longrightarrow> p \<notin> fst ` set bs"
  by (auto simp: fresh_block_def)

lemma unblock_head: "fresh_block bs p n \<Longrightarrow> unblock p ((p, n) # bs) = bs"
  using unblock_fresh [OF fresh_block_notin] by (simp add: unblock_def)

lemma fresh_block_separate:
  "fresh_block bs p n \<Longrightarrow> (q, k) \<in> set bs \<Longrightarrow> separate p (unat n) q (unat k)"
  by (auto simp: fresh_block_def)

lemma blocks_wf_no_wrap: "blocks_wf bs \<Longrightarrow> (p, n) \<in> set bs \<Longrightarrow> unat p + unat n < 2 ^ 64"
  by (induction bs) (auto simp: fresh_block_def)

lemma blocks_wf_map_of: "blocks_wf bs \<Longrightarrow> (p, n) \<in> set bs \<Longrightarrow> map_of bs p = Some n"
proof (induction bs)
  case Nil
  then show ?case by simp
next
  case (Cons b bs)
  then show ?case
    by (cases b) (auto simp: fresh_block_def)
qed

lemma mmk_malloc_Inr_iff:
  "mmk_malloc L s n = Inr (p, s') \<longleftrightarrow> fp_malloc (vit s) \<noteq> NULL \<and> p = libc_malloc L (live s) n \<and>
    s' = (if p = NULL then s else s\<lparr>live := (p, n) # live s\<rparr>)"
  by (auto simp: mmk_malloc_def Let_def)

lemma mmk_malloc_fresh:
  "libc_ok L \<Longrightarrow> mmk_malloc L s n = Inr (p, s') \<Longrightarrow> p \<noteq> NULL \<Longrightarrow> fresh_block (live s) p n"
  by (auto simp: mmk_malloc_Inr_iff libc_ok_def)

lemma mmk_malloc_wf:
  "libc_ok L \<Longrightarrow> blocks_wf (live s) \<Longrightarrow> mmk_malloc L s n = Inr (p, s') \<Longrightarrow> blocks_wf (live s')"
  by (auto simp: mmk_malloc_Inr_iff libc_ok_def)

lemma mmk_mprotect_prot:
  assumes "fp_mprotect (vit s) \<noteq> NULL"
  obtains r pr where "mmk_mprotect L s a len p = Inr (r, s\<lparr>prot := pr\<rparr>)"
proof (cases "libc_mprotect L a len p = 0")
  case True
  with assms that show ?thesis
    by (simp add: mmk_mprotect_def Let_def)
next
  case False
  with assms have "mmk_mprotect L s a len p = Inr (libc_mprotect L a len p, s\<lparr>prot := prot s\<rparr>)"
    by (simp add: mmk_mprotect_def Let_def)
  then show ?thesis
    by (rule that)
qed

lemma mmk_free_malloc:
  assumes "libc_ok L" and "fp_free (vit s) \<noteq> NULL" and "mmk_malloc L s n = Inr (p, s')" and "p \<noteq> NULL"
  shows "mmk_free s' p = Inr s"
  using assms mmk_malloc_fresh [OF assms(1,3,4)]
  by (auto simp: mmk_malloc_Inr_iff mmk_free_def unblock_head)

lemma mmk_free_twice:
  assumes "mmk_free s p = Inr s'" and "p \<noteq> NULL"
  shows "mmk_free s' p = Inl UB"
  using assms by (auto simp: mmk_free_def unblock_def split: if_splits)

lemma mmk_free_wf: "blocks_wf (live s) \<Longrightarrow> mmk_free s p = Inr s' \<Longrightarrow> blocks_wf (live s')"
  by (auto simp: mmk_free_def blocks_wf_unblock split: if_splits)

lemma init_vital_func_Inr_iff [ends]:
  "init_vital_func real_fn ident upd v = Inr v' \<longleftrightarrow>
    (\<exists>p. real_fn ident = Inr p \<and> p \<noteq> NULL \<and> v' = upd p v)"
  by (auto simp: init_vital_func_def ends)

lemma mmk_init_vital_functions_Inr_iff:
  "mmk_init_vital_functions real_fn v = Inr v' \<longleftrightarrow>
    (\<exists>vf ab ma re fr mp.
      real_fn ''vfprintf'' = Inr vf \<and> real_fn ''abort'' = Inr ab \<and> real_fn ''malloc'' = Inr ma \<and>
      real_fn ''realloc'' = Inr re \<and> real_fn ''free'' = Inr fr \<and> real_fn ''mprotect'' = Inr mp \<and>
      NULL \<notin> {vf, ab, ma, re, fr, mp} \<and>
      v' = \<lparr>fp_vfprintf = vf, fp_abort = ab, fp_malloc = ma, fp_realloc = re,
            fp_free = fr, fp_mprotect = mp\<rparr>)"
  by (cases v) (auto simp: mmk_init_vital_functions_def ends split: if_splits)

lemma mmk_init_vital_functions_ready:
  "mmk_init_vital_functions real_fn v = Inr v' \<Longrightarrow> vitals_ready v'"
  by (auto simp: mmk_init_vital_functions_Inr_iff vitals_ready_def)

end
