(* ===== verification/Plt.thy ===== *)
theory Plt
  imports Vitals
begin

text \<open>
  \<open>src/plt.h\<close> and \<open>src/plt.c\<close>: the interface of the back ends that find and patch the slots of
  the global offset table, and the parsing of a scope. A slot is an address at which
  memory holds the 64-bit address of the function that is called. \<open>patch\<close> and \<open>unpatch\<close> are the
  reference for what a back end does to memory when it redirects a list of slots and when it
  puts the old values back; the locale \<open>got_patcher\<close> states that contract, and
  each back end interprets it.
\<close>

section \<open>Scopes\<close>

datatype plt_selector = PLT_SEL_NONE | PLT_SEL_LIB | PLT_SEL_FILE | PLT_SEL_SYM

definition plt_get_selector :: "string \<Rightarrow> fault + plt_selector \<times> string" where
  "plt_get_selector target =
     andthen
       (if mmk_strneq target ''lib:'' 4 then Inr (PLT_SEL_LIB, target)
        else if mmk_strneq target ''file:'' 5 then Inr (PLT_SEL_FILE, target)
        else if mmk_strneq target ''sym:'' 4 then Inr (PLT_SEL_SYM, target)
        else if mmk_streq target ''self'' then Inr (PLT_SEL_NONE, '''')
        else
          (case mmk_strchr target (CHR '':'') of
             Some end_sel \<Rightarrow>
               Inl (Panic (Unknown_selector (take (length target - length end_sel) target)))
           | None \<Rightarrow> Inl (Panic (Unknown_target target))))
       (\<lambda>(sel, target).
         if sel = PLT_SEL_NONE then Inr (sel, target)
         else andthen (deref (mmk_strchr target (CHR '':''))) (\<lambda>colon. Inr (sel, tl colon)))"

text \<open>The text of a scope: what the parser accepts.\<close>

fun scope_text :: "plt_selector \<Rightarrow> string \<Rightarrow> string" where
  "scope_text PLT_SEL_LIB v = ''lib:'' @ v"
| "scope_text PLT_SEL_FILE v = ''file:'' @ v"
| "scope_text PLT_SEL_SYM v = ''sym:'' @ v"
| "scope_text PLT_SEL_NONE v = ''self''"

lemma mmk_strneq_lib: "mmk_strneq t ''lib:'' 4 \<longleftrightarrow> (\<exists>v. t = ''lib:'' @ v)"
  by (simp add: mmk_strneq_take)

lemma mmk_strneq_file: "mmk_strneq t ''file:'' 5 \<longleftrightarrow> (\<exists>v. t = ''file:'' @ v)"
  by (simp add: mmk_strneq_take)

lemma mmk_strneq_sym: "mmk_strneq t ''sym:'' 4 \<longleftrightarrow> (\<exists>v. t = ''sym:'' @ v)"
  by (simp add: mmk_strneq_take)

lemmas selector_prefixes = mmk_strneq_lib mmk_strneq_file mmk_strneq_sym

lemma plt_get_selector_scope_text:
  "sel = PLT_SEL_NONE \<longrightarrow> v = '''' \<Longrightarrow> plt_get_selector (scope_text sel v) = Inr (sel, v)"
  by (cases sel) (simp_all add: plt_get_selector_def selector_prefixes)

lemma plt_get_selector_Inr:
  "plt_get_selector t = Inr (sel, v) \<Longrightarrow> t = scope_text sel v \<and> (sel = PLT_SEL_NONE \<longrightarrow> v = '''')"
  by (auto simp: plt_get_selector_def selector_prefixes split: if_splits option.splits)

lemma plt_get_selector_Inr_iff:
  "plt_get_selector t = Inr (sel, v) \<longleftrightarrow> t = scope_text sel v \<and> (sel = PLT_SEL_NONE \<longrightarrow> v = '''')"
  using plt_get_selector_Inr plt_get_selector_scope_text by metis

lemma plt_get_selector_self: "plt_get_selector ''self'' = Inr (PLT_SEL_NONE, '''')"
  by (simp add: plt_get_selector_Inr_iff)

lemma plt_get_selector_Inl:
  "plt_get_selector t = Inl e \<Longrightarrow>
    (\<exists>k u. t = k @ CHR '':'' # u \<and> CHR '':'' \<notin> set k \<and> e = Panic (Unknown_selector k)) \<or>
    CHR '':'' \<notin> set t \<and> e = Panic (Unknown_target t)"
  by (auto simp: plt_get_selector_def selector_prefixes mmk_strchr_None_iff mmk_strchr_Some_iff
      split: if_splits option.splits)

section \<open>Slots\<close>

record plt_offset =
  offset :: addr
  oldval :: addr

fun patch :: "mem \<Rightarrow> plt_offset list \<Rightarrow> addr \<Rightarrow> plt_offset list \<times> mem" where
  "patch m [] v = ([], m)"
| "patch m (off # offs) v =
     (let off' = (if oldval off = NULL then off\<lparr>oldval := ld64 m (offset off)\<rparr> else off);
          (offs', m') = patch (st64 m (offset off) v) offs v
      in (off' # offs', m'))"

fun unpatch :: "mem \<Rightarrow> plt_offset list \<Rightarrow> mem" where
  "unpatch m [] = m"
| "unpatch m (off # offs) = unpatch (st64 m (offset off) (oldval off)) offs"

definition slots :: "plt_offset list \<Rightarrow> addr list" where
  "slots offs = map offset offs"

fun slots_apart :: "addr list \<Rightarrow> bool" where
  "slots_apart [] = True"
| "slots_apart (a # as) \<longleftrightarrow> (\<forall>b \<in> set as. separate a 8 b 8) \<and> slots_apart as"

lemma slots_simps [simp]:
  "slots [] = []"
  "slots (off # offs) = offset off # slots offs"
  by (simp_all add: slots_def)

lemma slots_patch [simp]: "slots (fst (patch m offs v)) = slots offs"
  by (induction m offs v rule: patch.induct) (auto simp: Let_def split: prod.splits)

lemma patch_st64:
  "\<forall>b \<in> set (slots offs). separate a 8 b 8 \<Longrightarrow>
    patch (st64 m a w) offs v = (fst (patch m offs v), st64 (snd (patch m offs v)) a w)"
proof (induction offs arbitrary: m)
  case Nil
  then show ?case by simp
next
  case (Cons off offs)
  then have "separate a 8 (offset off) 8"
    by simp
  then have swap: "st64 (st64 m a w) (offset off) v = st64 (st64 m (offset off) v) a w"
    and same: "ld64 (st64 m a w) (offset off) = ld64 m (offset off)"
    by (rule st64_swap, rule ld64_st64_separate)
  show ?case
    using Cons by (simp add: swap same Let_def split_beta)
qed

lemma unpatch_patch:
  "slots_apart (slots offs) \<Longrightarrow> \<forall>off \<in> set offs. oldval off = NULL \<Longrightarrow>
    unpatch (snd (patch m offs v)) (fst (patch m offs v)) = m"
proof (induction offs arbitrary: m)
  case Nil
  then show ?case by simp
next
  case (Cons off offs)
  then have apart: "\<forall>b \<in> set (slots offs). separate (offset off) 8 b 8"
    by simp
  then have "snd (patch (st64 m (offset off) (ld64 m (offset off))) offs v) =
      st64 (snd (patch m offs v)) (offset off) (ld64 m (offset off))"
    by (simp only: patch_st64 snd_conv)
  with Cons show ?case
    by (simp add: Let_def split_beta patch_st64 [OF apart])
qed

lemma patch_outside:
  "\<forall>a \<in> set (slots offs). \<not> in_region a 8 x \<Longrightarrow> snd (patch m offs v) x = m x"
  by (induction m offs v rule: patch.induct) (auto simp: Let_def st64_outside split: prod.splits)

lemma patch_rd:
  assumes "\<forall>a \<in> set (slots offs). separate a 8 b n" and "n \<le> 2 ^ 64"
  shows "rd (snd (patch m offs v)) b n = rd m b n"
proof (rule rd_cong)
  fix i
  assume "i < n"
  then have "in_region b n (b + of_nat i)"
    using assms(2) by (rule in_region_nth)
  with assms(1) show "snd (patch m offs v) (b + of_nat i) = m (b + of_nat i)"
    by (intro patch_outside) (auto simp: separate_def)
qed

lemma patch_slot:
  "slots_apart (slots offs) \<Longrightarrow> a \<in> set (slots offs) \<Longrightarrow> ld64 (snd (patch m offs v)) a = v"
proof (induction offs arbitrary: m)
  case Nil
  then show ?case by simp
next
  case (Cons off offs)
  show ?case
  proof (cases "a \<in> set (slots offs)")
    case True
    with Cons show ?thesis by (simp add: Let_def split_beta)
  next
    case False
    with Cons.prems have "a = offset off" and "\<forall>b \<in> set (slots offs). separate a 8 b 8"
      by auto
    then show ?thesis
      by (simp add: Let_def split_beta patch_st64)
  qed
qed

lemma patch_oldval:
  "slots_apart (slots offs) \<Longrightarrow> \<forall>off \<in> set offs. oldval off = NULL \<Longrightarrow>
    map oldval (fst (patch m offs v)) = map (ld64 m) (slots offs)"
proof (induction offs arbitrary: m)
  case Nil
  then show ?case by simp
next
  case (Cons off offs)
  then show ?case
    by (auto simp: Let_def split_beta patch_st64)
qed

lemma unpatch_outside:
  "\<forall>a \<in> set (slots offs). \<not> in_region a 8 x \<Longrightarrow> unpatch m offs x = m x"
  by (induction m offs rule: unpatch.induct) (auto simp: st64_outside)

section \<open>What a back end promises\<close>

text \<open>
  A back end redirects a list of slots (\<open>plt_set_offsets\<close>) and puts the saved values back
  (\<open>plt_reset_offsets\<close>). Whatever it does to page protections, its effect on memory is that of
  \<open>patch\<close> and \<open>unpatch\<close>. From this alone: a redirected slot calls the new function, nothing else
  in memory changes, and resetting restores memory, also when redirections of the same
  slots are nested and undone in the reverse order.
\<close>

locale got_patcher =
  fixes set_offsets :: "'w \<Rightarrow> plt_offset list \<Rightarrow> addr \<Rightarrow> fault + plt_offset list \<times> 'w"
    and reset_offsets :: "'w \<Rightarrow> plt_offset list \<Rightarrow> fault + 'w"
    and memory :: "'w \<Rightarrow> mem"
    and ready :: "'w \<Rightarrow> bool"
  assumes set_patches: "ready w \<Longrightarrow>
      \<exists>w'. set_offsets w offs v = Inr (fst (patch (memory w) offs v), w') \<and>
        memory w' = snd (patch (memory w) offs v) \<and> ready w'"
    and reset_unpatches: "ready w \<Longrightarrow>
      \<exists>w'. reset_offsets w offs = Inr w' \<and> memory w' = unpatch (memory w) offs \<and> ready w'"
begin

lemma set_offsets_elim:
  assumes "ready w"
  obtains w' where "set_offsets w offs v = Inr (fst (patch (memory w) offs v), w')"
    and "memory w' = snd (patch (memory w) offs v)" and "ready w'"
  using set_patches [OF assms] by blast

lemma redirects:
  assumes "ready w" and "slots_apart (slots offs)"
    and "set_offsets w offs v = Inr (offs', w')" and "a \<in> set (slots offs)"
  shows "ld64 (memory w') a = v"
proof -
  have "memory w' = snd (patch (memory w) offs v)"
    by (rule set_offsets_elim [OF assms(1), of offs v]) (use assms(3) in auto)
  with assms(2,4) show ?thesis
    by (simp add: patch_slot)
qed

lemma keeps_rest:
  assumes "ready w" and "set_offsets w offs v = Inr (offs', w')"
    and "\<forall>a \<in> set (slots offs). \<not> in_region a 8 x"
  shows "memory w' x = memory w x"
proof -
  have "memory w' = snd (patch (memory w) offs v)"
    by (rule set_offsets_elim [OF assms(1), of offs v]) (use assms(2) in auto)
  with assms(3) show ?thesis
    by (simp add: patch_outside)
qed

lemma reset_set:
  assumes "ready w" and "slots_apart (slots offs)" and "\<forall>off \<in> set offs. oldval off = NULL"
  shows "\<exists>offs' w' w''. set_offsets w offs v = Inr (offs', w') \<and>
    reset_offsets w' offs' = Inr w'' \<and> memory w'' = memory w \<and> ready w''"
proof -
  obtain w' where w': "set_offsets w offs v = Inr (fst (patch (memory w) offs v), w')"
      "memory w' = snd (patch (memory w) offs v)" "ready w'"
    using assms(1) by (rule set_offsets_elim)
  obtain w'' where "reset_offsets w' (fst (patch (memory w) offs v)) = Inr w''"
      "memory w'' = unpatch (memory w') (fst (patch (memory w) offs v))" "ready w''"
    using reset_unpatches [OF w'(3)] by blast
  with w' unpatch_patch [OF assms(2,3)] show ?thesis
    by auto
qed

lemma nested_reset:
  assumes "ready w"
    and "slots_apart (slots offs)" and "\<forall>off \<in> set offs. oldval off = NULL"
    and "slots_apart (slots offs2)" and "\<forall>off \<in> set offs2. oldval off = NULL"
  shows "\<exists>o1 w1 o2 w2 w3 w4. set_offsets w offs v = Inr (o1, w1) \<and>
    set_offsets w1 offs2 v2 = Inr (o2, w2) \<and> reset_offsets w2 o2 = Inr w3 \<and>
    reset_offsets w3 o1 = Inr w4 \<and> memory w4 = memory w \<and> ready w4"
proof -
  obtain w1 where w1: "set_offsets w offs v = Inr (fst (patch (memory w) offs v), w1)"
      "memory w1 = snd (patch (memory w) offs v)" "ready w1"
    using assms(1) by (rule set_offsets_elim)
  obtain o2 w2 w3 where w3: "set_offsets w1 offs2 v2 = Inr (o2, w2)"
      "reset_offsets w2 o2 = Inr w3" "memory w3 = memory w1" "ready w3"
    using reset_set [OF w1(3) assms(4,5)] by blast
  obtain w4 where "reset_offsets w3 (fst (patch (memory w) offs v)) = Inr w4"
      "memory w4 = unpatch (memory w3) (fst (patch (memory w) offs v))" "ready w4"
    using reset_unpatches [OF w3(4)] by blast
  with w1 w3 unpatch_patch [OF assms(2,3)] show ?thesis
    by auto
qed

end

text \<open>
  Undone in the order of creation instead, a redirection of the same slot restores the
  function of the one created before it, not the original.
\<close>

lemma unpatch_first_created_first:
  assumes "patch m [\<lparr>offset = a, oldval = NULL\<rparr>] v1 = (o1, m1)"
    and "patch m1 [\<lparr>offset = a, oldval = NULL\<rparr>] v2 = (o2, m2)"
  shows "ld64 (unpatch (unpatch m2 o1) o2) a = v1"
  using assms by (auto simp: Let_def)

end
