(* ===== verification/Plt_Elf.thy ===== *)
theory Plt_Elf
  imports Plt "HOL-Library.Monad_Syntax"
begin

text \<open>
  \<open>src/plt-elf.c\<close> for a 64-bit little-endian target: the tables of a loaded object are read
  from memory through its dynamic section, the slots of a function are found through the
  relocations that name it, and a definition is found through the hash tables of the loaded
  objects. The list of loaded objects, which the C library keeps as \<open>struct link_map\<close>, is a list of records;
  a library handle is a position in it, and the program itself is position 0. A loop over a
  table without a terminator may not end and is an option.
\<close>

unbundle bit_operations_syntax

section \<open>The dynamic section\<close>

record link_map =
  l_addr :: addr
  l_name :: string
  l_ld :: addr

type_synonym plt_ctx = "link_map list"

abbreviation (input) DT_NULL :: "64 word" where "DT_NULL \<equiv> 0"
abbreviation (input) DT_PLTRELSZ :: "64 word" where "DT_PLTRELSZ \<equiv> 2"
abbreviation (input) DT_HASH :: "64 word" where "DT_HASH \<equiv> 4"
abbreviation (input) DT_STRTAB :: "64 word" where "DT_STRTAB \<equiv> 5"
abbreviation (input) DT_SYMTAB :: "64 word" where "DT_SYMTAB \<equiv> 6"
abbreviation (input) DT_RELA :: "64 word" where "DT_RELA \<equiv> 7"
abbreviation (input) DT_RELASZ :: "64 word" where "DT_RELASZ \<equiv> 8"
abbreviation (input) DT_RELAENT :: "64 word" where "DT_RELAENT \<equiv> 9"
abbreviation (input) DT_SONAME :: "64 word" where "DT_SONAME \<equiv> 14"
abbreviation (input) DT_REL :: "64 word" where "DT_REL \<equiv> 17"
abbreviation (input) DT_RELSZ :: "64 word" where "DT_RELSZ \<equiv> 18"
abbreviation (input) DT_RELENT :: "64 word" where "DT_RELENT \<equiv> 19"
abbreviation (input) DT_JMPREL :: "64 word" where "DT_JMPREL \<equiv> 23"
abbreviation (input) DT_GNU_HASH :: "64 word" where "DT_GNU_HASH \<equiv> 0x6ffffef5"

text \<open>An entry of the dynamic section is a tag and a value, eight bytes each.\<close>

definition dyn_ptr :: "addr \<Rightarrow> 64 word \<Rightarrow> addr" where
  "dyn_ptr base p = (if base \<le> p \<and> drop_bit (64 - 8) p XOR 0xff \<noteq> 0 then p else base + p)"

partial_function (option) dt_lookup_from :: "mem \<Rightarrow> addr \<Rightarrow> addr \<Rightarrow> 64 word \<Rightarrow> addr option" where
  "dt_lookup_from m base dyn tag =
     (if ld64 m dyn = DT_NULL then Some NULL
      else if ld64 m dyn = tag then Some (dyn_ptr base (ld64 m (dyn + 8)))
      else dt_lookup_from m base (dyn + 16) tag)"

definition lib_dt_lookup :: "mem \<Rightarrow> link_map \<Rightarrow> 64 word \<Rightarrow> addr option" where
  "lib_dt_lookup m lib tag = dt_lookup_from m (l_addr lib) (l_ld lib) tag"

partial_function (option) dt_lookup_val_from :: "mem \<Rightarrow> addr \<Rightarrow> 64 word \<Rightarrow> 64 word option" where
  "dt_lookup_val_from m dyn tag =
     (if ld64 m dyn = DT_NULL then Some 0
      else if ld64 m dyn = tag then Some (ld64 m (dyn + 8))
      else dt_lookup_val_from m (dyn + 16) tag)"

definition lib_dt_lookup_val :: "mem \<Rightarrow> link_map \<Rightarrow> 64 word \<Rightarrow> 64 word option" where
  "lib_dt_lookup_val m lib tag = dt_lookup_val_from m (l_ld lib) tag"

section \<open>Strings and symbols\<close>

text \<open>
  The name looked up is a string of the model; \<open>name_at\<close> is \<open>!strcmp (a, name)\<close> (and
  \<open>mmk_streq (a, name)\<close>) for a string \<open>a\<close> in memory, \<open>read_cstr\<close> the string at an address.
\<close>

definition cbytes :: "string \<Rightarrow> byte list" where
  "cbytes s = map of_char s"

definition name_at :: "mem \<Rightarrow> addr \<Rightarrow> string \<Rightarrow> bool" where
  "name_at m a name = cstring m a (cbytes name)"

partial_function (option) read_cstr :: "mem \<Rightarrow> addr \<Rightarrow> string option" where
  "read_cstr m a =
     (if m a = 0 then Some []
      else do { cs \<leftarrow> read_cstr m (a + 1); Some (char_of (unat (m a)) # cs) })"

definition sym_name :: "mem \<Rightarrow> addr \<Rightarrow> addr \<Rightarrow> addr" where
  "sym_name m strtab entry = strtab + ucast (ld32 m entry)"

definition sym_at :: "addr \<Rightarrow> 64 word \<Rightarrow> addr" where
  "sym_at symtab i = symtab + 24 * i"

fun strstr :: "string \<Rightarrow> string \<Rightarrow> bool" where
  "strstr [] pat \<longleftrightarrow> pat = []"
| "strstr (c # cs) pat \<longleftrightarrow> take (length pat) (c # cs) = pat \<or> strstr cs pat"

definition get_lib_name :: "mem \<Rightarrow> plt_ctx \<Rightarrow> nat \<Rightarrow> string option option" where
  "get_lib_name m ctx lib =
     (if lib = 0 then Some (Some ''self'')
      else if l_name (ctx ! lib) \<noteq> '''' then Some (Some (l_name (ctx ! lib)))
      else do {
        strtab \<leftarrow> lib_dt_lookup m (ctx ! lib) DT_STRTAB;
        soname_off \<leftarrow> lib_dt_lookup_val m (ctx ! lib) DT_SONAME;
        if strtab = NULL \<or> soname_off = - 1 then Some None
        else do { s \<leftarrow> read_cstr m (strtab + soname_off); Some (Some s) }
      })"

section \<open>Relocations\<close>

record rel_info =
  tab :: addr
  tab_sz :: "64 word"
  entry_sz :: "64 word"

text \<open>A relocation starts with \<open>r_offset\<close> and \<open>r_info\<close>, whose upper half is the symbol's index.\<close>

fun reloc_loop :: "mem \<Rightarrow> nat \<Rightarrow> addr \<Rightarrow> 64 word \<Rightarrow> addr \<Rightarrow> addr \<Rightarrow> string \<Rightarrow> 64 word" where
  "reloc_loop m 0 rel esz symtab strtab name = 0"
| "reloc_loop m (Suc n) rel esz symtab strtab name =
     (if name_at m (sym_name m strtab (sym_at symtab (drop_bit 32 (ld64 m (rel + 8))))) name
      then ld64 m rel
      else reloc_loop m n (rel + esz) esz symtab strtab name)"

definition get_offset :: "mem \<Rightarrow> rel_info \<Rightarrow> addr \<Rightarrow> addr \<Rightarrow> string \<Rightarrow> 64 word" where
  "get_offset m info symtab strtab name =
     reloc_loop m (unat (tab_sz info div entry_sz info)) (tab info) (entry_sz info) symtab strtab name"

text \<open>
  The slots of \<open>name\<close> in \<open>lib\<close>: at most one from each of the two relocation tables. This is the body of
  \<open>get_offsets\<close> up to the storing of the slots.
\<close>

definition find_slots :: "mem \<Rightarrow> link_map \<Rightarrow> string \<Rightarrow> addr list option" where
  "find_slots m lib name =
     do {
       symtab \<leftarrow> lib_dt_lookup m lib DT_SYMTAB;
       strtab \<leftarrow> lib_dt_lookup m lib DT_STRTAB;
       jmprel \<leftarrow> lib_dt_lookup m lib DT_JMPREL;
       jmprel_sz \<leftarrow> lib_dt_lookup_val m lib DT_PLTRELSZ;
       rela \<leftarrow> lib_dt_lookup m lib DT_RELA;
       rel \<leftarrow> (if rela = NULL then lib_dt_lookup m lib DT_REL else Some rela);
       if rel = NULL then Some []
       else do {
         rel_sz \<leftarrow> lib_dt_lookup_val m lib (if rela = NULL then DT_RELSZ else DT_RELASZ);
         relent_sz \<leftarrow> lib_dt_lookup_val m lib (if rela = NULL then DT_RELENT else DT_RELAENT);
         if symtab = NULL \<or> strtab = NULL \<or> (rel = NULL \<and> jmprel = NULL) \<or>
            (rel_sz = 0 \<and> jmprel_sz = 0) \<or> relent_sz = 0
         then Some []
         else Some (map (\<lambda>off. l_addr lib + off)
           (filter (\<lambda>off. off \<noteq> 0)
             (map (\<lambda>info. get_offset m info symtab strtab name)
               [\<lparr>tab = rel, tab_sz = rel_sz, entry_sz = relent_sz\<rparr>,
                \<lparr>tab = jmprel, tab_sz = jmprel_sz, entry_sz = relent_sz\<rparr>])))
       }
     }"

text \<open>
  \<open>store_slots\<close> grows the array of slots by one element per slot found; a failed \<open>mmk_realloc\<close> is
  not checked for and the store goes through \<open>NULL\<close>.
\<close>

fun store_slots ::
  "libc \<Rightarrow> 'a heap_scheme \<Rightarrow> addr \<Rightarrow> plt_offset list \<Rightarrow> addr list \<Rightarrow>
    fault + addr \<times> plt_offset list \<times> 'a heap_scheme" where
  "store_slots L s ptr offs [] = Inr (ptr, offs, s)"
| "store_slots L s ptr offs (a # as) =
     andthen (realloc_block L s ptr (of_nat (16 * (length offs + 1)))) (\<lambda>(q, s).
       if q = NULL then Inl UB
       else store_slots L s q (offs @ [\<lparr>offset = a, oldval = NULL\<rparr>]) as)"

definition plt_get_offsets ::
  "libc \<Rightarrow> 'a heap_scheme \<Rightarrow> plt_ctx \<Rightarrow> nat \<Rightarrow> string \<Rightarrow>
    fault + addr \<times> plt_offset list \<times> 'a heap_scheme" where
  "plt_get_offsets L s ctx lib name =
     andthen (returns (find_slots (mem s) (ctx ! lib) name)) (\<lambda>as. store_slots L s NULL [] as)"

section \<open>Finding the library of a scope\<close>

definition lib_matches :: "mem \<Rightarrow> plt_ctx \<Rightarrow> plt_selector \<Rightarrow> string \<Rightarrow> nat \<Rightarrow> fault + bool" where
  "lib_matches m ctx sel val i =
     (case sel of
        PLT_SEL_LIB \<Rightarrow>
          andthen (returns (get_lib_name m ctx i)) (\<lambda>libname.
          andthen (deref libname) (\<lambda>libname.
            Inr (if val = ''c'' then strstr libname ''/libc.so'' \<or> strstr libname ''/musl.so''
                 else strstr libname (''/lib'' @ val @ ''.so''))))
      | PLT_SEL_NONE \<Rightarrow>
          andthen (returns (get_lib_name m ctx i)) (\<lambda>libname.
          andthen (deref libname) (\<lambda>libname. Inr (val = libname)))
      | PLT_SEL_FILE \<Rightarrow>
          andthen (returns (get_lib_name m ctx i)) (\<lambda>libname.
          andthen (deref libname) (\<lambda>libname. Inr (val = libname)))
      | PLT_SEL_SYM \<Rightarrow>
          andthen (returns (find_slots m (ctx ! i) val)) (\<lambda>as. Inr (0 < length as)))"

fun find_lib :: "mem \<Rightarrow> plt_ctx \<Rightarrow> plt_selector \<Rightarrow> string \<Rightarrow> nat list \<Rightarrow> fault + nat option" where
  "find_lib m ctx sel val [] = Inr None"
| "find_lib m ctx sel val (i # is) =
     andthen (lib_matches m ctx sel val i) (\<lambda>found.
       if found then Inr (Some i) else find_lib m ctx sel val is)"

definition plt_get_lib :: "mem \<Rightarrow> plt_ctx \<Rightarrow> string option \<Rightarrow> fault + nat option" where
  "plt_get_lib m ctx name =
     (case name of
        None \<Rightarrow> Inr (if ctx = [] then None else Some 0)
      | Some name \<Rightarrow>
          andthen (plt_get_selector name) (\<lambda>(sel, val).
            find_lib m ctx sel val [0..<length ctx]))"

section \<open>Redirecting slots\<close>

definition align2_down :: "addr \<Rightarrow> addr \<Rightarrow> addr" where
  "align2_down v d = v AND NOT (d - 1)"

abbreviation PROT_RWX :: cint where
  "PROT_RWX \<equiv> 7"

fun plt_set_offsets ::
  "libc \<Rightarrow> 'a heap_scheme \<Rightarrow> plt_offset list \<Rightarrow> addr \<Rightarrow> fault + plt_offset list \<times> 'a heap_scheme" where
  "plt_set_offsets L s [] newval = Inr ([], s)"
| "plt_set_offsets L s (off # offs) newval =
     (let off' = (if oldval off = NULL then off\<lparr>oldval := ld64 (mem s) (offset off)\<rparr> else off);
          page_start = align2_down (offset off) 4096
      in andthen (mmk_mprotect L s page_start 4096 PROT_RWX) (\<lambda>(_, s).
         andthen (plt_set_offsets L (s\<lparr>mem := st64 (mem s) (offset off) newval\<rparr>) offs newval)
           (\<lambda>(offs', s). Inr (off' # offs', s))))"

fun plt_reset_offsets :: "'a heap_scheme \<Rightarrow> plt_offset list \<Rightarrow> fault + 'a heap_scheme" where
  "plt_reset_offsets s [] = Inr s"
| "plt_reset_offsets s (off # offs) =
     plt_reset_offsets (s\<lparr>mem := st64 (mem s) (offset off) (oldval off)\<rparr>) offs"

lemma plt_set_offsets_patch:
  "fp_mprotect (vit s) \<noteq> NULL \<Longrightarrow>
    \<exists>pr. plt_set_offsets L s offs v =
      Inr (fst (patch (mem s) offs v), s\<lparr>prot := pr, mem := snd (patch (mem s) offs v)\<rparr>)"
proof (induction offs arbitrary: s)
  case Nil
  show ?case by (rule exI [of _ "prot s"]) simp
next
  case (Cons off offs)
  obtain r pr where "mmk_mprotect L s (align2_down (offset off) 4096) 4096 PROT_RWX =
      Inr (r, s\<lparr>prot := pr\<rparr>)"
    using Cons.prems by (rule mmk_mprotect_prot)
  with Cons.IH [of "s\<lparr>prot := pr, mem := st64 (mem s) (offset off) v\<rparr>"] Cons.prems show ?case
    by (auto simp: Let_def split_beta)
qed

lemma plt_reset_offsets_unpatch:
  "plt_reset_offsets s offs = Inr (s\<lparr>mem := unpatch (mem s) offs\<rparr>)"
  by (induction offs arbitrary: s) auto

interpretation elf_patcher: got_patcher "plt_set_offsets L" plt_reset_offsets mem
    "\<lambda>s. fp_mprotect (vit s) \<noteq> NULL" for L :: libc
proof unfold_locales
  fix w :: "'a heap_scheme" and offs v
  assume ready: "fp_mprotect (vit w) \<noteq> NULL"
  then show "\<exists>w'. plt_set_offsets L w offs v = Inr (fst (patch (mem w) offs v), w') \<and>
      mem w' = snd (patch (mem w) offs v) \<and> fp_mprotect (vit w') \<noteq> NULL"
    using plt_set_offsets_patch [OF ready, of L offs v] by auto
  show "\<exists>w'. plt_reset_offsets w offs = Inr w' \<and> mem w' = unpatch (mem w) offs \<and>
      fp_mprotect (vit w') \<noteq> NULL"
    using ready by (simp add: plt_reset_offsets_unpatch)
qed

section \<open>Hash tables and definitions\<close>

fun elf_hash_loop :: "64 word \<Rightarrow> byte list \<Rightarrow> 64 word" where
  "elf_hash_loop h [] = h"
| "elf_hash_loop h (c # cs) =
     (let h = push_bit 4 h + ucast c;
          high = h AND 0xf0000000;
          h = (if high \<noteq> 0 then h XOR drop_bit 24 high else h)
      in elf_hash_loop (h AND NOT high) cs)"

definition elf_hash :: "string \<Rightarrow> 64 word" where
  "elf_hash s = elf_hash_loop 0 (cbytes s)"

partial_function (option) elf_hash_chain ::
  "mem \<Rightarrow> addr \<Rightarrow> addr \<Rightarrow> addr \<Rightarrow> string \<Rightarrow> 32 word \<Rightarrow> addr option" where
  "elf_hash_chain m chn symtab strtab name si =
     (if si = 0 then Some NULL
      else if name_at m (sym_name m strtab (sym_at symtab (ucast si))) name
        then Some (sym_at symtab (ucast si))
      else elf_hash_chain m chn symtab strtab name (ld32 m (chn + 4 * ucast si)))"

definition elf_hash_find :: "mem \<Rightarrow> addr \<Rightarrow> addr \<Rightarrow> addr \<Rightarrow> string \<Rightarrow> fault + addr" where
  "elf_hash_find m hash symtab strtab name =
     (let nb_buckets = ld32 m hash;
          buckets = hash + 8;
          chn = hash + 8 + 4 * ucast nb_buckets
      in if nb_buckets = 0 then Inl UB
         else returns (elf_hash_chain m chn symtab strtab name
                (ld32 m (buckets + 4 * (elf_hash name mod ucast nb_buckets)))))"

fun gnu_hash_loop :: "32 word \<Rightarrow> byte list \<Rightarrow> 32 word" where
  "gnu_hash_loop h [] = h"
| "gnu_hash_loop h (c # cs) = gnu_hash_loop (push_bit 5 h + h + ucast c) cs"

definition gnu_hash :: "string \<Rightarrow> 32 word" where
  "gnu_hash s = gnu_hash_loop 5381 (cbytes s)"

record gnu_hash_header =
  nbuckets :: "32 word"
  symoffset :: "32 word"
  bloom_size :: "32 word"
  bloom_shift :: "32 word"

definition read_gnu_hash_header :: "mem \<Rightarrow> addr \<Rightarrow> gnu_hash_header" where
  "read_gnu_hash_header m p =
     \<lparr>nbuckets = ld32 m p, symoffset = ld32 m (p + 4),
      bloom_size = ld32 m (p + 8), bloom_shift = ld32 m (p + 12)\<rparr>"

partial_function (option) gnu_hash_chain ::
  "mem \<Rightarrow> addr \<Rightarrow> 32 word \<Rightarrow> addr \<Rightarrow> addr \<Rightarrow> string \<Rightarrow> 32 word \<Rightarrow> 32 word \<Rightarrow> addr option" where
  "gnu_hash_chain m chn symoff symtab strtab name symhash idx =
     (let chainhash = ld32 m (chn + 4 * ucast (idx - symoff))
      in if chainhash OR 1 = symhash OR 1 \<and>
            name_at m (sym_name m strtab (sym_at symtab (ucast idx))) name
         then Some (sym_at symtab (ucast idx))
         else if chainhash AND 1 \<noteq> 0 then Some NULL
         else gnu_hash_chain m chn symoff symtab strtab name symhash (idx + 1))"

definition bloom_word :: "mem \<Rightarrow> addr \<Rightarrow> gnu_hash_header \<Rightarrow> 32 word \<Rightarrow> 64 word" where
  "bloom_word m bloom h symhash = ld64 m (bloom + 8 * ucast (symhash div 64 mod bloom_size h))"

definition bloom_passes :: "64 word \<Rightarrow> gnu_hash_header \<Rightarrow> 32 word \<Rightarrow> bool" where
  "bloom_passes flt h symhash \<longleftrightarrow>
     \<not> (flt AND push_bit (unat (symhash mod 64)) 1 = 0) \<and>
     \<not> (flt AND push_bit (unat (drop_bit (unat (bloom_shift h)) symhash mod 64)) 1 = 0)"

definition gnu_hash_find :: "mem \<Rightarrow> addr \<Rightarrow> addr \<Rightarrow> addr \<Rightarrow> string \<Rightarrow> fault + addr" where
  "gnu_hash_find m gnuhash symtab strtab name =
     (let h = read_gnu_hash_header m gnuhash;
          bloom = gnuhash + 16;
          buckets = bloom + 8 * ucast (bloom_size h);
          chn = buckets + 4 * ucast (nbuckets h);
          symhash = gnu_hash name
      in if bloom_size h = 0 \<or> 32 \<le> bloom_shift h then Inl UB
         else if \<not> bloom_passes (bloom_word m bloom h symhash) h symhash then Inr NULL
         else if nbuckets h = 0 then Inl UB
         else returns (gnu_hash_chain m chn (symoffset h) symtab strtab name symhash
                (ld32 m (buckets + 4 * ucast (symhash mod nbuckets h)))))"

definition sym_lookup_dyn :: "mem \<Rightarrow> link_map \<Rightarrow> string \<Rightarrow> fault + addr" where
  "sym_lookup_dyn m lib name =
     andthen (returns (lib_dt_lookup m lib DT_SYMTAB)) (\<lambda>symtab.
     andthen (returns (lib_dt_lookup m lib DT_STRTAB)) (\<lambda>strtab.
       if symtab = NULL \<or> strtab = NULL then Inr NULL
       else
         andthen (returns (lib_dt_lookup m lib DT_GNU_HASH)) (\<lambda>gnu_hash.
           if gnu_hash \<noteq> NULL then gnu_hash_find m gnu_hash symtab strtab name
           else
             andthen (returns (lib_dt_lookup m lib DT_HASH)) (\<lambda>hash.
               if hash \<noteq> NULL then elf_hash_find m hash symtab strtab name
               else Inr NULL))))"

fun plt_get_real_fn :: "mem \<Rightarrow> plt_ctx \<Rightarrow> string \<Rightarrow> fault + addr" where
  "plt_get_real_fn m [] name = Inr NULL"
| "plt_get_real_fn m (lm # lms) name =
     andthen (sym_lookup_dyn m lm name) (\<lambda>sym.
       if sym \<noteq> NULL
       then (if ld64 m (sym + 16) = 0 then plt_get_real_fn m lms name
             else Inr (ld64 m (sym + 8) + l_addr lm))
       else plt_get_real_fn m lms name)"

subsection \<open>What the tables say\<close>

declare dt_lookup_from.simps [simp del] dt_lookup_val_from.simps [simp del]
  elf_hash_chain.simps [simp del] gnu_hash_chain.simps [simp del] read_cstr.simps [simp del]

fun dyn_at :: "mem \<Rightarrow> addr \<Rightarrow> (64 word \<times> 64 word) list \<Rightarrow> bool" where
  "dyn_at m a [] \<longleftrightarrow> ld64 m a = DT_NULL"
| "dyn_at m a ((tag, val) # ents) \<longleftrightarrow>
     tag \<noteq> DT_NULL \<and> ld64 m a = tag \<and> ld64 m (a + 8) = val \<and> dyn_at m (a + 16) ents"

lemma dt_lookup_from_dyn_at:
  "dyn_at m dyn ents \<Longrightarrow> dt_lookup_from m base dyn tag =
    Some (case map_of ents tag of None \<Rightarrow> NULL | Some p \<Rightarrow> dyn_ptr base p)"
proof (induction ents arbitrary: dyn)
  case Nil
  then show ?case by (subst dt_lookup_from.simps) simp
next
  case (Cons e ents)
  then show ?case by (cases e, subst dt_lookup_from.simps) auto
qed

lemma dt_lookup_val_from_dyn_at:
  "dyn_at m dyn ents \<Longrightarrow> dt_lookup_val_from m dyn tag =
    Some (case map_of ents tag of None \<Rightarrow> 0 | Some p \<Rightarrow> p)"
proof (induction ents arbitrary: dyn)
  case Nil
  then show ?case by (subst dt_lookup_val_from.simps) simp
next
  case (Cons e ents)
  then show ?case by (cases e, subst dt_lookup_val_from.simps) auto
qed

fun elf_hash32_loop :: "32 word \<Rightarrow> byte list \<Rightarrow> 32 word" where
  "elf_hash32_loop h [] = h"
| "elf_hash32_loop h (c # cs) =
     (let h = push_bit 4 h + ucast c; high = h AND 0xf0000000
      in elf_hash32_loop ((h XOR drop_bit 24 high) AND NOT high) cs)"

lemma ucast_add_32: "(ucast (a + b :: 64 word) :: 32 word) = ucast a + ucast b"
proof (transfer, goal_cases)
  case (1 a b)
  have "take_bit 32 (take_bit 32 (take_bit 64 a) + take_bit 32 (take_bit 64 b)) =
      take_bit 32 (take_bit 64 a + take_bit 64 b)"
    by (rule take_bit_add)
  moreover have "take_bit 32 (take_bit 32 a + take_bit 32 b) = take_bit 32 (a + b)"
    by (rule take_bit_add)
  ultimately show ?case
    by simp
qed

lemma ucast_ucast_byte: "(ucast (ucast (c :: byte) :: 64 word) :: 32 word) = ucast c"
  by (rule bit_word_eqI) (auto simp: bit_simps)

lemma ucast_step: "(ucast (push_bit 4 h + ucast (c :: byte) :: 64 word) :: 32 word) = push_bit 4 (ucast h) + ucast c"
proof -
  have "(ucast (push_bit 4 h :: 64 word) :: 32 word) = push_bit 4 (ucast h)"
    by (rule bit_word_eqI) (auto simp: bit_simps)
  then show ?thesis
    by (simp add: ucast_add_32 ucast_ucast_byte)
qed

definition top_nibble :: "'a::len word" where
  "top_nibble = push_bit 28 (mask 4)"

lemma bit_top_nibble:
  "bit (top_nibble :: 'a::len word) n \<longleftrightarrow> n < LENGTH('a) \<and> 28 \<le> n \<and> n < 32"
  by (auto simp: top_nibble_def bit_simps)

lemma top_nibble_64: "(0xf0000000 :: 64 word) = top_nibble"
  by (simp add: top_nibble_def mask_eq_exp_minus_1)

lemma top_nibble_32: "(0xf0000000 :: 32 word) = top_nibble"
  by (simp add: top_nibble_def mask_eq_exp_minus_1)

lemma ucast_mix:
  fixes h :: "64 word"
  shows "(ucast ((h XOR drop_bit 24 (h AND top_nibble)) AND NOT (h AND top_nibble)) :: 32 word) =
    (ucast h XOR drop_bit 24 (ucast h AND top_nibble)) AND NOT (ucast h AND top_nibble)"
  by (rule bit_word_eqI) (auto simp: bit_simps bit_top_nibble)

lemma xor_high: "(if high \<noteq> 0 then h XOR drop_bit 24 high else h) = h XOR drop_bit 24 (high :: 64 word)"
  by simp

lemma elf_hash_loop_step:
  "elf_hash_loop h (c # cs) = (let h = push_bit 4 h + ucast c; high = h AND top_nibble
      in elf_hash_loop ((h XOR drop_bit 24 high) AND NOT high) cs)"
  unfolding elf_hash_loop.simps top_nibble_64 Let_def xor_high ..

lemma elf_hash_loop_low: "(ucast (elf_hash_loop h cs) :: 32 word) = elf_hash32_loop (ucast h) cs"
proof (induction cs arbitrary: h)
  case Nil
  then show ?case by simp
next
  case (Cons c cs)
  show ?case
    unfolding elf_hash_loop_step elf_hash32_loop.simps top_nibble_32 Let_def Cons.IH ucast_mix ucast_step ..
qed


lemma gnu_hash_loop_foldl: "gnu_hash_loop h cs = foldl (\<lambda>h c. 33 * h + ucast c) h cs"
  by (induction cs arbitrary: h) (simp_all add: push_bit_eq_mult)


definition reloc_names :: "mem \<Rightarrow> addr \<Rightarrow> addr \<Rightarrow> string \<Rightarrow> addr \<Rightarrow> bool" where
  "reloc_names m symtab strtab name rel =
     name_at m (sym_name m strtab (sym_at symtab (drop_bit 32 (ld64 m (rel + 8))))) name"

lemma reloc_loop_Suc:
  "reloc_loop m (Suc n) rel esz symtab strtab name =
    (if reloc_names m symtab strtab name rel then ld64 m rel
     else reloc_loop m n (rel + esz) esz symtab strtab name)"
  by (simp add: reloc_names_def)

declare reloc_loop.simps(2) [simp del]

lemma reloc_loop_first:
  "i < n \<Longrightarrow> reloc_names m symtab strtab name (rel + of_nat i * esz) \<Longrightarrow>
    (\<And>j. j < i \<Longrightarrow> \<not> reloc_names m symtab strtab name (rel + of_nat j * esz)) \<Longrightarrow>
    reloc_loop m n rel esz symtab strtab name = ld64 m (rel + of_nat i * esz)"
proof (induction n arbitrary: i rel)
  case 0
  then show ?case by simp
next
  case (Suc n)
  show ?case
  proof (cases i)
    case 0
    with Suc.prems show ?thesis by (simp add: reloc_loop_Suc)
  next
    case (Suc k)
    have "\<not> reloc_names m symtab strtab name (rel + esz + of_nat j * esz)" if "j < k" for j
      using Suc.prems(3) [of "Suc j"] that Suc by (simp add: algebra_simps)
    moreover have "\<not> reloc_names m symtab strtab name rel"
      using Suc.prems(3) [of 0] Suc by simp
    ultimately show ?thesis
      using Suc.IH [of k "rel + esz"] Suc.prems(1,2) Suc by (simp add: reloc_loop_Suc algebra_simps)
  qed
qed

lemma reloc_loop_sound:
  "reloc_loop m n rel esz symtab strtab name \<noteq> 0 \<Longrightarrow>
    \<exists>i < n. reloc_names m symtab strtab name (rel + of_nat i * esz) \<and>
      reloc_loop m n rel esz symtab strtab name = ld64 m (rel + of_nat i * esz)"
proof (induction n arbitrary: rel)
  case 0
  then show ?case by simp
next
  case (Suc n)
  show ?case
  proof (cases "reloc_names m symtab strtab name rel")
    case True
    then show ?thesis by (intro exI [of _ 0]) (simp add: reloc_loop_Suc)
  next
    case False
    with Suc obtain i where "i < n" "reloc_names m symtab strtab name (rel + esz + of_nat i * esz)"
      "reloc_loop m n (rel + esz) esz symtab strtab name = ld64 m (rel + esz + of_nat i * esz)"
      by (auto simp: reloc_loop_Suc)
    with False show ?thesis
      by (intro exI [of _ "Suc i"]) (simp add: reloc_loop_Suc algebra_simps)
  qed
qed

lemma reloc_loop_none:
  "(\<And>i. i < n \<Longrightarrow> \<not> reloc_names m symtab strtab name (rel + of_nat i * esz)) \<Longrightarrow>
    reloc_loop m n rel esz symtab strtab name = 0"
  using reloc_loop_sound by blast

text \<open>The relocation that the search takes from a table of \<open>n\<close> entries: the first one for a symbol with the name.\<close>

definition first_reloc :: "mem \<Rightarrow> addr \<Rightarrow> addr \<Rightarrow> string \<Rightarrow> addr \<Rightarrow> nat \<Rightarrow> 64 word \<Rightarrow> addr \<Rightarrow> bool" where
  "first_reloc m symtab strtab name t n esz r \<longleftrightarrow>
     (\<exists>i < n. r = t + of_nat i * esz \<and> reloc_names m symtab strtab name r \<and>
        (\<forall>j < i. \<not> reloc_names m symtab strtab name (t + of_nat j * esz)))"

lemma first_reloc_unique:
  assumes "first_reloc m symtab strtab name t n esz r" and "first_reloc m symtab strtab name t n esz r'"
  shows "r = r'"
proof -
  obtain i j where "r = t + of_nat i * esz" "r' = t + of_nat j * esz"
    "reloc_names m symtab strtab name r" "\<forall>k < i. \<not> reloc_names m symtab strtab name (t + of_nat k * esz)"
    "reloc_names m symtab strtab name r'" "\<forall>k < j. \<not> reloc_names m symtab strtab name (t + of_nat k * esz)"
    using assms by (auto simp: first_reloc_def)
  then show ?thesis
    by (metis linorder_neqE_nat)
qed

lemma get_offset_first:
  assumes "first_reloc m symtab strtab name t (unat (sz div esz)) esz r"
  shows "get_offset m \<lparr>tab = t, tab_sz = sz, entry_sz = esz\<rparr> symtab strtab name = ld64 m r"
  using assms reloc_loop_first [of _ "unat (sz div esz)" m symtab strtab name t esz]
  by (auto simp: first_reloc_def get_offset_def)

lemma get_offset_none:
  assumes "\<nexists>r. first_reloc m symtab strtab name t (unat (sz div esz)) esz r"
  shows "get_offset m \<lparr>tab = t, tab_sz = sz, entry_sz = esz\<rparr> symtab strtab name = 0"
proof -
  have "\<not> reloc_names m symtab strtab name (t + of_nat i * esz)" if "i < unat (sz div esz)" for i
    using that
  proof (induction i rule: less_induct)
    case (less i)
    then show ?case
      using assms by (fastforce simp: first_reloc_def)
  qed
  then show ?thesis
    by (simp add: get_offset_def reloc_loop_none)
qed

lemma found_offset_iff:
  "a \<noteq> 0 \<and> a = get_offset m \<lparr>tab = t, tab_sz = sz, entry_sz = esz\<rparr> symtab strtab name \<longleftrightarrow>
     a \<noteq> 0 \<and> (\<exists>r. first_reloc m symtab strtab name t (unat (sz div esz)) esz r \<and> a = ld64 m r)"
  using get_offset_first get_offset_none by metis

lemma if_if_Some:
  "(if a then Some x else if b then Some z else y) = Some p \<Longrightarrow> a \<and> p = x \<or> p = z \<or> y = Some p"
  by (auto split: if_splits)

lemma gnu_hash_chain_sound:
  assumes "gnu_hash_chain m chn symoff symtab strtab name symhash idx = Some p"
  shows "p = NULL \<or> (\<exists>i :: 32 word. p = sym_at symtab (ucast i) \<and>
    name_at m (sym_name m strtab p) name)"
proof (rule gnu_hash_chain.raw_induct [where P = "\<lambda>m chn symoff symtab strtab name symhash idx p.
      p = NULL \<or> (\<exists>i :: 32 word. p = sym_at symtab (ucast i) \<and> name_at m (sym_name m strtab p) name)",
      OF _ assms])
  fix f :: "mem \<Rightarrow> addr \<Rightarrow> 32 word \<Rightarrow> addr \<Rightarrow> addr \<Rightarrow> string \<Rightarrow> 32 word \<Rightarrow> 32 word \<Rightarrow> addr option"
  fix m chn symoff symtab strtab name symhash idx p
  assume IH: "\<And>m chn symoff symtab strtab name symhash idx p.
      f m chn symoff symtab strtab name symhash idx = Some p \<Longrightarrow>
      p = NULL \<or> (\<exists>i :: 32 word. p = sym_at symtab (ucast i) \<and> name_at m (sym_name m strtab p) name)"
    and eq: "(let chainhash = ld32 m (chn + 4 * ucast (idx - symoff))
      in if chainhash OR 1 = symhash OR 1 \<and>
            name_at m (sym_name m strtab (sym_at symtab (ucast idx))) name
         then Some (sym_at symtab (ucast idx))
         else if chainhash AND 1 \<noteq> 0 then Some NULL
         else f m chn symoff symtab strtab name symhash (idx + 1)) = Some p"
  from eq consider "p = sym_at symtab (ucast idx)"
        "name_at m (sym_name m strtab (sym_at symtab (ucast idx))) name"
      | "p = NULL" | "f m chn symoff symtab strtab name symhash (idx + 1) = Some p"
    using if_if_Some [OF eq [unfolded Let_def]] by blast
  then show "p = NULL \<or> (\<exists>i :: 32 word. p = sym_at symtab (ucast i) \<and>
      name_at m (sym_name m strtab p) name)"
  proof cases
    case 1
    then show ?thesis by auto
  next
    case 2
    then show ?thesis by simp
  next
    case 3
    then show ?thesis by (rule IH)
  qed
qed

definition gnu_chain_hit :: "mem \<Rightarrow> addr \<Rightarrow> 32 word \<Rightarrow> addr \<Rightarrow> addr \<Rightarrow> string \<Rightarrow> 32 word \<Rightarrow> 32 word \<Rightarrow> bool" where
  "gnu_chain_hit m chn symoff symtab strtab name symhash idx \<longleftrightarrow>
     ld32 m (chn + 4 * ucast (idx - symoff)) OR 1 = symhash OR 1 \<and>
     name_at m (sym_name m strtab (sym_at symtab (ucast idx))) name"

lemma gnu_hash_chain_unfold:
  "gnu_hash_chain m chn symoff symtab strtab name symhash idx =
     (if gnu_chain_hit m chn symoff symtab strtab name symhash idx
      then Some (sym_at symtab (ucast idx))
      else if ld32 m (chn + 4 * ucast (idx - symoff)) AND 1 \<noteq> 0 then Some NULL
      else gnu_hash_chain m chn symoff symtab strtab name symhash (idx + 1))"
  by (subst gnu_hash_chain.simps) (simp add: Let_def gnu_chain_hit_def)

lemma gnu_hash_chain_finds:
  "gnu_chain_hit m chn symoff symtab strtab name symhash (idx + of_nat d) \<Longrightarrow>
    (\<And>j. j < d \<Longrightarrow> \<not> gnu_chain_hit m chn symoff symtab strtab name symhash (idx + of_nat j) \<and>
      ld32 m (chn + 4 * ucast (idx + of_nat j - symoff)) AND 1 = 0) \<Longrightarrow>
    gnu_hash_chain m chn symoff symtab strtab name symhash idx =
      Some (sym_at symtab (ucast (idx + of_nat d)))"
proof (induction d arbitrary: idx)
  case 0
  then show ?case by (subst gnu_hash_chain_unfold) simp
next
  case (Suc d)
  have "gnu_chain_hit m chn symoff symtab strtab name symhash (idx + 1 + of_nat d)"
    using Suc.prems(1) by (simp add: add.assoc)
  moreover have "\<not> gnu_chain_hit m chn symoff symtab strtab name symhash (idx + 1 + of_nat j) \<and>
      ld32 m (chn + 4 * ucast (idx + 1 + of_nat j - symoff)) AND 1 = 0" if "j < d" for j
    using Suc.prems(2) [of "Suc j"] that by (simp add: add.assoc)
  ultimately have "gnu_hash_chain m chn symoff symtab strtab name symhash (idx + 1) =
      Some (sym_at symtab (ucast (idx + 1 + of_nat d)))"
    by (rule Suc.IH)
  then show ?case
    using Suc.prems(2) [of 0] by (subst gnu_hash_chain_unfold) (simp add: add.assoc)
qed

lemma gnu_hash_chain_misses:
  "ld32 m (chn + 4 * ucast (idx + of_nat d - symoff)) AND 1 \<noteq> 0 \<Longrightarrow>
    (\<And>j. j \<le> d \<Longrightarrow> \<not> gnu_chain_hit m chn symoff symtab strtab name symhash (idx + of_nat j)) \<Longrightarrow>
    gnu_hash_chain m chn symoff symtab strtab name symhash idx = Some NULL"
proof (induction d arbitrary: idx)
  case 0
  then show ?case using 0(2) [of 0] by (subst gnu_hash_chain_unfold) simp
next
  case (Suc d)
  have "ld32 m (chn + 4 * ucast (idx + 1 + of_nat d - symoff)) AND 1 \<noteq> 0"
    using Suc.prems(1) by (simp add: add.assoc)
  moreover have "\<not> gnu_chain_hit m chn symoff symtab strtab name symhash (idx + 1 + of_nat j)"
    if "j \<le> d" for j
    using Suc.prems(2) [of "Suc j"] that by (simp add: add.assoc)
  ultimately have "gnu_hash_chain m chn symoff symtab strtab name symhash (idx + 1) = Some NULL"
    by (rule Suc.IH)
  then show ?case
    using Suc.prems(2) [of 0] by (subst gnu_hash_chain_unfold) simp
qed


text \<open>
  \<open>gnu_lookup_chain\<close>: where the lookup of a name starts in a table: its Bloom filter accepts the
  name's hash, and the bucket of the hash holds the index \<open>idx\<close>.
\<close>

definition gnu_lookup_chain :: "mem \<Rightarrow> addr \<Rightarrow> string \<Rightarrow> 32 word \<Rightarrow> bool" where
  "gnu_lookup_chain m gnuhash name idx \<longleftrightarrow>
     (let h = read_gnu_hash_header m gnuhash;
          bloom = gnuhash + 16;
          buckets = bloom + 8 * ucast (bloom_size h)
      in bloom_size h \<noteq> 0 \<and> bloom_shift h < 32 \<and> nbuckets h \<noteq> 0 \<and>
         bloom_passes (bloom_word m bloom h (gnu_hash name)) h (gnu_hash name) \<and>
         ld32 m (buckets + 4 * ucast (gnu_hash name mod nbuckets h)) = idx)"

definition gnu_chains :: "mem \<Rightarrow> addr \<Rightarrow> addr" where
  "gnu_chains m gnuhash =
     (let h = read_gnu_hash_header m gnuhash
      in gnuhash + 16 + 8 * ucast (bloom_size h) + 4 * ucast (nbuckets h))"

lemma gnu_hash_find_chain:
  "gnu_lookup_chain m gnuhash name idx \<Longrightarrow>
    gnu_hash_find m gnuhash symtab strtab name =
      returns (gnu_hash_chain m (gnu_chains m gnuhash) (symoffset (read_gnu_hash_header m gnuhash))
        symtab strtab name (gnu_hash name) idx)"
  by (auto simp: gnu_hash_find_def gnu_lookup_chain_def gnu_chains_def Let_def word_less_nat_alt
      word_le_nat_alt)

lemma gnu_hash_find_sound:
  "gnu_hash_find m gnuhash symtab strtab name = Inr p \<Longrightarrow> p \<noteq> NULL \<Longrightarrow>
    (\<exists>i :: 32 word. p = sym_at symtab (ucast i)) \<and> name_at m (sym_name m strtab p) name"
  using gnu_hash_chain_sound
  by (fastforce simp: gnu_hash_find_def Let_def returns_Inr_iff split: if_splits)

lemma elf_hash_chain_sound:
  assumes "elf_hash_chain m chn symtab strtab name si = Some p"
  shows "p = NULL \<or> (\<exists>i :: 32 word. p = sym_at symtab (ucast i) \<and> name_at m (sym_name m strtab p) name)"
proof (rule elf_hash_chain.raw_induct [where P = "\<lambda>m chn symtab strtab name si p.
      p = NULL \<or> (\<exists>i :: 32 word. p = sym_at symtab (ucast i) \<and> name_at m (sym_name m strtab p) name)",
      OF _ assms])
  fix f :: "mem \<Rightarrow> addr \<Rightarrow> addr \<Rightarrow> addr \<Rightarrow> string \<Rightarrow> 32 word \<Rightarrow> addr option"
  fix m chn symtab strtab name p and si :: "32 word"
  assume IH: "\<And>m chn symtab strtab name si p. f m chn symtab strtab name si = Some p \<Longrightarrow>
      p = NULL \<or> (\<exists>i :: 32 word. p = sym_at symtab (ucast i) \<and> name_at m (sym_name m strtab p) name)"
    and eq: "(if si = 0 then Some NULL
      else if name_at m (sym_name m strtab (sym_at symtab (ucast si))) name
        then Some (sym_at symtab (ucast si))
      else f m chn symtab strtab name (ld32 m (chn + 4 * ucast si))) = Some p"
  from eq consider "p = NULL"
    | "p = sym_at symtab (ucast si)" "name_at m (sym_name m strtab (sym_at symtab (ucast si))) name"
    | "f m chn symtab strtab name (ld32 m (chn + 4 * ucast si)) = Some p"
    by (metis option.inject)
  then show "p = NULL \<or> (\<exists>i :: 32 word. p = sym_at symtab (ucast i) \<and> name_at m (sym_name m strtab p) name)"
  proof cases
    case 1
    then show ?thesis by simp
  next
    case 2
    then show ?thesis by blast
  next
    case 3
    then show ?thesis by (rule IH)
  qed
qed

lemma elf_hash_find_sound:
  "elf_hash_find m hash symtab strtab name = Inr p \<Longrightarrow> p \<noteq> NULL \<Longrightarrow>
    (\<exists>i :: 32 word. p = sym_at symtab (ucast i)) \<and> name_at m (sym_name m strtab p) name"
  using elf_hash_chain_sound
  by (fastforce simp: elf_hash_find_def Let_def returns_Inr_iff split: if_splits)

text \<open>A definition of \<open>name\<close> in \<open>lib\<close>: a symbol of that name which has a size.\<close>

lemma sym_lookup_dyn_sound:
  assumes "sym_lookup_dyn m lib name = Inr p" and "p \<noteq> NULL"
  shows "\<exists>symtab strtab. lib_dt_lookup m lib DT_SYMTAB = Some symtab \<and>
    lib_dt_lookup m lib DT_STRTAB = Some strtab \<and>
    (\<exists>i :: 32 word. p = sym_at symtab (ucast i)) \<and> name_at m (sym_name m strtab p) name"
  using assms gnu_hash_find_sound elf_hash_find_sound
  unfolding sym_lookup_dyn_def
  by (auto simp: ends split: if_splits)

lemma plt_get_real_fn_sound:
  "plt_get_real_fn m ctx name = Inr f \<Longrightarrow> f \<noteq> NULL \<Longrightarrow>
    \<exists>as lm bs p. ctx = as @ lm # bs \<and> sym_lookup_dyn m lm name = Inr p \<and> p \<noteq> NULL \<and>
      ld64 m (p + 16) \<noteq> 0 \<and> f = ld64 m (p + 8) + l_addr lm \<and>
      (\<forall>l \<in> set as. \<exists>q. sym_lookup_dyn m l name = Inr q \<and> (q = NULL \<or> ld64 m (q + 16) = 0))"
proof (induction ctx)
  case Nil
  then show ?case by simp
next
  case (Cons lm ctx)
  from Cons.prems(1) obtain q where q: "sym_lookup_dyn m lm name = Inr q"
    by (auto simp: ends)
  show ?case
  proof (cases "q \<noteq> NULL \<and> ld64 m (q + 16) \<noteq> 0")
    case True
    with q Cons.prems show ?thesis
      by (intro exI [of _ "[]"]) auto
  next
    case False
    with q Cons.prems have "plt_get_real_fn m ctx name = Inr f"
      by (auto split: if_splits)
    from Cons.IH [OF this Cons.prems(2)] obtain as l bs p where
      "ctx = as @ l # bs" "sym_lookup_dyn m l name = Inr p" "p \<noteq> NULL" "ld64 m (p + 16) \<noteq> 0"
      "f = ld64 m (p + 8) + l_addr l"
      "\<forall>l \<in> set as. \<exists>q. sym_lookup_dyn m l name = Inr q \<and> (q = NULL \<or> ld64 m (q + 16) = 0)"
      by blast
    with q False show ?thesis
      by (intro exI [of _ "lm # as"]) auto
  qed
qed

lemma find_lib_Inr:
  "find_lib m ctx sel val is = Inr (Some i) \<Longrightarrow>
    \<exists>as bs. is = as @ i # bs \<and> lib_matches m ctx sel val i = Inr True \<and>
      (\<forall>j \<in> set as. lib_matches m ctx sel val j = Inr False)"
proof (induction "is")
  case Nil
  then show ?case by simp
next
  case (Cons j js)
  then show ?case
    by (auto simp: ends split: if_splits intro: exI [of _ "[]"] exI [of _ "j # _"])
      (metis append_Cons set_ConsD)
qed

lemma lib_matches_self_not_main: "lib_matches m ctx PLT_SEL_NONE '''' 0 = Inr False"
  by (simp add: lib_matches_def get_lib_name_def)

lemma find_slots_Some:
  assumes "\<And>t. lib_dt_lookup m lib t = Some (P t)" and "\<And>t. lib_dt_lookup_val m lib t = Some (V t)"
  shows "find_slots m lib name =
    (let r = (P DT_RELA \<noteq> NULL);
         rel = (if r then P DT_RELA else P DT_REL);
         rel_sz = (if r then V DT_RELASZ else V DT_RELSZ);
         esz = (if r then V DT_RELAENT else V DT_RELENT);
         off = (\<lambda>t sz. get_offset m \<lparr>tab = t, tab_sz = sz, entry_sz = esz\<rparr> (P DT_SYMTAB) (P DT_STRTAB) name)
     in Some (if rel = NULL \<or> P DT_SYMTAB = NULL \<or> P DT_STRTAB = NULL \<or>
                 rel_sz = 0 \<and> V DT_PLTRELSZ = 0 \<or> esz = 0 then []
              else map (\<lambda>a. l_addr lib + a)
                (filter (\<lambda>a. a \<noteq> 0) [off rel rel_sz, off (P DT_JMPREL) (V DT_PLTRELSZ)])))"
  unfolding find_slots_def assms Let_def by simp

text \<open>What is found: the place of the first relocation for the name in each of the two tables.\<close>

lemma find_slots_first:
  assumes PV: "\<And>t. lib_dt_lookup m lib t = Some (P t)" "\<And>t. lib_dt_lookup_val m lib t = Some (V t)"
  shows "\<exists>as. find_slots m lib name = Some as \<and> length as \<le> 2 \<and>
    (let rela = (P DT_RELA \<noteq> NULL);
         rel = (if rela then P DT_RELA else P DT_REL);
         rel_sz = (if rela then V DT_RELASZ else V DT_RELSZ);
         esz = (if rela then V DT_RELAENT else V DT_RELENT)
     in set as =
       {l_addr lib + ld64 m r | r t sz.
          (t, sz) \<in> {(rel, rel_sz), (P DT_JMPREL, V DT_PLTRELSZ)} \<and> rel \<noteq> NULL \<and> P DT_SYMTAB \<noteq> NULL \<and> P DT_STRTAB \<noteq> NULL \<and> esz \<noteq> 0 \<and>
          first_reloc m (P DT_SYMTAB) (P DT_STRTAB) name t (unat (sz div esz)) esz r \<and> ld64 m r \<noteq> 0})"
proof -
  define rel rel_sz esz where
    r: "rel = (if P DT_RELA \<noteq> NULL then P DT_RELA else P DT_REL)"
    "rel_sz = (if P DT_RELA \<noteq> NULL then V DT_RELASZ else V DT_RELSZ)"
    "esz = (if P DT_RELA \<noteq> NULL then V DT_RELAENT else V DT_RELENT)"
  let ?first = "\<lambda>t sz. first_reloc m (P DT_SYMTAB) (P DT_STRTAB) name t (unat (sz div esz)) esz"
  let ?off = "\<lambda>t sz. get_offset m \<lparr>tab = t, tab_sz = sz, entry_sz = esz\<rparr> (P DT_SYMTAB) (P DT_STRTAB) name"
  let ?none = "rel = NULL \<or> P DT_SYMTAB = NULL \<or> P DT_STRTAB = NULL \<or> rel_sz = 0 \<and> V DT_PLTRELSZ = 0 \<or> esz = 0"
  define as where "as = (if ?none then [] else map (\<lambda>a. l_addr lib + a)
      (filter (\<lambda>a. a \<noteq> 0) [?off rel rel_sz, ?off (P DT_JMPREL) (V DT_PLTRELSZ)]))"
  have find: "find_slots m lib name = Some as"
    unfolding find_slots_Some [OF PV] Let_def as_def r by simp
  have empty: "\<not> ?first t 0 x" for t x
    by (simp add: first_reloc_def)
  have "set as = {l_addr lib + ld64 m x | x t sz. (t, sz) \<in> {(rel, rel_sz), (P DT_JMPREL, V DT_PLTRELSZ)} \<and>
      rel \<noteq> NULL \<and> P DT_SYMTAB \<noteq> NULL \<and> P DT_STRTAB \<noteq> NULL \<and> esz \<noteq> 0 \<and> ?first t sz x \<and> ld64 m x \<noteq> 0}"
    (is "_ = ?S")
  proof (cases ?none)
    case True
    then have "?S = {}"
      using empty by auto
    with True show ?thesis
      by (simp add: as_def)
  next
    case False
    then have "set as = (\<lambda>a. l_addr lib + a) ` {a. (a \<noteq> 0 \<and> a = ?off rel rel_sz) \<or> (a \<noteq> 0 \<and> a = ?off (P DT_JMPREL) (V DT_PLTRELSZ))}"
      by (auto simp: as_def)
    also have "\<dots> = ?S"
      unfolding found_offset_iff using False by blast
    finally show ?thesis .
  qed
  moreover have "length as \<le> 2"
    by (simp add: as_def)
  ultimately show ?thesis
    using find unfolding r Let_def by blast
qed

lemma find_slots_terminates:
  assumes "dyn_at m (l_ld lib) ents"
  shows "\<exists>as. find_slots m lib name = Some as \<and> length as \<le> 2"
proof -
  have "lib_dt_lookup m lib t = Some (case map_of ents t of None \<Rightarrow> NULL | Some p \<Rightarrow> dyn_ptr (l_addr lib) p)"
    and "lib_dt_lookup_val m lib t = Some (case map_of ents t of None \<Rightarrow> 0 | Some p \<Rightarrow> p)" for t
    using assms by (simp_all add: lib_dt_lookup_def lib_dt_lookup_val_def
        dt_lookup_from_dyn_at dt_lookup_val_from_dyn_at)
  note l = find_slots_Some [OF this]
  show ?thesis
    unfolding l Let_def by simp
qed


subsection \<open>The array of slots, and page protections\<close>

abbreviation new_slots :: "addr list \<Rightarrow> plt_offset list" where
  "new_slots as \<equiv> map (\<lambda>a. \<lparr>offset = a, oldval = NULL\<rparr>) as"

lemma realloc_block_Inr_iff:
  "realloc_block L s p n = Inr (q, s') \<longleftrightarrow> fp_realloc (vit s) \<noteq> NULL \<and>
    (p = NULL \<or> p \<in> fst ` set (live s)) \<and> q = libc_realloc L (live s) p n \<and>
    s' = (if q = NULL then s else s\<lparr>live := (q, n) # unblock p (live s)\<rparr>)"
  by (auto simp: realloc_block_def Let_def)

lemma store_slots_Inr:
  assumes "libc_ok L" and "store_slots L s p offs as = Inr (q, offs', s')"
  shows "offs' = offs @ new_slots as \<and>
    (if as = [] then q = p \<and> s' = s
     else s' = s\<lparr>live := (q, of_nat (16 * length offs')) # unblock p (live s)\<rparr> \<and>
       fresh_block (unblock p (live s)) q (of_nat (16 * length offs')))"
  using assms(2)
proof (induction as arbitrary: s p offs)
  case Nil
  then show ?case by simp
next
  case (Cons a as)
  let ?n = "of_nat (16 * (length offs + 1)) :: size_t"
  from Cons.prems obtain r s1 where r: "realloc_block L s p ?n = Inr (r, s1)" "r \<noteq> NULL"
    and rest: "store_slots L s1 r (offs @ new_slots [a]) as = Inr (q, offs', s')"
    by (auto simp: ends split: if_splits)
  from r have s1: "s1 = s\<lparr>live := (r, ?n) # unblock p (live s)\<rparr>"
    and fresh: "fresh_block (unblock p (live s)) r ?n"
    using assms(1) by (auto simp: realloc_block_Inr_iff libc_ok_def)
  then have "unblock r (live s1) = unblock p (live s)"
    by (simp add: unblock_head)
  with Cons.IH [OF rest] s1 fresh show ?case
    by (auto split: if_splits)
qed

lemma plt_get_offsets_Inr:
  assumes "libc_ok L" and "plt_get_offsets L s ctx lib name = Inr (q, offs, s')"
  obtains as where "find_slots (mem s) (ctx ! lib) name = Some as" and "offs = new_slots as"
    and "as = [] \<Longrightarrow> q = NULL \<and> s' = s"
    and "as \<noteq> [] \<Longrightarrow> s' = s\<lparr>live := (q, of_nat (16 * length as)) # unblock NULL (live s)\<rparr> \<and>
      fresh_block (unblock NULL (live s)) q (of_nat (16 * length as))"
proof -
  from assms(2) obtain as where as: "find_slots (mem s) (ctx ! lib) name = Some as"
    and st: "store_slots L s NULL [] as = Inr (q, offs, s')"
    by (auto simp: plt_get_offsets_def ends)
  show ?thesis
    using store_slots_Inr [OF assms(1) st] as by (intro that [of as]) (auto split: if_splits)
qed

text \<open>
  A slot lies within the page whose protection is changed before it is written, as the loader
  aligns slots to eight bytes.
\<close>

lemma page_offset: "a = align2_down a 4096 + (a AND mask 12)"
proof -
  have "(a AND NOT (mask 12)) + (a AND mask 12) = (a AND NOT (mask 12)) OR (a AND mask 12)"
    by (rule disjunctive_add_eq_or) (auto simp: bit_eq_iff bit_simps)
  also have "\<dots> = a"
    by (auto simp: bit_eq_iff bit_simps)
  finally show ?thesis
    by (simp add: align2_down_def mask_eq_exp_minus_1)
qed

lemma slot_in_page:
  assumes "unat a mod 8 = 0" and "in_region a 8 x"
  shows "in_region (align2_down a 4096) 4096 x"
proof -
  define r where "r = unat (a AND mask 12)"
  have r: "r = unat a mod 4096"
    by (simp add: r_def take_bit_eq_mask [symmetric] unsigned_take_bit_eq take_bit_eq_mod unat_mod_distrib)
  have "r mod 8 = 0" and "r < 4096"
    using assms(1) by (simp_all add: r mod_mod_cancel)
  then have le: "r + 8 \<le> 4096"
    by presburger
  have "align2_down a 4096 + of_nat r = a"
    using page_offset [of a] by (simp add: r_def)
  with assms(2) have "in_region (align2_down a 4096 + of_nat r) 8 x"
    by (simp only:)
  then show ?thesis
    using le by (rule in_region_shift) simp
qed

lemma elf_hash_wraps_at_64_bits:
  "elf_hash (map char_of [255 :: nat, 15, 15, 15, 15, 15, 18]) = 0x100000002"
  by code_simp

end
