(* ===== verification/Trampoline.thy ===== *)
theory Trampoline
  imports Vitals
begin

text \<open>
  \<open>src/trampoline.c\<close> with \<open>mmap\<close> (and \<open>MAP_ANONYMOUS\<close>, but for the last section): a trampoline is a page that starts with the context and
  the routine it was made for, followed by a copy of the code of
  \<open>mmk_trampoline\<close>; the pointer to it points past the two. The code is
  assembled from \<open>src/asm\<close> and is a parameter of the model, as the bytes between its two labels.
\<close>

definition PAGE_SIZE :: size_t where
  "PAGE_SIZE = 0x1000"

abbreviation PROT_RW :: cint where
  "PROT_RW \<equiv> 3"

abbreviation PROT_RX :: cint where
  "PROT_RX \<equiv> 5"

definition sys_mmap :: "libc \<Rightarrow> 'a heap_scheme \<Rightarrow> size_t \<Rightarrow> addr \<times> 'a heap_scheme" where
  "sys_mmap L s n =
     (let p = libc_mmap L (live s) n
      in (p, if p = - 1 then s
             else s\<lparr>live := (p, n) # live s,
                    prot := (\<lambda>x. if in_region p (unat n) x then PROT_RW else prot s x)\<rparr>))"

definition sys_munmap :: "'a heap_scheme \<Rightarrow> addr \<Rightarrow> 'a heap_scheme" where
  "sys_munmap s p = s\<lparr>live := unblock p (live s)\<rparr>"

definition create_trampoline ::
  "libc \<Rightarrow> byte list \<Rightarrow> 'a heap_scheme \<Rightarrow> addr \<Rightarrow> addr \<Rightarrow> fault + addr \<times> 'a heap_scheme" where
  "create_trampoline L code s ctx routine =
     andthen (mmk_assert ''trampoline_sz < PAGE_SIZE'' (length code < unat PAGE_SIZE)) (\<lambda>_.
       let (map, s) = sys_mmap L s PAGE_SIZE
       in andthen (mmk_assert ''map != MAP_FAILED'' (map \<noteq> - 1)) (\<lambda>_.
          let m = st64 (mem s) map ctx;
              m = st64 m (map + 8) routine;
              m = wr m (map + 16) code
          in andthen (mmk_mprotect L (s\<lparr>mem := m\<rparr>) map PAGE_SIZE PROT_RX) (\<lambda>(r, s).
             andthen (mmk_assert ''!mmk_mprotect(map, PAGE_SIZE, PROT_READ | PROT_EXEC)'' (r = 0)) (\<lambda>_.
               Inr (map + 16, s)))))"

definition destroy_trampoline :: "'a heap_scheme \<Rightarrow> addr \<Rightarrow> 'a heap_scheme" where
  "destroy_trampoline s trampoline = sys_munmap s (trampoline - 16)"

text \<open>What is stored in a trampoline, and whether an address is that of a mapped one.\<close>

definition trampoline_ctx :: "mem \<Rightarrow> addr \<Rightarrow> addr" where
  "trampoline_ctx m t = ld64 m (t - 0x10)"

definition trampoline_routine :: "mem \<Rightarrow> addr \<Rightarrow> addr" where
  "trampoline_routine m t = ld64 m (t - 0x8)"

definition is_trampoline :: "byte list \<Rightarrow> 'a heap_scheme \<Rightarrow> addr \<Rightarrow> bool" where
  "is_trampoline code s t \<longleftrightarrow>
     (t - 16, PAGE_SIZE) \<in> set (live s) \<and> rd (mem s) t (length code) = code"

section \<open>What a trampoline holds\<close>

definition trampoline_bytes :: "byte list \<Rightarrow> addr \<Rightarrow> addr \<Rightarrow> byte list" where
  "trampoline_bytes code ctx routine = le_bytes 8 (unat ctx) @ le_bytes 8 (unat routine) @ code"

lemma length_trampoline_bytes [simp]: "length (trampoline_bytes code ctx routine) = 16 + length code"
  by (simp add: trampoline_bytes_def)

lemma trampoline_stores:
  "wr (st64 (st64 m p ctx) (p + 8) routine) (p + 16) code = wr m p (trampoline_bytes code ctx routine)"
  by (simp add: trampoline_bytes_def st64_def wr_append add.assoc)

lemma create_trampoline_Inr:
  assumes "create_trampoline L code s ctx routine = Inr (t, s')"
  obtains p pr where "t = p + 16" and "p = libc_mmap L (live s) PAGE_SIZE" and "p \<noteq> - 1"
    and "length code < unat PAGE_SIZE"
    and "s' = s\<lparr>live := (p, PAGE_SIZE) # live s, mem := wr (mem s) p (trampoline_bytes code ctx routine),
           prot := pr\<rparr>"
    and "\<And>x. in_region p (unat PAGE_SIZE) x \<Longrightarrow> pr x = PROT_RX"
  using assms
  by (auto simp: create_trampoline_def sys_mmap_def mmk_mprotect_def Let_def ends trampoline_stores
      split: if_splits prod.splits)

lemma rd_trampoline_bytes:
  assumes "length code < 2 ^ 32"
  defines "m' \<equiv> (\<lambda>m p ctx routine. wr m p (trampoline_bytes code ctx routine))"
  shows "ld64 (m' m p ctx routine) p = ctx"
    and "ld64 (m' m p ctx routine) (p + 8) = routine"
    and "rd (m' m p ctx routine) (p + 16) (length code) = code"
proof -
  let ?m = "wr m p (trampoline_bytes code ctx routine)"
  have "rd ?m p (8 + (8 + length code)) = trampoline_bytes code ctx routine"
    using assms(1) by (intro rd_wr_same') simp_all
  then have "rd ?m p 8 @ rd ?m (p + 8) 8 @ rd ?m (p + 16) (length code) = trampoline_bytes code ctx routine"
    unfolding rd_append by (simp add: add.assoc)
  then have "rd ?m p 8 = le_bytes 8 (unat ctx)" and "rd ?m (p + 8) 8 = le_bytes 8 (unat routine)"
    and "rd ?m (p + 16) (length code) = code"
    by (auto simp: trampoline_bytes_def append_eq_append_conv)
  then show "ld64 (m' m p ctx routine) p = ctx" and "ld64 (m' m p ctx routine) (p + 8) = routine"
    and "rd (m' m p ctx routine) (p + 16) (length code) = code"
    by (simp_all add: ld64_def m'_def of_nat_le_val_le_bytes)
qed

lemma create_trampoline_holds:
  assumes "create_trampoline L code s ctx routine = Inr (t, s')"
  shows "trampoline_ctx (mem s') t = ctx" and "trampoline_routine (mem s') t = routine"
    and "is_trampoline code s' t"
proof -
  from assms obtain p pr where p: "t = p + 16" "length code < unat PAGE_SIZE"
    and s': "s' = s\<lparr>live := (p, PAGE_SIZE) # live s, mem := wr (mem s) p (trampoline_bytes code ctx routine),
           prot := pr\<rparr>"
    by (rule create_trampoline_Inr)
  from p(2) have len: "length code < 2 ^ 32"
    by (simp add: PAGE_SIZE_def)
  note r = rd_trampoline_bytes [OF len, of "mem s" p ctx routine]
  from r p s' show "trampoline_ctx (mem s') t = ctx" and "trampoline_routine (mem s') t = routine"
    and "is_trampoline code s' t"
    by (simp_all add: trampoline_ctx_def trampoline_routine_def is_trampoline_def add.commute [of p 8])
qed

text \<open>
  Code of at most \<open>PAGE_SIZE - 16\<close> bytes leaves the memory outside the new page alone.
\<close>

lemma create_trampoline_frame:
  assumes "create_trampoline L code s ctx routine = Inr (t, s')"
    and "length code + 16 \<le> unat PAGE_SIZE" and "\<not> in_region (t - 16) (unat PAGE_SIZE) x"
  shows "mem s' x = mem s x"
proof -
  from assms(1) obtain p pr where p: "t = p + 16"
    and s': "s' = s\<lparr>live := (p, PAGE_SIZE) # live s, mem := wr (mem s) p (trampoline_bytes code ctx routine),
           prot := pr\<rparr>"
    by (rule create_trampoline_Inr)
  have "\<not> in_region p (16 + length code) x"
    using assms(2,3) p by (auto simp: in_region_def)
  then show ?thesis
    using assms(2) s' by (simp add: wr_outside PAGE_SIZE_def)
qed

lemma destroy_create_trampoline:
  assumes "libc_ok L" and "create_trampoline L code s ctx routine = Inr (t, s')"
  shows "live (destroy_trampoline s' t) = live s"
proof -
  from assms(2) obtain p pr where "t = p + 16" "p = libc_mmap L (live s) PAGE_SIZE" "p \<noteq> - 1"
    and "s' = s\<lparr>live := (p, PAGE_SIZE) # live s, mem := wr (mem s) p (trampoline_bytes code ctx routine),
           prot := pr\<rparr>"
    by (rule create_trampoline_Inr)
  with assms(1) show ?thesis
    by (auto simp: destroy_trampoline_def sys_munmap_def libc_ok_def unblock_head)
qed

section \<open>Without anonymous memory\<close>

text \<open>
  Where \<open>mmap\<close> has neither \<open>MAP_ANONYMOUS\<close> nor \<open>MAP_ANON\<close>, the page is a private mapping of \<open>/dev/zero\<close>. \<open>fd\<close> is the result of \<open>open\<close> and
  \<open>closed\<close> that of \<open>close\<close>.
\<close>

abbreviation PROT_RWX :: cint where
  "PROT_RWX \<equiv> 7"

definition create_trampoline_dev_zero ::
  "cint \<Rightarrow> cint \<Rightarrow> libc \<Rightarrow> byte list \<Rightarrow> 'a heap_scheme \<Rightarrow> addr \<Rightarrow> addr \<Rightarrow> fault + addr \<times> 'a heap_scheme" where
  "create_trampoline_dev_zero fd closed L code s ctx routine =
     andthen (mmk_assert ''trampoline_sz < PAGE_SIZE'' (length code < unat PAGE_SIZE)) (\<lambda>_.
     andthen (mmk_assert ''fd != -1'' (fd \<noteq> - 1)) (\<lambda>_.
       let map = libc_mmap L (live s) PAGE_SIZE;
           s = (if map = - 1 then s
                else s\<lparr>live := (map, PAGE_SIZE) # live s,
                       prot := (\<lambda>x. if in_region map (unat PAGE_SIZE) x then PROT_RWX else prot s x)\<rparr>)
       in andthen (mmk_assert ''close(fd) != -1'' (closed \<noteq> - 1)) (\<lambda>_.
          andthen (mmk_assert ''map != MAP_FAILED'' (map \<noteq> - 1)) (\<lambda>_.
          let m = st64 (mem s) map ctx;
              m = st64 m (map + 8) routine;
              m = wr m (map + 16) code
          in andthen (mmk_mprotect L (s\<lparr>mem := m\<rparr>) map PAGE_SIZE PROT_RX) (\<lambda>(r, s).
             andthen (mmk_assert ''!mmk_mprotect(map, PAGE_SIZE, PROT_READ | PROT_EXEC)'' (r = 0)) (\<lambda>_.
               Inr (map + 16, s)))))))"

text \<open>When the file can be opened and closed, the trampoline is the one of anonymous memory.\<close>

lemma create_trampoline_dev_zero_eq:
  assumes "fd \<noteq> - 1" and "closed \<noteq> - 1"
  shows "create_trampoline_dev_zero fd closed L code s ctx routine = create_trampoline L code s ctx routine"
  using assms
  by (auto simp: create_trampoline_dev_zero_def create_trampoline_def sys_mmap_def mmk_mprotect_def Let_def andthen_def mmk_assert_def
      fun_eq_iff split: if_splits)

end
