(* ===== verification/Core.thy ===== *)
theory Core
  imports Plt_Elf Trampoline
begin

text \<open>
  \<open>src/core.c\<close>: initialisation of the library. What it finds in its process is
  the environment \<open>env\<close>: the C library, the code of the trampoline, the pointer \<open>plt_context\<close> that \<open>plt_init_ctx\<close>
  returns, which is the address of the dynamic linker's record, and the list of loaded objects \<open>r_debug\<close> that
  this record leads to. How the pointer is found is modelled in theory \<open>R_Debug\<close>. The state extends the heap with the static
  variable \<open>self\<close>. The images of the loaded objects count as live blocks of the heap, so that a
  fresh block is separate from them.
\<close>

record env =
  c_lib :: libc
  trampoline_code :: "byte list"
  plt_context :: addr
  r_debug :: plt_ctx

record core = heap +
  initialized :: cint
  plt :: plt_ctx

definition plt_init_ctx :: "env \<Rightarrow> plt_ctx" where
  "plt_init_ctx E = r_debug E"

text \<open>
  The assertion is that of the code, on the pointer. The first thing that \<open>mmk_init_vital_functions\<close> does with the context is
  to read \<open>ctx->r_map\<close>, which a null pointer does not allow.
\<close>

definition mmk_init :: "env \<Rightarrow> 'a core_scheme \<Rightarrow> fault + 'a core_scheme" where
  "mmk_init E s =
     (if initialized s \<noteq> 0 then Inr s
      else
        andthen (mmk_assert ''self.plt != (void* ) -1'' (plt_context E \<noteq> - 1)) (\<lambda>_.
        andthen (deref (if plt_context E = NULL then None else Some (plt_init_ctx E))) (\<lambda>ctx.
          let s = s\<lparr>plt := ctx\<rparr>
          in andthen (mmk_init_vital_functions (plt_get_real_fn (mem s) (plt s)) (vit s)) (\<lambda>v.
               Inr (s\<lparr>vit := v, initialized := 1\<rparr>)))))"

definition mmk_plt_ctx :: "'a core_scheme \<Rightarrow> fault + plt_ctx" where
  "mmk_plt_ctx s =
     andthen (mmk_assert ''self.initialized'' (initialized s \<noteq> 0)) (\<lambda>_. Inr (plt s))"

text \<open>What holds of the library's own state between calls.\<close>

definition core_wf :: "env \<Rightarrow> 'a core_scheme \<Rightarrow> bool" where
  "core_wf E s \<longleftrightarrow> blocks_wf (live s) \<and>
     (initialized s \<noteq> 0 \<longrightarrow> plt s = r_debug E \<and> vitals_ready (vit s))"

lemma mmk_plt_ctx_Inr_iff [ends]: "mmk_plt_ctx s = Inr p \<longleftrightarrow> initialized s \<noteq> 0 \<and> p = plt s"
  by (auto simp: mmk_plt_ctx_def ends)

lemma mmk_plt_ctx_uninitialized: "mmk_plt_ctx s = Inl (Assert_failed ''self.initialized'') \<longleftrightarrow> initialized s = 0"
  by (auto simp: mmk_plt_ctx_def mmk_assert_def)

lemma mmk_init_Inr:
  assumes "mmk_init E s = Inr s'"
  obtains "initialized s \<noteq> 0" and "s' = s"
  | v where "initialized s = 0" and "vitals_ready v"
      and "mmk_init_vital_functions (plt_get_real_fn (mem s) (r_debug E)) (vit s) = Inr v"
      and "s' = s\<lparr>vit := v, initialized := 1, plt := r_debug E\<rparr>"
  using assms mmk_init_vital_functions_ready
  by (force simp: mmk_init_def Let_def ends plt_init_ctx_def split: if_splits)

lemma mmk_init_initialized: "mmk_init E s = Inr s' \<Longrightarrow> initialized s' \<noteq> 0"
  by (erule mmk_init_Inr) auto

lemma mmk_init_again: "mmk_init E s = Inr s' \<Longrightarrow> mmk_init E s' = Inr s'"
  by (frule mmk_init_initialized) (simp add: mmk_init_def)

lemma mmk_init_keeps: "mmk_init E s = Inr s' \<Longrightarrow> mem s' = mem s \<and> live s' = live s \<and> prot s' = prot s"
  by (erule mmk_init_Inr) auto

lemma mmk_init_wf: "core_wf E s \<Longrightarrow> mmk_init E s = Inr s' \<Longrightarrow> core_wf E s'"
  by (erule mmk_init_Inr) (auto simp: core_wf_def)

lemma mmk_init_ready: "core_wf E s \<Longrightarrow> mmk_init E s = Inr s' \<Longrightarrow> vitals_ready (vit s')"
  by (erule mmk_init_Inr) (auto simp: core_wf_def)

lemma mmk_init_fails_Inl: "initialized s = 0 \<Longrightarrow> plt_context E \<notin> {NULL, - 1} \<Longrightarrow> r_debug E = [] \<Longrightarrow>
    mmk_init E s = Inl (Init_error True True)"
  by (simp add: mmk_init_def plt_init_ctx_def mmk_init_vital_functions_def mmk_assert_def)

lemma mmk_init_no_context: "initialized s = 0 \<Longrightarrow> mmk_init (E\<lparr>plt_context := NULL\<rparr>) s = Inl UB"
  by (simp add: mmk_init_def mmk_assert_def)

lemma mmk_init_context_rejected:
  "initialized s = 0 \<Longrightarrow> mmk_init (E\<lparr>plt_context := - 1\<rparr>) s = Inl (Assert_failed ''self.plt != (void* ) -1'')"
  by (simp add: mmk_init_def mmk_assert_def)

end
