(* ===== verification/Stub.thy ===== *)
theory Stub
  imports Core
begin

text \<open>
  \<open>src/stub.c\<close> and \<open>src/stub.h\<close>: a stub redirects the slots of a function to a trampoline that
  calls a replacement. A stub object is a record in a map from addresses, the typed view of the
  blocks it is allocated in; its array of slots is a list with the address of its block, and so is
  its name. The state extends the library's with the two thread-local variables of the file, the
  stub objects and \<open>errno\<close>; the development follows one thread. \<open>enter_trampoline\<close> is what
  the assembled code of \<open>mmk_trampoline\<close> does with the stub.
\<close>

section \<open>Stub objects\<close>

datatype callback = Mmk_ctx_asked | Mmk_set_ctx | Mmk_ctx

record mmk_stub =
  cb_ctx_asked :: callback
  cb_ctx_set :: callback
  cb_ctx_get :: callback
  stub_ctx :: addr
  stub_name :: string
  stub_name_ptr :: addr
  stub_path :: "string option"
  stub_offsets :: "plt_offset list"
  stub_offsets_ptr :: addr
  stub_trampoline :: addr
  stub_next :: addr

record stubbed = core +
  ask_ctx :: cint
  mmk_ctx_var :: addr
  stubs :: "addr \<rightharpoonup> mmk_stub"
  errno :: cint

abbreviation (input) MMK_STUB_INVALID :: addr where
  "MMK_STUB_INVALID \<equiv> NULL"

abbreviation ENOENT :: cint where
  "ENOENT \<equiv> 2"

abbreviation ENOMEM :: cint where
  "ENOMEM \<equiv> 12"

abbreviation (input) sizeof_mmk_stub :: size_t where
  "sizeof_mmk_stub \<equiv> 80"

definition mmk_stub_context :: "'a stubbed_scheme \<Rightarrow> addr \<Rightarrow> fault + addr" where
  "mmk_stub_context s stub =
     (if stub = MMK_STUB_INVALID then Inr NULL
      else andthen (deref (stubs s stub)) (\<lambda>st. Inr (stub_ctx st)))"

section \<open>The context of a call\<close>

definition mmk_ctx_asked :: "'a stubbed_scheme \<Rightarrow> cint \<times> 'a stubbed_scheme" where
  "mmk_ctx_asked s = (ask_ctx s, s\<lparr>ask_ctx := 0\<rparr>)"

definition mmk_ctx :: "'a stubbed_scheme \<Rightarrow> addr" where
  "mmk_ctx s = mmk_ctx_var s"

definition mmk_set_ctx :: "'a stubbed_scheme \<Rightarrow> addr \<Rightarrow> 'a stubbed_scheme" where
  "mmk_set_ctx s stub = s\<lparr>mmk_ctx_var := stub\<rparr>"

text \<open>
  A call of a trampoline: the context is read from the page, \<open>ctx_set\<close> is called with it and then
  \<open>ctx_asked\<close>; when that returns zero the routine is jumped to, otherwise the call
  returns what \<open>ctx_get\<close> returns. The three are called through the stub object. An address that does
  not hold the trampoline's code is not modelled as a function.
\<close>

datatype entered = Jumps addr | Returns addr

definition enter_trampoline ::
  "env \<Rightarrow> 'a stubbed_scheme \<Rightarrow> addr \<Rightarrow> fault + entered \<times> 'a stubbed_scheme" where
  "enter_trampoline E s t =
     (if \<not> is_trampoline (trampoline_code E) s t then Inl UB
      else andthen (deref (stubs s (trampoline_ctx (mem s) t))) (\<lambda>st.
        if cb_ctx_set st \<noteq> Mmk_set_ctx \<or> cb_ctx_asked st \<noteq> Mmk_ctx_asked \<or> cb_ctx_get st \<noteq> Mmk_ctx
        then Inl UB
        else
          let s = mmk_set_ctx s (trampoline_ctx (mem s) t);
              (asked, s) = mmk_ctx_asked s
          in Inr (if asked \<noteq> 0 then Returns (mmk_ctx s) else Jumps (trampoline_routine (mem s) t), s)))"

definition mmk_ask_ctx :: "env \<Rightarrow> 'a stubbed_scheme \<Rightarrow> addr \<Rightarrow> fault + addr \<times> 'a stubbed_scheme" where
  "mmk_ask_ctx E s fn =
     andthen (enter_trampoline E (s\<lparr>ask_ctx := 1\<rparr>) fn) (\<lambda>(r, s).
       case r of Returns stub \<Rightarrow> Inr (stub, s) | Jumps _ \<Rightarrow> Inl UB)"

section \<open>Creating and destroying stubs\<close>

text \<open>\<open>split_target\<close>: the copy of the target is cut at the first \<open>@\<close>, and the scope \<open>self\<close> is none.\<close>

definition split_target :: "string \<Rightarrow> string \<times> string option" where
  "split_target target =
     (case mmk_strchr target (CHR ''@'') of
        None \<Rightarrow> (target, None)
      | Some delim \<Rightarrow>
          (take (length target - length delim) target,
           if mmk_streq (tl delim) ''self'' then None else Some (tl delim)))"

definition mmk_stub_create_static ::
  "env \<Rightarrow> 'a stubbed_scheme \<Rightarrow> addr \<Rightarrow> string \<Rightarrow> addr \<Rightarrow> addr \<Rightarrow> fault + cint \<times> 'a stubbed_scheme" where
  "mmk_stub_create_static E s stub target fn ctx =
     andthen (mmk_malloc (c_lib E) (s\<lparr>ask_ctx := 0, mmk_ctx_var := NULL\<rparr>) (of_nat (mmk_strlen target + 1)))
       (\<lambda>(name_ptr, s).
       if name_ptr = NULL then Inr (- ENOMEM, s)
       else
         let (name, path) = split_target target
         in andthen (mmk_plt_ctx s) (\<lambda>pctx.
            andthen (plt_get_lib (mem s) pctx path) (\<lambda>lib.
            case lib of
              None \<Rightarrow> Inr (- ENOENT, s)
            | Some lib \<Rightarrow>
                andthen (plt_get_offsets (c_lib E) s pctx lib name) (\<lambda>(off_ptr, off, s).
                if off_ptr = NULL \<or> length off = 0 then Inr (- ENOENT, s)
                else if stub = NULL then Inl UB
                else andthen (create_trampoline (c_lib E) (trampoline_code E) s stub fn) (\<lambda>(t, s).
                     andthen (plt_set_offsets (c_lib E) s off t) (\<lambda>(off, s).
                       Inr (0, s\<lparr>stubs := (stubs s)(stub \<mapsto>
                         \<lparr>cb_ctx_asked = Mmk_ctx_asked, cb_ctx_set = Mmk_set_ctx, cb_ctx_get = Mmk_ctx,
                          stub_ctx = ctx, stub_name = name, stub_name_ptr = name_ptr, stub_path = path,
                          stub_offsets = off, stub_offsets_ptr = off_ptr,
                          stub_trampoline = t, stub_next = NULL\<rparr>)\<rparr>)))))))"

definition mmk_stub_create ::
  "env \<Rightarrow> 'a stubbed_scheme \<Rightarrow> string \<Rightarrow> addr \<Rightarrow> addr \<Rightarrow> fault + addr \<times> 'a stubbed_scheme" where
  "mmk_stub_create E s target fn ctx =
     andthen (mmk_init E s) (\<lambda>s.
     andthen (mmk_malloc (c_lib E) s sizeof_mmk_stub) (\<lambda>(stub, s).
     andthen (mmk_stub_create_static E s stub target fn ctx) (\<lambda>(rc, s).
       if rc <s 0
       then andthen (mmk_free s stub) (\<lambda>s. Inr (MMK_STUB_INVALID, s\<lparr>errno := rc\<rparr>))
       else Inr (stub, s))))"

definition mmk_stub_destroy_static :: "'a stubbed_scheme \<Rightarrow> addr \<Rightarrow> fault + 'a stubbed_scheme" where
  "mmk_stub_destroy_static s stub =
     andthen (deref (stubs s stub)) (\<lambda>st.
     andthen (plt_reset_offsets s (stub_offsets st)) (\<lambda>s.
     andthen (mmk_free s (stub_offsets_ptr st)) (\<lambda>s.
       mmk_free (destroy_trampoline s (stub_trampoline st)) (stub_name_ptr st))))"

definition mmk_stub_destroy :: "'a stubbed_scheme \<Rightarrow> addr \<Rightarrow> fault + 'a stubbed_scheme" where
  "mmk_stub_destroy s stub =
     andthen (mmk_stub_destroy_static s stub) (\<lambda>s.
     andthen (mmk_free s stub) (\<lambda>s. Inr (s\<lparr>stubs := (stubs s)(stub := None)\<rparr>)))"

section \<open>How creating a stub ends\<close>

lemma blocks_wf_NULL: "blocks_wf bs \<Longrightarrow> NULL \<notin> fst ` set bs"
  by (induction bs) (auto simp: fresh_block_def)

lemma unblock_NULL: "blocks_wf bs \<Longrightarrow> unblock NULL bs = bs"
  by (rule unblock_fresh) (rule blocks_wf_NULL)

lemma blocks_wf_Cons: "blocks_wf bs \<Longrightarrow> fresh_block bs p n \<Longrightarrow> blocks_wf ((p, n) # bs)"
  by simp

text \<open>The state after a stub has been created at \<open>stub\<close>.\<close>

definition stubbed_state ::
  "env \<Rightarrow> 'a stubbed_scheme \<Rightarrow> addr \<Rightarrow> string \<Rightarrow> addr \<Rightarrow> addr \<Rightarrow> addr \<Rightarrow> addr \<Rightarrow> addr \<Rightarrow> addr list \<Rightarrow>
    (addr \<Rightarrow> cint) \<Rightarrow> 'a stubbed_scheme" where
  "stubbed_state E s stub target fn ctx np op t as pr =
     (let m = wr (mem s) (t - 16) (trampoline_bytes (trampoline_code E) stub fn)
      in s\<lparr>ask_ctx := 0, mmk_ctx_var := NULL,
           live := (t - 16, PAGE_SIZE) # (op, of_nat (16 * length as)) # (np, of_nat (length target + 1)) # live s,
           prot := pr, mem := snd (patch m (new_slots as) t),
           stubs := (stubs s)(stub \<mapsto>
             \<lparr>cb_ctx_asked = Mmk_ctx_asked, cb_ctx_set = Mmk_set_ctx, cb_ctx_get = Mmk_ctx,
              stub_ctx = ctx, stub_name = fst (split_target target), stub_name_ptr = np,
              stub_path = snd (split_target target), stub_offsets = fst (patch m (new_slots as) t),
              stub_offsets_ptr = op, stub_trampoline = t, stub_next = NULL\<rparr>)\<rparr>)"

text \<open>The slots that a stub for \<open>target\<close> redirects.\<close>

definition target_slots :: "'a core_scheme \<Rightarrow> string \<Rightarrow> addr list option" where
  "target_slots s target =
     (case plt_get_lib (mem s) (plt s) (snd (split_target target)) of
        Inr (Some lib) \<Rightarrow> find_slots (mem s) (plt s ! lib) (fst (split_target target))
      | _ \<Rightarrow> None)"

lemma mmk_stub_create_static_Inr:
  assumes L: "libc_ok (c_lib E)" and wf: "blocks_wf (live s)" and mp: "fp_mprotect (vit s) \<noteq> NULL"
    and run: "mmk_stub_create_static E s stub target fn ctx = Inr (rc, s')"
  obtains (no_memory) "rc = - ENOMEM" and "s' = s\<lparr>ask_ctx := 0, mmk_ctx_var := NULL\<rparr>"
    | (not_found) np where "rc = - ENOENT" and "fresh_block (live s) np (of_nat (length target + 1))"
        and "s' = s\<lparr>ask_ctx := 0, mmk_ctx_var := NULL, live := (np, of_nat (length target + 1)) # live s\<rparr>"
        and "target_slots s target \<in> {None, Some []}"
    | (created) np op t as pr where "rc = 0" and "stub \<noteq> NULL" and "as \<noteq> []"
        and "target_slots s target = Some as"
        and "fresh_block (live s) np (of_nat (length target + 1))"
        and "fresh_block ((np, of_nat (length target + 1)) # live s) op (of_nat (16 * length as))"
        and "fresh_block ((op, of_nat (16 * length as)) # (np, of_nat (length target + 1)) # live s)
               (t - 16) PAGE_SIZE"
        and "length (trampoline_code E) < unat PAGE_SIZE"
        and "s' = stubbed_state E s stub target fn ctx np op t as pr"
proof -
  let ?s0 = "s\<lparr>ask_ctx := 0, mmk_ctx_var := NULL\<rparr>"
  define n where "n = (of_nat (length target + 1) :: size_t)"
  note D = mmk_stub_create_static_def [of E s stub target fn ctx, unfolded mmk_strlen_length, folded n_def]
  have n_eq: "1 + word_of_nat (length target) = n"
    by (simp add: n_def)
  define name path where np: "name = fst (split_target target)" "path = snd (split_target target)"
  obtain p s1 where m: "mmk_malloc (c_lib E) ?s0 n = Inr (p, s1)"
    using run by (auto simp: D ends)
  show ?thesis
  proof (cases "p = NULL")
    case True
    with run m have "rc = - ENOMEM" and "s' = ?s0"
      by (auto simp: D mmk_malloc_Inr_iff)
    then show ?thesis by (rule no_memory)
  next
    case False
    then have fresh: "fresh_block (live s) p n"
      using mmk_malloc_fresh [OF L m] by simp
    from m False have s1: "s1 = ?s0\<lparr>live := (p, n) # live s\<rparr>"
      by (auto simp: mmk_malloc_Inr_iff)
    from run m False obtain lib where lib: "plt_get_lib (mem s) (plt s) path = Inr lib"
      and "initialized s \<noteq> 0"
      by (auto simp: D ends np s1 Let_def split: prod.splits)
    show ?thesis
    proof (cases lib)
      case None
      with run m False lib s1 have "rc = - ENOENT" and "s' = s1"
        by (auto simp: D np ends Let_def split: prod.splits)
      moreover have "target_slots s target = None"
        using lib None by (simp add: target_slots_def np)
      ultimately show ?thesis
        using fresh by (intro not_found [of p]) (simp_all add: s1 n_eq)
    next
      case (Some i)
      with run m False lib obtain op offs s2 where
        g: "plt_get_offsets (c_lib E) s1 (plt s) i name = Inr (op, offs, s2)"
        by (auto simp: D ends np s1 Let_def split: prod.splits)
      then obtain as where as: "find_slots (mem s) (plt s ! i) name = Some as" and offs: "offs = new_slots as"
        and nil: "as = [] \<Longrightarrow> op = NULL \<and> s2 = s1"
        and s2: "as \<noteq> [] \<Longrightarrow> s2 = s1\<lparr>live := (op, of_nat (16 * length as)) # unblock NULL (live s1)\<rparr> \<and>
          fresh_block (unblock NULL (live s1)) op (of_nat (16 * length as))"
        using plt_get_offsets_Inr [OF L g] by (auto simp: s1)
      have un: "unblock NULL (live s1) = (p, n) # live s"
        using unblock_NULL [OF blocks_wf_Cons [OF wf fresh]] by (simp add: s1)
      have slots: "target_slots s target = Some as"
        using lib as Some by (simp add: target_slots_def np)
      show ?thesis
      proof (cases "as = []")
        case True
        with run m False lib s1 Some g nil offs have "rc = - ENOENT" and "s' = s1"
          by (auto simp: D np ends Let_def split: prod.splits)
        then show ?thesis
          using fresh slots True by (intro not_found [of p]) (simp_all add: s1 n_eq)
      next
        case ne: False
        with s2 un have fresh2: "fresh_block ((p, n) # live s) op (of_nat (16 * length as))"
          and s2': "s2 = s1\<lparr>live := (op, of_nat (16 * length as)) # (p, n) # live s\<rparr>"
          by auto
        then have "op \<noteq> NULL"
          by (simp add: fresh_block_def)
        with run m False lib s1 Some g offs ne obtain t s3 offs' s4 where "stub \<noteq> NULL"
          and c: "create_trampoline (c_lib E) (trampoline_code E) s2 stub fn = Inr (t, s3)"
          and set: "plt_set_offsets (c_lib E) s3 (new_slots as) t = Inr (offs', s4)"
          and rc: "rc = 0"
          and s': "s' = s4\<lparr>stubs := (stubs s4)(stub \<mapsto>
             \<lparr>cb_ctx_asked = Mmk_ctx_asked, cb_ctx_set = Mmk_set_ctx, cb_ctx_get = Mmk_ctx,
              stub_ctx = ctx, stub_name = name, stub_name_ptr = p,
              stub_path = path, stub_offsets = offs',
              stub_offsets_ptr = op, stub_trampoline = t, stub_next = NULL\<rparr>)\<rparr>"
          by (auto simp: D np ends Let_def split: prod.splits if_splits)
        from c obtain q pr where q: "t = q + 16" "q = libc_mmap (c_lib E) (live s2) PAGE_SIZE" "q \<noteq> - 1"
          "length (trampoline_code E) < unat PAGE_SIZE"
          "s3 = s2\<lparr>live := (q, PAGE_SIZE) # live s2,
             mem := wr (mem s2) q (trampoline_bytes (trampoline_code E) stub fn), prot := pr\<rparr>"
          by (rule create_trampoline_Inr)
        have "fresh_block (live s2) q PAGE_SIZE"
          using L q(2,3) by (simp add: libc_ok_def)
        moreover obtain pr' where "offs' = fst (patch (mem s3) (new_slots as) t)"
          and "s4 = s3\<lparr>prot := pr', mem := snd (patch (mem s3) (new_slots as) t)\<rparr>"
          using plt_set_offsets_patch [of s3 "c_lib E" "new_slots as" t] set mp q(5) s2' s1 by auto
        ultimately show ?thesis
          using rc \<open>stub \<noteq> NULL\<close> ne slots fresh fresh2 q s' s2' s1
          by (intro created [of as p op t pr']) (simp_all add: stubbed_state_def Let_def np n_eq)
      qed
    qed
  qed
qed

lemma errno_negative [simp]: "(- 12 :: cint) <s 0" "(- 2 :: cint) <s 0"
  by (simp_all add: word_sless_alt)

lemma blocks_wf_distinct: "blocks_wf bs \<Longrightarrow> distinct (map fst bs)"
  by (induction bs) (auto simp: fresh_block_def)

lemma unblock_middle: "blocks_wf (cs @ (p, n) # bs) \<Longrightarrow> unblock p (cs @ (p, n) # bs) = cs @ bs"
  using blocks_wf_distinct [of "cs @ (p, n) # bs"]
  by (auto simp: unblock_def filter_id_conv intro!: arg_cong2 [where f = append])

lemma blocks_wf_middle: "blocks_wf (cs @ (p, n) # bs) \<Longrightarrow> p \<noteq> NULL"
  using blocks_wf_NULL by fastforce

lemma mmk_free_block:
  assumes "fp_free (vit s) \<noteq> NULL" and "live s = cs @ (p, n) # bs" and "blocks_wf (live s)"
  shows "mmk_free s p = Inr (s\<lparr>live := cs @ bs\<rparr>)"
  using assms unblock_middle [of cs p n bs] blocks_wf_middle [of cs p n bs]
  by (simp add: mmk_free_def)

lemma mmk_free_NULL: "fp_free (vit s) \<noteq> NULL \<Longrightarrow> mmk_free s NULL = Inr s"
  by (simp add: mmk_free_def)

lemma target_slots_live [simp]: "target_slots (s\<lparr>live := bs\<rparr>) target = target_slots s target"
  by (auto simp: target_slots_def split: sum.split option.split)

lemma mmk_stub_create_Inr:
  assumes L: "libc_ok (c_lib E)" and wf: "core_wf E s"
    and run: "mmk_stub_create E s target fn ctx = Inr (stub, s')"
  obtains (failed) s1 rc bs where "mmk_init E s = Inr s1" and "stub = NULL" and "rc \<in> {- ENOMEM, - ENOENT}"
        and "bs = live s \<or> (\<exists>np. fresh_block (live s) np (of_nat (length target + 1)) \<and>
               bs = (np, of_nat (length target + 1)) # live s)"
        and "s' = s1\<lparr>live := bs, ask_ctx := 0, mmk_ctx_var := NULL, errno := rc\<rparr>"
        and "rc = - ENOMEM \<or> target_slots s1 target \<in> {None, Some []}"
    | (created) s1 np op t as pr where "mmk_init E s = Inr s1" and "stub \<noteq> NULL" and "as \<noteq> []"
        and "target_slots s1 target = Some as"
        and "blocks_wf ((t - 16, PAGE_SIZE) # (op, of_nat (16 * length as)) #
               (np, of_nat (length target + 1)) # (stub, sizeof_mmk_stub) # live s)"
        and "length (trampoline_code E) < unat PAGE_SIZE"
        and "s' = stubbed_state E (s1\<lparr>live := (stub, sizeof_mmk_stub) # live s\<rparr>)
               stub target fn ctx np op t as pr"
proof -
  from run obtain s1 p s2 rc s3 where i: "mmk_init E s = Inr s1"
    and m: "mmk_malloc (c_lib E) s1 sizeof_mmk_stub = Inr (p, s2)"
    and c: "mmk_stub_create_static E s2 p target fn ctx = Inr (rc, s3)"
    and f: "if rc <s 0 then andthen (mmk_free s3 p) (\<lambda>s. Inr (MMK_STUB_INVALID, s\<lparr>errno := rc\<rparr>)) = Inr (stub, s')
      else stub = p \<and> s' = s3"
    by (auto simp: mmk_stub_create_def ends split: if_splits)
  have wf1: "blocks_wf (live s)" "live s1 = live s" "vitals_ready (vit s1)"
    using wf mmk_init_keeps [OF i] mmk_init_ready [OF wf i] by (simp_all add: core_wf_def)
  define bs where "bs = (if p = NULL then [] else [(p, sizeof_mmk_stub)]) @ live s"
  have s2: "s2 = s1\<lparr>live := bs\<rparr>"
    using m wf1(2) by (auto simp: mmk_malloc_Inr_iff bs_def)
  have wfbs: "blocks_wf bs"
    using mmk_malloc_wf [OF L _ m] wf1 s2 by simp
  have free: "mmk_free w p = Inr (w\<lparr>live := cs @ live s\<rparr>)"
    if "live w = cs @ bs" "blocks_wf (cs @ bs)" "vitals_ready (vit w)" for cs and w :: "'a stubbed_scheme"
    using mmk_free_block [of w cs p sizeof_mmk_stub "live s"] that
    by (auto simp: bs_def vitals_ready_def mmk_free_NULL split: if_splits)
  have "vitals_ready (vit s2)" "live s2 = bs"
    using s2 wf1(3) by simp_all
  then have "blocks_wf (live s2)" "fp_mprotect (vit s2) \<noteq> NULL"
    using wfbs by (simp_all add: vitals_ready_def)
  from L this c show ?thesis
  proof (cases rule: mmk_stub_create_static_Inr)
    case no_memory
    with f free [of s3 "[]"] s2 wfbs wf1(3) show ?thesis
      by (intro failed [OF i, of rc "live s"]) auto
  next
    case (not_found np)
    with f free [of s3 "[(np, of_nat (length target + 1))]"]
      s2 wfbs wf1(3) show ?thesis
      by (intro failed [OF i, of rc "(np, of_nat (length target + 1)) # live s"]) 
        (auto simp: fresh_block_def bs_def)
  next
    case (created np op t as pr)
    then have "stub = p"
      using f by simp
    with created f s2 wfbs show ?thesis
      by (intro that(2) [OF i, of as t op np pr]) (simp_all add: bs_def)
  qed
qed

text \<open>A target that has slots is refused for want of memory only.\<close>

lemma mmk_stub_create_refused:
  assumes "libc_ok (c_lib E)" and "core_wf E s" and "mmk_stub_create E s target fn ctx = Inr (NULL, s')"
    and "mmk_init E s = Inr s1" and "target_slots s1 target = Some as" and "as \<noteq> []"
  shows "errno s' = - ENOMEM"
  using assms(1-3) by (cases rule: mmk_stub_create_Inr) (use assms(4-6) in auto)

section \<open>An installed stub\<close>

text \<open>
  \<open>installed E s stub fn ctx\<close>: the object at \<open>stub\<close> has the user context \<open>ctx\<close> and its trampoline
  is mapped, holds the trampoline's code and was made for \<open>stub\<close> and \<open>fn\<close>.
  \<open>slots_ok\<close>: slots that do not overlap and lie within live blocks.
\<close>

definition installed :: "env \<Rightarrow> 'a stubbed_scheme \<Rightarrow> addr \<Rightarrow> addr \<Rightarrow> addr \<Rightarrow> bool" where
  "installed E s stub fn ctx \<longleftrightarrow> stub \<noteq> NULL \<and>
     (case stubs s stub of None \<Rightarrow> False | Some st \<Rightarrow>
        cb_ctx_set st = Mmk_set_ctx \<and> cb_ctx_asked st = Mmk_ctx_asked \<and> cb_ctx_get st = Mmk_ctx \<and>
        stub_ctx st = ctx \<and> is_trampoline (trampoline_code E) s (stub_trampoline st) \<and>
        trampoline_ctx (mem s) (stub_trampoline st) = stub \<and>
        trampoline_routine (mem s) (stub_trampoline st) = fn)"

definition trampoline_of :: "'a stubbed_scheme \<Rightarrow> addr \<Rightarrow> addr" where
  "trampoline_of s stub = (case stubs s stub of None \<Rightarrow> NULL | Some st \<Rightarrow> stub_trampoline st)"

definition within :: "addr \<Rightarrow> size_t \<Rightarrow> addr \<Rightarrow> nat \<Rightarrow> bool" where
  "within q k a n \<longleftrightarrow> unat (a - q) + n \<le> unat k"

definition slots_ok :: "blocks \<Rightarrow> addr list \<Rightarrow> bool" where
  "slots_ok bs as \<longleftrightarrow> slots_apart as \<and> (\<forall>a \<in> set as. \<exists>(q, k) \<in> set bs. within q k a 8)"

lemma within_in_region: "within q k a n \<Longrightarrow> in_region a n x \<Longrightarrow> in_region q (unat k) x"
  using less_imp_le [OF unat_less_64, of k]
  by (intro in_region_shift [of q "unat (a - q)" n x "unat k"]) (simp_all add: within_def)

lemma within_fresh: "fresh_block bs p n \<Longrightarrow> (q, k) \<in> set bs \<Longrightarrow> within q k a i \<Longrightarrow> separate p (unat n) a i"
  by (rule separate_sub [OF fresh_block_separate [of bs p n q k]]) (auto intro: within_in_region)

lemma slots_ok_fresh: "fresh_block bs p n \<Longrightarrow> slots_ok bs as \<Longrightarrow> a \<in> set as \<Longrightarrow> separate p (unat n) a 8"
  unfolding slots_ok_def using within_fresh by blast

lemma slots_ok_Cons: "slots_ok bs as \<Longrightarrow> slots_ok (b # bs) as"
  by (fastforce simp: slots_ok_def)

lemma slots_new_slots [simp]: "slots (new_slots as) = as"
  by (simp add: slots_def comp_def)

lemma enter_installed:
  assumes "installed E s stub fn ctx"
  shows "enter_trampoline E s (trampoline_of s stub) =
    Inr (if ask_ctx s \<noteq> 0 then Returns stub else Jumps fn, s\<lparr>mmk_ctx_var := stub, ask_ctx := 0\<rparr>)"
  using assms by (auto simp: installed_def enter_trampoline_def trampoline_of_def mmk_set_ctx_def
      mmk_ctx_asked_def mmk_ctx_def split: option.splits)

lemma installed_context: "installed E s stub fn ctx \<Longrightarrow> mmk_stub_context s stub = Inr ctx"
  by (auto simp: installed_def mmk_stub_context_def split: option.splits)

lemma ask_installed:
  "installed E s stub fn ctx \<Longrightarrow> mmk_ask_ctx E s (trampoline_of s stub) =
    Inr (stub, s\<lparr>ask_ctx := 0, mmk_ctx_var := stub\<rparr>)"
  using enter_installed [of E "s\<lparr>ask_ctx := 1\<rparr>" stub fn ctx]
  by (cases "stubs s stub") (auto simp: mmk_ask_ctx_def installed_def trampoline_of_def is_trampoline_def)

section \<open>What creating a stub establishes, and what destroying it restores\<close>

lemma in_page: "n + i \<le> unat (k :: size_t) \<Longrightarrow> in_region (p + of_nat i) n x \<Longrightarrow> in_region p (unat k) x"
  using less_imp_le [OF unat_less_64, of k]
  by (intro in_region_shift [of p i n x "unat k"]) (simp_all add: add.commute)

lemma created_trampoline:
  assumes page: "fresh_block bs (t - 16) PAGE_SIZE" and slots: "slots_ok bs as"
    and code: "length code + 16 \<le> unat PAGE_SIZE"
    and m': "m' = snd (patch (wr m (t - 16) (trampoline_bytes code ctx routine)) (new_slots as) t)"
  shows "trampoline_ctx m' t = ctx" and "trampoline_routine m' t = routine"
    and "rd m' t (length code) = code"
proof -
  let ?w = "wr m (t - 16) (trampoline_bytes code ctx routine)"
  have len: "length code < 2 ^ 32"
    using code by (simp add: PAGE_SIZE_def)
  have same: "rd m' (t - 16 + of_nat i) n = rd ?w (t - 16 + of_nat i) n" if "n + i \<le> 16 + length code" for i n
    unfolding m'
  proof (rule patch_rd)
    show "\<forall>a \<in> set (slots (new_slots as)). separate a 8 (t - 16 + of_nat i) n"
    proof
      fix a
      assume "a \<in> set (slots (new_slots as))"
      then have "separate (t - 16) (unat PAGE_SIZE) a 8"
        using slots_ok_fresh [OF page slots] by simp
      then show "separate a 8 (t - 16 + of_nat i) n"
        by (rule separate_sub [OF separate_sym [THEN iffD1]])
          (use that code in_page [of n i PAGE_SIZE "t - 16"] in auto)
    qed
    show "n \<le> 2 ^ 64"
      using that len by simp
  qed
  note r = rd_trampoline_bytes [OF len, of m "t - 16" ctx routine]
  show "trampoline_ctx m' t = ctx"
    using same [of 8 0] r(1) by (simp add: trampoline_ctx_def ld64_def)
  show "trampoline_routine m' t = routine"
    using same [of 8 8] r(2) by (simp add: trampoline_routine_def ld64_def)
  show "rd m' t (length code) = code"
    using same [of "length code" 16] r(3) by simp
qed

lemma stubbed_state_installed:
  assumes "fresh_block bs (t - 16) PAGE_SIZE" and "slots_ok bs as" and "stub \<noteq> NULL"
    and "length (trampoline_code E) + 16 \<le> unat PAGE_SIZE"
  shows "installed E (stubbed_state E s stub target fn ctx np op t as pr) stub fn ctx"
    and "trampoline_of (stubbed_state E s stub target fn ctx np op t as pr) stub = t"
    and "\<forall>a \<in> set as. ld64 (mem (stubbed_state E s stub target fn ctx np op t as pr)) a = t"
proof -
  note c = created_trampoline [OF assms(1,2,4) refl]
  show "installed E (stubbed_state E s stub target fn ctx np op t as pr) stub fn ctx"
    using assms(3) by (simp add: installed_def stubbed_state_def Let_def is_trampoline_def c)
  show "trampoline_of (stubbed_state E s stub target fn ctx np op t as pr) stub = t"
    by (simp add: trampoline_of_def stubbed_state_def Let_def)
  show "\<forall>a \<in> set as. ld64 (mem (stubbed_state E s stub target fn ctx np op t as pr)) a = t"
    using assms(2) patch_slot [of "new_slots as"] by (simp add: stubbed_state_def Let_def slots_ok_def)
qed

text \<open>A block that was live before the stub has its bytes, apart from the redirected slots.\<close>

lemma stubbed_state_frame:
  assumes "fresh_block bs (t - 16) PAGE_SIZE" and "length (trampoline_code E) + 16 \<le> unat PAGE_SIZE"
    and "(q, k) \<in> set bs" and "in_region q (unat k) x" and "\<forall>a \<in> set as. \<not> in_region a 8 x"
  shows "mem (stubbed_state E s stub target fn ctx np op t as pr) x = mem s x"
proof -
  have "\<not> in_region (t - 16) (unat PAGE_SIZE) x"
    using fresh_block_separate [OF assms(1,3)] assms(4) by (auto simp: separate_def)
  then have "\<not> in_region (t - 16) (16 + length (trampoline_code E)) x"
    using assms(2) in_region_prefix by fastforce
  with assms(2,5) show ?thesis
    by (simp add: stubbed_state_def Let_def patch_outside wr_outside PAGE_SIZE_def)
qed

lemma destroy_stubbed_state:
  assumes wf: "blocks_wf ((t - 16, PAGE_SIZE) # (op, on) # (np, nn) # (stub, sn) # bs)"
    and on: "on = of_nat (16 * length as)" and nn: "nn = of_nat (length target + 1)"
    and s: "live s = (stub, sn) # bs" and ready: "vitals_ready (vit s)" and apart: "slots_apart as"
  obtains s'' where
    "mmk_stub_destroy (stubbed_state E s stub target fn ctx np op t as pr) stub = Inr s''"
    and "s'' = s\<lparr>ask_ctx := 0, mmk_ctx_var := NULL, prot := pr, live := bs,
      mem := wr (mem s) (t - 16) (trampoline_bytes (trampoline_code E) stub fn),
      stubs := (stubs s)(stub := None)\<rparr>"
proof -
  let ?m = "wr (mem s) (t - 16) (trampoline_bytes (trampoline_code E) stub fn)"
  let ?s = "stubbed_state E s stub target fn ctx np op t as pr"
  have live: "live ?s = (t - 16, PAGE_SIZE) # (op, on) # (np, nn) # (stub, sn) # bs"
    using s on nn by (simp add: stubbed_state_def Let_def)
  have wfs: "blocks_wf ((t - 16, PAGE_SIZE) # (np, nn) # (stub, sn) # bs)"
    "blocks_wf ((np, nn) # (stub, sn) # bs)" "blocks_wf ((stub, sn) # bs)"
    using wf by (auto simp: fresh_block_def)
  have vit: "fp_free (vit ?s) \<noteq> NULL"
    using ready by (simp add: stubbed_state_def Let_def vitals_ready_def)
  have st: "stubs ?s stub = Some \<lparr>cb_ctx_asked = Mmk_ctx_asked, cb_ctx_set = Mmk_set_ctx, cb_ctx_get = Mmk_ctx,
      stub_ctx = ctx, stub_name = fst (split_target target), stub_name_ptr = np,
      stub_path = snd (split_target target), stub_offsets = fst (patch ?m (new_slots as) t),
      stub_offsets_ptr = op, stub_trampoline = t, stub_next = NULL\<rparr>"
    by (simp add: stubbed_state_def Let_def)
  have un: "unpatch (mem ?s) (fst (patch ?m (new_slots as) t)) = ?m"
    using unpatch_patch [of "new_slots as" ?m t] apart by (simp add: stubbed_state_def Let_def)
  let ?u = "\<lambda>bs. ?s\<lparr>mem := ?m, live := bs\<rparr>"
  have f1: "mmk_free (?s\<lparr>mem := ?m\<rparr>) op = Inr (?u ((t - 16, PAGE_SIZE) # (np, nn) # (stub, sn) # bs))"
    using mmk_free_block [of "?s\<lparr>mem := ?m\<rparr>" "[(t - 16, PAGE_SIZE)]" op on "(np, nn) # (stub, sn) # bs"]
      live wf vit by simp
  have f2: "destroy_trampoline (?u ((t - 16, PAGE_SIZE) # (np, nn) # (stub, sn) # bs)) t =
      ?u ((np, nn) # (stub, sn) # bs)"
    using wfs(1) by (simp add: destroy_trampoline_def sys_munmap_def unblock_head)
  have f3: "mmk_free (?u ((np, nn) # (stub, sn) # bs)) np = Inr (?u ((stub, sn) # bs))"
    using mmk_free_block [of "?u ((np, nn) # (stub, sn) # bs)" "[]"] wfs(2) vit by simp
  have f4: "mmk_free (?u ((stub, sn) # bs)) stub = Inr (?u bs)"
    using mmk_free_block [of "?u ((stub, sn) # bs)" "[]"] wfs(3) vit by simp
  have "mmk_stub_destroy ?s stub = Inr ((?u bs)\<lparr>stubs := (stubs ?s)(stub := None)\<rparr>)"
    by (simp add: mmk_stub_destroy_def mmk_stub_destroy_static_def st plt_reset_offsets_unpatch un f1 f2 f3 f4)
  then show ?thesis
    by (rule that) (simp add: stubbed_state_def Let_def)
qed

section \<open>Creating a stub\<close>

lemma mmk_stub_create_installs:
  assumes L: "libc_ok (c_lib E)" and wf: "core_wf E s" and code: "length (trampoline_code E) + 16 \<le> unat PAGE_SIZE"
    and init: "mmk_init E s = Inr s1" and slots: "target_slots s1 target = Some as" "slots_ok (live s) as"
    and run: "mmk_stub_create E s target fn ctx = Inr (stub, s')" and stub: "stub \<noteq> NULL"
  shows "installed E s' stub fn ctx" and "as \<noteq> []"
    and "\<forall>a \<in> set as. ld64 (mem s') a = trampoline_of s' stub"
    and "ask_ctx s' = 0" and "blocks_wf (live s')"
    and "\<exists>bs. live s' = bs @ live s"
    and "\<forall>p. p \<noteq> stub \<longrightarrow> stubs s' p = stubs s p"
    and "(q, k) \<in> set (live s) \<Longrightarrow> in_region q (unat k) x \<Longrightarrow> \<forall>a \<in> set as. \<not> in_region a 8 x \<Longrightarrow>
      mem s' x = mem s x"
    and "\<exists>s''. mmk_stub_destroy s' stub = Inr s'' \<and> live s'' = live s \<and> stubs s'' = (stubs s')(stub := None) \<and>
      (\<forall>(q, k) \<in> set (live s). \<forall>x. in_region q (unat k) x \<longrightarrow> mem s'' x = mem s x)"
proof -
  from L wf run obtain np op t bs' pr where
    blocks: "blocks_wf ((t - 16, PAGE_SIZE) # (op, of_nat (16 * length as)) #
      (np, of_nat (length target + 1)) # (stub, sizeof_mmk_stub) # live s)"
    and ne: "as \<noteq> []"
    and s': "s' = stubbed_state E (s1\<lparr>live := (stub, sizeof_mmk_stub) # live s\<rparr>) stub target fn ctx np op t as pr"
    by (rule mmk_stub_create_Inr) (use stub init slots(1) in auto)
  let ?bs = "(op, of_nat (16 * length as)) # (np, of_nat (length target + 1)) # (stub, sizeof_mmk_stub) # live s"
  let ?s2 = "s1\<lparr>live := (stub, sizeof_mmk_stub) # live s\<rparr>"
  have page: "fresh_block ?bs (t - 16) PAGE_SIZE"
    using blocks by (simp only: blocks_wf.simps fst_conv snd_conv)
  have ok: "slots_ok ?bs as"
    by (intro slots_ok_Cons slots(2))
  note inst = stubbed_state_installed [OF page ok stub code]
  have keep: "stubs s1 = stubs s" "mem s1 = mem s" "vitals_ready (vit s1)" "live s1 = live s"
    using init mmk_init_keeps [OF init] mmk_init_ready [OF wf init]
    by (auto elim!: mmk_init_Inr)
  have live: "live s' = (t - 16, PAGE_SIZE) # ?bs"
    by (simp add: s' stubbed_state_def Let_def)
  show "installed E s' stub fn ctx"
    unfolding s' by (rule inst(1))
  show "as \<noteq> []"
    by (rule ne)
  show "\<forall>a \<in> set as. ld64 (mem s') a = trampoline_of s' stub"
    unfolding s' inst(2) by (rule inst(3))
  show "ask_ctx s' = 0"
    by (simp add: s' stubbed_state_def Let_def)
  show "blocks_wf (live s')"
    unfolding live by (rule blocks)
  show "\<exists>bs. live s' = bs @ live s"
    unfolding live
    by (intro exI [of _ "[(t - 16, PAGE_SIZE), (op, of_nat (16 * length as)),
          (np, of_nat (length target + 1)), (stub, sizeof_mmk_stub)]"]) simp
  show "\<forall>p. p \<noteq> stub \<longrightarrow> stubs s' p = stubs s p"
    by (simp add: s' stubbed_state_def Let_def keep)
  show "mem s' x = mem s x" if "(q, k) \<in> set (live s)" "in_region q (unat k) x" "\<forall>a \<in> set as. \<not> in_region a 8 x"
    using stubbed_state_frame [OF page code, of q k x as ?s2] that by (simp add: s' keep)
  obtain s'' where s'': "mmk_stub_destroy s' stub = Inr s''"
    "s'' = ?s2\<lparr>ask_ctx := 0, mmk_ctx_var := NULL, prot := pr, live := live s,
      mem := wr (mem ?s2) (t - 16) (trampoline_bytes (trampoline_code E) stub fn),
      stubs := (stubs ?s2)(stub := None)\<rparr>"
    unfolding s' using blocks slots(2) keep(3)
    by (elim destroy_stubbed_state [OF _ refl refl, of t op as np target stub sizeof_mmk_stub "live s" ?s2 E fn ctx pr])
      (simp_all add: slots_ok_def)
  have "mem s'' x = mem s x" if "(q, k) \<in> set (live s)" "in_region q (unat k) x" for q k x
  proof -
    have "\<not> in_region (t - 16) (16 + length (trampoline_code E)) x"
      using fresh_block_separate [OF page, of q k] that code in_region_prefix [of "t - 16" _ x "unat PAGE_SIZE"]
      by (auto simp: separate_def)
    then show ?thesis
      using code by (simp add: s''(2) keep wr_outside PAGE_SIZE_def)
  qed
  then show "\<exists>s''. mmk_stub_destroy s' stub = Inr s'' \<and> live s'' = live s \<and> stubs s'' = (stubs s')(stub := None) \<and>
      (\<forall>(q, k) \<in> set (live s). \<forall>x. in_region q (unat k) x \<longrightarrow> mem s'' x = mem s x)"
    using s'' by (intro exI [of _ s'']) (auto simp: s' stubbed_state_def Let_def)
qed

end
