(* ===== verification/Matcher.thy ===== *)
theory Matcher
  imports Stub "HOL-Library.Multiset"
begin

text \<open>
  \<open>src/matcher.c\<close> and \<open>include/mimick/matcher.h\<close>: the list of matchers of a call expression. The
  thread-local \<open>matcher_ctx\<close> points to its head, whose kind says whether the expression belongs to
  \<open>mmk_when\<close> (0) or \<open>mmk_verify\<close> (1); the matchers of the arguments follow it, sorted by their
  counter, since C evaluates the arguments in any order. Also here: the comparison
  of one argument with one matcher, which the macros of \<open>include/mimick/mock.h\<close> expand to.
\<close>

unbundle bit_operations_syntax

section \<open>Kinds\<close>

definition MMK_MATCHER_BIT_CMP :: cint where "MMK_MATCHER_BIT_CMP = push_bit (8 * 4 - 2) 1"
definition MMK_MATCHER_BIT_EQ :: cint where "MMK_MATCHER_BIT_EQ = push_bit 1 1"
definition MMK_MATCHER_BIT_LT :: cint where "MMK_MATCHER_BIT_LT = push_bit 2 1"
definition MMK_MATCHER_BIT_GT :: cint where "MMK_MATCHER_BIT_GT = push_bit 3 1"

definition MMK_MATCHER_ANY :: cint where "MMK_MATCHER_ANY = 0"
definition MMK_MATCHER_THAT :: cint where "MMK_MATCHER_THAT = 1"
definition MMK_MATCHER_EQ :: cint where
  "MMK_MATCHER_EQ = MMK_MATCHER_BIT_CMP OR MMK_MATCHER_BIT_EQ"
definition MMK_MATCHER_NEQ :: cint where
  "MMK_MATCHER_NEQ = MMK_MATCHER_BIT_CMP OR MMK_MATCHER_BIT_LT OR MMK_MATCHER_BIT_GT"
definition MMK_MATCHER_LT :: cint where
  "MMK_MATCHER_LT = MMK_MATCHER_BIT_CMP OR MMK_MATCHER_BIT_LT"
definition MMK_MATCHER_LEQ :: cint where
  "MMK_MATCHER_LEQ = MMK_MATCHER_BIT_CMP OR MMK_MATCHER_BIT_EQ OR MMK_MATCHER_BIT_LT"
definition MMK_MATCHER_GT :: cint where
  "MMK_MATCHER_GT = MMK_MATCHER_BIT_CMP OR MMK_MATCHER_BIT_GT"
definition MMK_MATCHER_GEQ :: cint where
  "MMK_MATCHER_GEQ = MMK_MATCHER_BIT_CMP OR MMK_MATCHER_BIT_EQ OR MMK_MATCHER_BIT_GT"

lemmas matcher_kinds =
  MMK_MATCHER_ANY_def MMK_MATCHER_THAT_def MMK_MATCHER_EQ_def MMK_MATCHER_NEQ_def MMK_MATCHER_LT_def
  MMK_MATCHER_LEQ_def MMK_MATCHER_GT_def MMK_MATCHER_GEQ_def MMK_MATCHER_BIT_CMP_def
  MMK_MATCHER_BIT_EQ_def MMK_MATCHER_BIT_LT_def MMK_MATCHER_BIT_GT_def

section \<open>The list of matchers\<close>

record mmk_matcher =
  m_kind :: cint
  m_prio :: size_t
  m_data :: addr
  m_next :: addr

record matching = stubbed +
  matchers :: "addr \<rightharpoonup> mmk_matcher"
  matcher_ctx :: addr

abbreviation (input) sizeof_mmk_matcher :: size_t where
  "sizeof_mmk_matcher \<equiv> 32"

text \<open>An allocation that fails is not checked for, so the store that follows is through \<open>NULL\<close>.\<close>

definition mmk_matcher_init :: "env \<Rightarrow> 'a matching_scheme \<Rightarrow> cint \<Rightarrow> fault + 'a matching_scheme" where
  "mmk_matcher_init E s kind =
     andthen (mmk_malloc (c_lib E) s sizeof_mmk_matcher) (\<lambda>(ctx, s).
       if ctx = NULL then Inl UB
       else Inr (s\<lparr>matchers := (matchers s)(ctx \<mapsto>
                     \<lparr>m_kind = kind, m_prio = 0, m_data = NULL, m_next = NULL\<rparr>),
                   matcher_ctx := ctx\<rparr>))"

definition mmk_matcher_term :: "'a matching_scheme \<Rightarrow> 'a matching_scheme" where
  "mmk_matcher_term s = s\<lparr>matcher_ctx := NULL\<rparr>"

definition mmk_matcher_ctx :: "'a matching_scheme \<Rightarrow> addr" where
  "mmk_matcher_ctx s = matcher_ctx s"

text \<open>The loop of \<open>mmk_matcher_add_data\<close>: the object after which the new one goes.\<close>

partial_function (option) insertion_point ::
  "(addr \<rightharpoonup> mmk_matcher) \<Rightarrow> size_t \<Rightarrow> addr \<Rightarrow> addr \<Rightarrow> (fault + addr) option" where
  "insertion_point ms prio prev m =
     (if m = NULL then Some (Inr prev)
      else case ms m of
        None \<Rightarrow> Some (Inl UB)
      | Some n \<Rightarrow> if m_prio n < prio then insertion_point ms prio m (m_next n) else Some (Inr prev))"

definition mmk_matcher_add_data ::
  "env \<Rightarrow> 'a matching_scheme \<Rightarrow> cint \<Rightarrow> cint \<Rightarrow> addr \<Rightarrow> fault + 'a matching_scheme" where
  "mmk_matcher_add_data E s kind counter dat =
     andthen (mmk_malloc (c_lib E) s sizeof_mmk_matcher) (\<lambda>(out, s).
       if out = NULL then Inl UB
       else
         let new = \<lparr>m_kind = kind, m_prio = scast counter, m_data = dat, m_next = NULL\<rparr>;
             s = s\<lparr>matchers := (matchers s)(out \<mapsto> new)\<rparr>
         in andthen (deref (matchers s (matcher_ctx s))) (\<lambda>first.
            andthen (finishes (insertion_point (matchers s) (m_prio new) (matcher_ctx s) (m_next first)))
              (\<lambda>prev.
            andthen (deref (matchers s prev)) (\<lambda>before.
              Inr (s\<lparr>matchers := (matchers s)(out \<mapsto> new\<lparr>m_next := m_next before\<rparr>,
                       prev \<mapsto> before\<lparr>m_next := out\<rparr>)\<rparr>)))))"

definition mmk_matcher_add_fn ::
  "env \<Rightarrow> 'a matching_scheme \<Rightarrow> cint \<Rightarrow> cint \<Rightarrow> addr \<Rightarrow> fault + 'a matching_scheme" where
  "mmk_matcher_add_fn E s kind counter fn = mmk_matcher_add_data E s kind counter fn"

definition mmk_matcher_add :: "env \<Rightarrow> 'a matching_scheme \<Rightarrow> cint \<Rightarrow> cint \<Rightarrow> fault + 'a matching_scheme" where
  "mmk_matcher_add E s kind counter = mmk_matcher_add_data E s kind counter NULL"

definition mmk_matcher_get_predicate :: "mmk_matcher \<Rightarrow> addr" where
  "mmk_matcher_get_predicate m = m_data m"

section \<open>Matching one argument\<close>

text \<open>
  \<open>MMK_TRYMATCH\<close> and \<open>MMK_TRYVERIFY\<close> for one parameter: when the list has a further matcher it is used,
  otherwise the value is compared with the reference for equality. The comparisons of the parameter's
  type and the calls of predicates are parameters. The result is whether the value was
  accepted, and the matcher reached.
\<close>

record 'v operators =
  op_eq :: "'v \<Rightarrow> 'v \<Rightarrow> bool"
  op_lt :: "'v \<Rightarrow> 'v \<Rightarrow> bool"
  op_gt :: "'v \<Rightarrow> 'v \<Rightarrow> bool"
  op_predicate :: "addr \<Rightarrow> 'v \<Rightarrow> cint"

definition matcher_accepts :: "'v operators \<Rightarrow> mmk_matcher \<Rightarrow> 'v \<Rightarrow> 'v \<Rightarrow> bool" where
  "matcher_accepts ops m v ref =
     (if m_kind m = MMK_MATCHER_ANY then True
      else if m_kind m AND MMK_MATCHER_BIT_CMP \<noteq> 0 then
        (if op_eq ops v ref \<and> m_kind m AND MMK_MATCHER_BIT_EQ = 0 then False
         else if op_lt ops v ref \<and> m_kind m AND MMK_MATCHER_BIT_LT = 0 then False
         else if op_gt ops v ref \<and> m_kind m AND MMK_MATCHER_BIT_GT = 0 then False
         else True)
      else if m_kind m = MMK_MATCHER_THAT then op_predicate ops (mmk_matcher_get_predicate m) v \<noteq> 0
      else True)"

definition MMK_TRYMATCH ::
  "(addr \<rightharpoonup> mmk_matcher) \<Rightarrow> 'v operators \<Rightarrow> addr \<Rightarrow> 'v \<Rightarrow> 'v \<Rightarrow> fault + bool \<times> addr" where
  "MMK_TRYMATCH ms ops m v ref =
     andthen (deref (ms m)) (\<lambda>cur.
       if m_next cur \<noteq> NULL then
         andthen (deref (ms (m_next cur))) (\<lambda>n. Inr (matcher_accepts ops n v ref, m_next cur))
       else Inr (op_eq ops v ref, m))"

text \<open>All parameters in turn; the first that is not accepted ends it.\<close>

fun match_params ::
  "(addr \<rightharpoonup> mmk_matcher) \<Rightarrow> 'v operators \<Rightarrow> addr \<Rightarrow> ('v \<times> 'v) list \<Rightarrow> fault + bool" where
  "match_params ms ops m [] = Inr True"
| "match_params ms ops m ((v, ref) # ps) =
     andthen (MMK_TRYMATCH ms ops m v ref) (\<lambda>(ok, m).
       if ok then match_params ms ops m ps else Inr False)"

section \<open>The list stays sorted\<close>

text \<open>
  \<open>arg_matchers s ps\<close>: the objects at \<open>ps\<close> are the matchers after the head, in order.
  \<open>matchers_live\<close>: every matcher object has its block.
\<close>

definition arg_matchers :: "'a matching_scheme \<Rightarrow> addr list \<Rightarrow> bool" where
  "arg_matchers s ps \<longleftrightarrow> links m_next (matchers s) (matcher_ctx s) (matcher_ctx s # ps)"

definition matchers_live :: "'a matching_scheme \<Rightarrow> bool" where
  "matchers_live s \<longleftrightarrow> dom (matchers s) \<subseteq> fst ` set (live s)"

definition m_key :: "(addr \<rightharpoonup> mmk_matcher) \<Rightarrow> addr \<Rightarrow> size_t \<times> cint \<times> addr" where
  "m_key ms p = (case ms p of None \<Rightarrow> (0, 0, NULL) | Some m \<Rightarrow> (m_prio m, m_kind m, m_data m))"

declare insertion_point.simps [simp del]

lemma insertion_point_links:
  "links m_next ms m ps \<Longrightarrow> insertion_point ms prio prev m =
    Some (Inr (last (prev # takeWhile (\<lambda>p. fst (m_key ms p) < prio) ps)))"
proof (induction ps arbitrary: prev m)
  case Nil
  then show ?case by (subst insertion_point.simps) simp
next
  case (Cons p ps)
  then show ?case by (subst insertion_point.simps) (auto simp: m_key_def)
qed

lemma links_insert:
  "links nx h p (as @ q # rs) \<Longrightarrow> h q = Some b \<Longrightarrow> nx new = nx b \<Longrightarrow> nx b' = out \<Longrightarrow> out \<noteq> NULL \<Longrightarrow>
    out \<notin> set (as @ q # rs) \<Longrightarrow> distinct (as @ q # rs) \<Longrightarrow>
    links nx (h(out \<mapsto> new, q \<mapsto> b')) p (as @ q # out # rs)"
  by (induction as arbitrary: p) auto

lemma butlast_last_Cons: "l \<noteq> [] \<Longrightarrow> butlast l @ last l # ys = l @ ys"
  by (induction l) auto

lemma insort_key_split:
  "\<forall>x \<in> set xs. f x < f a \<Longrightarrow> ys = [] \<or> f a \<le> f (hd ys) \<Longrightarrow> insort_key f a (xs @ ys) = xs @ a # ys"
proof (induction xs)
  case Nil
  then show ?case by (cases ys) auto
qed auto

text \<open>
  What one \<open>mmk_matcher_add_data\<close> does to the list: \<open>added\<close> relates the states before and after.
\<close>

definition added ::
  "'a matching_scheme \<Rightarrow> addr list \<Rightarrow> size_t \<times> cint \<times> addr \<Rightarrow> addr \<Rightarrow> 'a matching_scheme \<Rightarrow> addr list \<Rightarrow> bool" where
  "added s ps key out s' ps' \<longleftrightarrow>
     fresh_block (live s) out sizeof_mmk_matcher \<and> arg_matchers s' ps' \<and> matchers_live s' \<and>
     (\<exists>qs rs. ps = qs @ rs \<and> ps' = qs @ out # rs) \<and>
     map (m_key (matchers s')) ps' = insort_key fst key (map (m_key (matchers s)) ps) \<and>
     s' = s\<lparr>live := (out, sizeof_mmk_matcher) # live s, matchers := matchers s'\<rparr> \<and>
     (\<forall>p. p \<noteq> out \<longrightarrow> p \<notin> set (matcher_ctx s # ps) \<longrightarrow> matchers s' p = matchers s p) \<and>
     (\<forall>p. p \<noteq> out \<longrightarrow> m_key (matchers s') p = m_key (matchers s) p)"

lemma mmk_matcher_add_data_adds:
  assumes L: "libc_ok (c_lib E)" and ml: "matchers_live s" and args: "arg_matchers s ps"
    and m: "mmk_malloc (c_lib E) s sizeof_mmk_matcher = Inr (out, s1)" "out \<noteq> NULL"
  shows "\<exists>s' ps'. mmk_matcher_add_data E s kind counter dat = Inr s' \<and>
    added s ps (scast counter, kind, dat) out s' ps'"
proof -
  define key where "key = m_key (matchers s)"
  define prio :: size_t where "prio = scast counter"
  have s1: "s1 = s\<lparr>live := (out, sizeof_mmk_matcher) # live s\<rparr>"
    using m by (simp add: mmk_malloc_Inr_iff)
  have fresh: "fresh_block (live s) out sizeof_mmk_matcher"
    by (rule mmk_malloc_fresh [OF L m])
  define new where "new = \<lparr>m_kind = kind, m_prio = prio, m_data = dat, m_next = NULL\<rparr>"
  define h where "h = (matchers s)(out \<mapsto> new)"
  have new: "\<lparr>m_kind = kind, m_prio = scast counter, m_data = dat, m_next = NULL\<rparr> = new"
    "m_prio new = scast counter"
    by (simp_all add: new_def prio_def)
  let ?all = "matcher_ctx s # ps"
  have out: "out \<notin> set ?all"
    using fresh_block_notin [OF fresh] ml links_dom [OF args [unfolded arg_matchers_def]]
    unfolding matchers_live_def by blast
  then have args': "links m_next h (matcher_ctx s) ?all"
    using args links_update [OF out, of m_next "matchers s" "Some new" "matcher_ctx s"]
    by (simp only: h_def arg_matchers_def)
  then obtain first where first: "h (matcher_ctx s) = Some first" and tl: "links m_next h (m_next first) ps"
    by auto
  define qs where "qs = takeWhile (\<lambda>p. fst (m_key h p) < prio) ps"
  define rs where "rs = dropWhile (\<lambda>p. fst (m_key h p) < prio) ps"
  have ps: "ps = qs @ rs"
    by (simp add: qs_def rs_def)
  have key: "m_key h p = key p" if "p \<in> set ps" for p
    using that out by (auto simp: key_def m_key_def h_def)
  define prev where "prev = last (matcher_ctx s # qs)"
  have ip: "insertion_point h prio (matcher_ctx s) (m_next first) = Some (Inr prev)"
    using insertion_point_links [OF tl] by (simp add: prev_def qs_def)
  have split: "?all = butlast (matcher_ctx s # qs) @ prev # rs"
    unfolding prev_def ps by (simp only: butlast_last_Cons list.distinct not_False_eq_True append_Cons)
  have "set ?all \<subseteq> dom h"
    by (rule links_dom [OF args'])
  then obtain before where before: "h prev = Some before"
    unfolding split by auto
  define s' where "s' = s1\<lparr>matchers := h(out \<mapsto> new\<lparr>m_next := m_next before\<rparr>, prev \<mapsto> before\<lparr>m_next := out\<rparr>)\<rparr>"
  let ?h = "(matchers s)(out \<mapsto> new\<lparr>m_next := m_next before\<rparr>, prev \<mapsto> before\<lparr>m_next := out\<rparr>)"
  have s'': "s' = s\<lparr>live := (out, sizeof_mmk_matcher) # live s, matchers := ?h\<rparr>"
    by (simp add: s'_def s1 h_def)
  have prev: "prev \<noteq> out" "matchers s prev = Some before"
    using out before unfolding split by (auto simp: h_def)
  have "matchers s (matcher_ctx s) = Some first" and "matcher_ctx s \<noteq> out"
    using first out by (simp_all add: h_def split: if_splits)
  then have run: "mmk_matcher_add_data E s kind counter dat = Inr s'"
    using m s1 ip [unfolded h_def prio_def] new prev
    by (simp add: mmk_matcher_add_data_def Let_def s'')
  have l: "links m_next ?h (matcher_ctx s) (butlast (matcher_ctx s # qs) @ prev # out # rs)"
    using args prev out m(2) links_distinct [OF args']
    unfolding arg_matchers_def split by (intro links_insert) simp_all
  then have l': "arg_matchers s' (qs @ out # rs)"
    unfolding arg_matchers_def s'' prev_def butlast_last_Cons [OF list.distinct(2)]
    by simp
  have keys: "m_key ?h p = (if p = out then (prio, kind, dat) else key p)" for p
    using prev by (auto simp: m_key_def key_def new_def)
  have "map (m_key ?h) (qs @ out # rs) = map key qs @ (prio, kind, dat) # map key rs"
    using out unfolding keys ps by auto
  also have "\<dots> = insort_key fst (prio, kind, dat) (map key qs @ map key rs)"
  proof (rule insort_key_split [symmetric])
    have "fst (key p) < prio" if "p \<in> set qs" for p
      using set_takeWhileD [of p "\<lambda>p. fst (m_key h p) < prio" ps] key [of p] that by (simp add: qs_def)
    then show "\<forall>x \<in> set (map key qs). fst x < fst (prio, kind, dat)"
      by simp
    show "map key rs = [] \<or> fst (prio, kind, dat) \<le> fst (hd (map key rs))"
    proof (cases "rs = []")
      case False
      then have "\<not> fst (m_key h (hd rs)) < prio"
        using hd_dropWhile [of "\<lambda>p. fst (m_key h p) < prio" ps] by (simp only: rs_def not_False_eq_True if_True simp_thms)
      moreover have "hd rs \<in> set ps"
        unfolding ps using False by simp
      ultimately show ?thesis
        using False key [of "hd rs"] by (simp add: hd_map not_less)
    qed simp
  qed
  finally have ins: "map (m_key (matchers s')) (qs @ out # rs) =
      insort_key fst (scast counter, kind, dat) (map (m_key (matchers s)) ps)"
    by (simp add: s'' ps key_def prio_def)
  have "matchers_live s'"
    using ml prev by (auto simp: matchers_live_def s'' dom_def)
  moreover have "matchers s' p = matchers s p" if "p \<noteq> out" "p \<notin> set ?all" for p
    using that unfolding s'' split by auto
  moreover have "m_key (matchers s') p = m_key (matchers s) p" if "p \<noteq> out" for p
    using that keys by (simp add: s'' key_def)
  ultimately have "added s ps (scast counter, kind, dat) out s' (qs @ out # rs)"
    using ps fresh l' ins unfolding added_def by (simp add: s'') (metis append.assoc)
  with run show ?thesis
    by blast
qed

lemma mmk_matcher_add_data_Inr:
  assumes "libc_ok (c_lib E)" and "matchers_live s" and "arg_matchers s ps"
    and "mmk_matcher_add_data E s kind counter dat = Inr s'"
  obtains out ps' where "added s ps (scast counter, kind, dat) out s' ps'"
proof -
  from assms(4) obtain out s1 where "mmk_malloc (c_lib E) s sizeof_mmk_matcher = Inr (out, s1)" "out \<noteq> NULL"
    by (auto simp: mmk_matcher_add_data_def ends split: if_splits)
  from mmk_matcher_add_data_adds [OF assms(1-3) this, of kind counter dat] assms(4) that show ?thesis
    by auto
qed

section \<open>A call expression with matchers\<close>

text \<open>
  The arguments of a call expression are evaluated in the order \<open>as\<close>, in which each matcher (its kind,
  its \<open>__COUNTER__\<close> and its data) is added.
\<close>

fun eval_args :: "env \<Rightarrow> 'a matching_scheme \<Rightarrow> (cint \<times> cint \<times> addr) list \<Rightarrow> fault + 'a matching_scheme" where
  "eval_args E s [] = Inr s"
| "eval_args E s ((kind, counter, dat) # as) =
     andthen (mmk_matcher_add_data E s kind counter dat) (\<lambda>s. eval_args E s as)"

definition arg_key :: "cint \<times> cint \<times> addr \<Rightarrow> size_t \<times> cint \<times> addr" where
  "arg_key a = (scast (fst (snd a)), fst a, snd (snd a))"

lemma arg_key_simp [simp]: "arg_key (kind, counter, dat) = (scast counter, kind, dat)"
  by (simp add: arg_key_def)

lemma mmk_matcher_init_Inr:
  assumes L: "libc_ok (c_lib E)" and ml: "matchers_live s"
    and run: "mmk_matcher_init E s kind = Inr s'"
  obtains c where "fresh_block (live s) c sizeof_mmk_matcher"
    and "s' = s\<lparr>live := (c, sizeof_mmk_matcher) # live s, matchers := (matchers s)(c \<mapsto>
            \<lparr>m_kind = kind, m_prio = 0, m_data = NULL, m_next = NULL\<rparr>), matcher_ctx := c\<rparr>"
    and "arg_matchers s' []" and "matchers_live s'"
proof -
  from run obtain c s1 where m: "mmk_malloc (c_lib E) s sizeof_mmk_matcher = Inr (c, s1)" "c \<noteq> NULL"
    and s': "s' = s1\<lparr>matchers := (matchers s1)(c \<mapsto>
        \<lparr>m_kind = kind, m_prio = 0, m_data = NULL, m_next = NULL\<rparr>), matcher_ctx := c\<rparr>"
    by (auto simp: mmk_matcher_init_def ends split: if_splits)
  from m have s1: "s1 = s\<lparr>live := (c, sizeof_mmk_matcher) # live s\<rparr>"
    by (simp add: mmk_malloc_Inr_iff)
  show ?thesis
    by (rule that [of c])
      (use mmk_malloc_fresh [OF L m] s' s1 m(2) ml in \<open>auto simp: arg_matchers_def matchers_live_def\<close>)
qed

lemma eval_args_Inr:
  assumes L: "libc_ok (c_lib E)"
  shows "matchers_live s \<Longrightarrow> arg_matchers s ps \<Longrightarrow> eval_args E s as = Inr s' \<Longrightarrow>
    \<exists>ps' bs ms. s' = s\<lparr>live := bs @ live s, matchers := ms\<rparr> \<and> arg_matchers s' ps' \<and> matchers_live s' \<and>
      map (m_key ms) ps' = fold (insort_key fst) (map arg_key as) (map (m_key (matchers s)) ps) \<and>
      (blocks_wf (live s) \<longrightarrow> blocks_wf (live s')) \<and> mset ps' = mset (map fst bs) + mset ps \<and>
      (\<forall>p. p \<notin> set (matcher_ctx s # ps') \<longrightarrow> ms p = matchers s p) \<and>
      (\<forall>p. p \<notin> fst ` set bs \<longrightarrow> m_key ms p = m_key (matchers s) p)"
proof (induction as arbitrary: s ps)
  case Nil
  then show ?case
    by (intro exI [of _ ps] exI [of _ "[]"] exI [of _ "matchers s"]) simp
next
  case (Cons a as)
  obtain kind counter dat where a: "a = (kind, counter, dat)"
    by (cases a)
  with Cons.prems(3) obtain s1 where r1: "mmk_matcher_add_data E s kind counter dat = Inr s1"
    and r2: "eval_args E s1 as = Inr s'"
    by (auto simp: ends)
  from L Cons.prems(1,2) r1 obtain out ps1 where add: "added s ps (scast counter, kind, dat) out s1 ps1"
    by (rule mmk_matcher_add_data_Inr)
  obtain ms1 where s1: "s1 = s\<lparr>live := (out, sizeof_mmk_matcher) # live s, matchers := ms1\<rparr>"
    using add unfolding added_def by blast
  have fresh: "fresh_block (live s) out sizeof_mmk_matcher"
    and k1: "map (m_key ms1) ps1 = insort_key fst (arg_key a) (map (m_key (matchers s)) ps)"
    and same1: "\<And>p. p \<noteq> out \<Longrightarrow> p \<notin> set (matcher_ctx s # ps) \<Longrightarrow> ms1 p = matchers s p"
    and key1: "\<And>p. p \<noteq> out \<Longrightarrow> m_key ms1 p = m_key (matchers s) p"
    and ps1: "mset ps1 = add_mset out (mset ps)"
    and wf1: "matchers_live s1" "arg_matchers s1 ps1"
    using add by (auto simp: added_def a s1)
  from Cons.IH [OF wf1 r2] obtain ps' bs ms where
    s': "s' = s1\<lparr>live := bs @ live s1, matchers := ms\<rparr>"
    and wf': "arg_matchers s' ps'" "matchers_live s'"
    and k': "map (m_key ms) ps' = fold (insort_key fst) (map arg_key as) (map (m_key (matchers s1)) ps1)"
    and b': "blocks_wf (live s1) \<longrightarrow> blocks_wf (live s')"
    and ps': "mset ps' = mset (map fst bs) + mset ps1"
    and same': "\<forall>p. p \<notin> set (matcher_ctx s1 # ps') \<longrightarrow> ms p = matchers s1 p"
    and key': "\<forall>p. p \<notin> fst ` set bs \<longrightarrow> m_key ms p = m_key (matchers s1) p"
    by blast
  have sub: "set ps' = fst ` set bs \<union> insert out (set ps)"
    using arg_cong [OF ps', of set_mset] arg_cong [OF ps1, of set_mset] by simp
  show ?case
  proof (intro exI [of _ ps'] exI [of _ "bs @ [(out, sizeof_mmk_matcher)]"] exI [of _ ms] conjI)
    show "s' = s\<lparr>live := (bs @ [(out, sizeof_mmk_matcher)]) @ live s, matchers := ms\<rparr>"
      by (simp add: s' s1)
    show "blocks_wf (live s) \<longrightarrow> blocks_wf (live s')"
      using b' fresh by (simp add: s1)
    show "map (m_key ms) ps' = fold (insort_key fst) (map arg_key (a # as)) (map (m_key (matchers s)) ps)"
      using k' k1 by (simp add: s1)
    show "mset ps' = mset (map fst (bs @ [(out, sizeof_mmk_matcher)])) + mset ps"
      by (simp add: ps' ps1)
    show "\<forall>p. p \<notin> set (matcher_ctx s # ps') \<longrightarrow> ms p = matchers s p"
      using same' same1 sub by (auto simp: s1)
    show "\<forall>p. p \<notin> fst ` set (bs @ [(out, sizeof_mmk_matcher)]) \<longrightarrow> m_key ms p = m_key (matchers s) p"
      using key' key1 by (simp add: s1)
  qed (use wf' in simp_all)
qed

text \<open>Whatever the order of evaluation, matchers with distinct counters end up sorted by them.\<close>

lemma fold_insort_key: "fold (insort_key f) xs [] = sort_key f (rev xs)"
  by (simp add: sort_key_def foldr_conv_fold)

lemma eval_args_sorted:
  assumes "libc_ok (c_lib E)" and "matchers_live s" and "arg_matchers s []" and "eval_args E s as = Inr s'"
  obtains ps ms bs where "s' = s\<lparr>live := bs @ live s, matchers := ms\<rparr>" and "arg_matchers s' ps"
    and "map (m_key ms) ps = sort_key fst (rev (map arg_key as))"
  using eval_args_Inr [OF assms] by (auto simp: fold_insort_key)

text \<open>Two orders of evaluation of the same matchers leave equal lists, sorted by their counters.\<close>

lemma ucast_scast_32: "(ucast (scast (c :: cint) :: size_t) :: cint) = c"
  by (rule bit_word_eqI) (auto simp: bit_simps)

lemma scast_size_inj: "(scast (a :: cint) :: size_t) = scast b \<longleftrightarrow> a = b"
  by (metis ucast_scast_32)

lemma sort_args_order:
  assumes "mset as = mset bs" and "distinct (map (fst \<circ> snd) as)"
  shows "sort_key fst (rev (map arg_key as)) = sort_key fst (rev (map arg_key bs))"
proof (rule sort_key_eq_sort_key)
  show "mset (rev (map arg_key as)) = mset (rev (map arg_key bs))"
    using assms(1) by simp
  have "inj_on (fst \<circ> snd) (set as)"
    using assms(2) by (simp add: distinct_map)
  then show "inj_on fst (set (rev (map arg_key as)))"
    by (fastforce simp: inj_on_def scast_size_inj)
qed

lemma eval_args_order:
  assumes "libc_ok (c_lib E)" and "matchers_live s" and "arg_matchers s []"
    and "mset as = mset bs" and "distinct (map (fst \<circ> snd) as)"
    and "eval_args E s as = Inr s1" and "eval_args E s bs = Inr s2"
  shows "\<exists>ps qs. arg_matchers s1 ps \<and> arg_matchers s2 qs \<and>
    map (m_key (matchers s1)) ps = map (m_key (matchers s2)) qs \<and>
    sorted (map (fst \<circ> m_key (matchers s1)) ps)"
proof -
  obtain ps ms xs where p: "s1 = s\<lparr>live := xs @ live s, matchers := ms\<rparr>" "arg_matchers s1 ps"
      "map (m_key ms) ps = sort_key fst (rev (map arg_key as))"
    by (rule eval_args_sorted [OF assms(1-3) assms(6)])
  obtain qs ms' ys where q: "s2 = s\<lparr>live := ys @ live s, matchers := ms'\<rparr>" "arg_matchers s2 qs"
      "map (m_key ms') qs = sort_key fst (rev (map arg_key bs))"
    by (rule eval_args_sorted [OF assms(1-3) assms(7)])
  have "matchers s1 = ms" "matchers s2 = ms'"
    by (simp_all add: p(1) q(1))
  have "sorted (map fst (map (m_key ms) ps))"
    unfolding p(3) by (rule sorted_sort_key)
  then have "sorted (map (fst \<circ> m_key ms) ps)"
    by simp
  with \<open>matchers s1 = ms\<close> \<open>matchers s2 = ms'\<close> show ?thesis
    using p(2,3) q(2,3) sort_args_order [OF assms(4,5)]
    by - (rule exI [of _ ps], rule exI [of _ qs], simp)
qed

section \<open>Which values a call expression accepts\<close>

text \<open>
  The list counterpart of the macros: a value whose parameter has a matcher is judged by it, in
  order, and any parameter after the last matcher is compared for equality.
\<close>

fun accepts_all :: "'v operators \<Rightarrow> mmk_matcher list \<Rightarrow> ('v \<times> 'v) list \<Rightarrow> bool" where
  "accepts_all ops ns [] = True"
| "accepts_all ops [] ((v, ref) # ps) \<longleftrightarrow> op_eq ops v ref \<and> accepts_all ops [] ps"
| "accepts_all ops (n # ns) ((v, ref) # ps) \<longleftrightarrow> matcher_accepts ops n v ref \<and> accepts_all ops ns ps"

lemma match_params_accepts:
  "links m_next ms m (m # ps) \<Longrightarrow>
    match_params ms ops m vrs = Inr (accepts_all ops (map (the \<circ> ms) ps) vrs)"
proof (induction vrs arbitrary: m ps)
  case Nil
  then show ?case by simp
next
  case (Cons vr vrs)
  obtain v ref where vr: "vr = (v, ref)"
    by (cases vr)
  from Cons.prems obtain cur where cur: "ms m = Some cur" "links m_next ms (m_next cur) ps"
    by auto
  show ?case
  proof (cases ps)
    case Nil
    with cur Cons.IH [OF Cons.prems] vr show ?thesis
      by (simp add: MMK_TRYMATCH_def)
  next
    case (Cons p ps')
    with cur obtain n where n: "ms p = Some n" "m_next cur = p" "p \<noteq> NULL" "links m_next ms p (p # ps')"
      by auto
    with Cons.IH [OF n(4)] cur(1) vr Cons show ?thesis
      by (simp add: MMK_TRYMATCH_def)
  qed
qed

text \<open>
  For the comparisons of a linear order each kind means what its name says; values that are not
  comparable at all (a floating-point NaN) are accepted by every comparison matcher.
\<close>

definition linorder_operators :: "(addr \<Rightarrow> 'v \<Rightarrow> cint) \<Rightarrow> ('v :: linorder) operators" where
  "linorder_operators p = \<lparr>op_eq = (=), op_lt = (<), op_gt = (>), op_predicate = p\<rparr>"

lemma linorder_operators_simps [simp]:
  "op_eq (linorder_operators p) = (=)" "op_lt (linorder_operators p) = (<)"
  "op_gt (linorder_operators p) = (>)" "op_predicate (linorder_operators p) = p"
  by (simp_all add: linorder_operators_def)

lemma matcher_accepts_kinds:
  fixes v ref :: "'v :: linorder" and p :: "addr \<Rightarrow> 'v \<Rightarrow> cint"
  defines "ops \<equiv> linorder_operators p"
  shows "m_kind m = MMK_MATCHER_ANY \<Longrightarrow> matcher_accepts ops m v ref"
    and "m_kind m = MMK_MATCHER_THAT \<Longrightarrow> matcher_accepts ops m v ref \<longleftrightarrow> p (m_data m) v \<noteq> 0"
    and "m_kind m = MMK_MATCHER_EQ \<Longrightarrow> matcher_accepts ops m v ref \<longleftrightarrow> v = ref"
    and "m_kind m = MMK_MATCHER_NEQ \<Longrightarrow> matcher_accepts ops m v ref \<longleftrightarrow> v \<noteq> ref"
    and "m_kind m = MMK_MATCHER_LT \<Longrightarrow> matcher_accepts ops m v ref \<longleftrightarrow> v < ref"
    and "m_kind m = MMK_MATCHER_LEQ \<Longrightarrow> matcher_accepts ops m v ref \<longleftrightarrow> v \<le> ref"
    and "m_kind m = MMK_MATCHER_GT \<Longrightarrow> matcher_accepts ops m v ref \<longleftrightarrow> v > ref"
    and "m_kind m = MMK_MATCHER_GEQ \<Longrightarrow> matcher_accepts ops m v ref \<longleftrightarrow> v \<ge> ref"
  by (auto simp: ops_def matcher_accepts_def matcher_kinds mmk_matcher_get_predicate_def)

lemma matcher_accepts_incomparable:
  assumes "m_kind m AND MMK_MATCHER_BIT_CMP \<noteq> 0"
    and "\<not> op_eq ops v ref" and "\<not> op_lt ops v ref" and "\<not> op_gt ops v ref"
  shows "matcher_accepts ops m v ref"
  using assms by (simp add: matcher_accepts_def)

end
