(* ===== verification/Call_Log.thy ===== *)
theory Call_Log
  imports Matcher
begin

text \<open>
  The log of the calls of a mock: \<open>struct mmk_mock_ctx\<close> of \<open>src/mock.h\<close>, the iteration over the log in
  \<open>src/mock.c\<close> and \<open>mmk_verify_register_call\<close> of \<open>src/verify.c\<close>. The log is a growing block of bytes:
  each entry is its size, the number of times it was called with its parameters, and the parameters. The
  theory proves that the code implements a list of entries, and (through the locale \<open>call_log\<close>) that the
  counts in such a list are the numbers of past calls.
\<close>

section \<open>The code\<close>

record mmk_mock_ctx =
  mk_params :: addr
  mk_stubs :: addr
  mk_call_data :: addr
  mk_call_data_top :: size_t
  mk_call_data_size :: size_t

record mocking = matching +
  mocks :: "addr \<rightharpoonup> mmk_mock_ctx"

definition mmk_mock_params_begin :: "mmk_mock_ctx \<Rightarrow> addr" where
  "mmk_mock_params_begin mock =
     (if mk_call_data mock = NULL \<or> mk_call_data_top mock = 0 then NULL
      else mk_call_data mock + 8)"

definition mmk_mock_params_next :: "mem \<Rightarrow> mmk_mock_ctx \<Rightarrow> addr \<Rightarrow> addr" where
  "mmk_mock_params_next m mock prev =
     (let sz = ld64 m (prev - 8);
          ptr = prev + (sz + 8)
      in if mk_call_data mock + mk_call_data_top mock \<le> ptr then NULL else ptr)"

partial_function (option) find_and_inc_loop ::
  "mem \<Rightarrow> mmk_mock_ctx \<Rightarrow> addr \<Rightarrow> size_t \<Rightarrow> addr \<Rightarrow> (bool \<times> mem) option" where
  "find_and_inc_loop m mock params sz p =
     (if p = NULL then Some (False, m)
      else if mmk_memcmp m (p + 8) params (unat sz) = 0 then Some (True, st64 m p (ld64 m p + 1))
      else find_and_inc_loop m mock params sz (mmk_mock_params_next m mock p))"

definition find_and_inc_call_matching ::
  "mem \<Rightarrow> mmk_mock_ctx \<Rightarrow> addr \<Rightarrow> size_t \<Rightarrow> (bool \<times> mem) option" where
  "find_and_inc_call_matching m mock params sz =
     find_and_inc_loop m mock (params + 8) (sz - 8) (mmk_mock_params_begin mock)"

partial_function (option) grow_size :: "size_t \<Rightarrow> size_t \<Rightarrow> size_t option" where
  "grow_size need sz = (if sz \<le> need then grow_size need (sz + 4096) else Some sz)"

text \<open>
  \<open>mmk_verify_register_call\<close> in three steps: the first call allocates the block, a call with new
  parameters may grow it, and then the entry is written at the top.
\<close>

definition ensure_call_data ::
  "env \<Rightarrow> 'a mocking_scheme \<Rightarrow> mmk_mock_ctx \<Rightarrow> fault + mmk_mock_ctx \<times> 'a mocking_scheme" where
  "ensure_call_data E s mock =
     (if mk_call_data mock = NULL then
        andthen (mmk_malloc (c_lib E) s 4096) (\<lambda>(p, s).
        andthen (mmk_assert ''mock->call_data'' (p \<noteq> NULL)) (\<lambda>_.
          Inr (mock\<lparr>mk_call_data := p, mk_call_data_size := 4096\<rparr>, s)))
      else Inr (mock, s))"

definition make_room ::
  "env \<Rightarrow> 'a mocking_scheme \<Rightarrow> mmk_mock_ctx \<Rightarrow> size_t \<Rightarrow> fault + mmk_mock_ctx \<times> 'a mocking_scheme" where
  "make_room E s mock sz =
     (if mk_call_data_size mock \<le> mk_call_data_top mock + sz + 8 then
        andthen (returns (grow_size (mk_call_data_top mock + sz + 8) (mk_call_data_size mock))) (\<lambda>new_sz.
        andthen (mmk_realloc (c_lib E) s (mk_call_data mock) new_sz) (\<lambda>(p, s).
        andthen (mmk_assert ''mock->call_data'' (p \<noteq> NULL)) (\<lambda>_.
          Inr (mock\<lparr>mk_call_data := p, mk_call_data_size := new_sz\<rparr>, s))))
      else Inr (mock, s))"

definition append_call :: "mem \<Rightarrow> mmk_mock_ctx \<Rightarrow> addr \<Rightarrow> size_t \<Rightarrow> mem" where
  "append_call m mock params sz =
     (let m = st64 m (mk_call_data mock + mk_call_data_top mock) sz;
          (times, m) = mmk_memcpy m (mk_call_data mock + mk_call_data_top mock + 8) params (unat sz)
      in st64 m times 1)"

definition mmk_verify_register_call ::
  "env \<Rightarrow> 'a mocking_scheme \<Rightarrow> addr \<Rightarrow> size_t \<Rightarrow> fault + 'a mocking_scheme" where
  "mmk_verify_register_call E s params sz =
     andthen (mmk_stub_context s (mmk_ctx s)) (\<lambda>ctx.
     andthen (deref (mocks s ctx)) (\<lambda>mock.
     andthen (ensure_call_data E s mock) (\<lambda>(mock, s).
     andthen (returns (find_and_inc_call_matching (mem s) mock params sz)) (\<lambda>(found, m).
       if found then Inr (s\<lparr>mem := m, mocks := (mocks s)(ctx \<mapsto> mock)\<rparr>)
       else
         andthen (make_room E s mock sz) (\<lambda>(mock, s).
           Inr (s\<lparr>mem := append_call (mem s) mock params sz,
                  mocks := (mocks s)(ctx \<mapsto>
                    mock\<lparr>mk_call_data_top := mk_call_data_top mock + (sz + 8)\<rparr>)\<rparr>))))))"

declare find_and_inc_loop.simps [simp del] grow_size.simps [simp del]

section \<open>The log as a list\<close>

type_synonym entries = "(size_t \<times> byte list) list"

definition entry_bytes :: "size_t \<times> byte list \<Rightarrow> byte list" where
  "entry_bytes e = le_bytes 8 (8 + length (snd e)) @ le_bytes 8 (unat (fst e)) @ snd e"

definition log_bytes :: "entries \<Rightarrow> byte list" where
  "log_bytes es = concat (map entry_bytes es)"

fun bump :: "byte list \<Rightarrow> entries \<Rightarrow> entries" where
  "bump k [] = [(1, k)]"
| "bump k ((t, k') # es) = (if k' = k then (t + 1, k') # es else (t, k') # bump k es)"

definition keys_of :: "entries \<Rightarrow> byte list set" where
  "keys_of es = snd ` set es"

lemma log_bytes_simps [simp]:
  "log_bytes [] = []"
  "log_bytes (e # es) = entry_bytes e @ log_bytes es"
  "log_bytes (es @ fs) = log_bytes es @ log_bytes fs"
  by (simp_all add: log_bytes_def)

lemma length_entry_bytes [simp]: "length (entry_bytes e) = 16 + length (snd e)"
  by (simp add: entry_bytes_def)

lemma length_log_bytes: "\<forall>k \<in> keys_of es. length k = n \<Longrightarrow> length (log_bytes es) = length es * (16 + n)"
  by (induction es) (auto simp: keys_of_def)

lemma keys_of_simps [simp]: "keys_of [] = {}" "keys_of (e # es) = insert (snd e) (keys_of es)"
  by (simp_all add: keys_of_def)

lemma bump_new: "k \<notin> keys_of es \<Longrightarrow> bump k es = es @ [(1, k)]"
  by (induction k es rule: bump.induct) auto

lemma keys_of_bump [simp]: "keys_of (bump k es) = insert k (keys_of es)"
  by (induction k es rule: bump.induct) auto

lemma length_log_bytes_bump:
  "k \<in> keys_of es \<Longrightarrow> length (log_bytes (bump k es)) = length (log_bytes es)"
  by (induction k es rule: bump.induct) auto

section \<open>What the counts are\<close>

locale call_log =
  fixes new :: 'l
    and record_call :: "'k \<Rightarrow> 'l \<Rightarrow> 'l"
    and count :: "('k \<Rightarrow> bool) \<Rightarrow> 'l \<Rightarrow> size_t"
  assumes count_new: "count P new = 0"
    and count_record: "count P (record_call k l) = count P l + (if P k then 1 else 0)"
begin

lemma count_from: "count P (fold record_call ks l) = count P l + of_nat (length (filter P ks))"
  by (induction ks arbitrary: l) (simp_all add: count_record)

lemma count_history: "count P (fold record_call ks new) = of_nat (length (filter P ks))"
  by (simp add: count_from count_new)

lemma count_order:
  "length (filter P ks) = length (filter P ks') \<Longrightarrow>
    count P (fold record_call ks new) = count P (fold record_call ks' new)"
  by (simp add: count_history)

end

fun count_calls :: "(byte list \<Rightarrow> bool) \<Rightarrow> entries \<Rightarrow> size_t" where
  "count_calls P [] = 0"
| "count_calls P ((t, k) # es) = (if P k then t else 0) + count_calls P es"

interpretation entry_log: call_log "[]" bump count_calls
proof
  show "count_calls P [] = 0" for P
    by simp
  show "count_calls P (bump k l) = count_calls P l + (if P k then 1 else 0)" for P k l
    by (induction k l rule: bump.induct) auto
qed

section \<open>The bytes implement the list\<close>

lemma separate_adjacent: "i + k \<le> 2 ^ 64 \<Longrightarrow> separate a i (a + of_nat i) k"
  unfolding separate_def in_region_def
proof (intro allI notI)
  fix x
  assume b: "i + k \<le> 2 ^ 64" and x: "unat (x - a) < i \<and> unat (x - (a + of_nat i)) < k"
  then have "unat (x - (a + of_nat i) + of_nat i) = unat (x - (a + of_nat i)) + i"
    by (intro unat_add_no_wrap) linarith
  with x show False
    by simp
qed

text \<open>What the memory of an entry and of the entries after it says.\<close>

lemma rd_entry:
  assumes "rd m a (length (entry_bytes (t, k) @ bs)) = entry_bytes (t, k) @ bs"
    and "16 + length k < 2 ^ 64"
  shows "ld64 m a = of_nat (8 + length k)" and "ld64 m (a + 8) = t" and "rd m (a + 16) (length k) = k"
    and "rd m (a + 16) (length k + length bs) = k @ bs"
    and "rd m a (16 + length k) = entry_bytes (t, k)"
    and "rd m (a + of_nat (16 + length k)) (length bs) = bs"
proof -
  have "rd m a (8 + (8 + (length k + length bs))) = le_bytes 8 (8 + length k) @ le_bytes 8 (unat t) @ k @ bs"
    using assms(1) by (simp add: entry_bytes_def add.assoc)
  then have r: "rd m a 8 = le_bytes 8 (8 + length k)" "rd m (a + 8) 8 = le_bytes 8 (unat t)"
      "rd m (a + 16) (length k) = k" "rd m (a + 16 + of_nat (length k)) (length bs) = bs"
    unfolding rd_append by (simp_all add: add.assoc)
  then show "rd m (a + 16) (length k) = k" and "rd m (a + 16) (length k + length bs) = k @ bs"
    by (simp_all add: rd_append)
  show "ld64 m a = of_nat (8 + length k)" and "ld64 m (a + 8) = t"
    using r(1) assms(2) by (simp add: ld64_def le_val_le_bytes)
      (simp add: ld64_def r(2) of_nat_le_val_le_bytes)
  show "rd m (a + of_nat (16 + length k)) (length bs) = bs"
    using r(4) by (simp add: add.assoc)
  have "rd m a (8 + (8 + length k)) = entry_bytes (t, k)"
    unfolding rd_append using r by (simp add: entry_bytes_def add.assoc)
  then show "rd m a (16 + length k) = entry_bytes (t, k)"
    by simp
qed

lemma st64_count:
  assumes "rd m a (length (entry_bytes (t, k) @ bs)) = entry_bytes (t, k) @ bs"
    and "16 + length k + length bs < 2 ^ 64"
  shows "st64 m (a + 8) v = wr m a (entry_bytes (v, k) @ bs)"
proof -
  note r = rd_entry [OF assms(1)]
  have "wr m a (le_bytes 8 (8 + length k)) = m"
    using wr_rd_id [of 8 m a] r(5) assms(2) rd_append [of m a 8 "8 + length k"]
    by (simp add: entry_bytes_def)
  moreover have "rd (st64 m (a + 8) v) (a + 16) (length k + length bs) = rd m (a + 16) (length k + length bs)"
    using separate_adjacent [of 8 "length k + length bs" "a + 8"] assms(2)
    by (intro rd_st64_separate) (simp_all add: add.assoc)
  then have "wr (st64 m (a + 8) v) (a + 16) (k @ bs) = st64 m (a + 8) v"
    using wr_rd_id [of "length k + length bs" "st64 m (a + 8) v" "a + 16"] r(4) assms(2) by simp
  ultimately show ?thesis
    by (simp add: entry_bytes_def wr_append st64_def add.assoc)
qed

text \<open>
  \<open>log_at m mock a es\<close>: the rest of the log of \<open>mock\<close> from the address \<open>a\<close> on consists of the entries
  \<open>es\<close>. \<open>first_params\<close> is the pointer with which the iteration continues there.
\<close>

definition log_at :: "mem \<Rightarrow> mmk_mock_ctx \<Rightarrow> addr \<Rightarrow> entries \<Rightarrow> bool" where
  "log_at m mock a es \<longleftrightarrow> rd m a (length (log_bytes es)) = log_bytes es \<and>
     unat a + length (log_bytes es) + 8 < 2 ^ 64 \<and>
     mk_call_data mock + mk_call_data_top mock = a + of_nat (length (log_bytes es))"

definition first_params :: "addr \<Rightarrow> entries \<Rightarrow> addr" where
  "first_params a es = (if es = [] then NULL else a + 8)"

lemma log_at_step:
  assumes "log_at m mock a ((t, k) # es)"
  shows "a + 8 \<noteq> NULL" and "ld64 m (a + 8) = t" and "rd m (a + 16) (length k) = k"
    and "rd m a (16 + length k) = entry_bytes (t, k)"
    and "16 + length k + length (log_bytes es) < 2 ^ 64"
    and "log_at m mock (a + of_nat (16 + length k)) es"
    and "mmk_mock_params_next m mock (a + 8) = first_params (a + of_nat (16 + length k)) es"
proof -
  let ?n = "length k" and ?L = "length (log_bytes es)"
  have len: "unat a + (16 + ?n + ?L) + 8 < 2 ^ 64"
    and rd: "rd m a (length (entry_bytes (t, k) @ log_bytes es)) = entry_bytes (t, k) @ log_bytes es"
    and fin: "mk_call_data mock + mk_call_data_top mock = a + of_nat (16 + ?n + ?L)"
    using assms by (simp_all add: log_at_def)
  note r = rd_entry [OF rd]
  show "ld64 m (a + 8) = t" and "rd m (a + 16) ?n = k" and "rd m a (16 + ?n) = entry_bytes (t, k)"
    and "16 + ?n + ?L < 2 ^ 64"
    using r len by simp_all
  have "unat (a + 8) = unat a + 8"
    using unat_add_no_wrap [of a 8] len by simp
  then show "a + 8 \<noteq> NULL"
    by auto
  define a' where "a' = a + of_nat (16 + ?n)"
  have ua': "unat a' = unat a + (16 + ?n)"
    unfolding a'_def using len by (intro unat_add_no_wrap) simp
  have fin': "mk_call_data mock + mk_call_data_top mock = a' + of_nat ?L"
    using fin by (simp add: a'_def add.assoc)
  then show "log_at m mock (a + of_nat (16 + ?n)) es"
    using r(6) len ua' by (simp add: log_at_def a'_def)
  have "unat (a' + 8) = unat a' + 8"
    using unat_add_no_wrap [of a' 8] len ua' by simp
  moreover have "unat (a' + of_nat ?L) = unat a' + ?L"
    using len ua' by (intro unat_add_no_wrap) simp
  moreover have "es = [] \<or> 16 \<le> ?L"
    by (cases es) auto
  ultimately have "mk_call_data mock + mk_call_data_top mock \<le> a' + 8 \<longleftrightarrow> es = []"
    using fin' by (auto simp: word_le_nat_alt)
  then show "mmk_mock_params_next m mock (a + 8) = first_params (a + of_nat (16 + ?n)) es"
    using r(1) len by (simp add: mmk_mock_params_next_def Let_def a'_def algebra_simps first_params_def)
qed

lemma find_and_inc_loop_bump:
  assumes key: "rd m params (unat sz) = key"
  shows "log_at m mock a es \<Longrightarrow> \<forall>k \<in> keys_of es. length k = unat sz \<Longrightarrow>
    find_and_inc_loop m mock params sz (first_params a es) =
      Some (if key \<in> keys_of es then (True, wr m a (log_bytes (bump key es))) else (False, m))"
proof (induction es arbitrary: a)
  case Nil
  then show ?case by (simp add: find_and_inc_loop.simps first_params_def)
next
  case (Cons e es)
  obtain t k where e: "e = (t, k)"
    by (cases e)
  have n: "unat sz = length k"
    using Cons.prems(2) e by simp
  note step = log_at_step [OF Cons.prems(1) [unfolded e]]
  have cmp: "mmk_memcmp m (a + 8 + 8) params (unat sz) = 0 \<longleftrightarrow> k = key"
    using step(3) key n by (simp add: mmk_memcmp_zero_iff add.assoc)
  show ?case
  proof (cases "k = key")
    case True
    have "rd m a (length (entry_bytes (t, k) @ log_bytes es)) = entry_bytes (t, k) @ log_bytes es"
      using Cons.prems(1) by (simp add: e log_at_def)
    then have "st64 m (a + 8) (t + 1) = wr m a (entry_bytes (t + 1, k) @ log_bytes es)"
      using step(5) by (rule st64_count)
    with True cmp step(1,2) e show ?thesis
      by (simp add: find_and_inc_loop.simps [of _ _ _ _ "a + 8"] first_params_def)
  next
    case False
    let ?a' = "a + of_nat (16 + length k)"
    have "find_and_inc_loop m mock params sz (first_params ?a' es) =
        Some (if key \<in> keys_of es then (True, wr m ?a' (log_bytes (bump key es))) else (False, m))"
      using step(6) Cons.prems(2) by (intro Cons.IH) simp_all
    moreover have "wr m a (entry_bytes (t, k)) = m"
      using wr_rd_id [of "16 + length k" m a] step(4,5) by simp
    then have "wr m a (log_bytes (bump key (e # es))) = wr m ?a' (log_bytes (bump key es))"
      using False e by (simp add: wr_append)
    ultimately show ?thesis
      using False cmp step(1,7) e
      by (simp add: find_and_inc_loop.simps [of _ _ _ _ "a + 8"] first_params_def [of a])
  qed
qed

subsection \<open>The steps of registering a call\<close>

text \<open>
  \<open>log_in_block m bs mock n es\<close>: the log of \<open>mock\<close> is in a live block, consists of the entries \<open>es\<close>, whose
  parameters have \<open>n\<close> bytes, and leaves at least eight bytes of the block free.
\<close>

definition log_in_block :: "mem \<Rightarrow> blocks \<Rightarrow> mmk_mock_ctx \<Rightarrow> nat \<Rightarrow> entries \<Rightarrow> bool" where
  "log_in_block m bs mock n es \<longleftrightarrow> mk_call_data mock \<noteq> NULL \<and>
     (mk_call_data mock, mk_call_data_size mock) \<in> set bs \<and> 8 dvd unat (mk_call_data_size mock) \<and>
     (\<forall>k \<in> keys_of es. length k = n) \<and> unat (mk_call_data_top mock) = length (log_bytes es) \<and>
     length (log_bytes es) + 8 \<le> unat (mk_call_data_size mock) \<and>
     rd m (mk_call_data mock) (length (log_bytes es)) = log_bytes es"

definition call_log_ok :: "mem \<Rightarrow> blocks \<Rightarrow> mmk_mock_ctx \<Rightarrow> nat \<Rightarrow> entries \<Rightarrow> bool" where
  "call_log_ok m bs mock n es \<longleftrightarrow>
     (if mk_call_data mock = NULL then es = [] \<and> mk_call_data_top mock = 0
      else log_in_block m bs mock n es)"

text \<open>\<open>bytes_kept\<close>: apart from the block at \<open>p\<close>, the live blocks stay live and keep their bytes.\<close>

definition bytes_kept :: "addr \<Rightarrow> 'a heap_scheme \<Rightarrow> 'b heap_scheme \<Rightarrow> bool" where
  "bytes_kept p s s' \<longleftrightarrow> (\<forall>(q, k) \<in> set (live s). q \<noteq> p \<longrightarrow>
     (q, k) \<in> set (live s') \<and> (\<forall>x. in_region q (unat k) x \<longrightarrow> mem s' x = mem s x))"

lemma bytes_keptD:
  "bytes_kept p s s' \<Longrightarrow> (q, k) \<in> set (live s) \<Longrightarrow> q \<noteq> p \<Longrightarrow>
    (q, k) \<in> set (live s') \<and> (in_region q (unat k) x \<longrightarrow> mem s' x = mem s x)"
  unfolding bytes_kept_def by blast

lemma ensure_call_data_Inr:
  assumes L: "libc_ok (c_lib E)" and wf: "blocks_wf (live s)"
    and log: "call_log_ok (mem s) (live s) mock n es"
    and run: "ensure_call_data E s mock = Inr (mock', s')"
  shows "log_in_block (mem s') (live s') mock' n es" and "blocks_wf (live s')"
    and "if mk_call_data mock = NULL
      then s' = s\<lparr>live := (mk_call_data mock', 4096) # live s\<rparr> \<and>
        fresh_block (live s) (mk_call_data mock') 4096 \<and>
        mock' = mock\<lparr>mk_call_data := mk_call_data mock', mk_call_data_size := 4096\<rparr>
      else s' = s \<and> mock' = mock"
proof -
  have "log_in_block (mem s') (live s') mock' n es \<and> blocks_wf (live s') \<and>
    (if mk_call_data mock = NULL
      then s' = s\<lparr>live := (mk_call_data mock', 4096) # live s\<rparr> \<and>
        fresh_block (live s) (mk_call_data mock') 4096 \<and>
        mock' = mock\<lparr>mk_call_data := mk_call_data mock', mk_call_data_size := 4096\<rparr>
      else s' = s \<and> mock' = mock)"
  proof (cases "mk_call_data mock = NULL")
    case True
    with run obtain p where m: "mmk_malloc (c_lib E) s 4096 = Inr (p, s')" "p \<noteq> NULL"
      and mock': "mock' = mock\<lparr>mk_call_data := p, mk_call_data_size := 4096\<rparr>"
      by (auto simp: ensure_call_data_def ends)
    then show ?thesis
      using mmk_malloc_fresh [OF L m] wf log True
      by (auto simp: mmk_malloc_Inr_iff log_in_block_def call_log_ok_def)
  next
    case False
    with run wf log show ?thesis
      by (simp add: ensure_call_data_def call_log_ok_def)
  qed
  then show "log_in_block (mem s') (live s') mock' n es" and "blocks_wf (live s')"
    and "if mk_call_data mock = NULL
      then s' = s\<lparr>live := (mk_call_data mock', 4096) # live s\<rparr> \<and>
        fresh_block (live s) (mk_call_data mock') 4096 \<and>
        mock' = mock\<lparr>mk_call_data := mk_call_data mock', mk_call_data_size := 4096\<rparr>
      else s' = s \<and> mock' = mock"
    by blast+
qed

lemma find_and_inc_bump:
  assumes wf: "blocks_wf bs" and log: "log_in_block m bs mock n es"
    and key: "rd m (params + 8) n = key" and sz: "unat sz = n + 8"
  shows "find_and_inc_call_matching m mock params sz =
    Some (if key \<in> keys_of es then (True, wr m (mk_call_data mock) (log_bytes (bump key es))) else (False, m))"
proof -
  have "unat (sz - 8) = n"
    using sz by (simp add: unat_sub word_le_nat_alt)
  moreover have "unat (mk_call_data mock) + unat (mk_call_data_size mock) < 2 ^ 64"
    using blocks_wf_no_wrap [OF wf] log by (simp add: log_in_block_def)
  moreover have "mk_call_data_top mock = of_nat (length (log_bytes es))"
  proof -
    have "unat (mk_call_data_top mock) = length (log_bytes es)"
      using log by (simp add: log_in_block_def)
    then have "of_nat (unat (mk_call_data_top mock)) = (of_nat (length (log_bytes es)) :: size_t)"
      by (simp only:)
    then show ?thesis
      by simp
  qed
  moreover have "mk_call_data_top mock = 0 \<longleftrightarrow> es = []"
    using log by (cases es) (auto simp: log_in_block_def unat_eq_0 [symmetric])
  ultimately show ?thesis
    using find_and_inc_loop_bump [of m "params + 8" "sz - 8" key mock "mk_call_data mock" es] log key
    by (simp add: find_and_inc_call_matching_def mmk_mock_params_begin_def log_in_block_def log_at_def
        first_params_def)
qed

lemma grow_size_Some:
  "unat need + 4096 < 2 ^ 64 \<Longrightarrow>
    \<exists>sz'. grow_size need sz = Some sz' \<and> unat need < unat sz' \<and>
      unat sz' \<le> max (unat sz) (unat need + 4096) \<and> unat sz \<le> unat sz' \<and>
      4096 dvd unat sz' - unat sz"
proof (induction "unat need + 1 - unat sz" arbitrary: sz rule: less_induct)
  case less
  show ?case
  proof (cases "sz \<le> need")
    case True
    then have le: "unat sz \<le> unat need"
      by (simp add: word_le_nat_alt)
    then have u: "unat (sz + 4096) = unat sz + 4096"
      using unat_add_no_wrap [of sz 4096] less.prems by simp
    have "unat need + 1 - unat (sz + 4096) < unat need + 1 - unat sz"
      using u le by simp
    from less.hyps [OF this less.prems] obtain sz' where
      "grow_size need (sz + 4096) = Some sz'" "unat need < unat sz'"
      "unat sz' \<le> max (unat sz + 4096) (unat need + 4096)"
      and dvd: "unat sz + 4096 \<le> unat sz'" "4096 dvd unat sz' - (unat sz + 4096)"
      unfolding u by blast
    moreover from dvd(1) have "unat sz' - unat sz = unat sz' - (unat sz + 4096) + 4096"
      by simp
    with dvd(2) have "4096 dvd unat sz' - unat sz"
      by (simp only: dvd_add dvd_refl)
    ultimately show ?thesis
      using True le by (intro exI [of _ sz']) (simp add: grow_size.simps)
  next
    case False
    then show ?thesis
      by (intro exI [of _ sz]) (simp add: grow_size.simps word_le_nat_alt)
  qed
qed

lemma rd_prefix: "rd m' a' n = rd m a n \<Longrightarrow> k \<le> n \<Longrightarrow> rd m' a' k = rd m a k"
proof -
  assume r: "rd m' a' n = rd m a n" and k: "k \<le> n"
  have "rd m' a' (k + (n - k)) = rd m a (k + (n - k))"
    using r k by simp
  then show ?thesis
    unfolding rd_append by (simp add: append_eq_append_conv)
qed

lemma dvd_less_add: "(8 :: nat) dvd a \<Longrightarrow> 8 dvd b \<Longrightarrow> a < b \<Longrightarrow> a + 8 \<le> b"
  by (auto elim!: dvdE)

lemma mmk_realloc_Inr:
  assumes L: "libc_ok (c_lib E)" and wf: "blocks_wf (live s)" and p: "(p, old) \<in> set (live s)" "unat old \<le> unat n"
    and run: "mmk_realloc (c_lib E) s p n = Inr (q, s')" and q: "q \<noteq> NULL"
  shows "s' = s\<lparr>live := (q, n) # unblock p (live s), mem := wr (mem s) q (rd (mem s) p (unat old))\<rparr>"
    and "fresh_block (unblock p (live s)) q n" and "blocks_wf (live s')"
    and "bytes_kept p s s'" and "rd (mem s') q (unat old) = rd (mem s) p (unat old)"
proof -
  have old: "map_of (live s) p = Some old"
    by (rule blocks_wf_map_of [OF wf p(1)])
  from run q have "realloc_block (c_lib E) s p n = Inr (q, s\<lparr>live := (q, n) # unblock p (live s)\<rparr>)"
    and s': "s' = s\<lparr>live := (q, n) # unblock p (live s), mem := wr (mem s) q (rd (mem s) p (unat old))\<rparr>"
    using p(2) old by (auto simp: mmk_realloc_def ends realloc_block_Inr_iff Let_def)
  then have "q = libc_realloc (c_lib E) (live s) p n"
    by (simp add: realloc_block_Inr_iff)
  then have fresh: "fresh_block (unblock p (live s)) q n"
    using L q by (auto simp: libc_ok_def)
  have bound: "unat old \<le> 2 ^ 64"
    using less_imp_le [OF unat_less_64, of old] .
  show "s' = s\<lparr>live := (q, n) # unblock p (live s), mem := wr (mem s) q (rd (mem s) p (unat old))\<rparr>"
    by (rule s')
  show "fresh_block (unblock p (live s)) q n" and "blocks_wf (live s')"
    using fresh blocks_wf_unblock [OF wf] by (simp_all add: s')
  show "rd (mem s') q (unat old) = rd (mem s) p (unat old)"
    using bound by (simp add: s' rd_wr_same')
  show "bytes_kept p s s'"
    unfolding bytes_kept_def
  proof (intro ballI, clarify)
    fix b k
    assume b: "(b, k) \<in> set (live s)" "b \<noteq> p"
    then have b': "(b, k) \<in> set (unblock p (live s))"
      by (simp add: unblock_def)
    have "separate q (unat n) b (unat k)"
      by (rule fresh_block_separate [OF fresh b'])
    then have "\<not> in_region q (unat old) x" if "in_region b (unat k) x" for x
      using that p(2) in_region_prefix [of q "unat old" x "unat n"] by (auto simp: separate_def)
    with b' bound show "(b, k) \<in> set (live s') \<and> (\<forall>x. in_region b (unat k) x \<longrightarrow> mem s' x = mem s x)"
      by (simp add: s' wr_outside)
  qed
qed

lemma bytes_kept_refl: "bytes_kept p s s"
  by (auto simp: bytes_kept_def)

lemma make_room_Inr:
  assumes L: "libc_ok (c_lib E)" and wf: "blocks_wf (live s)"
    and log: "log_in_block (mem s) (live s) mock n es"
    and sz: "unat sz = n + 8" and n: "8 dvd n" and bound: "length (log_bytes es) + n + 8192 < 2 ^ 64"
    and run: "make_room E s mock sz = Inr (mock', s')"
  obtains bs m where "s' = s\<lparr>live := bs, mem := m\<rparr>"
    and "log_in_block (mem s') (live s') mock' n es" and "blocks_wf (live s')"
    and "length (log_bytes es) + n + 24 \<le> unat (mk_call_data_size mock')"
    and "mk_params mock' = mk_params mock" and "mk_stubs mock' = mk_stubs mock"
    and "mk_call_data_top mock' = mk_call_data_top mock"
    and "bytes_kept (mk_call_data mock) s s'"
    and "\<forall>q \<in> fst ` set (live s). q \<noteq> mk_call_data mock \<longrightarrow> q \<noteq> mk_call_data mock'"
proof -
  let ?len = "length (log_bytes es)"
  let ?need = "mk_call_data_top mock + sz + 8"
  have top: "unat (mk_call_data_top mock) = ?len" and data: "(mk_call_data mock, mk_call_data_size mock) \<in> set (live s)"
    and d8: "8 dvd unat (mk_call_data_size mock)" and keys: "\<forall>k \<in> keys_of es. length k = n"
    and free: "?len + 8 \<le> unat (mk_call_data_size mock)"
    using log by (simp_all add: log_in_block_def)
  have need: "unat ?need = ?len + n + 16"
    using top sz bound unat_add_no_wrap [of "mk_call_data_top mock" "n + 8"]
      unat_add_no_wrap [of "mk_call_data_top mock + sz" 8]
    by (simp add: unat_word_ariths)
  have "8 dvd ?len"
    using n length_log_bytes [OF keys] by simp
  then have n8: "8 dvd unat ?need"
    using n by (simp add: need)
  show ?thesis
  proof (cases "mk_call_data_size mock \<le> ?need")
    case False
    then have "unat ?need + 8 \<le> unat (mk_call_data_size mock)"
      using dvd_less_add [OF n8 d8] by (simp add: word_le_nat_alt)
    moreover have "mock' = mock" and "s' = s"
      using run False by (simp_all add: make_room_def)
    ultimately show ?thesis
      using log wf need by (intro that [of "mem s" "live s"]) (simp_all add: bytes_kept_refl)
  next
    case True
    have "unat ?need + 4096 < 2 ^ 64"
      using bound need by simp
    from grow_size_Some [OF this, of "mk_call_data_size mock"] obtain new where
      new: "grow_size ?need (mk_call_data_size mock) = Some new" "unat ?need < unat new"
        "unat (mk_call_data_size mock) \<le> unat new" "4096 dvd unat new - unat (mk_call_data_size mock)"
      by blast
    have "8 dvd unat new - unat (mk_call_data_size mock)"
      using new(4) by (rule dvd_trans [rotated]) simp
    then have new8: "8 dvd unat new"
      using d8 new(3) by (metis dvd_add le_add_diff_inverse)
    from run True new(1) obtain p where
      p: "mmk_realloc (c_lib E) s (mk_call_data mock) new = Inr (p, s')" "p \<noteq> NULL"
      and mock': "mock' = mock\<lparr>mk_call_data := p, mk_call_data_size := new\<rparr>"
      by (auto simp: make_room_def ends)
    note r = mmk_realloc_Inr [OF L wf data new(3) p]
    have room: "?len + n + 24 \<le> unat new"
      using dvd_less_add [OF n8 new8 new(2)] need by simp
    have "rd (mem s') p ?len = rd (mem s) (mk_call_data mock) ?len"
      using free by (intro rd_prefix [OF r(5)]) simp
    then have "log_in_block (mem s') (live s') mock' n es"
      using log p(2) new8 room by (simp add: log_in_block_def mock' r(1))
    moreover have "q \<noteq> p" if "q \<in> fst ` set (live s)" "q \<noteq> mk_call_data mock" for q
      using fresh_block_notin [OF r(2)] that by (auto simp: unblock_def)
    ultimately show ?thesis
      using r(1,3,4) room
      by (intro that [of "wr (mem s) p (rd (mem s) (mk_call_data mock) (unat (mk_call_data_size mock)))"
            "(p, new) # unblock (mk_call_data mock) (live s)"])
        (simp_all add: mock')
  qed
qed

lemma append_call_entry:
  assumes apart: "separate params (n + 8) a (n + 24)" and sz: "unat sz = n + 8" and bound: "n + 24 < 2 ^ 64"
    and a: "a = mk_call_data mock + mk_call_data_top mock"
  shows "append_call m mock params sz = wr m a (entry_bytes (1, rd m (params + 8) n))"
proof -
  define m1 where "m1 = st64 m a sz"
  have sub: "in_region (a + of_nat i) k x \<Longrightarrow> in_region a (n + 24) x" if "i + k \<le> n + 24" for i k x
    using bound that by (intro in_region_shift [of a i k x]) simp_all
  have "separate params (n + 8) (a + 8) (n + 8)"
    by (rule separate_sub [OF apart]) (use sub [of 8 "n + 8"] in auto)
  then have cpy: "mmk_memcpy m1 (a + 8) params (unat sz) = (a + 8, wr m1 (a + 8) (rd m1 params (n + 8)))"
    using memcpy_separate [of params "n + 8" "a + 8" m1] sz by (simp add: mmk_memcpy_def)
  have "separate a 8 params (n + 8)"
    by (rule separate_sub [OF apart [THEN separate_sym [THEN iffD1]]]) (use sub [of 0 8] in auto)
  then have "rd m1 params (8 + n) = rd m params 8 @ rd m (params + 8) n"
    using bound rd_st64_separate [of a params "8 + n" m sz]
    by (simp add: m1_def rd_append add.commute [of n])
  then have "wr m1 (a + 8) (rd m1 params (n + 8)) =
      wr (wr m1 (a + 8) (rd m params 8)) (a + 16) (rd m (params + 8) n)"
    by (simp add: add.commute [of n] wr_append add.assoc)
  moreover have "separate (a + 16) n (a + 8) 8"
    using separate_adjacent [of 8 n "a + 8"] bound by (simp add: separate_sym add.assoc)
  then have "st64 (wr (wr m1 (a + 8) (rd m params 8)) (a + 16) (rd m (params + 8) n)) (a + 8) 1 =
      wr (st64 m1 (a + 8) 1) (a + 16) (rd m (params + 8) n)"
    using bound by (simp add: st64_def wr_wr_swap wr_wr_same)
  moreover have "append_call m mock params sz = st64 (wr m1 (a + 8) (rd m1 params (n + 8))) (a + 8) 1"
    by (simp only: append_call_def Let_def a [symmetric] m1_def [symmetric] cpy prod.case)
  moreover have "wr (st64 m1 (a + 8) 1) (a + 16) (rd m (params + 8) n) =
      wr m a (entry_bytes (1, rd m (params + 8) n))"
    using sz by (simp add: m1_def st64_def entry_bytes_def wr_append add.assoc add.commute [of n])
  ultimately show ?thesis
    by simp
qed

lemma blocks_wf_separate:
  "blocks_wf bs \<Longrightarrow> (p, n) \<in> set bs \<Longrightarrow> (q, k) \<in> set bs \<Longrightarrow> p \<noteq> q \<Longrightarrow> separate p (unat n) q (unat k)"
proof (induction bs)
  case Nil
  then show ?case by simp
next
  case (Cons b bs)
  then show ?case
    using fresh_block_separate separate_sym by (cases b) fastforce
qed

lemma bytes_kept_trans:
  "bytes_kept p s s1 \<Longrightarrow> bytes_kept p1 s1 s2 \<Longrightarrow>
    (\<And>q. q \<in> fst ` set (live s) \<Longrightarrow> q \<noteq> p \<Longrightarrow> q \<noteq> p1) \<Longrightarrow> bytes_kept p s s2"
  unfolding bytes_kept_def by force

lemma bytes_kept_wr:
  assumes "blocks_wf (live s)" and "(p, n) \<in> set (live s)" and "within p n a (length bs)"
    and "live s' = live s" and "mem s' = wr (mem s) a bs"
  shows "bytes_kept p s s'"
  unfolding bytes_kept_def
proof (intro ballI, clarify)
  fix q k
  assume q: "(q, k) \<in> set (live s)" "q \<noteq> p"
  have len: "length bs \<le> 2 ^ 64"
    using assms(3) less_imp_le [OF unat_less_64, of n] by (simp add: within_def)
  have "\<not> in_region a (length bs) x" if "in_region q (unat k) x" for x
    using blocks_wf_separate [OF assms(1,2) q(1)] q(2) that within_in_region [OF assms(3), of x]
    by (auto simp: separate_def)
  with len q assms(4,5) show "(q, k) \<in> set (live s') \<and> (\<forall>x. in_region q (unat k) x \<longrightarrow> mem s' x = mem s x)"
    by (simp add: wr_outside)
qed

lemma bytes_kept_rd:
  assumes "bytes_kept p s s'" and "(q, k) \<in> set (live s)" and "q \<noteq> p" and "within q k a n"
  shows "rd (mem s') a n = rd (mem s) a n"
proof (rule rd_cong)
  fix i
  assume "i < n"
  moreover have "n \<le> 2 ^ 64"
    using assms(4) less_imp_le [OF unat_less_64, of k] by (simp add: within_def)
  ultimately have "in_region a n (a + of_nat i)"
    by (rule in_region_nth)
  then have "in_region q (unat k) (a + of_nat i)"
    by (rule within_in_region [OF assms(4)])
  then show "mem s' (a + of_nat i) = mem s (a + of_nat i)"
    using bytes_keptD [OF assms(1-3)] by blast
qed

text \<open>The two ways in which a call is registered: by counting it, and by a new entry.\<close>

lemma log_in_block_bump:
  assumes log: "log_in_block m bs mock n es" and key: "key \<in> keys_of es"
  shows "log_in_block (wr m (mk_call_data mock) (log_bytes (bump key es))) bs mock n (bump key es)"
proof -
  have "length (log_bytes (bump key es)) \<le> 2 ^ 64"
    using log key less_imp_le [OF unat_less_64, of "mk_call_data_size mock"]
    by (simp add: log_in_block_def length_log_bytes_bump)
  then show ?thesis
    using log key by (auto simp: log_in_block_def length_log_bytes_bump rd_wr_same')
qed

lemma log_in_block_append:
  assumes log: "log_in_block m bs mock n es" and sz: "unat sz = n + 8" and key: "length key = n"
    and new: "key \<notin> keys_of es" and room: "length (log_bytes es) + n + 24 \<le> unat (mk_call_data_size mock)"
    and m': "m' = wr m (mk_call_data mock + mk_call_data_top mock) (entry_bytes (1, key))"
  shows "log_in_block m' bs (mock\<lparr>mk_call_data_top := mk_call_data_top mock + (sz + 8)\<rparr>) n (bump key es)"
    and "within (mk_call_data mock) (mk_call_data_size mock)
      (mk_call_data mock + mk_call_data_top mock) (length (entry_bytes (1, key)))"
proof -
  let ?len = "length (log_bytes es)" and ?p = "mk_call_data mock"
  have lt: "?len + n + 24 < 2 ^ 64"
    using room unat_less_64 [of "mk_call_data_size mock"] by simp
  have top: "unat (mk_call_data_top mock) = ?len"
    using log by (simp add: log_in_block_def)
  then have top': "mk_call_data_top mock = of_nat ?len"
    by (metis of_nat_unat ucast_id)
  have "sz = of_nat (n + 8)"
    using sz by (metis of_nat_unat ucast_id)
  then have "unat (mk_call_data_top mock + (sz + 8)) = ?len + (n + 16)"
    using unat_add_no_wrap [of "mk_call_data_top mock" "n + 16"] top lt by (simp add: add.assoc)
  moreover have "rd m' ?p (?len + (16 + n)) = log_bytes es @ entry_bytes (1, key)"
  proof -
    have "rd m' ?p ?len = rd m ?p ?len"
      unfolding m' top' using lt key separate_adjacent [of ?len "16 + n" ?p]
      by (intro rd_wr_separate) (simp_all add: separate_sym)
    moreover have "rd m' (?p + of_nat ?len) (16 + n) = entry_bytes (1, key)"
      unfolding m' top' using lt key by (intro rd_wr_same') simp_all
    ultimately show ?thesis
      using log by (simp add: rd_append log_in_block_def)
  qed
  ultimately show "log_in_block m' bs (mock\<lparr>mk_call_data_top := mk_call_data_top mock + (sz + 8)\<rparr>) n (bump key es)"
    using log key new room by (simp add: log_in_block_def bump_new keys_of_def image_Un add.commute)
  show "within (mk_call_data mock) (mk_call_data_size mock)
      (mk_call_data mock + mk_call_data_top mock) (length (entry_bytes (1, key)))"
    using top key room by (simp add: within_def)
qed

lemma within_shift:
  assumes "within q k a (n + i)"
  shows "within q k (a + of_nat i) n"
proof -
  have "a + of_nat i - q = (a - q) + of_nat i"
    by simp
  then have "unat (a + of_nat i - q) \<le> unat (a - q) + i"
    by (simp only: unat_word_ariths unat_of_nat) (metis mod_add_right_eq mod_less_eq_dividend)
  then show ?thesis
    using assms by (simp add: within_def)
qed

lemma mmk_verify_register_call_Inr:
  assumes L: "libc_ok (c_lib E)" and wf: "blocks_wf (live s)"
    and ctx: "mmk_stub_context s (mmk_ctx s) = Inr ctx" and mock: "mocks s ctx = Some mock"
    and log: "call_log_ok (mem s) (live s) mock n es"
    and params: "(q, k) \<in> set (live s)" "within q k params (n + 8)" "q \<noteq> mk_call_data mock"
    and key: "rd (mem s) (params + 8) n = key" and sz: "unat sz = n + 8" and n: "8 dvd n"
    and bound: "length (log_bytes es) + n + 8192 < 2 ^ 64"
    and run: "mmk_verify_register_call E s params sz = Inr s'"
  obtains mock' bs m where "s' = s\<lparr>live := bs, mem := m, mocks := (mocks s)(ctx \<mapsto> mock')\<rparr>"
    and "log_in_block m bs mock' n (bump key es)" and "blocks_wf bs"
    and "bytes_kept (mk_call_data mock) s s'"
    and "mk_params mock' = mk_params mock" and "mk_stubs mock' = mk_stubs mock"
    and "\<forall>p \<in> fst ` set (live s). p \<noteq> mk_call_data mock \<longrightarrow> p \<noteq> mk_call_data mock'"
proof -
  let ?p = "mk_call_data mock"
  from run ctx mock obtain mock1 s1 where e: "ensure_call_data E s mock = Inr (mock1, s1)"
    by (auto simp: mmk_verify_register_call_def ends)
  note e' = ensure_call_data_Inr [OF L wf log e]
  let ?p1 = "mk_call_data mock1"
  obtain bs1 where s1: "s1 = s\<lparr>live := bs1\<rparr>"
    and same1: "mk_params mock1 = mk_params mock" "mk_stubs mock1 = mk_stubs mock"
    and q1: "\<And>q. q \<in> fst ` set (live s) \<Longrightarrow> q \<noteq> ?p \<Longrightarrow> q \<noteq> ?p1"
    and keep1: "bytes_kept ?p s s1"
  proof (cases "?p = NULL")
    case True
    then have eq: "s1 = s\<lparr>live := (?p1, 4096) # live s\<rparr>" "fresh_block (live s) ?p1 4096"
      "mock1 = mock\<lparr>mk_call_data := ?p1, mk_call_data_size := 4096\<rparr>"
      using e'(3) by simp_all
    show ?thesis
    proof (rule that [of "(?p1, 4096) # live s"])
      show "mk_params mock1 = mk_params mock" "mk_stubs mock1 = mk_stubs mock"
        by (subst eq(3), simp)+
      show "q \<noteq> ?p1" if "q \<in> fst ` set (live s)" for q
        using fresh_block_notin [OF eq(2)] that by blast
      show "bytes_kept ?p s s1"
        by (auto simp: bytes_kept_def eq(1))
    qed (rule eq(1))
  next
    case False
    with e'(3) that [of "live s"] show ?thesis
      by (simp add: bytes_kept_refl)
  qed
  have "q \<in> fst ` set (live s)"
    using params(1) by force
  then have qk1: "(q, k) \<in> set (live s1)" "q \<noteq> ?p1"
    using bytes_keptD [OF keep1 params(1,3)] q1 [of q] params(3) by blast+
  have key1: "rd (mem s1) (params + 8) n = key"
    using key by (simp add: s1)
  note f = find_and_inc_bump [OF e'(2,1) key1 sz]
  show ?thesis
  proof (cases "key \<in> keys_of es")
    case True
    then have s': "s' = s1\<lparr>mem := wr (mem s1) ?p1 (log_bytes (bump key es)), mocks := (mocks s1)(ctx \<mapsto> mock1)\<rparr>"
      using run ctx mock e f by (simp add: mmk_verify_register_call_def)
    have len: "length (log_bytes (bump key es)) \<le> unat (mk_call_data_size mock1)"
      using e'(1) True by (simp add: log_in_block_def length_log_bytes_bump)
    have "bytes_kept ?p1 s1 s'"
      using e'(1,2) len s' by (intro bytes_kept_wr [of s1 ?p1 "mk_call_data_size mock1" ?p1])
        (simp_all add: log_in_block_def within_def)
    then have "bytes_kept ?p s s'"
      using keep1 q1 by (blast intro: bytes_kept_trans)
    then show ?thesis
      using log_in_block_bump [OF e'(1) True] e'(2) same1 q1 s' s1
      by (intro that [of mock1 "wr (mem s1) ?p1 (log_bytes (bump key es))" bs1]) simp_all
  next
    case False
    then obtain mock2 s2 where r: "make_room E s1 mock1 sz = Inr (mock2, s2)"
      and s': "s' = s2\<lparr>mem := append_call (mem s2) mock2 params sz,
        mocks := (mocks s2)(ctx \<mapsto> mock2\<lparr>mk_call_data_top := mk_call_data_top mock2 + (sz + 8)\<rparr>)\<rparr>"
      using run ctx mock e f by (auto simp: mmk_verify_register_call_def ends)
    from L e'(2,1) sz n bound r obtain bs2 m2 where s2: "s2 = s1\<lparr>live := bs2, mem := m2\<rparr>"
      and log2: "log_in_block (mem s2) (live s2) mock2 n es" and wf2: "blocks_wf (live s2)"
      and room: "length (log_bytes es) + n + 24 \<le> unat (mk_call_data_size mock2)"
      and same2: "mk_params mock2 = mk_params mock1" "mk_stubs mock2 = mk_stubs mock1"
        "mk_call_data_top mock2 = mk_call_data_top mock1"
      and keep2: "bytes_kept ?p1 s1 s2"
      and q2: "\<forall>q \<in> fst ` set (live s1). q \<noteq> ?p1 \<longrightarrow> q \<noteq> mk_call_data mock2"
      by (rule make_room_Inr)
    let ?a = "mk_call_data mock2 + mk_call_data_top mock2"
    have lenkey: "length key = n"
      using key by auto
    note ap = log_in_block_append [OF log2 sz lenkey False room]
    have "q \<in> fst ` set (live s1)"
      using qk1 by force
    then have qk2: "(q, k) \<in> set (live s2)" "q \<noteq> mk_call_data mock2"
      using bytes_keptD [OF keep2 qk1] q2 qk1(2) by blast+
    have "within q k (params + 8) n"
      using within_shift [OF params(2)] by simp
    then have key2: "rd (mem s2) (params + 8) n = key"
      using bytes_kept_rd [OF keep2 qk1] key1 by simp
    have "within (mk_call_data mock2) (mk_call_data_size mock2) ?a (n + 24)"
      using log2 room by (simp add: within_def log_in_block_def)
    moreover have "separate q (unat k) (mk_call_data mock2) (unat (mk_call_data_size mock2))"
      using log2 qk2 by (intro blocks_wf_separate [OF wf2]) (simp_all add: log_in_block_def)
    ultimately have "separate params (n + 8) ?a (n + 24)"
      using within_in_region params(2) by (blast intro: separate_sub)
    then have ac: "append_call (mem s2) mock2 params sz = wr (mem s2) ?a (entry_bytes (1, key))"
      using append_call_entry [of params n ?a sz mock2 "mem s2"] sz bound key2 by simp
    note ap' = ap [OF ac]
    have "bytes_kept (mk_call_data mock2) s2 s'"
      using wf2 log2 ap'(2) s' ac
      by (intro bytes_kept_wr [of s2 _ "mk_call_data_size mock2" ?a]) (simp_all add: log_in_block_def)
    then have "bytes_kept ?p1 s1 s'"
      using keep2 q2 by (blast intro: bytes_kept_trans)
    then have "bytes_kept ?p s s'"
      using keep1 q1 by (blast intro: bytes_kept_trans)
    moreover have "p \<noteq> mk_call_data mock2" if p: "p \<in> fst ` set (live s)" "p \<noteq> ?p" for p
    proof -
      from p(1) obtain b where "(p, b) \<in> set (live s)"
        by auto
      from bytes_keptD [OF keep1 this p(2)] have "p \<in> fst ` set (live s1)"
        by force
      then show ?thesis
        using q1 [OF p] q2 by blast
    qed
    ultimately show ?thesis
      using ap'(1) wf2 same1 same2 s' s2 s1 
      by (intro that [of "mock2\<lparr>mk_call_data_top := mk_call_data_top mock2 + (sz + 8)\<rparr>"
          "append_call (mem s2) mock2 params sz" bs2]) simp_all
  qed
qed

text \<open>What the loop of a verification visits: for each entry its count and the \<open>n\<close> bytes that follow the count.\<close>

partial_function (option) read_log :: "mem \<Rightarrow> mmk_mock_ctx \<Rightarrow> nat \<Rightarrow> addr \<Rightarrow> entries option" where
  "read_log m mock n p =
     (if p = NULL then Some []
      else do {
        es \<leftarrow> read_log m mock n (mmk_mock_params_next m mock p);
        Some ((ld64 m p, rd m (p + 8) n) # es)
      })"

declare read_log.simps [simp del]

lemma read_log_at:
  "log_at m mock a es \<Longrightarrow> \<forall>k \<in> keys_of es. length k = n \<Longrightarrow> read_log m mock n (first_params a es) = Some es"
proof (induction es arbitrary: a)
  case Nil
  then show ?case
    by (simp add: read_log.simps first_params_def)
next
  case (Cons e es)
  obtain t k where e: "e = (t, k)"
    by (cases e)
  note step = log_at_step [OF Cons.prems(1) [unfolded e]]
  have "read_log m mock n (first_params (a + of_nat (16 + length k)) es) = Some es"
    using step(6) Cons.prems(2) by (intro Cons.IH) simp_all
  then show ?case
    using step Cons.prems(2) e by (simp add: read_log.simps [of _ _ _ "a + 8"] first_params_def [of a] add.assoc)
qed

lemma log_in_block_at:
  assumes wf: "blocks_wf bs" and log: "log_in_block m bs mk n es"
  shows "log_at m mk (mk_call_data mk) es" and "mmk_mock_params_begin mk = first_params (mk_call_data mk) es"
proof -
  note L = log [unfolded log_in_block_def]
  have wrap: "unat (mk_call_data mk) + unat (mk_call_data_size mk) < 2 ^ 64"
    using L by (intro blocks_wf_no_wrap [OF wf]) blast
  have len: "unat (mk_call_data_top mk) = length (log_bytes es)"
    using L by blast
  then have top: "mk_call_data_top mk = of_nat (length (log_bytes es))"
    by (simp flip: len)
  show "log_at m mk (mk_call_data mk) es"
    using L wrap by (auto simp: log_at_def top)
  have "mk_call_data_top mk = 0 \<longleftrightarrow> length (log_bytes es) = 0"
    by (simp flip: len add: unat_eq_0)
  then have "mk_call_data_top mk = 0 \<longleftrightarrow> es = []"
    by (cases es) simp_all
  then show "mmk_mock_params_begin mk = first_params (mk_call_data mk) es"
    using L by (simp add: mmk_mock_params_begin_def first_params_def)
qed

lemma read_log_in_block:
  "blocks_wf bs \<Longrightarrow> log_in_block m bs mock n es \<Longrightarrow> read_log m mock n (mmk_mock_params_begin mock) = Some es"
  using read_log_at log_in_block_at by (metis log_in_block_def)

lemma read_log_ok:
  assumes "blocks_wf bs" and "call_log_ok m bs mock n es"
  shows "read_log m mock n (mmk_mock_params_begin mock) = Some es"
proof (cases "mk_call_data mock = NULL")
  case True
  with assms(2) have "es = []" and "mmk_mock_params_begin mock = NULL"
    by (simp_all add: call_log_ok_def mmk_mock_params_begin_def)
  then show ?thesis
    by (simp add: read_log.simps [of _ _ _ NULL])
next
  case False
  with assms show ?thesis
    by (intro read_log_in_block) (simp_all add: call_log_ok_def)
qed

text \<open>The only way in which registering a call can fail is an allocation.\<close>

lemma mmk_malloc_Inl: "vitals_ready (vit s) \<Longrightarrow> mmk_malloc L s n \<noteq> Inl e"
  by (simp add: mmk_malloc_def Let_def vitals_ready_def)

lemma mmk_realloc_Inl:
  "vitals_ready (vit s) \<Longrightarrow> (p, old) \<in> set (live s) \<Longrightarrow> mmk_realloc L s p n \<noteq> Inl e"
  using image_eqI [of p fst "(p, old)" "set (live s)"]
  by (simp add: mmk_realloc_def realloc_block_def Let_def vitals_ready_def andthen_def)

lemma mmk_verify_register_call_Inl:
  assumes L: "libc_ok (c_lib E)" and wf: "blocks_wf (live s)" and ready: "vitals_ready (vit s)"
    and ctx: "mmk_stub_context s (mmk_ctx s) = Inr ctx" and mock: "mocks s ctx = Some mock"
    and log: "call_log_ok (mem s) (live s) mock n es"
    and sz: "unat sz = n + 8" and bound: "length (log_bytes es) + n + 8192 < 2 ^ 64"
    and run: "mmk_verify_register_call E s params sz = Inl e"
  shows "e = Assert_failed ''mock->call_data''"
proof (cases "ensure_call_data E s mock")
  case (Inl e')
  then show ?thesis
    using run ctx mock mmk_malloc_Inl [OF ready]
    by (auto simp: mmk_verify_register_call_def ensure_call_data_def andthen_Inl_iff mmk_assert_def
        split: if_splits)
next
  case (Inr r)
  obtain mock1 s1 where r: "r = (mock1, s1)"
    by (cases r)
  note e = ensure_call_data_Inr [OF L wf log Inr [unfolded r]]
  have ready1: "vitals_ready (vit s1)"
    using ready by (cases "mk_call_data mock = NULL") (use e(3) in \<open>auto dest: arg_cong [of _ _ vit]\<close>)
  let ?need = "mk_call_data_top mock1 + sz + 8"
  have top: "unat (mk_call_data_top mock1) = length (log_bytes es)"
    and data: "(mk_call_data mock1, mk_call_data_size mock1) \<in> set (live s1)"
    using e(1) by (simp_all add: log_in_block_def)
  have "unat ?need = length (log_bytes es) + n + 16"
    using top sz bound unat_add_no_wrap [of "mk_call_data_top mock1" "n + 8"]
      unat_add_no_wrap [of "mk_call_data_top mock1 + sz" 8]
    by (simp add: unat_word_ariths)
  then have "unat ?need + 4096 < 2 ^ 64"
    using bound by simp
  then obtain new where new: "grow_size ?need (mk_call_data_size mock1) = Some new"
    using grow_size_Some by blast
  from run ctx mock Inr r find_and_inc_bump [OF e(2,1) refl sz] have "make_room E s1 mock1 sz = Inl e"
    by (auto simp: mmk_verify_register_call_def andthen_Inl_iff split: if_splits prod.splits)
  then show ?thesis
    using new mmk_realloc_Inl [OF ready1 data]
    by (auto simp: make_room_def andthen_Inl_iff mmk_assert_def split: if_splits)
qed

end
