(* ===== verification/Verify.thy ===== *)
theory Verify
  imports Call_Log
begin

text \<open>
  The rest of \<open>src/verify.c\<close>, with \<open>include/mimick/verify.h\<close>: the thread-local number of matching calls that the
  stub of a mock leaves for \<open>mmk_verify\<close>, and the check of that number against the key/value
  pairs of the expression. A key that is not given is zero. The function pointed to by \<open>.matching\<close> is
  a parameter.
\<close>

record verifying = mocking +
  times_var :: size_t

record mmk_verify_params =
  vp_never :: cint
  vp_at_least :: size_t
  vp_at_most :: size_t
  vp_times :: size_t
  vp_matching :: addr

definition no_keys :: mmk_verify_params where
  "no_keys = \<lparr>vp_never = 0, vp_at_least = 0, vp_at_most = 0, vp_times = 0, vp_matching = NULL\<rparr>"

definition mmk_verify_set_times :: "'a verifying_scheme \<Rightarrow> size_t \<Rightarrow> 'a verifying_scheme" where
  "mmk_verify_set_times s t = s\<lparr>times_var := t\<rparr>"

definition truth :: "bool \<Rightarrow> cint" where
  "truth b = (if b then 1 else 0)"

definition mmk_verify_times ::
  "(addr \<Rightarrow> size_t \<Rightarrow> cint) \<Rightarrow> 'a verifying_scheme \<Rightarrow> mmk_verify_params \<Rightarrow> cint" where
  "mmk_verify_times matching_fn s params =
     (let t = times_var s
      in if vp_never params \<noteq> 0 then truth (t = 0)
         else if vp_at_least params \<noteq> 0 \<or> vp_at_most params \<noteq> 0 then
           (let most = (if vp_at_most params \<noteq> 0 then vp_at_most params else t)
            in truth (vp_at_least params \<le> t \<and> t \<le> most))
         else if vp_matching params \<noteq> NULL then matching_fn (vp_matching params) t
         else if 0 < vp_times params then truth (vp_times params = t)
         else 1)"

lemma truth_nonzero [simp]: "truth b \<noteq> 0 \<longleftrightarrow> b"
  by (simp add: truth_def)

text \<open>What each key says on its own, and \<open>.at_least\<close> with \<open>.at_most\<close>.\<close>

lemma mmk_verify_times_keys:
  fixes s :: "'a verifying_scheme" and f :: "addr \<Rightarrow> size_t \<Rightarrow> cint"
  defines "passes \<equiv> (\<lambda>p. mmk_verify_times f s p \<noteq> 0)"
  shows "passes no_keys"
    and "passes (no_keys\<lparr>vp_never := 1\<rparr>) \<longleftrightarrow> times_var s = 0"
    and "0 < n \<Longrightarrow> passes (no_keys\<lparr>vp_times := n\<rparr>) \<longleftrightarrow> times_var s = n"
    and "0 < n \<Longrightarrow> passes (no_keys\<lparr>vp_at_least := n\<rparr>) \<longleftrightarrow> n \<le> times_var s"
    and "0 < n \<Longrightarrow> passes (no_keys\<lparr>vp_at_most := n\<rparr>) \<longleftrightarrow> times_var s \<le> n"
    and "0 < n \<Longrightarrow> passes (no_keys\<lparr>vp_at_least := k, vp_at_most := n\<rparr>) \<longleftrightarrow> k \<le> times_var s \<and> times_var s \<le> n"
    and "p \<noteq> NULL \<Longrightarrow> mmk_verify_times f s (no_keys\<lparr>vp_matching := p\<rparr>) = f p (times_var s)"
  by (auto simp: passes_def no_keys_def mmk_verify_times_def Let_def word_gt_0)

text \<open>A bound of zero cannot be told from one that is not given: it always passes.\<close>

lemma mmk_verify_times_zero_ignored:
  "mmk_verify_times f s (no_keys\<lparr>vp_times := 0\<rparr>) \<noteq> 0"
  "mmk_verify_times f s (no_keys\<lparr>vp_at_most := 0\<rparr>) \<noteq> 0"
  by (simp_all add: no_keys_def mmk_verify_times_def Let_def)

end
