(* ===== verification/Params.thy ===== *)
theory Params
  imports Memory
begin

text \<open>
  The structures that \<open>MMK_MOCK_DEFINE_TYPES\<close> of \<open>include/mimick/mock.h\<close> declares for a blueprint. A parameter has an
  integer or pointer type of 1, 2, 4 or 8 bytes, and its value is an \<open>int\<close> in the range of the type. The
  parameters of a call follow three eight-byte fields (\<open>mmk_times__\<close> and the two for variadic
  arguments), each aligned to its size. The bytes of padding are whatever the stack held and are a parameter.
\<close>

section \<open>Scalars\<close>

record ctype =
  ty_size :: nat
  ty_signed :: bool

definition ctype_ok :: "ctype \<Rightarrow> bool" where
  "ctype_ok ty \<longleftrightarrow> ty_size ty \<in> {1, 2, 4, 8}"

definition in_range :: "ctype \<Rightarrow> int \<Rightarrow> bool" where
  "in_range ty v \<longleftrightarrow>
     (if ty_signed ty then - (2 ^ (8 * ty_size ty - 1)) \<le> v \<and> v < 2 ^ (8 * ty_size ty - 1)
      else 0 \<le> v \<and> v < 2 ^ (8 * ty_size ty))"

definition store_value :: "ctype \<Rightarrow> int \<Rightarrow> byte list" where
  "store_value ty v = le_bytes (ty_size ty) (nat (v mod 2 ^ (8 * ty_size ty)))"

definition load_value :: "ctype \<Rightarrow> byte list \<Rightarrow> int" where
  "load_value ty bs =
     (let u = int (le_val bs)
      in if ty_signed ty \<and> 2 ^ (8 * ty_size ty - 1) \<le> u then u - 2 ^ (8 * ty_size ty) else u)"

lemma length_store_value [simp]: "length (store_value ty v) = ty_size ty"
  by (simp add: store_value_def)

lemma load_store_value: "ctype_ok ty \<Longrightarrow> in_range ty v \<Longrightarrow> load_value ty (store_value ty v) = v"
proof -
  assume ok: "ctype_ok ty" and r: "in_range ty v"
  define w where "w = 8 * ty_size ty"
  have "(256 :: nat) ^ ty_size ty = 2 ^ w"
    by (simp add: w_def power_mult)
  then have "int (le_val (store_value ty v)) = v mod 2 ^ w"
    by (simp add: store_value_def le_val_le_bytes w_def [symmetric] nat_mod_as_int)
  moreover have "(2 :: int) ^ w = 2 * 2 ^ (w - 1)"
    using ok by (auto simp: ctype_ok_def w_def)
  moreover have "v mod 2 ^ w = (if v < 0 then v + 2 ^ w else v)"
  proof (cases "v < 0")
    case True
    then have "0 \<le> v + 2 ^ w" and "v + 2 ^ w < 2 ^ w"
      using r calculation(2) by (auto simp: in_range_def w_def [symmetric] split: if_splits)
    then have "(v + 2 ^ w) mod 2 ^ w = v + 2 ^ w"
      by (rule mod_pos_pos_trivial)
    with True show ?thesis
      by simp
  next
    case False
    then show ?thesis
      using r calculation(2) by (auto simp: in_range_def w_def [symmetric] split: if_splits)
  qed
  ultimately show ?thesis
    using r by (auto simp: load_value_def Let_def in_range_def w_def [symmetric] split: if_splits)
qed

section \<open>Layout\<close>

definition align_up :: "nat \<Rightarrow> nat \<Rightarrow> nat" where
  "align_up off a = (off + (a - 1)) div a * a"

fun struct_end :: "nat \<Rightarrow> ctype list \<Rightarrow> nat" where
  "struct_end off [] = align_up off 8"
| "struct_end off (ty # tys) = struct_end (align_up off (ty_size ty) + ty_size ty) tys"

fun field_bytes :: "(nat \<Rightarrow> byte) \<Rightarrow> nat \<Rightarrow> ctype list \<Rightarrow> int list \<Rightarrow> byte list" where
  "field_bytes junk off (ty # tys) (v # vs) =
     map junk [off..<align_up off (ty_size ty)] @ store_value ty v @
     field_bytes junk (align_up off (ty_size ty) + ty_size ty) tys vs"
| "field_bytes junk off _ _ = map junk [off..<align_up off 8]"

fun read_fields :: "mem \<Rightarrow> addr \<Rightarrow> nat \<Rightarrow> ctype list \<Rightarrow> int list" where
  "read_fields m p off [] = []"
| "read_fields m p off (ty # tys) =
     (let o' = align_up off (ty_size ty)
      in load_value ty (rd m (p + of_nat o') (ty_size ty)) # read_fields m p (o' + ty_size ty) tys)"

text \<open>The size of \<open>struct params\<close>, and its bytes for a call that is not variadic.\<close>

definition sizeof_params :: "ctype list \<Rightarrow> nat" where
  "sizeof_params tys = struct_end 24 tys"

definition params_bytes :: "(nat \<Rightarrow> byte) \<Rightarrow> ctype list \<Rightarrow> int list \<Rightarrow> byte list" where
  "params_bytes junk tys vs =
     le_bytes 8 0 @ le_bytes 8 0 @ le_bytes 8 0 @ field_bytes junk 24 tys vs"

definition read_params :: "mem \<Rightarrow> addr \<Rightarrow> ctype list \<Rightarrow> int list" where
  "read_params m p tys = read_fields m p 24 tys"

lemma align_up_le: "0 < a \<Longrightarrow> off \<le> align_up off a"
proof -
  assume a: "0 < a"
  have "off + (a - 1) = (off + (a - 1)) div a * a + (off + (a - 1)) mod a"
    by simp
  moreover have "(off + (a - 1)) mod a < a"
    using a by simp
  ultimately show ?thesis
    unfolding align_up_def by linarith
qed

lemma ctype_ok_pos: "ctype_ok ty \<Longrightarrow> 0 < ty_size ty"
  by (auto simp: ctype_ok_def)

lemma struct_end_le: "list_all ctype_ok tys \<Longrightarrow> off \<le> struct_end off tys"
proof (induction off tys rule: struct_end.induct)
  case (1 off)
  then show ?case by (simp add: align_up_le)
next
  case (2 off ty tys)
  have "off \<le> align_up off (ty_size ty)"
    using 2 by (intro align_up_le) (simp add: ctype_ok_pos)
  with 2 show ?case by simp
qed

lemma struct_end_dvd: "8 dvd struct_end off tys"
  by (induction off tys rule: struct_end.induct) (simp_all add: align_up_def)

lemma length_field_bytes:
  "list_all ctype_ok tys \<Longrightarrow> length vs = length tys \<Longrightarrow>
    length (field_bytes junk off tys vs) = struct_end off tys - off"
proof (induction junk off tys vs rule: field_bytes.induct)
  case (1 junk off ty tys v vs)
  let ?o = "align_up off (ty_size ty)"
  have "off \<le> ?o"
    using 1 by (intro align_up_le) (simp add: ctype_ok_pos)
  moreover have "?o + ty_size ty \<le> struct_end (?o + ty_size ty) tys"
    using 1 by (intro struct_end_le) simp
  ultimately show ?case
    using 1 by simp
qed auto


text \<open>Reading the fields back gives the values.\<close>

lemma read_field_bytes:
  "list_all ctype_ok tys \<Longrightarrow> list_all2 in_range tys vs \<Longrightarrow>
    rd m (p + of_nat off) (struct_end off tys - off) = field_bytes junk off tys vs \<Longrightarrow>
    read_fields m p off tys = vs"
proof (induction junk off tys vs rule: field_bytes.induct)
  case (1 junk off ty tys v vs)
  let ?o = "align_up off (ty_size ty)"
  let ?e = "struct_end (?o + ty_size ty) tys"
  have o: "off \<le> ?o"
    using 1 by (intro align_up_le) (simp add: ctype_ok_pos)
  have e: "?o + ty_size ty \<le> ?e"
    using 1 by (intro struct_end_le) simp
  have "?e - off = (?o - off) + (ty_size ty + (?e - (?o + ty_size ty)))"
    using o e by simp
  moreover have "p + of_nat off + of_nat (?o - off) = p + of_nat ?o"
    using o by (simp add: of_nat_diff)
  ultimately have r: "rd m (p + of_nat off) (?e - off) = rd m (p + of_nat off) (?o - off) @
      rd m (p + of_nat ?o) (ty_size ty) @ rd m (p + of_nat (?o + ty_size ty)) (?e - (?o + ty_size ty))"
    by (simp only: rd_append of_nat_add add.assoc)
  have "rd m (p + of_nat ?o) (ty_size ty) = store_value ty v" and
    "rd m (p + of_nat (?o + ty_size ty)) (?e - (?o + ty_size ty)) = field_bytes junk (?o + ty_size ty) tys vs"
    using "1.prems"(3) unfolding struct_end.simps r field_bytes.simps
    by (simp_all add: append_eq_append_conv)
  then show ?case
    using 1 by (simp add: Let_def load_store_value)
qed auto

lemma read_params_bytes:
  assumes "list_all ctype_ok tys" and "list_all2 in_range tys vs"
    and "rd m p (sizeof_params tys) = params_bytes junk tys vs"
  shows "read_params m p tys = vs"
proof -
  have "24 \<le> sizeof_params tys"
    unfolding sizeof_params_def by (rule struct_end_le [OF assms(1)])
  then have "sizeof_params tys = 24 + (sizeof_params tys - 24)"
    by simp
  then have "rd m p (24 + (sizeof_params tys - 24)) = params_bytes junk tys vs"
    using assms(3) by simp
  then have "rd m (p + of_nat 24) (struct_end 24 tys - 24) = field_bytes junk 24 tys vs"
    unfolding rd_append params_bytes_def sizeof_params_def
    by (drule_tac arg_cong [where f = "drop 24"]) simp
  then show ?thesis
    unfolding read_params_def by (rule read_field_bytes [OF assms(1,2)])
qed

lemma sizeof_params_facts:
  "list_all ctype_ok tys \<Longrightarrow> 24 \<le> sizeof_params tys"
  "8 dvd sizeof_params tys"
  "list_all ctype_ok tys \<Longrightarrow> length vs = length tys \<Longrightarrow>
    length (params_bytes junk tys vs) = sizeof_params tys"
  using struct_end_le [of tys 24]
  by (simp_all add: sizeof_params_def struct_end_dvd params_bytes_def length_field_bytes)

end
