(* ===== verification/When.thy ===== *)
theory When
  imports Verify Params
begin

text \<open>
  \<open>src/when.c\<close> with \<open>include/mimick/when.h\<close>: the behaviours registered by \<open>mmk_when\<close>. A binding holds the
  matchers and the parameters of the call expression and what a matching call shall do; the
  bindings of a mock form a list with the newest first. \<open>cur_result\<close> points to the compound
  literal of the expression and is modelled as its value, \<open>None\<close> for \<open>NULL\<close>.
\<close>

record mmk_result =
  then_errno :: cint
  then_return :: addr
  then_call :: addr

record binding =
  b_matcher_ctx :: addr
  b_next :: addr
  b_result :: mmk_result
  b_params :: "int list"

record binding_state = verifying +
  cur_result :: "mmk_result option"
  bindings :: "addr \<rightharpoonup> binding"

definition mmk_when_init :: "'a binding_state_scheme \<Rightarrow> mmk_result \<Rightarrow> 'a binding_state_scheme" where
  "mmk_when_init s res = s\<lparr>cur_result := Some res\<rparr>"

definition mmk_when_get_result :: "'a binding_state_scheme \<Rightarrow> mmk_result option" where
  "mmk_when_get_result s = cur_result s"

definition mmk_when_impl :: "'a binding_state_scheme \<Rightarrow> addr \<Rightarrow> addr \<Rightarrow> fault + 'a binding_state_scheme" where
  "mmk_when_impl s mock bnd =
     andthen (deref (bindings s bnd)) (\<lambda>b.
     andthen (deref (mocks s mock)) (\<lambda>mk.
       Inr (s\<lparr>bindings := (bindings s)(bnd \<mapsto>
                b\<lparr>b_matcher_ctx := mmk_matcher_ctx s, b_next := mk_params mk\<rparr>),
              mocks := (mocks s)(mock \<mapsto> mk\<lparr>mk_params := bnd\<rparr>)\<rparr>)))"

text \<open>\<open>binds s mk ps\<close>: the bindings of a mock are the objects at \<open>ps\<close>, newest first.\<close>

definition binds :: "'a binding_state_scheme \<Rightarrow> mmk_mock_ctx \<Rightarrow> addr list \<Rightarrow> bool" where
  "binds s mk ps \<longleftrightarrow> links b_next (bindings s) (mk_params mk) ps"

lemma mmk_when_impl_binds:
  assumes "mocks s mock = Some mk" and "binds s mk ps" and "bindings s bnd = Some b"
    and "bnd \<noteq> NULL" and "bnd \<notin> set ps"
  obtains mk' where "mmk_when_impl s mock bnd =
      Inr (s\<lparr>bindings := (bindings s)(bnd \<mapsto> b\<lparr>b_matcher_ctx := matcher_ctx s, b_next := mk_params mk\<rparr>),
             mocks := (mocks s)(mock \<mapsto> mk')\<rparr>)"
    and "mk' = mk\<lparr>mk_params := bnd\<rparr>"
    and "links b_next ((bindings s)(bnd \<mapsto> b\<lparr>b_matcher_ctx := matcher_ctx s, b_next := mk_params mk\<rparr>))
      (mk_params mk') (bnd # ps)"
  using assms by (intro that [of "mk\<lparr>mk_params := bnd\<rparr>"])
    (simp_all add: mmk_when_impl_def binds_def mmk_matcher_ctx_def)

end
