(* ===== verification/Mock.thy ===== *)
theory Mock
  imports When
begin

text \<open>
  \<open>src/mock.c\<close>, \<open>mmk_reset\<close> of \<open>src/core.c\<close>, and \<open>include/mimick/mock.h\<close>: the creation and destruction of mocks,
  and the stub function that \<open>MMK_MOCK_DEFINE\<close> expands to for a blueprint without variadic
  arguments. The macros \<open>mmk_when\<close> and \<open>mmk_verify\<close> are sequences of the operations they expand to. The
  functions of the program (predicates, delegates, \<open>.matching\<close> functions) are parameters.
\<close>

section \<open>Anti-optimization checks\<close>

record mock_state = binding_state +
  mock_called :: cint

definition mmk_mock_report_call :: "'a mock_state_scheme \<Rightarrow> 'a mock_state_scheme" where
  "mmk_mock_report_call s = s\<lparr>mock_called := mock_called s + 1\<rparr>"

definition mmk_mock_reset_call :: "'a mock_state_scheme \<Rightarrow> fault + 'a mock_state_scheme" where
  "mmk_mock_reset_call s =
     (let val = mock_called s
      in if val = 0 then Inl (Panic Never_called)
         else if 1 < val then Inl (Panic (Called_more_than_once val))
         else Inr (s\<lparr>mock_called := 0\<rparr>))"

lemma mmk_mock_reset_call_Inr_iff [ends]:
  "mmk_mock_reset_call s = Inr s' \<longleftrightarrow> mock_called s = 1 \<and> s' = s\<lparr>mock_called := 0\<rparr>"
proof -
  have "\<not> 1 < mock_called s \<longleftrightarrow> mock_called s = 0 \<or> mock_called s = 1"
    by (metis linorder_not_less word_less_1 word_le_less_eq less_le)
  then show ?thesis
    by (auto simp: mmk_mock_reset_call_def Let_def)
qed

section \<open>Creating and destroying mocks\<close>

abbreviation (input) MMK_MOCK_INVALID :: addr where
  "MMK_MOCK_INVALID \<equiv> NULL"

abbreviation (input) sizeof_mmk_mock_ctx :: size_t where
  "sizeof_mmk_mock_ctx \<equiv> 40"

definition mock_fails :: "bool \<Rightarrow> panic \<Rightarrow> (fault + 's) \<Rightarrow> fault + addr \<times> 's" where
  "mock_fails noabort msg cleanup =
     (if noabort then andthen cleanup (\<lambda>s. Inr (MMK_MOCK_INVALID, s)) else Inl (Panic msg))"

definition free_mock_ctx :: "'a mock_state_scheme \<Rightarrow> addr \<Rightarrow> fault + 'a mock_state_scheme" where
  "free_mock_ctx s ctx =
     andthen (mmk_free s ctx) (\<lambda>s. Inr (s\<lparr>mocks := (mocks s)(ctx := None)\<rparr>))"

definition set_stub_next :: "'a mock_state_scheme \<Rightarrow> addr \<Rightarrow> addr \<Rightarrow> fault + 'a mock_state_scheme" where
  "set_stub_next s stub nx =
     andthen (deref (stubs s stub)) (\<lambda>st. Inr (s\<lparr>stubs := (stubs s)(stub \<mapsto> st\<lparr>stub_next := nx\<rparr>)\<rparr>))"

definition mmk_mock_create_internal ::
  "env \<Rightarrow> 'a mock_state_scheme \<Rightarrow> string \<Rightarrow> addr \<Rightarrow> bool \<Rightarrow> fault + addr \<times> 'a mock_state_scheme" where
  "mmk_mock_create_internal E s target fn noabort =
     andthen (mmk_init E s) (\<lambda>s.
     andthen (mmk_malloc (c_lib E) s sizeof_mmk_mock_ctx) (\<lambda>(ctx, s).
       if ctx = NULL then mock_fails noabort (Mock_allocation_failed target) (Inr s)
       else
         let s = s\<lparr>mocks := (mocks s)(ctx \<mapsto> \<lparr>mk_params = NULL, mk_stubs = NULL, mk_call_data = NULL,
                     mk_call_data_top = 0, mk_call_data_size = 0\<rparr>)\<rparr>;
             name_end = mmk_strchr target (CHR ''@'');
             name_sz = (case name_end of None \<Rightarrow> mmk_strlen target
                        | Some e \<Rightarrow> length target - length e)
         in andthen (mmk_malloc (c_lib E) s (of_nat (name_sz + 1))) (\<lambda>(name_ptr, s).
            if name_ptr = NULL
            then mock_fails noabort (Mock_allocation_failed target) (free_mock_ctx s ctx)
            else
              let name = take name_sz target;
                  self = (case name_end of None \<Rightarrow> True | Some e \<Rightarrow> mmk_strneq (tl e) ''self'' 4)
              in andthen (mmk_stub_create E s target fn ctx) (\<lambda>(stub, s).
                 if stub = MMK_STUB_INVALID
                 then mock_fails noabort (No_got_entry target)
                        (andthen (free_mock_ctx s ctx) (\<lambda>s. mmk_free s name_ptr))
                 else
                   andthen (deref (mocks s ctx)) (\<lambda>mk.
                   let s = s\<lparr>mocks := (mocks s)(ctx \<mapsto> mk\<lparr>mk_stubs := stub\<rparr>)\<rparr>
                   in andthen
                        (if self then Inr s
                         else andthen (mmk_stub_create E s name fn ctx) (\<lambda>(stub2, s).
                                set_stub_next s stub stub2))
                        (\<lambda>s.
                      andthen (mmk_free s name_ptr) (\<lambda>s.
                      andthen (deref (stubs s stub)) (\<lambda>st. Inr (stub_trampoline st, s)))))))))"

text \<open>
  The loops of \<open>mmk_mock_destroy_internal\<close> read the link of an object before they free it.
\<close>

partial_function (option) destroy_stubs ::
  "'a mock_state_scheme \<Rightarrow> addr \<Rightarrow> (fault + 'a mock_state_scheme) option" where
  "destroy_stubs s p =
     (if p = NULL then Some (Inr s)
      else case stubs s p of
        None \<Rightarrow> Some (Inl UB)
      | Some st \<Rightarrow>
          (case mmk_stub_destroy s p of
             Inl e \<Rightarrow> Some (Inl e)
           | Inr s' \<Rightarrow> destroy_stubs s' (stub_next st)))"

partial_function (option) free_matchers ::
  "'a mock_state_scheme \<Rightarrow> addr \<Rightarrow> (fault + 'a mock_state_scheme) option" where
  "free_matchers s p =
     (if p = NULL then Some (Inr s)
      else case matchers s p of
        None \<Rightarrow> Some (Inl UB)
      | Some m \<Rightarrow>
          (case mmk_free s p of
             Inl e \<Rightarrow> Some (Inl e)
           | Inr s' \<Rightarrow> free_matchers (s'\<lparr>matchers := (matchers s')(p := None)\<rparr>) (m_next m)))"

partial_function (option) free_bindings ::
  "'a mock_state_scheme \<Rightarrow> addr \<Rightarrow> (fault + 'a mock_state_scheme) option" where
  "free_bindings s p =
     (if p = NULL then Some (Inr s)
      else case bindings s p of
        None \<Rightarrow> Some (Inl UB)
      | Some b \<Rightarrow>
          (case andthen (finishes (free_matchers s (b_matcher_ctx b))) (\<lambda>s. mmk_free s p) of
             Inl e \<Rightarrow> Some (Inl e)
           | Inr s' \<Rightarrow> free_bindings (s'\<lparr>bindings := (bindings s')(p := None)\<rparr>) (b_next b)))"

definition mmk_mock_destroy_internal :: "'a mock_state_scheme \<Rightarrow> addr \<Rightarrow> fault + 'a mock_state_scheme" where
  "mmk_mock_destroy_internal s mock =
     andthen (deref (mocks s mock)) (\<lambda>mk.
     andthen (finishes (destroy_stubs s (mk_stubs mk))) (\<lambda>s.
     andthen (mmk_free s (mk_call_data mk)) (\<lambda>s.
     andthen (finishes (free_bindings s (mk_params mk))) (\<lambda>s.
       free_mock_ctx s mock))))"

definition mmk_mock_get_params :: "'a mock_state_scheme \<Rightarrow> fault + addr" where
  "mmk_mock_get_params s =
     andthen (mmk_stub_context s (mmk_ctx s)) (\<lambda>mock.
     andthen (deref (mocks s mock)) (\<lambda>mk. Inr (mk_params mk)))"

definition mmk_reset :: "env \<Rightarrow> 'a mock_state_scheme \<Rightarrow> addr \<Rightarrow> fault + 'a mock_state_scheme" where
  "mmk_reset E s fn =
     (if fn = MMK_MOCK_INVALID then Inr s
      else
        andthen (mmk_ask_ctx E s fn) (\<lambda>(stub, s).
        andthen (mmk_stub_context s stub) (\<lambda>mock.
          mmk_mock_destroy_internal s mock)))"

section \<open>The stub function of a blueprint\<close>

text \<open>
  A \<open>blueprint\<close> is what \<open>mmk_mock_define\<close> is given: the parameter types, the return type (\<open>None\<close> for \<open>void\<close>)
  and the address of the stub function that results. A \<open>program\<close> holds the user's functions by their
  addresses, a \<open>frame\<close> the stack address of the local \<open>reg_params\<close> and the bytes of its padding.
\<close>

record 's program =
  predicate :: "addr \<Rightarrow> int \<Rightarrow> cint"
  matching_fn :: "addr \<Rightarrow> size_t \<Rightarrow> cint"
  delegate :: "addr \<Rightarrow> int list \<Rightarrow> 's \<Rightarrow> fault + int \<times> 's"

record blueprint =
  bp_params :: "ctype list"
  bp_ret :: "ctype option"
  bp_stub :: addr

record frame =
  fr_params :: addr
  fr_junk :: "nat \<Rightarrow> byte"

definition sizeof_binding :: "blueprint \<Rightarrow> size_t" where
  "sizeof_binding bp = of_nat (16 + 32 + sizeof_params (bp_params bp))"

definition load_result :: "blueprint \<Rightarrow> mem \<Rightarrow> addr \<Rightarrow> int" where
  "load_result bp m a =
     (case bp_ret bp of None \<Rightarrow> 0 | Some ty \<Rightarrow> load_value ty (rd m a (ty_size ty)))"

text \<open>A call within \<open>mmk_when\<close>.\<close>

definition stub_when ::
  "env \<Rightarrow> blueprint \<Rightarrow> 'a mock_state_scheme \<Rightarrow> addr \<Rightarrow> int list \<Rightarrow> fault + 'a mock_state_scheme" where
  "stub_when E bp s mock args =
     andthen (mmk_malloc (c_lib E) s (sizeof_binding bp)) (\<lambda>(bnd, s).
     andthen (deref (mmk_when_get_result s)) (\<lambda>res.
       if bnd = NULL then Inl UB
       else mmk_when_impl
              (s\<lparr>bindings := (bindings s)(bnd \<mapsto>
                   \<lparr>b_matcher_ctx = NULL, b_next = NULL, b_result = res, b_params = args\<rparr>)\<rparr>) mock bnd))"

text \<open>A call within \<open>mmk_verify\<close>: the counts of the past calls that it accepts are added up.\<close>

partial_function (option) verify_loop ::
  "(addr \<rightharpoonup> mmk_matcher) \<Rightarrow> int operators \<Rightarrow> addr \<Rightarrow> mem \<Rightarrow> mmk_mock_ctx \<Rightarrow> ctype list \<Rightarrow> int list \<Rightarrow>
    addr \<Rightarrow> size_t \<Rightarrow> (fault + size_t) option" where
  "verify_loop ms ops mc m mk tys args p n =
     (if p = NULL then Some (Inr n)
      else case match_params ms ops mc (zip (read_params m p tys) args) of
        Inl e \<Rightarrow> Some (Inl e)
      | Inr ok \<Rightarrow> verify_loop ms ops mc m mk tys args (mmk_mock_params_next m mk p)
                     (if ok then n + ld64 m p else n))"

definition stub_verify ::
  "'s program \<Rightarrow> blueprint \<Rightarrow> 'a mock_state_scheme \<Rightarrow> addr \<Rightarrow> int list \<Rightarrow> fault + 'a mock_state_scheme" where
  "stub_verify P bp s mock args =
     andthen (deref (mocks s mock)) (\<lambda>mk.
     andthen (finishes (verify_loop (matchers s) (linorder_operators (predicate P)) (mmk_matcher_ctx s)
                (mem s) mk (bp_params bp) args (mmk_mock_params_begin mk) 0)) (\<lambda>times.
     andthen (finishes (free_matchers s (mmk_matcher_ctx s))) (\<lambda>s.
       Inr (mmk_verify_set_times s times))))"

text \<open>Any other call: it is logged, and the newest binding that accepts it says what happens.\<close>

partial_function (option) first_match ::
  "(addr \<rightharpoonup> mmk_matcher) \<Rightarrow> (addr \<rightharpoonup> binding) \<Rightarrow> int operators \<Rightarrow> int list \<Rightarrow> addr \<Rightarrow> (fault + addr) option" where
  "first_match ms bs ops args p =
     (if p = NULL then Some (Inr NULL)
      else case bs p of
        None \<Rightarrow> Some (Inl UB)
      | Some b \<Rightarrow>
          (case match_params ms ops (b_matcher_ctx b) (zip args (b_params b)) of
             Inl e \<Rightarrow> Some (Inl e)
           | Inr ok \<Rightarrow> if ok then Some (Inr p) else first_match ms bs ops args (b_next b)))"

definition apply_binding ::
  "'a mock_state_scheme program \<Rightarrow> blueprint \<Rightarrow> 'a mock_state_scheme \<Rightarrow> addr \<Rightarrow> int list \<Rightarrow>
    fault + int \<times> 'a mock_state_scheme" where
  "apply_binding P bp s p args =
     andthen (deref (bindings s p)) (\<lambda>b.
       let res = b_result b;
           s = (if then_errno res \<noteq> 0 then s\<lparr>errno := then_errno res\<rparr> else s)
       in if then_call res \<noteq> NULL \<and> then_return res = NULL then delegate P (then_call res) args s
          else if then_call res \<noteq> NULL \<and> then_return res \<noteq> NULL then
            andthen (delegate P (then_call res) args s) (\<lambda>(_, s).
            andthen (deref (bindings s p)) (\<lambda>b.
              Inr (load_result bp (mem s) (then_return (b_result b)), s)))
          else if then_return res \<noteq> NULL then Inr (load_result bp (mem s) (then_return res), s)
          else Inr (0, s))"

definition stub_run ::
  "env \<Rightarrow> 'a mock_state_scheme program \<Rightarrow> blueprint \<Rightarrow> frame \<Rightarrow> 'a mock_state_scheme \<Rightarrow> int list \<Rightarrow>
    fault + int \<times> 'a mock_state_scheme" where
  "stub_run E P bp fr s args =
     (let s = s\<lparr>mem := wr (mem s) (fr_params fr) (params_bytes (fr_junk fr) (bp_params bp) args)\<rparr>
      in andthen (mmk_verify_register_call E s (fr_params fr) (of_nat (sizeof_params (bp_params bp)))) (\<lambda>s.
         andthen (mmk_mock_get_params s) (\<lambda>param.
         andthen (finishes (first_match (matchers s) (bindings s) (linorder_operators (predicate P)) args param))
           (\<lambda>p. if p = NULL then Inr (0, s) else apply_binding P bp s p args))))"

definition mock_stub ::
  "env \<Rightarrow> 'a mock_state_scheme program \<Rightarrow> blueprint \<Rightarrow> frame \<Rightarrow> 'a mock_state_scheme \<Rightarrow> int list \<Rightarrow>
    fault + int \<times> 'a mock_state_scheme" where
  "mock_stub E P bp fr s args =
     (if mmk_matcher_ctx s \<noteq> NULL then
        andthen (mmk_stub_context s (mmk_ctx s)) (\<lambda>mock.
        let s = mmk_mock_report_call s
        in andthen (deref (matchers s (mmk_matcher_ctx s))) (\<lambda>head.
           andthen
             (if m_kind head = 0 then stub_when E bp s mock args
              else if m_kind head = 1 then stub_verify P bp s mock args
              else Inr s)
             (\<lambda>s. Inr (0, s))))
      else stub_run E P bp fr s args)"

section \<open>Calls of a mock, and the macros around them\<close>

definition call_mock ::
  "env \<Rightarrow> 'a mock_state_scheme program \<Rightarrow> blueprint \<Rightarrow> frame \<Rightarrow> 'a mock_state_scheme \<Rightarrow> addr \<Rightarrow> int list \<Rightarrow>
    fault + int \<times> 'a mock_state_scheme" where
  "call_mock E P bp fr s fn args =
     andthen (enter_trampoline E s fn) (\<lambda>(r, s).
       case r of
         Jumps f \<Rightarrow> if f = bp_stub bp then mock_stub E P bp fr s args else Inl UB
       | Returns _ \<Rightarrow> Inl UB)"

text \<open>
  In an expression, \<open>as\<close> are the matchers of the arguments in the order in which these are
  evaluated, and \<open>args\<close> the values passed.
\<close>

definition mmk_when ::
  "env \<Rightarrow> 'a mock_state_scheme program \<Rightarrow> blueprint \<Rightarrow> frame \<Rightarrow> 'a mock_state_scheme \<Rightarrow> addr \<Rightarrow>
    (cint \<times> cint \<times> addr) list \<Rightarrow> int list \<Rightarrow> mmk_result \<Rightarrow> fault + 'a mock_state_scheme" where
  "mmk_when E P bp fr s fn as args res =
     andthen (mmk_matcher_init E s 0) (\<lambda>s.
     andthen (eval_args E (mmk_when_init s res) as) (\<lambda>s.
     andthen (call_mock E P bp fr s fn args) (\<lambda>(_, s).
     andthen (mmk_mock_reset_call s) (\<lambda>s.
       Inr (mmk_matcher_term s)))))"

definition mmk_verify ::
  "env \<Rightarrow> 'a mock_state_scheme program \<Rightarrow> blueprint \<Rightarrow> frame \<Rightarrow> 'a mock_state_scheme \<Rightarrow> addr \<Rightarrow>
    (cint \<times> cint \<times> addr) list \<Rightarrow> int list \<Rightarrow> mmk_verify_params \<Rightarrow> fault + cint \<times> 'a mock_state_scheme" where
  "mmk_verify E P bp fr s fn as args params =
     andthen (mmk_matcher_init E s 1) (\<lambda>s.
     andthen (eval_args E s as) (\<lambda>s.
     andthen (call_mock E P bp fr s fn args) (\<lambda>(_, s).
     andthen (mmk_mock_reset_call (mmk_matcher_term s)) (\<lambda>s.
       Inr (mmk_verify_times (matching_fn P) s params, s)))))"

end
