(* ===== verification/Demo.thy ===== *)
theory Demo
  imports Mock
begin

text \<open>
  A small concrete process, at which the witnesses of the development evaluate its definitions: an allocator
  that takes the first of a few addresses that is fresh, the image of a program with one
  relocation (of the function \<open>f\<close>), and an initialised library.
\<close>

unbundle bit_operations_syntax

definition demo_alloc :: "addr list \<Rightarrow> addr \<Rightarrow> blocks \<Rightarrow> size_t \<Rightarrow> addr" where
  "demo_alloc ps none bs n = (case find (\<lambda>p. fresh_block bs p n) ps of None \<Rightarrow> none | Some p \<Rightarrow> p)"

definition demo_libc :: libc where
  "demo_libc =
     \<lparr>libc_malloc = demo_alloc [0x10000, 0x20000, 0x30000, 0x40000, 0x50000, 0x60000, 0x70000, 0x80000, 0x90000, 0xa0000] NULL,
      libc_realloc = (\<lambda>bs p n. demo_alloc [0x110000, 0x120000] NULL (unblock p bs) n),
      libc_mmap = demo_alloc [0x210000, 0x220000] (- 1),
      libc_mprotect = (\<lambda>_ _ _. 0)\<rparr>"

lemma demo_alloc_fresh: "demo_alloc ps none bs n \<noteq> none \<Longrightarrow> fresh_block bs (demo_alloc ps none bs n) n"
  by (induction ps) (auto simp: demo_alloc_def)

lemma demo_libc_ok: "libc_ok demo_libc"
  unfolding libc_ok_def demo_libc_def by (simp add: demo_alloc_fresh)

text \<open>
  The image, at \<open>0x400000\<close>, as its words of eight bytes: its dynamic section, one relocation of the symbol 1 at offset \<open>0x1f8\<close>, the
  symbol table, and the string table with the name \<open>f\<close>.
\<close>

definition demo_image :: "(nat \<times> nat) list" where
  "demo_image =
     [(0x80000, 5), (0x80001, 0x400180), (0x80002, 6), (0x80003, 0x400140),
      (0x80004, 23), (0x80005, 0x400100), (0x80006, 2), (0x80007, 24),
      (0x80008, 7), (0x80009, 0x400100), (0x8000a, 9), (0x8000b, 24),
      (0x80020, 0x1f8), (0x80021, 0x100000000),
      (0x8002b, 1), (0x80030, 0x6600), (0x8003f, 0x777000)]"

definition demo_word :: "nat \<Rightarrow> nat" where
  "demo_word i = (case map_of demo_image i of None \<Rightarrow> 0 | Some w \<Rightarrow> w)"

definition demo_mem :: mem where
  "demo_mem a = le_bytes 8 (demo_word (unat a div 8)) ! (unat a mod 8)"

definition demo_ctx :: plt_ctx where
  "demo_ctx = [\<lparr>l_addr = 0x400000, l_name = '''', l_ld = 0x400000\<rparr>]"

definition demo_env :: env where
  "demo_env = \<lparr>c_lib = demo_libc, trampoline_code = [0xe8, 0, 0, 0, 0], plt_context = 0x7f0000, r_debug = demo_ctx\<rparr>"

definition demo_vitals :: vitals where
  "demo_vitals = \<lparr>fp_vfprintf = 1, fp_abort = 2, fp_malloc = 3, fp_realloc = 4, fp_free = 5, fp_mprotect = 6\<rparr>"

definition demo :: mock_state where
  "demo = \<lparr>mem = demo_mem, live = [(0x400000, 0x1000), (0x7f0000, 0x1000)], prot = (\<lambda>_. 0), vit = demo_vitals,
     initialized = 1, plt = demo_ctx, ask_ctx = 0, mmk_ctx_var = 0, stubs = (\<lambda>_. None), errno = 0,
     matchers = (\<lambda>_. None), matcher_ctx = 0, mocks = (\<lambda>_. None), times_var = 0, cur_result = None,
     bindings = (\<lambda>_. None), mock_called = 0\<rparr>"


lemma demo_word_simps: "demo_word i =
   (if i = 0x80000 then 5 else if i = 0x80001 then 0x400180 else if i = 0x80002 then 6
    else if i = 0x80003 then 0x400140 else if i = 0x80004 then 23 else if i = 0x80005 then 0x400100
    else if i = 0x80006 then 2 else if i = 0x80007 then 24 else if i = 0x80008 then 7
    else if i = 0x80009 then 0x400100 else if i = 0x8000a then 9 else if i = 0x8000b then 24
    else if i = 0x80020 then 0x1f8 else if i = 0x80021 then 0x100000000
    else if i = 0x8002b then 1 else if i = 0x80030 then 0x6600 else if i = 0x8003f then 0x777000 else 0)"
  by (simp add: demo_word_def demo_image_def)

lemma rd_numeral: "rd m a (numeral k) = m a # rd m (a + 1) (pred_numeral k)"
  by (simp only: numeral_eq_Suc [of k] rd.simps)

lemma le_bytes_numeral: "le_bytes (numeral k) v = of_nat v # le_bytes (pred_numeral k) (v div 256)"
  by (simp only: numeral_eq_Suc [of k] le_bytes.simps)

lemma ld64_demo: "unat p mod 8 = 0 \<Longrightarrow> ld64 demo_mem p = of_nat (demo_word (unat p div 8))"
proof -
  assume p: "unat p mod 8 = 0"
  then have "8 dvd unat p"
    by (simp only: dvd_eq_mod_eq_0)
  then obtain k where k: "unat p = 8 * k"
    by (rule dvdE)
  have "unat (p + of_nat i) = unat p + i" if "i < 8" for i
    using that k unat_less_64 [of p] by (intro unat_add_no_wrap) simp
  then have "rd demo_mem p 8 = le_bytes 8 (demo_word (unat p div 8))"
    using k by (intro nth_equalityI) (simp_all add: rd_nth demo_mem_def)
  moreover have "demo_word i < 2 ^ 64" for i
    by (simp add: demo_word_simps)
  ultimately show ?thesis
    by (simp add: ld64_def le_val_le_bytes)
qed

lemma demo_ld32: "ld32 demo_mem 0x400158 = 1"
  by (simp add: ld32_def demo_mem_def demo_word_simps rd_numeral le_bytes_numeral)

lemma demo_name: "cstring demo_mem 0x400181 (cbytes ''f'')"
  by (simp add: cbytes_def demo_mem_def demo_word_simps le_bytes_numeral)

lemma demo_find_slots: "find_slots demo_mem (demo_ctx ! 0) ''f'' = Some [0x4001f8]"
proof -
  have "find_slots demo_mem (demo_ctx ! 0) ''f'' =
      Some (map (\<lambda>off. 0x400000 + off) (filter (\<lambda>off. off \<noteq> 0)
        [get_offset demo_mem \<lparr>tab = 0x400100, tab_sz = 0, entry_sz = 24\<rparr> 0x400140 0x400180 ''f'',
         get_offset demo_mem \<lparr>tab = 0x400100, tab_sz = 24, entry_sz = 24\<rparr> 0x400140 0x400180 ''f'']))"
    by (simp add: find_slots_def lib_dt_lookup_def lib_dt_lookup_val_def demo_ctx_def dt_lookup_from.simps
        dt_lookup_val_from.simps ld64_demo demo_word_simps dyn_ptr_def)
  moreover have "reloc_names demo_mem 0x400140 0x400180 ''f'' 0x400100"
    by (simp add: reloc_names_def name_at_def ld64_demo demo_word_simps sym_at_def sym_name_def
        demo_ld32 demo_name)
  ultimately show ?thesis
    by (simp add: get_offset_def reloc_loop_Suc ld64_demo demo_word_simps)
qed

text \<open>The tables of the image are read as before when its first \<open>0x1f8\<close> bytes are.\<close>

lemma demo_tables_kept:
  assumes "\<And>x. in_region 0x400000 0x1f8 x \<Longrightarrow> m x = demo_mem x"
  shows "0x400000 \<le> unat p \<Longrightarrow> unat p + 8 \<le> 0x4001f8 \<Longrightarrow> ld64 m p = ld64 demo_mem p"
    and "ld32 m 0x400158 = 1" and "cstring m 0x400181 (cbytes ''f'')"
proof -
  have same: "m (p + of_nat i) = demo_mem (p + of_nat i)"
    if p: "0x400000 \<le> unat p" "unat p + n \<le> 0x4001f8" and i: "i < n" for p :: addr and i n :: nat
  proof (rule assms)
    have "unat (p + of_nat i) = unat p + i"
      using p i by (intro unat_add_no_wrap) simp
    then have "unat (p + of_nat i - 0x400000) = unat p + i - 0x400000"
      using p by (subst unat_sub) (simp_all add: word_le_nat_alt)
    then show "in_region 0x400000 0x1f8 (p + of_nat i)"
      using p i by (simp add: in_region_def)
  qed
  show "0x400000 \<le> unat p \<Longrightarrow> unat p + 8 \<le> 0x4001f8 \<Longrightarrow> ld64 m p = ld64 demo_mem p"
    by (intro ld64_cong rd_cong) (rule same [where n = 8])
  have "rd m 0x400158 4 = rd demo_mem 0x400158 4"
    by (intro rd_cong) (rule same [where n = 4], simp_all)
  then show "ld32 m 0x400158 = 1"
    using demo_ld32 by (simp add: ld32_def)
  show "cstring m 0x400181 (cbytes ''f'')"
    by (rule cstring_cong [OF demo_name]) (rule same [where n = 2], simp_all add: cbytes_def)
qed

lemma demo_slots_kept:
  assumes "\<And>x. in_region 0x400000 0x1f8 x \<Longrightarrow> m x = demo_mem x"
  shows "find_slots m (demo_ctx ! 0) ''f'' = Some [0x4001f8]"
proof -
  note tables = demo_tables_kept [of m, OF assms]
  have ld: "ld64 m p = of_nat (demo_word (unat p div 8))"
    if "0x400000 \<le> unat p" "unat p + 8 \<le> 0x4001f8" "unat p mod 8 = 0" for p
    using tables(1) that by (simp add: ld64_demo)
  have "find_slots m (demo_ctx ! 0) ''f'' =
      Some (map (\<lambda>off. 0x400000 + off) (filter (\<lambda>off. off \<noteq> 0)
        [get_offset m \<lparr>tab = 0x400100, tab_sz = 0, entry_sz = 24\<rparr> 0x400140 0x400180 ''f'',
         get_offset m \<lparr>tab = 0x400100, tab_sz = 24, entry_sz = 24\<rparr> 0x400140 0x400180 ''f'']))"
    by (simp add: find_slots_def lib_dt_lookup_def lib_dt_lookup_val_def demo_ctx_def dt_lookup_from.simps
        dt_lookup_val_from.simps ld demo_word_simps dyn_ptr_def)
  moreover have "reloc_names m 0x400140 0x400180 ''f'' 0x400100"
    by (simp add: reloc_names_def name_at_def ld demo_word_simps sym_at_def sym_name_def tables(2,3))
  ultimately show ?thesis
    by (simp add: get_offset_def reloc_loop_Suc ld demo_word_simps)
qed

lemma unblock_simps [simp]:
  "unblock p [] = []" "unblock p ((q, n) # bs) = (if q = p then unblock p bs else (q, n) # unblock p bs)"
  by (simp_all add: unblock_def)

lemmas demo_allocations = demo_libc_def demo_alloc_def fresh_block_def separate_iff

lemma demo_mprotect [simp]: "libc_mprotect demo_libc a n p = 0"
  by (simp add: demo_libc_def)

lemma demo_parts [simp]:
  "mem demo = demo_mem" "live demo = [(0x400000, 0x1000), (0x7f0000, 0x1000)]" "vit demo = demo_vitals"
  "initialized demo = 1" "plt demo = demo_ctx" "c_lib demo_env = demo_libc"
  "trampoline_code demo_env = [0xe8, 0, 0, 0, 0]" "r_debug demo_env = demo_ctx"
  "stubs demo = Map.empty" "matchers demo = Map.empty" "mocks demo = Map.empty" "bindings demo = Map.empty"
  "matcher_ctx demo = NULL" "mock_called demo = 0" "ask_ctx demo = 0"
  by (simp_all add: demo_def demo_env_def)

lemma demo_vitals_simps [simp]:
  "fp_malloc demo_vitals = 3" "fp_realloc demo_vitals = 4" "fp_free demo_vitals = 5" "fp_mprotect demo_vitals = 6"
  "vitals_ready demo_vitals"
  by (simp_all add: demo_vitals_def vitals_ready_def)

lemma demo_wf: "core_wf demo_env demo" "blocks_wf (live demo)"
  by (simp_all add: core_wf_def fresh_block_def separate_iff)

lemma demo_stub_allocations:
  "libc_malloc demo_libc [(0x400000, 0x1000), (0x7f0000, 0x1000)] 80 = 0x10000"
  "libc_malloc demo_libc [(0x10000, 80), (0x400000, 0x1000), (0x7f0000, 0x1000)] 2 = 0x20000"
  "libc_realloc demo_libc [(0x20000, 2), (0x10000, 80), (0x400000, 0x1000), (0x7f0000, 0x1000)] NULL 16 = 0x110000"
  "libc_mmap demo_libc [(0x110000, 16), (0x20000, 2), (0x10000, 80), (0x400000, 0x1000), (0x7f0000, 0x1000)]
     0x1000 = 0x210000"
  by (simp_all add: demo_allocations)

lemma demo_stub_create:
  "\<exists>s'. mmk_stub_create demo_env demo ''f'' fn ctx = Inr (0x10000, s')"
  by (simp add: mmk_stub_create_def mmk_init_def mmk_malloc_def Let_def demo_stub_allocations
      mmk_stub_create_static_def split_target_def mmk_plt_ctx_def plt_get_lib_def plt_get_offsets_def
      demo_find_slots [unfolded demo_ctx_def nth_Cons_0] demo_ctx_def realloc_block_def
      create_trampoline_def PAGE_SIZE_def sys_mmap_def mmk_mprotect_def)


lemma demo_target_slots: "target_slots demo ''f'' = Some [0x4001f8]"
  using demo_find_slots by (simp add: target_slots_def split_target_def plt_get_lib_def demo_ctx_def)

lemma demo_slots_ok: "slots_ok [(0x400000, 0x1000), (0x7f0000, 0x1000)] [0x4001f8]"
  by (simp add: slots_ok_def within_def)

lemma demo_fail_allocation:
  "libc_malloc demo_libc [(0x10000, 80), (0x400000, 0x1000), (0x7f0000, 0x1000)] 9 = 0x20000"
  by (simp_all add: demo_allocations)

lemma demo_stub_create_fails:
  "\<exists>s'. mmk_stub_create demo_env demo ''g@file:x'' fn ctx = Inr (NULL, s')"
  by (simp add: mmk_stub_create_def mmk_init_def mmk_malloc_def Let_def demo_stub_allocations demo_fail_allocation
      mmk_stub_create_static_def split_target_def mmk_plt_ctx_def plt_get_lib_def demo_ctx_def
      plt_get_selector_def selector_prefixes lib_matches_def get_lib_name_def mmk_free_def)

end
