(* ===== verification/Stub_Properties.thy ===== *)
theory Stub_Properties
  imports Demo
begin

text \<open>
  The properties of stubs (\<open>src/stub.c\<close>) and of initialisation (\<open>src/core.c\<close>), each with a witness at the
  process of theory \<open>Demo\<close>.
\<close>

text \<open>Initialisation either fails or leaves every vital function resolved, and running it again
  changes nothing.\<close>

theorem init_is_idempotent:
  assumes "core_wf E s" and "mmk_init E s = Inr s'"
  shows "vitals_ready (vit s') \<and> mmk_init E s' = Inr s' \<and> mmk_plt_ctx s' = Inr (r_debug E) \<and>
    live s' = live s \<and> mem s' = mem s"
  using mmk_init_ready [OF assms] mmk_init_again [OF assms(2)] mmk_init_wf [OF assms]
    mmk_init_initialized [OF assms(2)] mmk_init_keeps [OF assms(2)]
  by (simp add: mmk_plt_ctx_Inr_iff core_wf_def)

theorem init_is_idempotent_witness:
  "vitals_ready (vit demo) \<and> mmk_init demo_env demo = Inr demo"
  using init_is_idempotent [OF demo_wf(1), of demo] by (simp add: mmk_init_def)

text \<open>C4: after a stub has been created every slot of its target holds its trampoline; a call of that
  trampoline jumps to the replacement function with the stub as context, from which the user's
  context is found, and \<open>mmk_ask_ctx\<close> of it returns the stub.\<close>

theorem stub_routes_calls:
  assumes "libc_ok (c_lib E)" and "core_wf E s" and "length (trampoline_code E) + 16 \<le> unat PAGE_SIZE"
    and "mmk_init E s = Inr s1" and "target_slots s1 target = Some as" and "slots_ok (live s) as"
    and "mmk_stub_create E s target fn ctx = Inr (stub, s')" and "stub \<noteq> NULL"
  shows "as \<noteq> [] \<and> (\<forall>a \<in> set as. \<exists>w.
      enter_trampoline E s' (ld64 (mem s') a) = Inr (Jumps fn, w) \<and> mmk_ctx w = stub \<and>
      mmk_stub_context w (mmk_ctx w) = Inr ctx \<and>
      mmk_ask_ctx E s' (ld64 (mem s') a) = Inr (stub, s'\<lparr>ask_ctx := 0, mmk_ctx_var := stub\<rparr>))"
proof -
  note c = mmk_stub_create_installs [OF assms]
  show ?thesis
    using assms(8) c(2,3,4) enter_installed [OF c(1)] ask_installed [OF c(1)] installed_context [OF c(1)]
    by (simp add: mmk_ctx_def mmk_stub_context_def)
qed

theorem stub_routes_calls_witness:
  "\<exists>s' w. mmk_stub_create demo_env demo ''f'' 0x500000 0x77 = Inr (0x10000, s') \<and>
     enter_trampoline demo_env s' (ld64 (mem s') 0x4001f8) = Inr (Jumps 0x500000, w) \<and>
     mmk_stub_context w (mmk_ctx w) = Inr 0x77"
proof -
  obtain s' where "mmk_stub_create demo_env demo ''f'' 0x500000 0x77 = Inr (0x10000, s')"
    using demo_stub_create by blast
  from stub_routes_calls [OF _ demo_wf(1) _ _ _ _ this, of demo "[0x4001f8]"] this show ?thesis
    by (simp add: demo_libc_ok PAGE_SIZE_def mmk_init_def demo_target_slots demo_slots_ok) blast
qed

text \<open>C6: destroying a stub undoes its creation: the blocks allocated for it are freed, the objects of other
  stubs are as before, and every block that was live has its bytes back, the redirected slots included.\<close>

theorem stub_create_destroy:
  assumes "libc_ok (c_lib E)" and "core_wf E s" and "length (trampoline_code E) + 16 \<le> unat PAGE_SIZE"
    and "mmk_init E s = Inr s1" and "target_slots s1 target = Some as" and "slots_ok (live s) as"
    and "mmk_stub_create E s target fn ctx = Inr (stub, s')" and "stub \<noteq> NULL"
  shows "\<exists>s''. mmk_stub_destroy s' stub = Inr s'' \<and> live s'' = live s \<and> stubs s'' stub = None \<and>
    (\<forall>p. p \<noteq> stub \<longrightarrow> stubs s'' p = stubs s p) \<and>
    (\<forall>(q, k) \<in> set (live s). \<forall>x. in_region q (unat k) x \<longrightarrow> mem s'' x = mem s x)"
  using mmk_stub_create_installs(7,9) [OF assms] by fastforce

theorem stub_create_destroy_witness:
  "\<exists>s' s''. mmk_stub_create demo_env demo ''f'' 0x500000 0x77 = Inr (0x10000, s') \<and>
     mmk_stub_destroy s' 0x10000 = Inr s'' \<and> live s'' = [(0x400000, 0x1000), (0x7f0000, 0x1000)]"
proof -
  obtain s' where "mmk_stub_create demo_env demo ''f'' 0x500000 0x77 = Inr (0x10000, s')"
    using demo_stub_create by blast
  from stub_create_destroy [OF _ demo_wf(1) _ _ _ _ this, of demo "[0x4001f8]"] this show ?thesis
    by (simp add: demo_libc_ok PAGE_SIZE_def mmk_init_def demo_target_slots demo_slots_ok) blast
qed

text \<open>C24: when a stub cannot be created, \<open>MMK_STUB_INVALID\<close> is returned, \<open>errno\<close> holds the negated error code,
  no function is redirected, and at most the copy of the target's name stays allocated.\<close>

theorem stub_create_failure:
  assumes "libc_ok (c_lib E)" and "core_wf E s" and "mmk_stub_create E s target fn ctx = Inr (MMK_STUB_INVALID, s')"
  shows "(errno s' = - ENOMEM \<or> errno s' = - ENOENT) \<and> mem s' = mem s \<and> stubs s' = stubs s \<and>
    (live s' = live s \<or> (\<exists>name. live s' = (name, of_nat (length target + 1)) # live s))"
  using assms
proof (cases rule: mmk_stub_create_Inr)
  case (failed s1 rc bs)
  then show ?thesis
    using mmk_init_keeps [OF failed(1)] by (auto elim!: mmk_init_Inr)
qed simp

theorem stub_create_failure_witness:
  "\<exists>s'. mmk_stub_create demo_env demo ''g@file:x'' 0x500000 0x77 = Inr (MMK_STUB_INVALID, s') \<and> mem s' = demo_mem"
proof -
  obtain s' where "mmk_stub_create demo_env demo ''g@file:x'' 0x500000 0x77 = Inr (NULL, s')"
    using demo_stub_create_fails by blast
  with stub_create_failure [OF _ demo_wf(1) this] show ?thesis
    by (simp add: demo_libc_ok)
qed

end
