(* ===== verification/Mock_Invariant.thy ===== *)
theory Mock_Invariant
  imports Mock
begin

text \<open>
  What holds of a mock between calls: its log stands for the history of its calls, and its bindings
  for the contracts registered with it. Each operation of theory \<open>Mock\<close> preserves this, and
  what it returns is determined by the history and the contracts.
\<close>

section \<open>Counting and matching\<close>

declare verify_loop.simps [simp del] first_match.simps [simp del]
  destroy_stubs.simps [simp del] free_matchers.simps [simp del] free_bindings.simps [simp del]

text \<open>The parameters that the bytes of a log entry after the count stand for.\<close>

definition decode_key :: "ctype list \<Rightarrow> byte list \<Rightarrow> int list" where
  "decode_key tys k = read_params (wr (\<lambda>_. 0) 8 k) 0 tys"

lemma read_fields_cong:
  "list_all ctype_ok tys \<Longrightarrow>
    rd m (p + of_nat off) (struct_end off tys - off) = rd m' (p' + of_nat off) (struct_end off tys - off) \<Longrightarrow>
    read_fields m p off tys = read_fields m' p' off tys"
proof (induction off tys rule: struct_end.induct)
  case (1 off)
  then show ?case by simp
next
  case (2 off ty tys)
  let ?o = "align_up off (ty_size ty)"
  let ?e = "struct_end (?o + ty_size ty) tys"
  have o: "off \<le> ?o"
    using 2 by (intro align_up_le) (simp add: ctype_ok_pos)
  have e: "?o + ty_size ty \<le> ?e"
    using 2 by (intro struct_end_le) simp
  have len: "?e - off = (?o - off) + (ty_size ty + (?e - (?o + ty_size ty)))"
    using o e by simp
  have base: "q + of_nat off + of_nat (?o - off) = q + of_nat ?o" for q :: addr
    using o by (simp add: of_nat_diff)
  have r: "rd n (q + of_nat off) (?e - off) = rd n (q + of_nat off) (?o - off) @
      rd n (q + of_nat ?o) (ty_size ty) @ rd n (q + of_nat (?o + ty_size ty)) (?e - (?o + ty_size ty))"
    for n and q :: addr
    unfolding len rd_append base by (simp only: of_nat_add add.assoc)
  have "rd m (p + of_nat ?o) (ty_size ty) = rd m' (p' + of_nat ?o) (ty_size ty)" and
    "rd m (p + of_nat (?o + ty_size ty)) (?e - (?o + ty_size ty)) =
      rd m' (p' + of_nat (?o + ty_size ty)) (?e - (?o + ty_size ty))"
    using "2.prems"(2) unfolding struct_end.simps r by (simp_all add: append_eq_append_conv)
  then show ?case
    using 2 by (simp add: Let_def)
qed

lemma read_params_key:
  assumes ok: "list_all ctype_ok tys" and k: "rd m (p + 8) (length k) = k"
    and len: "length k = sizeof_params tys - 8" "sizeof_params tys < 2 ^ 64"
  shows "read_params m p tys = decode_key tys k"
proof -
  let ?z = "wr (\<lambda>_. 0) 8 k"
  have n: "length k = 16 + (struct_end 24 tys - 24)"
    using sizeof_params_facts(1) [OF ok] len(1) by (simp add: sizeof_params_def)
  have "rd ?z 8 (length k) = rd m (p + 8) (length k)"
    using k len rd_wr_same [of k "\<lambda>_. 0" 8] by simp
  then have "rd ?z 8 (16 + (struct_end 24 tys - 24)) = rd m (p + 8) (16 + (struct_end 24 tys - 24))"
    unfolding n .
  then have "rd m (p + of_nat 24) (struct_end 24 tys - 24) = rd ?z (0 + of_nat 24) (struct_end 24 tys - 24)"
    unfolding rd_append by (simp add: append_eq_append_conv add.assoc)
  then show ?thesis
    unfolding read_params_def decode_key_def by (rule read_fields_cong [OF ok])
qed

lemma verify_loop_counts:
  assumes ok: "list_all ctype_ok tys" and chn: "links m_next ms mc (mc # ps)" and sz: "sizeof_params tys < 2 ^ 64"
  shows "log_at m mk a es \<Longrightarrow> \<forall>k \<in> keys_of es. length k = sizeof_params tys - 8 \<Longrightarrow>
    verify_loop ms ops mc m mk tys args (first_params a es) n =
      Some (Inr (n + count_calls
        (\<lambda>k. accepts_all ops (map (the \<circ> ms) ps) (zip (decode_key tys k) args)) es))"
proof (induction es arbitrary: a n)
  case Nil
  then show ?case by (simp add: verify_loop.simps first_params_def)
next
  case (Cons e es)
  obtain t k where e: "e = (t, k)"
    by (cases e)
  note step = log_at_step [OF Cons.prems(1) [unfolded e]]
  have "read_params m (a + 8) tys = decode_key tys k"
    using step(3) Cons.prems(2) e sz by (intro read_params_key [OF ok]) (simp_all add: add.assoc)
  with step(1,2,6,7) e Cons.IH [OF step(6)] Cons.prems(2) show ?case
    by (simp add: verify_loop.simps [of _ _ _ _ _ _ _ "a + 8"] first_params_def [of a] match_params_accepts [OF chn] comp_def)
qed

text \<open>
  A contract is what a binding stands for: its matchers sorted by counter (each with counter, kind and
  data), the reference values, and the behaviour. \<open>accepts\<close> is whether it applies to a call.
\<close>

type_synonym contract = "(size_t \<times> cint \<times> addr) list \<times> int list \<times> mmk_result"

definition node_of :: "size_t \<times> cint \<times> addr \<Rightarrow> mmk_matcher" where
  "node_of key = \<lparr>m_kind = fst (snd key), m_prio = fst key, m_data = snd (snd key), m_next = NULL\<rparr>"

definition accepts :: "(addr \<Rightarrow> int \<Rightarrow> cint) \<Rightarrow> (size_t \<times> cint \<times> addr) list \<Rightarrow> int list \<Rightarrow> int list \<Rightarrow> bool" where
  "accepts pr keys refs args = accepts_all (linorder_operators pr) (map node_of keys) (zip args refs)"

lemma matcher_accepts_node:
  "matcher_accepts ops (node_of (m_prio n, m_kind n, m_data n)) v r = matcher_accepts ops n v r"
  by (simp only: matcher_accepts_def node_of_def mmk_matcher_get_predicate_def mmk_matcher.select_convs
      fst_conv snd_conv)

lemma accepts_all_nodes:
  "accepts_all ops (map (\<lambda>n. node_of (m_prio n, m_kind n, m_data n)) ns) vrs = accepts_all ops ns vrs"
  by (induction ops ns vrs rule: accepts_all.induct) (simp_all add: matcher_accepts_node)

lemma accepts_chain:
  assumes "links m_next ms m (m # ps)"
  shows "accepts_all (linorder_operators pr) (map (the \<circ> ms) ps) (zip args refs) =
    accepts pr (map (m_key ms) ps) refs args"
proof -
  have "set ps \<subseteq> dom ms"
    using links_dom [OF assms] by simp
  then have keys: "map (m_key ms) ps = map (\<lambda>n. (m_prio n, m_kind n, m_data n)) (map (the \<circ> ms) ps)"
    by (auto simp: m_key_def dom_def)
  show ?thesis
    unfolding accepts_def keys
    using accepts_all_nodes [of "linorder_operators pr" "map (the \<circ> ms) ps" "zip args refs"]
    by (simp add: comp_def)
qed

definition contract_at :: "'a mock_state_scheme \<Rightarrow> addr \<Rightarrow> contract \<Rightarrow> bool" where
  "contract_at s p c \<longleftrightarrow>
     (\<exists>b ps. bindings s p = Some b \<and> links m_next (matchers s) (b_matcher_ctx b) (b_matcher_ctx b # ps) \<and>
        c = (map (m_key (matchers s)) ps, b_params b, b_result b))"

fun first_contract :: "(addr \<Rightarrow> int \<Rightarrow> cint) \<Rightarrow> int list \<Rightarrow> (addr \<times> contract) list \<Rightarrow> addr option" where
  "first_contract pr args [] = None"
| "first_contract pr args ((p, c) # cs) =
     (if accepts pr (fst c) (fst (snd c)) args then Some p else first_contract pr args cs)"

lemma first_match_contracts:
  "links b_next (bindings s) p bps \<Longrightarrow> list_all2 (contract_at s) bps cs \<Longrightarrow>
    first_match (matchers s) (bindings s) (linorder_operators pr) args p =
      Some (Inr (case first_contract pr args (zip bps cs) of None \<Rightarrow> NULL | Some q \<Rightarrow> q))"
proof (induction bps arbitrary: p cs)
  case Nil
  then show ?case by (simp add: first_match.simps)
next
  case (Cons q bps)
  then obtain b where b: "p = q" "q \<noteq> NULL" "bindings s q = Some b" "links b_next (bindings s) (b_next b) bps"
    by auto
  from Cons.prems(2) obtain c cs' where cs: "cs = c # cs'" "contract_at s q c" "list_all2 (contract_at s) bps cs'"
    by (cases cs) auto
  from cs(2) b(3) obtain ps where ps: "links m_next (matchers s) (b_matcher_ctx b) (b_matcher_ctx b # ps)"
    "c = (map (m_key (matchers s)) ps, b_params b, b_result b)"
    by (auto simp: contract_at_def)
  have "match_params (matchers s) (linorder_operators pr) (b_matcher_ctx b) (zip args (b_params b)) =
      Inr (accepts pr (fst c) (fst (snd c)) args)"
    unfolding match_params_accepts [OF ps(1)] accepts_chain [OF ps(1)] by (simp add: ps(2))
  with Cons.IH [OF b(4) cs(3)] b cs(1) show ?case
    by (simp add: first_match.simps)
qed

section \<open>The invariant of a mock\<close>

text \<open>
  \<open>mock_inv E bp fr s stub mp hist cs\<close>: \<open>stub\<close> is the stub of the mock at \<open>mp\<close>, which has been called with
  the parameters in \<open>hist\<close> (the last call last) and has the contracts \<open>cs\<close> (newest first).
\<close>

definition heap_ok :: "'a mock_state_scheme \<Rightarrow> bool" where
  "heap_ok s \<longleftrightarrow> blocks_wf (live s) \<and> vitals_ready (vit s) \<and> matchers_live s \<and>
     dom (bindings s) \<subseteq> fst ` set (live s)"

definition at_rest :: "'a mock_state_scheme \<Rightarrow> bool" where
  "at_rest s \<longleftrightarrow> matcher_ctx s = NULL \<and> ask_ctx s = 0 \<and> mock_called s = 0"

definition logged ::
  "blueprint \<Rightarrow> frame \<Rightarrow> 'a mock_state_scheme \<Rightarrow> addr \<Rightarrow> mmk_mock_ctx \<Rightarrow> byte list list \<Rightarrow> bool" where
  "logged bp fr s stub mk keys \<longleftrightarrow>
     call_log_ok (mem s) (live s) mk (sizeof_params (bp_params bp) - 8) (fold bump keys []) \<and>
     mk_call_data mk \<notin> dom (matchers s) \<union> dom (bindings s) \<and>
     trampoline_of s stub - 16 \<noteq> mk_call_data mk \<and>
     (\<exists>(q, k) \<in> set (live s). within q k (fr_params fr) (sizeof_params (bp_params bp)) \<and>
        q \<noteq> mk_call_data mk \<and> q \<noteq> trampoline_of s stub - 16)"

definition contracted :: "'a mock_state_scheme \<Rightarrow> addr \<Rightarrow> contract list \<Rightarrow> bool" where
  "contracted s p cs \<longleftrightarrow> (\<exists>bps. links b_next (bindings s) p bps \<and> list_all2 (contract_at s) bps cs)"

definition mock_inv ::
  "env \<Rightarrow> blueprint \<Rightarrow> frame \<Rightarrow> 'a mock_state_scheme \<Rightarrow> addr \<Rightarrow> addr \<Rightarrow> int list list \<Rightarrow> contract list \<Rightarrow> bool" where
  "mock_inv E bp fr s stub mp hist cs \<longleftrightarrow>
     heap_ok s \<and> at_rest s \<and> installed E s stub (bp_stub bp) mp \<and>
     (\<exists>mk keys. mocks s mp = Some mk \<and> logged bp fr s stub mk keys \<and>
        map (decode_key (bp_params bp)) keys = hist \<and> contracted s (mk_params mk) cs)"

text \<open>What is fixed for a mock: the C library behaves, the trampoline's code fits, the types are scalars.\<close>

definition setting_ok :: "env \<Rightarrow> blueprint \<Rightarrow> bool" where
  "setting_ok E bp \<longleftrightarrow> libc_ok (c_lib E) \<and> length (trampoline_code E) + 16 \<le> unat PAGE_SIZE \<and>
     list_all ctype_ok (bp_params bp)"

text \<open>The history is short enough for its log to fit into the address space.\<close>

definition log_fits :: "blueprint \<Rightarrow> int list list \<Rightarrow> bool" where
  "log_fits bp hist \<longleftrightarrow> (length hist + 1) * (sizeof_params (bp_params bp) + 8) + 8192 < 2 ^ 64"

lemma installed_kept:
  assumes inst: "installed E s stub fn ctx" and same: "stubs s' stub = stubs s stub"
    and keep: "bytes_kept p s s'" and p: "trampoline_of s stub - 16 \<noteq> p"
    and code: "length (trampoline_code E) + 16 \<le> unat PAGE_SIZE"
  shows "installed E s' stub fn ctx" and "trampoline_of s' stub = trampoline_of s stub"
proof -
  obtain st where st: "stubs s stub = Some st"
    using inst by (auto simp: installed_def split: option.splits)
  define t where "t = stub_trampoline st"
  have page: "(t - 16, PAGE_SIZE) \<in> set (live s)" and t: "t - 16 \<noteq> p"
    using inst st p by (auto simp: installed_def is_trampoline_def t_def trampoline_of_def)
  have r: "rd (mem s') (t - 16 + of_nat i) n = rd (mem s) (t - 16 + of_nat i) n" if "i + n \<le> unat PAGE_SIZE" "i < 2 ^ 64" for i n
  proof (rule bytes_kept_rd [OF keep page t])
    show "within (t - 16) PAGE_SIZE (t - 16 + of_nat i) n"
      using that by (simp add: within_def unat_of_nat)
  qed
  have "ld64 (mem s') (t - 16) = ld64 (mem s) (t - 16)" and "ld64 (mem s') (t - 8) = ld64 (mem s) (t - 8)"
    and "rd (mem s') t (length (trampoline_code E)) = rd (mem s) t (length (trampoline_code E))"
    using r [of 0 8] r [of 8 8] r [of 16 "length (trampoline_code E)"] code
    by (simp_all add: ld64_def PAGE_SIZE_def)
  moreover have "(t - 16, PAGE_SIZE) \<in> set (live s')"
    using bytes_keptD [OF keep page t] by blast
  ultimately show "installed E s' stub fn ctx" and "trampoline_of s' stub = trampoline_of s stub"
    using inst st same
    by (simp_all add: installed_def is_trampoline_def t_def trampoline_of_def trampoline_ctx_def trampoline_routine_def)
qed

lemma links_matchers_live: "links m_next (matchers s) p ps \<Longrightarrow> matchers_live s \<Longrightarrow> set ps \<subseteq> fst ` set (live s)"
  using links_dom by (fastforce simp: matchers_live_def)

lemma contract_at_cong:
  assumes "contract_at s p c" and "bindings s' p = bindings s p" and "matchers_live s"
    and "\<And>q. q \<in> fst ` set (live s) \<Longrightarrow> matchers s' q = matchers s q"
  shows "contract_at s' p c"
proof -
  from assms(1) obtain b ps where b: "bindings s p = Some b"
    and l: "links m_next (matchers s) (b_matcher_ctx b) (b_matcher_ctx b # ps)"
    and c: "c = (map (m_key (matchers s)) ps, b_params b, b_result b)"
    by (auto simp: contract_at_def)
  have same: "matchers s' q = matchers s q" if "q \<in> set (b_matcher_ctx b # ps)" for q
    using links_matchers_live [OF l assms(3)] that assms(4) by blast
  have "links m_next (matchers s') (b_matcher_ctx b) (b_matcher_ctx b # ps)"
    by (rule links_cong [OF l same])
  moreover have "c = (map (m_key (matchers s')) ps, b_params b, b_result b)"
    using c same by (simp add: m_key_def)
  ultimately show ?thesis
    using b assms(2) by (auto simp: contract_at_def)
qed

lemma contracts_at_cong:
  assumes "list_all2 (contract_at s) bps cs" and "\<And>p. p \<in> set bps \<Longrightarrow> bindings s' p = bindings s p"
    and "matchers_live s" and "\<And>q. q \<in> fst ` set (live s) \<Longrightarrow> matchers s' q = matchers s q"
  shows "list_all2 (contract_at s') bps cs"
  using assms(1,2)
proof (induction rule: list_all2_induct)
  case Nil
  then show ?case by simp
next
  case (Cons p ps c cs)
  then show ?case
    using contract_at_cong [OF Cons.hyps(1) _ assms(3,4)] by simp
qed

text \<open>The bytes that a call stores on its stack decode to its parameters.\<close>

lemma params_key:
  assumes ok: "list_all ctype_ok tys" and r: "list_all2 in_range tys vs" and sz: "sizeof_params tys < 2 ^ 64"
    and m'_def: "m' = wr m p (params_bytes junk tys vs)"
  shows "decode_key tys (rd m' (p + 8) (sizeof_params tys - 8)) = vs"
proof -
  have len: "length (params_bytes junk tys vs) = sizeof_params tys"
    using sizeof_params_facts(3) [OF ok] list_all2_lengthD [OF r] by simp
  have "rd m' p (sizeof_params tys) = params_bytes junk tys vs"
    unfolding m'_def using sz len by (intro rd_wr_same') simp_all
  then have "read_params m' p tys = vs"
    by (rule read_params_bytes [OF ok r])
  moreover have "read_params m' p tys = decode_key tys (rd m' (p + 8) (sizeof_params tys - 8))"
    using sz by (intro read_params_key [OF ok]) simp_all
  ultimately show ?thesis
    by simp
qed

lemma length_bump: "length (bump k es) \<le> Suc (length es)"
  by (induction k es rule: bump.induct) auto

lemma fold_bump_facts:
  "keys_of (fold bump ks es) = set ks \<union> keys_of es" "length (fold bump ks es) \<le> length ks + length es"
proof (induction ks arbitrary: es)
  case (Cons k ks)
  {
    case 1
    show ?case using Cons(1) by auto
  next
    case 2
    show ?case using Cons(2) [of "bump k es"] length_bump [of k es] by simp
  }
qed simp_all

lemma mock_invE:
  assumes "mock_inv E bp fr s stub mp hist cs"
  obtains mk keys where "blocks_wf (live s)" and "vitals_ready (vit s)" and "matchers_live s"
    and "dom (bindings s) \<subseteq> fst ` set (live s)"
    and "matcher_ctx s = NULL" and "ask_ctx s = 0" and "mock_called s = 0"
    and "installed E s stub (bp_stub bp) mp" and "mocks s mp = Some mk" and "logged bp fr s stub mk keys"
    and "map (decode_key (bp_params bp)) keys = hist" and "contracted s (mk_params mk) cs"
  using assms by (auto simp: mock_inv_def heap_ok_def at_rest_def)

section \<open>Calls\<close>

lemma log_in_block_kept:
  assumes "log_in_block (mem s) (live s) mk n es" and "bytes_kept p s s'" and "mk_call_data mk \<noteq> p"
  shows "log_in_block (mem s') (live s') mk n es"
proof -
  note L = assms(1) [unfolded log_in_block_def]
  then have b: "(mk_call_data mk, mk_call_data_size mk) \<in> set (live s)"
    by blast
  have "within (mk_call_data mk) (mk_call_data_size mk) (mk_call_data mk) (length (log_bytes es))"
    using L by (simp add: within_def)
  then have "rd (mem s') (mk_call_data mk) (length (log_bytes es)) = rd (mem s) (mk_call_data mk) (length (log_bytes es))"
    by (rule bytes_kept_rd [OF assms(2) b assms(3)])
  moreover have "(mk_call_data mk, mk_call_data_size mk) \<in> set (live s')"
    using bytes_keptD [OF assms(2) b assms(3)] by blast
  ultimately show ?thesis
    using L unfolding log_in_block_def by simp
qed

lemma call_log_ok_kept:
  "call_log_ok (mem s) (live s) mk n es \<Longrightarrow> bytes_kept p s s' \<Longrightarrow> mk_call_data mk \<noteq> p \<Longrightarrow>
    call_log_ok (mem s') (live s') mk n es"
  using log_in_block_kept by (auto simp: call_log_ok_def)

lemma log_bound:
  assumes ok: "list_all ctype_ok tys" and log: "call_log_ok m bs mk (sizeof_params tys - 8) (fold bump keys [])"
    and fits: "(length keys + 1) * (sizeof_params tys + 8) + 8192 < 2 ^ 64"
  shows "length (log_bytes (fold bump keys [])) + (sizeof_params tys - 8) + 8192 < 2 ^ 64"
proof -
  let ?es = "fold bump keys []"
  have n: "24 \<le> sizeof_params tys"
    using sizeof_params_facts(1) [OF ok] .
  have "\<forall>k \<in> keys_of ?es. length k = sizeof_params tys - 8"
    using log by (auto simp: call_log_ok_def log_in_block_def keys_of_def split: if_splits)
  then have "length (log_bytes ?es) = length ?es * (sizeof_params tys + 8)"
    using n by (subst length_log_bytes [of _ "sizeof_params tys - 8"]) simp_all
  also have "\<dots> \<le> length keys * (sizeof_params tys + 8)"
    using fold_bump_facts(2) [of keys "[]"] by (intro mult_le_mono1) simp
  finally show ?thesis
    using fits n by (simp add: add_mult_distrib)
qed

text \<open>The first contract, in the order of the list, that accepts the call.\<close>

definition chosen :: "(addr \<Rightarrow> int \<Rightarrow> cint) \<Rightarrow> int list \<Rightarrow> contract list \<Rightarrow> mmk_result option" where
  "chosen pr args cs =
     map_option (\<lambda>c. snd (snd c)) (find (\<lambda>c. accepts pr (fst c) (fst (snd c)) args) cs)"

lemma first_contract_chosen:
  "list_all2 (contract_at s) bps cs \<Longrightarrow>
    (case chosen pr args cs of
       None \<Rightarrow> first_contract pr args (zip bps cs) = None
     | Some res \<Rightarrow> \<exists>p b. first_contract pr args (zip bps cs) = Some p \<and> p \<in> set bps \<and>
         bindings s p = Some b \<and> b_result b = res)"
proof (induction rule: list_all2_induct)
  case Nil
  then show ?case by (simp add: chosen_def)
next
  case (Cons p bps c cs)
  then show ?case
    by (cases "accepts pr (fst c) (fst (snd c)) args")
      (auto simp: chosen_def contract_at_def split: option.splits)
qed

lemma first_match_chosen:
  assumes "contracted s p cs"
  obtains q where "first_match (matchers s) (bindings s) (linorder_operators pr) args p = Some (Inr q)"
    and "case chosen pr args cs of None \<Rightarrow> q = NULL
      | Some res \<Rightarrow> q \<noteq> NULL \<and> (\<exists>b. bindings s q = Some b \<and> b_result b = res)"
proof -
  obtain bps where l: "links b_next (bindings s) p bps" and cs: "list_all2 (contract_at s) bps cs"
    using assms by (auto simp: contracted_def)
  show ?thesis
    using that [OF first_match_contracts [OF l cs]] first_contract_chosen [OF cs, of pr args] links_not_NULL [OF l]
    by (cases "chosen pr args cs") (force split: option.splits)+
qed

text \<open>A call that is not part of a \<open>mmk_when\<close> or \<open>mmk_verify\<close> is logged.\<close>

lemma register_call_logged:
  assumes set: "setting_ok E bp" and heap: "heap_ok s" and at: "mmk_ctx_var s = stub"
    and inst: "installed E s stub (bp_stub bp) mp" and mk: "mocks s mp = Some mk"
    and log: "logged bp fr s stub mk keys"
    and fits: "log_fits bp (map (decode_key (bp_params bp)) keys)"
    and key: "key = rd (mem s) (fr_params fr + 8) (sizeof_params (bp_params bp) - 8)"
    and run: "mmk_verify_register_call E s (fr_params fr) (of_nat (sizeof_params (bp_params bp))) = Inr s'"
  obtains mk' bs m where "s' = s\<lparr>live := bs, mem := m, mocks := (mocks s)(mp \<mapsto> mk')\<rparr>"
    and "bytes_kept (mk_call_data mk) s s'" and "heap_ok s'" and "logged bp fr s' stub mk' (keys @ [key])"
    and "mk_params mk' = mk_params mk" and "mk_stubs mk' = mk_stubs mk"
    and "\<forall>p \<in> fst ` set (live s). p \<noteq> mk_call_data mk \<longrightarrow> p \<noteq> mk_call_data mk'"
proof -
  let ?sz = "sizeof_params (bp_params bp)"
  let ?n = "?sz - 8"
  have ok: "list_all ctype_ok (bp_params bp)" and L: "libc_ok (c_lib E)"
    and code: "length (trampoline_code E) + 16 \<le> unat PAGE_SIZE"
    using set by (simp_all add: setting_ok_def)
  have n: "24 \<le> ?sz" "8 dvd ?n"
    using sizeof_params_facts(1) [OF ok] sizeof_params_facts(2) by (auto simp: dvd_diff_nat)
  have ctx: "mmk_stub_context s (mmk_ctx s) = Inr mp"
    using installed_context [OF inst] at by (simp add: mmk_ctx_def)
  from log obtain q k where q: "(q, k) \<in> set (live s)" "within q k (fr_params fr) ?sz"
    "q \<noteq> mk_call_data mk" "q \<noteq> trampoline_of s stub - 16"
    and log': "call_log_ok (mem s) (live s) mk ?n (fold bump keys [])"
    and t: "trampoline_of s stub - 16 \<noteq> mk_call_data mk"
    and data: "mk_call_data mk \<notin> dom (matchers s) \<union> dom (bindings s)"
    by (auto simp: logged_def)
  have bound: "length (log_bytes (fold bump keys [])) + ?n + 8192 < 2 ^ 64"
    using log_bound [OF ok log'] fits by (simp add: log_fits_def)
  have sz: "?sz < 2 ^ 64"
    using bound n by simp
  have wf: "blocks_wf (live s)"
    using heap by (simp add: heap_ok_def)
  have wi: "within q k (fr_params fr) (?n + 8)" and usz: "unat (of_nat ?sz :: size_t) = ?n + 8"
    using q(2) n(1) sz by (simp_all add: unat_of_nat)
  obtain mk' bs m where s': "s' = s\<lparr>live := bs, mem := m, mocks := (mocks s)(mp \<mapsto> mk')\<rparr>"
    and new: "log_in_block m bs mk' ?n (bump key (fold bump keys []))" and wf': "blocks_wf bs"
    and kept: "bytes_kept (mk_call_data mk) s s'"
    and same: "mk_params mk' = mk_params mk" "mk_stubs mk' = mk_stubs mk"
    and fresh: "\<forall>p \<in> fst ` set (live s). p \<noteq> mk_call_data mk \<longrightarrow> p \<noteq> mk_call_data mk'"
    by (rule mmk_verify_register_call_Inr [OF L wf ctx mk log' q(1) wi q(3) key [symmetric] usz n(2) bound run])
  have blk: "p \<in> fst ` set bs" if "p \<in> fst ` set (live s)" "p \<noteq> mk_call_data mk" for p
    using that bytes_keptD [OF kept] by (fastforce simp: s')
  have page: "trampoline_of s stub - 16 \<in> fst ` set (live s)"
    using inst by (force simp: installed_def is_trampoline_def trampoline_of_def split: option.splits)
  show ?thesis
  proof (rule that [OF s' kept _ _ same fresh])
    have live: "dom (matchers s) \<union> dom (bindings s) \<subseteq> fst ` set (live s)"
      using heap by (auto simp: heap_ok_def matchers_live_def)
    then have "p \<in> fst ` set bs" if "p \<in> dom (matchers s) \<union> dom (bindings s)" for p
      using that data by (intro blk) (blast, metis)
    then show "heap_ok s'"
      using heap wf' by (simp add: heap_ok_def s' matchers_live_def subset_iff)
    have "trampoline_of s' stub = trampoline_of s stub"
      by (simp add: s' trampoline_of_def)
    moreover have "(q, k) \<in> set bs"
      using bytes_keptD [OF kept q(1,3)] by (simp add: s')
    moreover have "q \<noteq> mk_call_data mk'"
      using fresh q by force
    moreover have fr2: "mk_call_data mk' \<noteq> NULL" "trampoline_of s stub - 16 \<noteq> mk_call_data mk'"
      using new bspec [OF fresh page] t by (simp_all add: log_in_block_def)
    moreover have "mk_call_data mk' \<notin> dom (matchers s) \<union> dom (bindings s)"
    proof
      assume a: "mk_call_data mk' \<in> dom (matchers s) \<union> dom (bindings s)"
      then have "mk_call_data mk' \<in> fst ` set (live s)"
        by (rule subsetD [OF live])
      moreover have "mk_call_data mk' \<noteq> mk_call_data mk"
        by (rule notI) (use a data in simp)
      ultimately show False
        using fresh by blast
    qed
    ultimately show "logged bp fr s' stub mk' (keys @ [key])"
      using new q(2,4) fr2 unfolding logged_def by (auto simp: s' call_log_ok_def)
  qed
qed

section \<open>Steps that spare a mock\<close>

text \<open>What is kept of a mock by a step that spares its trampoline, its log and its frame.\<close>

lemma mock_inv_kept:
  assumes inv: "mock_inv E bp fr s stub mp hist cs" and mk: "mocks s mp = Some mk"
    and same: "stubs s' stub = stubs s stub" "mocks s' mp = Some mk" "matchers s' = matchers s" "bindings s' = bindings s"
    and heap: "heap_ok s'" and rest: "at_rest s'" and code: "length (trampoline_code E) + 16 \<le> unat PAGE_SIZE"
    and keep: "\<And>q k x. (q, k) \<in> set (live s) \<Longrightarrow> q \<in> {trampoline_of s stub - 16, mk_call_data mk} \<Longrightarrow>
      (q, k) \<in> set (live s') \<and> (in_region q (unat k) x \<longrightarrow> mem s' x = mem s x)"
    and frame: "(q, k) \<in> set (live s')" "within q k (fr_params fr) (sizeof_params (bp_params bp))"
      "q \<noteq> trampoline_of s stub - 16" "q \<noteq> mk_call_data mk"
  shows "mock_inv E bp fr s' stub mp hist cs"
proof -
  define s0 where "s0 = s\<lparr>live := filter (\<lambda>b. fst b \<in> {trampoline_of s stub - 16, mk_call_data mk}) (live s)\<rparr>"
  obtain keys where wf: "blocks_wf (live s)" and inst: "installed E s stub (bp_stub bp) mp"
    and log: "logged bp fr s stub mk keys" and hist: "map (decode_key (bp_params bp)) keys = hist"
    and con: "contracted s (mk_params mk) cs"
    using inv mk by (auto simp: mock_inv_def heap_ok_def)
  have kept: "bytes_kept p s0 s'" for p
    using keep by (auto simp: bytes_kept_def s0_def)
  have "installed E s0 stub (bp_stub bp) mp" and t0: "trampoline_of s0 stub = trampoline_of s stub"
    using inst by (auto simp: installed_def is_trampoline_def s0_def trampoline_of_def split: option.splits)
  note inst' = installed_kept [OF this(1) _ kept _ code, where p = "trampoline_of s0 stub - 16 + 1"]
  have "call_log_ok (mem s') (live s') mk n es" if "call_log_ok (mem s) (live s) mk n es" for n es
    using that call_log_ok_kept [of s0 mk n es "mk_call_data mk + 1" s'] kept
    by (auto simp: call_log_ok_def log_in_block_def s0_def)
  then have "logged bp fr s' stub mk keys"
    using log same frame by (auto simp: logged_def trampoline_of_def)
  moreover have "contracted s' (mk_params mk) cs"
    using con same by (simp add: contracted_def contract_at_def [abs_def])
  moreover have "installed E s' stub (bp_stub bp) mp"
    using inst'(1) same(1) by (simp add: s0_def)
  ultimately show ?thesis
    using heap rest same(2) hist unfolding mock_inv_def by blast
qed

text \<open>Another stub for the mock makes another entry.\<close>

lemma mock_inv_entry:
  assumes inv: "mock_inv E bp fr s stub mp hist cs" and mk: "mocks s mp = Some mk"
    and inst: "installed E s stub2 (bp_stub bp) mp" and t: "trampoline_of s stub2 - 16 \<noteq> mk_call_data mk"
    and frame: "(q, k) \<in> set (live s)" "within q k (fr_params fr) (sizeof_params (bp_params bp))"
      "q \<noteq> mk_call_data mk" "q \<noteq> trampoline_of s stub2 - 16"
  shows "mock_inv E bp fr s stub2 mp hist cs"
  using inv mk inst t frame unfolding mock_inv_def logged_def by fastforce

text \<open>Freeing a block that does not belong to the mock disturbs nothing.\<close>

lemma mock_inv_freed:
  assumes inv: "mock_inv E bp fr s stub mp hist cs" and mk: "mocks s mp = Some mk"
    and code: "length (trampoline_code E) + 16 \<le> unat PAGE_SIZE"
    and live: "live s = bs @ (p, n) # bs'" and p: "p \<notin> dom (matchers s) \<union> dom (bindings s)"
    "p \<noteq> trampoline_of s stub - 16" "p \<noteq> mk_call_data mk"
    and frame: "(q, k) \<in> set (bs @ bs')" "within q k (fr_params fr) (sizeof_params (bp_params bp))"
      "q \<noteq> trampoline_of s stub - 16" "q \<noteq> mk_call_data mk"
  shows "mock_inv E bp fr (s\<lparr>live := bs @ bs'\<rparr>) stub mp hist cs"
proof (rule mock_inv_kept [OF inv mk])
  have heap: "heap_ok s" and rest: "at_rest s"
    using inv by (simp_all add: mock_inv_def)
  have "blocks_wf (bs @ bs')"
    using heap blocks_wf_unblock [of "live s" p] unblock_middle [of bs p n bs'] by (simp add: heap_ok_def live)
  then show "heap_ok (s\<lparr>live := bs @ bs'\<rparr>)"
    using heap p(1) by (auto simp: heap_ok_def matchers_live_def live)
  show "at_rest (s\<lparr>live := bs @ bs'\<rparr>)"
    using rest by (simp add: at_rest_def)
  show "(b, m) \<in> set (live (s\<lparr>live := bs @ bs'\<rparr>)) \<and> (in_region b (unat m) x \<longrightarrow> mem (s\<lparr>live := bs @ bs'\<rparr>) x = mem s x)"
    if "(b, m) \<in> set (live s)" "b \<in> {trampoline_of s stub - 16, mk_call_data mk}" for b m x
    using that p(2,3) by (auto simp: live)
qed (use mk code frame in simp_all)

end
