(* ===== verification/Mock_Refinement.thy ===== *)
theory Mock_Refinement
  imports Mock_Invariant
begin

text \<open>
  What a call, \<open>mmk_when\<close> and \<open>mmk_verify\<close> do to a mock, in terms of its history and its contracts.
\<close>

definition result_of :: "blueprint \<Rightarrow> mem \<Rightarrow> mmk_result option \<Rightarrow> int" where
  "result_of bp m r =
     (case r of None \<Rightarrow> 0
      | Some res \<Rightarrow> if then_return res = NULL then 0 else load_result bp m (then_return res))"

definition errno_of :: "cint \<Rightarrow> mmk_result option \<Rightarrow> cint" where
  "errno_of e r = (case r of None \<Rightarrow> e | Some res \<Rightarrow> if then_errno res = 0 then e else then_errno res)"

definition calls_nothing :: "mmk_result option \<Rightarrow> bool" where
  "calls_nothing r \<longleftrightarrow> (case r of None \<Rightarrow> True | Some res \<Rightarrow> then_call res = NULL)"

lemma mock_inv_errno: "mock_inv E bp fr (s\<lparr>errno := e\<rparr>) stub mp hist cs = mock_inv E bp fr s stub mp hist cs"
  by (simp add: mock_inv_def heap_ok_def at_rest_def installed_def is_trampoline_def logged_def
      trampoline_of_def matchers_live_def contracted_def contract_at_def [abs_def] cong: option.case_cong)

lemma enter_mock:
  assumes "installed E s stub (bp_stub bp) mp" and "ask_ctx s = 0"
  shows "call_mock E P bp fr s (trampoline_of s stub) args =
    mock_stub E P bp fr (s\<lparr>mmk_ctx_var := stub, ask_ctx := 0\<rparr>) args"
  using assms by (simp add: call_mock_def enter_installed)

text \<open>Storing the parameters in the stack frame disturbs nothing, and the stored bytes decode to them.\<close>

lemma frame_stored:
  assumes set: "setting_ok E bp" and heap: "heap_ok s" and inst: "installed E s stub (bp_stub bp) mp"
    and log: "logged bp fr s stub mk keys" and args: "list_all2 in_range (bp_params bp) args"
    and sz: "sizeof_params (bp_params bp) < 2 ^ 64"
    and s1: "s1 = s\<lparr>mmk_ctx_var := stub, ask_ctx := 0,
      mem := wr (mem s) (fr_params fr) (params_bytes (fr_junk fr) (bp_params bp) args)\<rparr>"
  shows "heap_ok s1" and "installed E s1 stub (bp_stub bp) mp" and "logged bp fr s1 stub mk keys"
    and "decode_key (bp_params bp) (rd (mem s1) (fr_params fr + 8) (sizeof_params (bp_params bp) - 8)) = args"
    and "separate (fr_params fr) (sizeof_params (bp_params bp)) q n \<Longrightarrow> in_region q n x \<Longrightarrow> mem s1 x = mem s x"
proof -
  let ?sz = "sizeof_params (bp_params bp)"
  have ok: "list_all ctype_ok (bp_params bp)" and code: "length (trampoline_code E) + 16 \<le> unat PAGE_SIZE"
    using set by (simp_all add: setting_ok_def)
  from log obtain b k where b: "(b, k) \<in> set (live s)" "within b k (fr_params fr) ?sz"
    "b \<noteq> mk_call_data mk" "trampoline_of s stub - 16 \<noteq> b"
    by (auto simp: logged_def)
  have len: "length (params_bytes (fr_junk fr) (bp_params bp) args) = ?sz"
    using sizeof_params_facts(3) [OF ok] list_all2_lengthD [OF args] by simp
  have kept: "bytes_kept b s s1"
    using heap b len by (intro bytes_kept_wr [OF _ b(1)]) (simp_all add: s1 heap_ok_def)
  show "installed E s1 stub (bp_stub bp) mp" and "heap_ok s1"
    using installed_kept [OF inst _ kept b(4) code] heap by (simp_all add: s1 heap_ok_def matchers_live_def)
  show "logged bp fr s1 stub mk keys"
    using log call_log_ok_kept [OF _ kept b(3) [symmetric]] by (auto simp: logged_def s1 trampoline_of_def)
  show "decode_key (bp_params bp) (rd (mem s1) (fr_params fr + 8) (?sz - 8)) = args"
    by (rule params_key [OF ok args sz]) (simp add: s1)
  show "mem s1 x = mem s x" if "separate (fr_params fr) ?sz q n" "in_region q n x"
    using that len sz by (auto simp: s1 separate_def intro!: wr_outside)
qed

text \<open>
  What a call does: it logs the parameters, looks for the first contract that accepts them, and applies its
  result. It writes only the log and its stack frame.
\<close>

definition frame_state :: "blueprint \<Rightarrow> frame \<Rightarrow> 'a mock_state_scheme \<Rightarrow> addr \<Rightarrow> int list \<Rightarrow> 'a mock_state_scheme" where
  "frame_state bp fr s stub args = s\<lparr>mmk_ctx_var := stub, ask_ctx := 0,
     mem := wr (mem s) (fr_params fr) (params_bytes (fr_junk fr) (bp_params bp) args)\<rparr>"

lemma register_call_framed:
  assumes set: "setting_ok E bp" and heap: "heap_ok s" and inst: "installed E s stub (bp_stub bp) mp"
    and mk: "mocks s mp = Some mk" and log: "logged bp fr s stub mk keys"
    and args: "list_all2 in_range (bp_params bp) args"
    and fits: "log_fits bp (map (decode_key (bp_params bp)) keys)"
    and reg: "mmk_verify_register_call E (frame_state bp fr s stub args) (fr_params fr)
      (of_nat (sizeof_params (bp_params bp))) = Inr s2"
  obtains mk' bs m key where "s2 = (frame_state bp fr s stub args)\<lparr>live := bs, mem := m, mocks := (mocks s)(mp \<mapsto> mk')\<rparr>"
    and "bytes_kept (mk_call_data mk) (frame_state bp fr s stub args) s2" and "heap_ok s2"
    and "logged bp fr s2 stub mk' (keys @ [key])" and "decode_key (bp_params bp) key = args"
    and "mk_params mk' = mk_params mk" and "installed E s2 stub (bp_stub bp) mp"
    and "\<forall>p \<in> fst ` set (live s). p \<noteq> mk_call_data mk \<longrightarrow> p \<noteq> mk_call_data mk'"
proof -
  define s1 where "s1 = frame_state bp fr s stub args"
  have sz: "sizeof_params (bp_params bp) < 2 ^ 64"
    using fits by (simp add: log_fits_def)
  note st = frame_stored [OF set heap inst log args sz s1_def [unfolded frame_state_def]]
  have c1: "mmk_ctx_var s1 = stub" "mocks s1 = mocks s" and live: "live s1 = live s"
    by (simp_all add: s1_def frame_state_def)
  obtain mk' bs m where s2: "s2 = s1\<lparr>live := bs, mem := m, mocks := (mocks s1)(mp \<mapsto> mk')\<rparr>"
    and kept: "bytes_kept (mk_call_data mk) s1 s2" and "heap_ok s2"
    and log2: "logged bp fr s2 stub mk' (keys @ [rd (mem s1) (fr_params fr + 8) (sizeof_params (bp_params bp) - 8)])"
    and mk': "mk_params mk' = mk_params mk"
    and fresh: "\<forall>p \<in> fst ` set (live s1). p \<noteq> mk_call_data mk \<longrightarrow> p \<noteq> mk_call_data mk'"
    using register_call_logged [OF set st(1) c1(1) st(2) _ st(3) fits refl reg [folded s1_def]] mk c1(2) by metis
  have "installed E s2 stub (bp_stub bp) mp"
    using st(3) set by (intro installed_kept(1) [OF st(2) _ kept]) (simp_all add: s2 logged_def setting_ok_def)
  from that [OF _ _ _ log2 st(4) mk' this fresh [unfolded live]] s2 kept \<open>heap_ok s2\<close> c1(2) show ?thesis
    unfolding s1_def by simp
qed

text \<open>Every call is logged before anything else happens.\<close>

lemma register_call_inv:
  assumes set: "setting_ok E bp" and inv: "mock_inv E bp fr s stub mp hist cs" and mk: "mocks s mp = Some mk"
    and args: "list_all2 in_range (bp_params bp) args" and fits: "log_fits bp hist"
    and reg: "mmk_verify_register_call E (frame_state bp fr s stub args) (fr_params fr)
      (of_nat (sizeof_params (bp_params bp))) = Inr s2"
  obtains mk' bs m where "s2 = (frame_state bp fr s stub args)\<lparr>live := bs, mem := m, mocks := (mocks s)(mp \<mapsto> mk')\<rparr>"
    and "bytes_kept (mk_call_data mk) (frame_state bp fr s stub args) s2" and "contracted s2 (mk_params mk') cs"
    and "installed E s2 stub (bp_stub bp) mp" and "mock_inv E bp fr s2 stub mp (hist @ [args]) cs"
    and "\<forall>p \<in> fst ` set (live s). p \<noteq> mk_call_data mk \<longrightarrow> p \<noteq> mk_call_data mk'"
proof -
  obtain keys where heap: "heap_ok s" and rest: "at_rest s" and inst: "installed E s stub (bp_stub bp) mp"
    and log: "logged bp fr s stub mk keys"
    and hist: "map (decode_key (bp_params bp)) keys = hist" and con: "contracted s (mk_params mk) cs"
    using inv mk by (auto simp: mock_inv_def)
  obtain mk' bs m key where s2: "s2 = (frame_state bp fr s stub args)\<lparr>live := bs, mem := m, mocks := (mocks s)(mp \<mapsto> mk')\<rparr>"
    and kept: "bytes_kept (mk_call_data mk) (frame_state bp fr s stub args) s2" and heap2: "heap_ok s2"
    and log2: "logged bp fr s2 stub mk' (keys @ [key])" and key: "decode_key (bp_params bp) key = args"
    and mk': "mk_params mk' = mk_params mk" and inst2: "installed E s2 stub (bp_stub bp) mp"
    and fresh: "\<forall>p \<in> fst ` set (live s). p \<noteq> mk_call_data mk \<longrightarrow> p \<noteq> mk_call_data mk'"
    by (rule register_call_framed [OF set heap inst mk log args fits [folded hist] reg])
  have con2: "contracted s2 (mk_params mk') cs"
    using con unfolding contracted_def contract_at_def by (simp add: s2 frame_state_def mk')
  have "at_rest s2" and "mocks s2 mp = Some mk'" and "map (decode_key (bp_params bp)) (keys @ [key]) = hist @ [args]"
    using rest hist key by (simp_all add: at_rest_def s2 frame_state_def)
  then have "mock_inv E bp fr s2 stub mp (hist @ [args]) cs"
    using heap2 inst2 log2 con2 unfolding mock_inv_def by blast
  from that [OF s2 kept con2 inst2 this fresh] show thesis .
qed

text \<open>After that the binding of the first contract that accepts the call is applied, if there is one.\<close>

lemma call_mock_dispatch:
  assumes set: "setting_ok E bp" and inv: "mock_inv E bp fr s stub mp hist cs"
    and args: "list_all2 in_range (bp_params bp) args" and fits: "log_fits bp hist"
    and reg: "mmk_verify_register_call E (frame_state bp fr s stub args) (fr_params fr)
      (of_nat (sizeof_params (bp_params bp))) = Inr s2"
  obtains p where "call_mock E P bp fr s (trampoline_of s stub) args =
      (if p = NULL then Inr (0, s2) else apply_binding P bp s2 p args)"
    and "case chosen (predicate P) args cs of None \<Rightarrow> p = NULL
      | Some res \<Rightarrow> p \<noteq> NULL \<and> (\<exists>b. bindings s2 p = Some b \<and> b_result b = res)"
proof -
  obtain mk where rest: "at_rest s" and inst: "installed E s stub (bp_stub bp) mp" and mk: "mocks s mp = Some mk"
    using inv by (auto simp: mock_inv_def)
  obtain mk' bs m where s2: "s2 = (frame_state bp fr s stub args)\<lparr>live := bs, mem := m, mocks := (mocks s)(mp \<mapsto> mk')\<rparr>"
    and con2: "contracted s2 (mk_params mk') cs" and inst2: "installed E s2 stub (bp_stub bp) mp"
    by (rule register_call_inv [OF set inv mk args fits reg])
  obtain p where p: "first_match (matchers s2) (bindings s2) (linorder_operators (predicate P)) args (mk_params mk') = Some (Inr p)"
    and ch: "case chosen (predicate P) args cs of None \<Rightarrow> p = NULL
      | Some res \<Rightarrow> p \<noteq> NULL \<and> (\<exists>b. bindings s2 p = Some b \<and> b_result b = res)"
    by (rule first_match_chosen [OF con2])
  have "mmk_mock_get_params s2 = Inr (mk_params mk')"
    using installed_context [OF inst2] by (simp add: mmk_mock_get_params_def mmk_ctx_def s2 frame_state_def)
  then have "call_mock E P bp fr s (trampoline_of s stub) args =
      (if p = NULL then Inr (0, s2) else apply_binding P bp s2 p args)"
    using rest reg p
    by (simp add: at_rest_def enter_mock [OF inst] mock_stub_def mmk_matcher_ctx_def stub_run_def frame_state_def)
  with ch that show thesis
    by blast
qed

lemma call_mock_unlogged:
  assumes inv: "mock_inv E bp fr s stub mp hist cs"
    and reg: "mmk_verify_register_call E (frame_state bp fr s stub args) (fr_params fr)
      (of_nat (sizeof_params (bp_params bp))) = Inl e"
  shows "call_mock E P bp fr s (trampoline_of s stub) args = Inl e"
  using inv reg
  by (auto simp: mock_inv_def at_rest_def enter_mock mock_stub_def mmk_matcher_ctx_def stub_run_def frame_state_def)

lemma call_mock_eq:
  assumes set: "setting_ok E bp" and inv: "mock_inv E bp fr s stub mp hist cs"
    and args: "list_all2 in_range (bp_params bp) args" and fits: "log_fits bp hist"
    and quiet: "calls_nothing (chosen (predicate P) args cs)"
  shows "call_mock E P bp fr s (trampoline_of s stub) args =
    andthen (mmk_verify_register_call E (frame_state bp fr s stub args) (fr_params fr)
        (of_nat (sizeof_params (bp_params bp))))
      (\<lambda>s2. Inr (result_of bp (mem s2) (chosen (predicate P) args cs),
        s2\<lparr>errno := errno_of (errno s) (chosen (predicate P) args cs)\<rparr>))"
proof (cases "mmk_verify_register_call E (frame_state bp fr s stub args) (fr_params fr) (of_nat (sizeof_params (bp_params bp)))")
  case (Inl e)
  with call_mock_unlogged [OF inv Inl] show ?thesis
    by simp
next
  case (Inr s2)
  let ?ch = "chosen (predicate P) args cs"
  obtain mk where mk: "mocks s mp = Some mk"
    using inv by (auto simp: mock_inv_def)
  obtain mk' bs m where "s2 = (frame_state bp fr s stub args)\<lparr>live := bs, mem := m, mocks := (mocks s)(mp \<mapsto> mk')\<rparr>"
    by (rule register_call_inv [OF set inv mk args fits Inr])
  then have errno: "errno s2 = errno s"
    by (simp add: frame_state_def)
  obtain p where call: "call_mock E P bp fr s (trampoline_of s stub) args =
      (if p = NULL then Inr (0, s2) else apply_binding P bp s2 p args)"
    and ch: "case ?ch of None \<Rightarrow> p = NULL | Some res \<Rightarrow> p \<noteq> NULL \<and> (\<exists>b. bindings s2 p = Some b \<and> b_result b = res)"
    by (rule call_mock_dispatch [OF set inv args fits Inr])
  note call
  also have "(if p = NULL then Inr (0, s2) else apply_binding P bp s2 p args) = Inr (result_of bp (mem s2) ?ch, s2\<lparr>errno := errno_of (errno s) ?ch\<rparr>)"
    using ch quiet by (cases ?ch)
      (auto simp: apply_binding_def errno_of_def result_of_def calls_nothing_def Let_def simp flip: errno)
  finally show ?thesis
    unfolding Inr by simp
qed

lemma call_mock_Inr:
  assumes set: "setting_ok E bp" and inv: "mock_inv E bp fr s stub mp hist cs"
    and args: "list_all2 in_range (bp_params bp) args" and fits: "log_fits bp hist"
    and quiet: "calls_nothing (chosen (predicate P) args cs)"
    and run: "call_mock E P bp fr s (trampoline_of s stub) args = Inr (r, s')"
  shows "mock_inv E bp fr s' stub mp (hist @ [args]) cs"
    and "r = result_of bp (mem s') (chosen (predicate P) args cs)"
    and "errno s' = errno_of (errno s) (chosen (predicate P) args cs)"
    and "stubs s' = stubs s" "matchers s' = matchers s" "bindings s' = bindings s"
    and "p \<noteq> mp \<Longrightarrow> mocks s' p = mocks s p"
    and "(q, k) \<in> set (live s) \<Longrightarrow> mocks s mp = Some mk \<Longrightarrow> q \<noteq> mk_call_data mk \<Longrightarrow>
      separate (fr_params fr) (sizeof_params (bp_params bp)) q (unat k) \<Longrightarrow>
      (q, k) \<in> set (live s') \<and> (in_region q (unat k) x \<longrightarrow> mem s' x = mem s x)"
proof -
  obtain mk keys where heap: "heap_ok s" and inst: "installed E s stub (bp_stub bp) mp"
    and mk: "mocks s mp = Some mk" and log: "logged bp fr s stub mk keys"
    using inv by (auto simp: mock_inv_def)
  let ?ch = "chosen (predicate P) args cs" and ?s1 = "frame_state bp fr s stub args"
  obtain s2 where reg: "mmk_verify_register_call E ?s1 (fr_params fr) (of_nat (sizeof_params (bp_params bp))) = Inr s2"
    and s': "s' = s2\<lparr>errno := errno_of (errno s) ?ch\<rparr>" and r: "r = result_of bp (mem s2) ?ch"
    using run unfolding call_mock_eq [OF set inv args fits quiet] by (auto simp: ends)
  obtain mk' bs m where s2: "s2 = ?s1\<lparr>live := bs, mem := m, mocks := (mocks s)(mp \<mapsto> mk')\<rparr>"
    and kept: "bytes_kept (mk_call_data mk) ?s1 s2" and inv2: "mock_inv E bp fr s2 stub mp (hist @ [args]) cs"
    by (rule register_call_inv [OF set inv mk args fits reg])
  show "r = result_of bp (mem s') ?ch" and "errno s' = errno_of (errno s) ?ch"
    and "stubs s' = stubs s" and "matchers s' = matchers s" and "bindings s' = bindings s"
    and "p \<noteq> mp \<Longrightarrow> mocks s' p = mocks s p" for p
    by (simp_all add: s' r s2 frame_state_def)
  show "mock_inv E bp fr s' stub mp (hist @ [args]) cs"
    using inv2 by (simp only: s' mock_inv_errno)
  have sz: "sizeof_params (bp_params bp) < 2 ^ 64"
    using fits by (simp add: log_fits_def)
  show "(q, k) \<in> set (live s') \<and> (in_region q (unat k) x \<longrightarrow> mem s' x = mem s x)"
    if "(q, k) \<in> set (live s)" "mocks s mp = Some mk0" "q \<noteq> mk_call_data mk0"
      "separate (fr_params fr) (sizeof_params (bp_params bp)) q (unat k)" for q k mk0
    using that bytes_keptD [OF kept, of q k x] mk s'
      frame_stored(5) [OF set heap inst log args sz frame_state_def that(4), of x] by (auto simp: frame_state_def)
qed

text \<open>
  A behaviour with a function to call: the function runs in a state in which the call is logged and \<open>errno\<close> is set, and
  what it returns is the value of the call, unless the behaviour has a value of its own.
\<close>

lemma call_mock_delegates:
  assumes set: "setting_ok E bp" and inv: "mock_inv E bp fr s stub mp hist cs"
    and args: "list_all2 in_range (bp_params bp) args" and fits: "log_fits bp hist"
    and ch: "chosen (predicate P) args cs = Some res" and calls: "then_call res \<noteq> NULL"
    and run: "call_mock E P bp fr s (trampoline_of s stub) args = Inr (r, s')"
  obtains s1 v where "mock_inv E bp fr s1 stub mp (hist @ [args]) cs" and "errno s1 = errno_of (errno s) (Some res)"
    and "delegate P (then_call res) args s1 = Inr (v, s')" and "then_return res = NULL \<Longrightarrow> r = v"
    and "then_return res \<noteq> NULL \<Longrightarrow> bindings s' = bindings s1 \<Longrightarrow> r = load_result bp (mem s') (then_return res)"
proof -
  obtain mk where mk: "mocks s mp = Some mk"
    using inv by (auto simp: mock_inv_def)
  obtain s2 where reg: "mmk_verify_register_call E (frame_state bp fr s stub args) (fr_params fr)
      (of_nat (sizeof_params (bp_params bp))) = Inr s2"
    using run call_mock_unlogged [OF inv, of args _ P] by (cases "mmk_verify_register_call E
      (frame_state bp fr s stub args) (fr_params fr) (of_nat (sizeof_params (bp_params bp)))") auto
  obtain mk' bs m where s2: "s2 = (frame_state bp fr s stub args)\<lparr>live := bs, mem := m, mocks := (mocks s)(mp \<mapsto> mk')\<rparr>"
    and inv2: "mock_inv E bp fr s2 stub mp (hist @ [args]) cs"
    by (rule register_call_inv [OF set inv mk args fits reg])
  obtain p where call: "call_mock E P bp fr s (trampoline_of s stub) args =
      (if p = NULL then Inr (0, s2) else apply_binding P bp s2 p args)"
    and "case chosen (predicate P) args cs of None \<Rightarrow> p = NULL
      | Some res \<Rightarrow> p \<noteq> NULL \<and> (\<exists>b. bindings s2 p = Some b \<and> b_result b = res)"
    by (rule call_mock_dispatch [OF set inv args fits reg])
  then obtain b where p: "p \<noteq> NULL" and b: "bindings s2 p = Some b" "b_result b = res"
    by (auto simp: ch)
  define s1 where "s1 = s2\<lparr>errno := errno_of (errno s) (Some res)\<rparr>"
  have s1_eq: "s1 = (if then_errno res \<noteq> 0 then s2\<lparr>errno := then_errno res\<rparr> else s2)"
    by (simp add: s1_def errno_of_def s2 frame_state_def)
  have "mock_inv E bp fr s1 stub mp (hist @ [args]) cs"
    using inv2 by (simp only: s1_def mock_inv_errno)
  moreover have "errno s1 = errno_of (errno s) (Some res)" and "bindings s1 p = Some b"
    using b(1) by (simp_all add: s1_def)
  moreover have "(if then_return res = NULL then delegate P (then_call res) args s1
      else andthen (delegate P (then_call res) args s1) (\<lambda>(_, s).
        andthen (deref (bindings s p)) (\<lambda>b. Inr (load_result bp (mem s) (then_return (b_result b)), s)))) = Inr (r, s')"
    using run calls p unfolding call apply_binding_def b(1) s1_eq by (simp add: b(2) Let_def split: if_splits)
  ultimately show thesis
    using b(2) by (intro that [of s1 "fst (projr (delegate P (then_call res) args s1))"]) (auto simp: ends split: if_splits)
qed

section \<open>Call expressions\<close>

text \<open>
  The state after the arguments of a call expression have been evaluated: the matcher objects of the expression are
  new blocks, and everything else is as before.
\<close>

lemma expression_evaluated:
  assumes L: "libc_ok (c_lib E)" and heap: "heap_ok s" and init: "mmk_matcher_init E s kind = Inr s1"
    and same: "live s1' = live s1" "matchers s1' = matchers s1" "matcher_ctx s1' = matcher_ctx s1"
    and ev: "eval_args E s1' as = Inr s2"
  obtains c ps bs ms h ms1 where "s1 = s\<lparr>live := (c, sizeof_mmk_matcher) # live s, matchers := ms1, matcher_ctx := c\<rparr>"
    and "s2 = s1'\<lparr>live := bs @ live s, matchers := ms\<rparr>" and "matcher_ctx s2 = c"
    and "links m_next ms c (c # ps)" and "map (m_key ms) ps = sort_key fst (rev (map arg_key as))"
    and "blocks_wf (bs @ live s)" and "mset (map fst bs) = mset (c # ps)"
    and "\<forall>p. p \<notin> set (c # ps) \<longrightarrow> ms p = matchers s p"
    and "ms c = Some h" and "m_kind h = kind" and "matchers_live s2"
proof -
  have ml: "matchers_live s" and wf: "blocks_wf (live s)"
    using heap by (simp_all add: heap_ok_def)
  from L ml init obtain c where fresh: "fresh_block (live s) c sizeof_mmk_matcher"
    and s1: "s1 = s\<lparr>live := (c, sizeof_mmk_matcher) # live s, matchers := (matchers s)(c \<mapsto>
            \<lparr>m_kind = kind, m_prio = 0, m_data = NULL, m_next = NULL\<rparr>), matcher_ctx := c\<rparr>"
    and am: "arg_matchers s1 []" and ml1: "matchers_live s1"
    by (rule mmk_matcher_init_Inr)
  have "arg_matchers s1' []" "matchers_live s1'"
    using am ml1 same by (simp_all add: arg_matchers_def matchers_live_def)
  from eval_args_Inr [OF L this(2,1) ev] same obtain ps bs ms where s2: "s2 = s1'\<lparr>live := bs @ live s1, matchers := ms\<rparr>"
    and am2: "arg_matchers s2 ps" and ml2: "matchers_live s2"
    and keys: "map (m_key ms) ps = fold (insort_key fst) (map arg_key as) []"
    and wf2: "blocks_wf (live s1) \<longrightarrow> blocks_wf (live s2)" and blk: "mset ps = mset (map fst bs)"
    and out: "\<forall>p. p \<notin> set (c # ps) \<longrightarrow> ms p = matchers s1 p"
    and key: "\<forall>p. p \<notin> fst ` set bs \<longrightarrow> m_key ms p = m_key (matchers s1) p"
    by (auto simp: s1)
  have links: "links m_next ms c (c # ps)"
    using am2 by (simp add: arg_matchers_def s2 same s1)
  then obtain h where h: "ms c = Some h"
    by auto
  have wf': "blocks_wf ((bs @ [(c, sizeof_mmk_matcher)]) @ live s)"
    using wf2 wf fresh by (simp add: s1 s2)
  have "c \<notin> fst ` set bs"
    using blocks_wf_distinct [OF wf'] by auto
  then have "m_kind h = kind"
    using spec [OF key, of c] h by (simp add: m_key_def s1)
  show ?thesis
  proof (rule that [OF s1])
    show "s2 = s1'\<lparr>live := (bs @ [(c, sizeof_mmk_matcher)]) @ live s, matchers := ms\<rparr>"
      by (simp add: s2 s1)
    show "matcher_ctx s2 = c"
      by (simp add: s2 same s1)
    show "map (m_key ms) ps = sort_key fst (rev (map arg_key as))"
      using keys by (simp add: fold_insort_key)
    show "mset (map fst (bs @ [(c, sizeof_mmk_matcher)])) = mset (c # ps)"
      using blk by simp
    show "\<forall>p. p \<notin> set (c # ps) \<longrightarrow> ms p = matchers s p"
      using out by (simp add: s1)
  qed fact+
qed

text \<open>What a live block of bytes holds does not depend on the typed objects.\<close>

lemma installed_cong:
  "stubs s' stub = stubs s stub \<Longrightarrow> mem s' = mem s \<Longrightarrow> set (live s) \<subseteq> set (live s') \<Longrightarrow>
    installed E s stub fn ctx \<Longrightarrow> installed E s' stub fn ctx"
  by (auto simp: installed_def is_trampoline_def split: option.splits)

lemma mmk_stub_context_cong:
  "stubs s' stub = stubs s stub \<Longrightarrow> installed E s stub fn ctx \<Longrightarrow> mmk_stub_context s' stub = Inr ctx"
  using installed_context [of E s stub fn ctx] by (simp only: mmk_stub_context_def)

lemma logged_cong:
  assumes "logged bp fr s stub mk keys" and "stubs s' stub = stubs s stub" and "mem s' = mem s"
    and "set (live s) \<subseteq> set (live s')"
    and "mk_call_data mk' = mk_call_data mk" "mk_call_data_top mk' = mk_call_data_top mk"
      "mk_call_data_size mk' = mk_call_data_size mk"
    and "mk_call_data mk \<notin> dom (matchers s') \<union> dom (bindings s')"
  shows "logged bp fr s' stub mk' keys"
proof -
  have "call_log_ok (mem s') (live s') mk' n es" if "call_log_ok (mem s) (live s) mk n es" for n es
    using that assms(3-7) by (auto simp: call_log_ok_def log_in_block_def)
  moreover have "trampoline_of s' stub = trampoline_of s stub"
    using assms(2) by (simp add: trampoline_of_def)
  ultimately show ?thesis
    using assms(1,4,5,8) unfolding logged_def by (simp, blast)
qed


lemma new_blocks_apart:
  assumes "blocks_wf (bs @ live s)" and "mset (map fst bs) = mset ps" and "p \<in> insert NULL (fst ` set (live s))"
  shows "p \<notin> set ps"
proof -
  have "set ps = fst ` set bs"
    using arg_cong [OF assms(2), of set_mset] by simp
  then show ?thesis
    using assms(3) blocks_wf_distinct [OF assms(1)] blocks_wf_NULL [OF assms(1)] by auto
qed

lemma log_data_live: "logged bp fr s stub mk keys \<Longrightarrow> mk_call_data mk \<in> insert NULL (fst ` set (live s))"
  by (force simp: logged_def call_log_ok_def log_in_block_def split: if_splits)

text \<open>Adding a binding in front of those of a mock.\<close>

lemma contracted_Cons:
  assumes con: "contracted s p cs" and ml: "matchers_live s" and dom: "dom (bindings s) \<subseteq> fst ` set (live s)"
    and same: "\<And>q. q \<in> fst ` set (live s) \<Longrightarrow> matchers s' q = matchers s q"
    and b: "bindings s' = (bindings s)(bnd \<mapsto> b)" "bnd \<notin> fst ` set (live s)" "bnd \<noteq> NULL"
    and nx: "b_next b = p" and ps: "links m_next (matchers s') (b_matcher_ctx b) (b_matcher_ctx b # ps)"
  shows "contracted s' bnd ((map (m_key (matchers s')) ps, b_params b, b_result b) # cs)"
proof -
  obtain bps where l: "links b_next (bindings s) p bps" and cs: "list_all2 (contract_at s) bps cs"
    using con by (auto simp: contracted_def)
  have "bnd \<notin> set bps"
    using links_dom [OF l] dom b(2) by blast
  moreover from this have "list_all2 (contract_at s') bps cs"
    using b(1) by (intro contracts_at_cong [OF cs _ ml same]) auto
  moreover have "contract_at s' bnd (map (m_key (matchers s')) ps, b_params b, b_result b)"
    using ps b(1) by (auto simp: contract_at_def)
  ultimately show ?thesis
    using l nx b unfolding contracted_def by (intro exI [of _ "bnd # bps"]) simp
qed

text \<open>A call within an expression goes to the branch that the kind of the head selects.\<close>

lemma call_in_expression:
  assumes inst: "installed E s stub (bp_stub bp) mp" and ask: "ask_ctx s = 0"
    and c: "matcher_ctx s \<noteq> NULL" "matchers s (matcher_ctx s) = Some h"
  defines "s1 \<equiv> mmk_mock_report_call (s\<lparr>mmk_ctx_var := stub, ask_ctx := 0\<rparr>)"
  shows "m_kind h = 0 \<Longrightarrow> call_mock E P bp fr s (trampoline_of s stub) args =
      andthen (stub_when E bp s1 mp args) (\<lambda>s. Inr (0, s))"
    and "m_kind h = 1 \<Longrightarrow> call_mock E P bp fr s (trampoline_of s stub) args =
      andthen (stub_verify P bp s1 mp args) (\<lambda>s. Inr (0, s))"
proof -
  have sc: "mmk_stub_context (s\<lparr>mmk_ctx_var := stub, ask_ctx := 0\<rparr>) stub = Inr mp"
    by (rule mmk_stub_context_cong [OF _ inst]) simp
  show "m_kind h = 0 \<Longrightarrow> call_mock E P bp fr s (trampoline_of s stub) args =
      andthen (stub_when E bp s1 mp args) (\<lambda>s. Inr (0, s))"
    and "m_kind h = 1 \<Longrightarrow> call_mock E P bp fr s (trampoline_of s stub) args =
      andthen (stub_verify P bp s1 mp args) (\<lambda>s. Inr (0, s))"
    unfolding enter_mock [OF inst ask] using c sc
    by (simp_all add: mock_stub_def mmk_matcher_ctx_def mmk_mock_report_call_def mmk_ctx_def s1_def)
qed

lemma stub_when_Inr:
  assumes L: "libc_ok (c_lib E)" and mk: "mocks s mp = Some mk" and res: "cur_result s = Some res"
    and run: "stub_when E bp s mp args = Inr s'"
  obtains bnd where "fresh_block (live s) bnd (sizeof_binding bp)"
    and "s' = s\<lparr>live := (bnd, sizeof_binding bp) # live s,
      bindings := (bindings s)(bnd \<mapsto>
        \<lparr>b_matcher_ctx = matcher_ctx s, b_next = mk_params mk, b_result = res, b_params = args\<rparr>),
      mocks := (mocks s)(mp \<mapsto> mk\<lparr>mk_params := bnd\<rparr>)\<rparr>"
proof -
  from run res obtain bnd s1 where m: "mmk_malloc (c_lib E) s (sizeof_binding bp) = Inr (bnd, s1)" "bnd \<noteq> NULL"
    and r: "mmk_when_impl (s1\<lparr>bindings := (bindings s1)(bnd \<mapsto>
        \<lparr>b_matcher_ctx = NULL, b_next = NULL, b_result = res, b_params = args\<rparr>)\<rparr>) mp bnd = Inr s'"
    by (auto simp: stub_when_def ends mmk_when_get_result_def mmk_malloc_Inr_iff split: if_splits)
  show ?thesis
    using mmk_malloc_fresh [OF L m] r m mk
    by (intro that) (auto simp: mmk_malloc_Inr_iff mmk_when_impl_def mmk_matcher_ctx_def)
qed

text \<open>The contract that a \<open>mmk_when\<close> expression stands for.\<close>

definition contract_of :: "(cint \<times> cint \<times> addr) list \<Rightarrow> int list \<Rightarrow> mmk_result \<Rightarrow> contract" where
  "contract_of as args res = (sort_key fst (rev (map arg_key as)), args, res)"

lemma mock_inv_binding:
  assumes heap: "heap_ok s" and inst: "installed E s stub (bp_stub bp) mp" and log: "logged bp fr s stub mk keys"
    and hist: "map (decode_key (bp_params bp)) keys = hist" and con: "contracted s (mk_params mk) cs"
    and wf: "blocks_wf (live s')" and live: "set (live s) \<subseteq> set (live s')"
    and bnd: "bnd \<in> fst ` set (live s')" "bnd \<notin> insert NULL (fst ` set (live s))"
    and same: "\<And>p. p \<in> insert NULL (fst ` set (live s)) \<Longrightarrow> matchers s' p = matchers s p"
    and ml: "matchers_live s'" and rest: "at_rest s'"
    and eqs: "vit s' = vit s" "stubs s' = stubs s" "mem s' = mem s"
    and b: "bindings s' = (bindings s)(bnd \<mapsto> b)" "b_next b = mk_params mk"
    and mk': "mocks s' mp = Some (mk\<lparr>mk_params := bnd\<rparr>)"
    and ps: "links m_next (matchers s') (b_matcher_ctx b) (b_matcher_ctx b # ps)"
  shows "mock_inv E bp fr s' stub mp hist ((map (m_key (matchers s')) ps, b_params b, b_result b) # cs)"
proof -
  have dom: "dom (bindings s) \<subseteq> fst ` set (live s)" and ml0: "matchers_live s" and v: "vitals_ready (vit s)"
    using heap by (simp_all add: heap_ok_def)
  have "dom (bindings s') \<subseteq> fst ` set (live s')"
    using dom bnd(1) image_mono [OF live, of fst] b(1) by auto
  then have "heap_ok s'"
    using wf ml v eqs(1) by (simp add: heap_ok_def)
  moreover have "installed E s' stub (bp_stub bp) mp"
    using inst live eqs by (intro installed_cong [of s' stub s]) simp_all
  moreover have "logged bp fr s' stub (mk\<lparr>mk_params := bnd\<rparr>) keys"
  proof (rule logged_cong [OF log])
    show "mk_call_data mk \<notin> dom (matchers s') \<union> dom (bindings s')"
      using log same [OF log_data_live [OF log]] log_data_live [OF log] bnd(2) by (auto simp: logged_def b(1))
  qed (use eqs live in simp_all)
  moreover have "contracted s' bnd ((map (m_key (matchers s')) ps, b_params b, b_result b) # cs)"
    using contracted_Cons [OF con ml0 dom _ b(1) _ _ b(2) ps] same bnd(2) by blast
  ultimately show ?thesis
    using hist mk' rest unfolding mock_inv_def by auto
qed

text \<open>The state after \<open>mmk_when\<close>: the new matchers \<open>c # ps\<close> and the new binding \<open>bnd\<close>, which is the first of its mock.\<close>

lemma mmk_when_state:
  assumes set: "setting_ok E bp" and inv: "mock_inv E bp fr s stub mp hist cs"
    and run: "mmk_when E P bp fr s (trampoline_of s stub) as args res = Inr s'"
  obtains mk c ps bs ms bnd where "mocks s mp = Some mk"
    and "s' = s\<lparr>live := (bnd, sizeof_binding bp) # bs @ live s, matchers := ms, matcher_ctx := NULL,
      cur_result := Some res, mmk_ctx_var := stub, ask_ctx := 0, mock_called := 0,
      bindings := (bindings s)(bnd \<mapsto>
        \<lparr>b_matcher_ctx = c, b_next = mk_params mk, b_result = res, b_params = args\<rparr>),
      mocks := (mocks s)(mp \<mapsto> mk\<lparr>mk_params := bnd\<rparr>)\<rparr>"
    and "links m_next ms c (c # ps)" and "map (m_key ms) ps = sort_key fst (rev (map arg_key as))"
    and "blocks_wf ((bnd, sizeof_binding bp) # bs @ live s)" and "mset (map fst bs) = mset (c # ps)"
    and "\<forall>p. p \<notin> set (c # ps) \<longrightarrow> ms p = matchers s p" and "dom ms \<subseteq> fst ` set (bs @ live s)"
proof -
  obtain mk where heap: "heap_ok s" and rest: "at_rest s" and inst: "installed E s stub (bp_stub bp) mp"
    and mk: "mocks s mp = Some mk"
    using inv by (auto simp: mock_inv_def)
  have L: "libc_ok (c_lib E)"
    using set by (simp add: setting_ok_def)
  from run obtain s1 s2 where init: "mmk_matcher_init E s 0 = Inr s1"
    and ev: "eval_args E (mmk_when_init s1 res) as = Inr s2"
    and rest2: "andthen (call_mock E P bp fr s2 (trampoline_of s stub) args) (\<lambda>(_, s).
      andthen (mmk_mock_reset_call s) (\<lambda>s. Inr (mmk_matcher_term s))) = Inr s'"
    by (auto simp: mmk_when_def ends)
  have same: "live (mmk_when_init s1 res) = live s1" "matchers (mmk_when_init s1 res) = matchers s1"
    "matcher_ctx (mmk_when_init s1 res) = matcher_ctx s1"
    by (simp_all add: mmk_when_init_def)
  obtain c ps bs ms h ms1 where s1: "s1 = s\<lparr>live := (c, sizeof_mmk_matcher) # live s, matchers := ms1, matcher_ctx := c\<rparr>"
    and s2: "s2 = mmk_when_init s1 res\<lparr>live := bs @ live s, matchers := ms\<rparr>" and "matcher_ctx s2 = c"
    and links: "links m_next ms c (c # ps)" and ks: "map (m_key ms) ps = sort_key fst (rev (map arg_key as))"
    and wf: "blocks_wf (bs @ live s)" and new: "mset (map fst bs) = mset (c # ps)"
    and out: "\<forall>p. p \<notin> set (c # ps) \<longrightarrow> ms p = matchers s p" and h: "ms c = Some h" "m_kind h = 0"
    and ml: "matchers_live s2"
    by (rule expression_evaluated [OF L heap init same ev])
  have s2': "s2 = s\<lparr>live := bs @ live s, matchers := ms, matcher_ctx := c, cur_result := Some res\<rparr>"
    by (simp add: s2 s1 mmk_when_init_def)
  define s3 where "s3 = mmk_mock_report_call (s2\<lparr>mmk_ctx_var := stub, ask_ctx := 0\<rparr>)"
  have inst2: "installed E s2 stub (bp_stub bp) mp" and t2: "trampoline_of s2 stub = trampoline_of s stub"
    using inst by (auto simp: s2' trampoline_of_def intro: installed_cong)
  have call: "call_mock E P bp fr s2 (trampoline_of s stub) args =
      andthen (stub_when E bp s3 mp args) (\<lambda>s. Inr (0, s))"
    using call_in_expression(1) [OF inst2 _ _ _ h(2), of P fr args] rest h(1) links
    unfolding t2 s3_def [symmetric] by (simp add: s2' at_rest_def)
  from rest2 obtain s4 where w: "stub_when E bp s3 mp args = Inr s4"
    and e: "s' = s4\<lparr>mock_called := 0, matcher_ctx := NULL\<rparr>"
    unfolding call by (auto simp: ends mmk_matcher_term_def)
  have mk3: "mocks s3 mp = Some mk" and res3: "cur_result s3 = Some res"
    using mk by (simp_all add: s3_def s2' mmk_mock_report_call_def)
  obtain bnd where fresh: "fresh_block (live s3) bnd (sizeof_binding bp)"
    and s4: "s4 = s3\<lparr>live := (bnd, sizeof_binding bp) # live s3,
      bindings := (bindings s3)(bnd \<mapsto>
        \<lparr>b_matcher_ctx = matcher_ctx s3, b_next = mk_params mk, b_result = res, b_params = args\<rparr>),
      mocks := (mocks s3)(mp \<mapsto> mk\<lparr>mk_params := bnd\<rparr>)\<rparr>"
    by (rule stub_when_Inr [OF L mk3 res3 w])
  note s' = e s4 s3_def s2' mmk_mock_report_call_def
  show thesis
  proof (rule that [OF mk _ links ks _ new out])
    show "s' = s\<lparr>live := (bnd, sizeof_binding bp) # bs @ live s, matchers := ms, matcher_ctx := NULL,
      cur_result := Some res, mmk_ctx_var := stub, ask_ctx := 0, mock_called := 0,
      bindings := (bindings s)(bnd \<mapsto>
        \<lparr>b_matcher_ctx = c, b_next = mk_params mk, b_result = res, b_params = args\<rparr>),
      mocks := (mocks s)(mp \<mapsto> mk\<lparr>mk_params := bnd\<rparr>)\<rparr>"
      by (simp add: s')
    show "blocks_wf ((bnd, sizeof_binding bp) # bs @ live s)"
      using wf fresh by (simp add: s3_def s2' mmk_mock_report_call_def)
    show "dom ms \<subseteq> fst ` set (bs @ live s)"
      using ml by (simp add: matchers_live_def s2')
  qed
qed

lemma mmk_when_Inr:
  assumes set: "setting_ok E bp" and inv: "mock_inv E bp fr s stub mp hist cs"
    and run: "mmk_when E P bp fr s (trampoline_of s stub) as args res = Inr s'"
  shows "mock_inv E bp fr s' stub mp hist (contract_of as args res # cs)"
    and "mem s' = mem s" and "errno s' = errno s" and "stubs s' = stubs s"
    and "set (live s) \<subseteq> set (live s')"
proof -
  obtain mk keys where heap: "heap_ok s" and rest: "at_rest s" and inst: "installed E s stub (bp_stub bp) mp"
    and mk: "mocks s mp = Some mk" and log: "logged bp fr s stub mk keys"
    and hist: "map (decode_key (bp_params bp)) keys = hist" and con: "contracted s (mk_params mk) cs"
    using inv by (auto simp: mock_inv_def)
  obtain mk0 c ps bs ms bnd where mk0: "mocks s mp = Some mk0"
    and s': "s' = s\<lparr>live := (bnd, sizeof_binding bp) # bs @ live s, matchers := ms, matcher_ctx := NULL,
      cur_result := Some res, mmk_ctx_var := stub, ask_ctx := 0, mock_called := 0,
      bindings := (bindings s)(bnd \<mapsto>
        \<lparr>b_matcher_ctx = c, b_next = mk_params mk0, b_result = res, b_params = args\<rparr>),
      mocks := (mocks s)(mp \<mapsto> mk0\<lparr>mk_params := bnd\<rparr>)\<rparr>"
    and links: "links m_next ms c (c # ps)" and ks: "map (m_key ms) ps = sort_key fst (rev (map arg_key as))"
    and wf: "blocks_wf ((bnd, sizeof_binding bp) # bs @ live s)" and new: "mset (map fst bs) = mset (c # ps)"
    and out: "\<forall>p. p \<notin> set (c # ps) \<longrightarrow> ms p = matchers s p" and ml: "dom ms \<subseteq> fst ` set (bs @ live s)"
    by (rule mmk_when_state [OF set inv run])
  have [simp]: "mk0 = mk"
    using mk mk0 by simp
  show "mem s' = mem s" and "errno s' = errno s" and "stubs s' = stubs s" and "set (live s) \<subseteq> set (live s')"
    by (auto simp: s')
  have wf1: "blocks_wf (bs @ live s)" and fr: "fresh_block (bs @ live s) bnd (sizeof_binding bp)"
    using wf by simp_all
  have "mock_inv E bp fr s' stub mp hist ((map (m_key (matchers s')) ps, args, res) # cs)"
  proof (rule mock_inv_binding [OF heap inst log hist con, of s' bnd
        "\<lparr>b_matcher_ctx = c, b_next = mk_params mk, b_result = res, b_params = args\<rparr>" ps, simplified])
    show "matchers s' p = matchers s p" if "p = NULL \<or> p \<in> fst ` set (live s)" for p
      using out new_blocks_apart [OF wf1 new] that by (simp add: s')
  qed (use fr fresh_block_notin [OF fr] wf ml links in
      \<open>auto simp: s' matchers_live_def at_rest_def fresh_block_def\<close>)
  then show "mock_inv E bp fr s' stub mp hist (contract_of as args res # cs)"
    using ks by (simp add: contract_of_def s')
qed

text \<open>Freeing the matchers of an expression.\<close>

lemma free_matchers_chain:
  "links m_next (matchers s) p ps \<Longrightarrow> set ps \<subseteq> fst ` set (live s) \<Longrightarrow> fp_free (vit s) \<noteq> NULL \<Longrightarrow>
    free_matchers s p = Some (Inr (s\<lparr>live := filter (\<lambda>b. fst b \<notin> set ps) (live s),
      matchers := (\<lambda>q. if q \<in> set ps then None else matchers s q)\<rparr>))"
proof (induction ps arbitrary: s p)
  case Nil
  then show ?case
    by (simp add: free_matchers.simps)
next
  case (Cons q ps)
  then obtain n where n: "p = q" "q \<noteq> NULL" "matchers s q = Some n" "links m_next (matchers s) (m_next n) ps"
    by auto
  let ?s = "s\<lparr>live := unblock q (live s), matchers := (matchers s)(q := None)\<rparr>"
  have q: "q \<notin> set ps"
    using links_head_fresh [OF Cons.prems(1)] .
  have "free_matchers ?s (m_next n) = Some (Inr (?s\<lparr>live := filter (\<lambda>b. fst b \<notin> set ps) (live ?s),
      matchers := (\<lambda>r. if r \<in> set ps then None else matchers ?s r)\<rparr>))"
  proof (rule Cons.IH)
    show "links m_next (matchers ?s) (m_next n) ps"
      using n(4) q by simp
    have "r \<in> fst ` set (unblock q (live s))" if "r \<in> set ps" for r
      using that q Cons.prems(2) by (force simp: unblock_def)
    then show "set ps \<subseteq> fst ` set (live ?s)"
      by auto
  qed (use Cons.prems in simp)
  moreover have "mmk_free s q = Inr (s\<lparr>live := unblock q (live s)\<rparr>)"
    using Cons.prems n by (simp add: mmk_free_def)
  moreover have "(\<lambda>r. if r \<in> set ps then None else if r = q then None else matchers s r) =
      (\<lambda>r. if r = q \<or> r \<in> set ps then None else matchers s r)"
    by auto
  ultimately show ?case
    using n by (subst free_matchers.simps) (simp add: unblock_def conj_commute fun_upd_def cong: conj_cong if_cong)
qed


lemma log_entries:
  assumes log: "logged bp fr s stub mk keys" and wf: "blocks_wf (live s)"
  shows "\<exists>a. log_at (mem s) mk a (fold bump keys []) \<and> mmk_mock_params_begin mk = first_params a (fold bump keys [])"
    and "\<forall>k \<in> keys_of (fold bump keys []). length k = sizeof_params (bp_params bp) - 8"
proof -
  have ok: "call_log_ok (mem s) (live s) mk (sizeof_params (bp_params bp) - 8) (fold bump keys [])"
    using log by (simp add: logged_def)
  then show "\<forall>k \<in> keys_of (fold bump keys []). length k = sizeof_params (bp_params bp) - 8"
    by (auto simp: call_log_ok_def log_in_block_def keys_of_def split: if_splits)
  show "\<exists>a. log_at (mem s) mk a (fold bump keys []) \<and> mmk_mock_params_begin mk = first_params a (fold bump keys [])"
  proof (cases "mk_call_data mk = NULL")
    case True
    with ok have "log_at (mem s) mk 0 (fold bump keys [])" and "mmk_mock_params_begin mk = first_params 0 (fold bump keys [])"
      by (simp_all add: call_log_ok_def log_at_def mmk_mock_params_begin_def first_params_def)
    then show ?thesis
      by blast
  next
    case False
    then show ?thesis
      using ok log_in_block_at [OF wf] unfolding call_log_ok_def by meson
  qed
qed

definition count_of :: "(addr \<Rightarrow> int \<Rightarrow> cint) \<Rightarrow> (cint \<times> cint \<times> addr) list \<Rightarrow> int list \<Rightarrow> int list list \<Rightarrow> nat" where
  "count_of pr as args hist = length (filter (accepts pr (sort_key fst (rev (map arg_key as))) args) hist)"

text \<open>The count that the stub finds is that of the accepted calls in the history.\<close>

lemma stub_verify_Inr:
  assumes set: "setting_ok E bp" and log: "logged bp fr s stub mk keys" and wf: "blocks_wf (live s)"
    and sz: "sizeof_params (bp_params bp) < 2 ^ 64" and mk: "mocks s mp = Some mk"
    and links: "links m_next (matchers s) (matcher_ctx s) (matcher_ctx s # ps)"
    and ml: "matchers_live s" and free: "fp_free (vit s) \<noteq> NULL"
  shows "stub_verify P bp s mp args = Inr (s\<lparr>live := filter (\<lambda>b. fst b \<notin> set (matcher_ctx s # ps)) (live s),
    matchers := (\<lambda>q. if q \<in> set (matcher_ctx s # ps) then None else matchers s q),
    times_var := of_nat (length (filter (accepts (predicate P) (map (m_key (matchers s)) ps) args)
      (map (decode_key (bp_params bp)) keys)))\<rparr>)"
proof -
  let ?tys = "bp_params bp" and ?mc = "matcher_ctx s" and ?es = "fold bump keys []"
  have ok: "list_all ctype_ok ?tys"
    using set by (simp add: setting_ok_def)
  obtain a where a: "log_at (mem s) mk a ?es" "mmk_mock_params_begin mk = first_params a ?es"
    using log_entries(1) [OF log wf] by blast
  define pr where "pr = (\<lambda>k. accepts_all (linorder_operators (predicate P)) (map (the \<circ> matchers s) ps) (zip (decode_key ?tys k) args))"
  have "verify_loop (matchers s) (linorder_operators (predicate P)) ?mc (mem s) mk ?tys args (first_params a ?es) 0 =
      Some (Inr (0 + count_calls pr ?es))"
    unfolding pr_def by (rule verify_loop_counts [OF ok links sz a(1) log_entries(2) [OF log wf]])
  moreover have "pr = accepts (predicate P) (map (m_key (matchers s)) ps) args \<circ> decode_key ?tys"
    unfolding pr_def using accepts_chain [OF links] by auto
  then have "count_calls pr ?es = of_nat (length (filter (accepts (predicate P) (map (m_key (matchers s)) ps) args)
      (map (decode_key ?tys) keys)))"
    unfolding entry_log.count_history by (simp add: filter_map comp_def)
  moreover have "free_matchers s ?mc = Some (Inr (s\<lparr>live := filter (\<lambda>b. fst b \<notin> set (?mc # ps)) (live s),
      matchers := (\<lambda>q. if q \<in> set (?mc # ps) then None else matchers s q)\<rparr>))"
    by (rule free_matchers_chain [OF links links_matchers_live [OF links ml] free])
  ultimately show ?thesis
    using mk a(2) by (simp add: stub_verify_def mmk_matcher_ctx_def mmk_verify_set_times_def)
qed


lemma new_blocks_removed:
  assumes wf: "blocks_wf (bs @ live s)" and new: "mset (map fst bs) = mset ps"
  shows "filter (\<lambda>b. fst b \<notin> set ps) (bs @ live s) = live s"
proof -
  have "set ps = fst ` set bs"
    using arg_cong [OF new, of set_mset] by simp
  then have "filter (\<lambda>b. fst b \<notin> set ps) bs = []"
    by (auto simp: filter_empty_conv)
  moreover have "filter (\<lambda>b. fst b \<notin> set ps) (live s) = live s"
    using new_blocks_apart [OF wf new] by (intro filter_True) blast
  ultimately show ?thesis
    by simp
qed

lemma mock_inv_verified:
  "mock_inv E bp fr s stub mp hist cs \<Longrightarrow>
    mock_inv E bp fr (s\<lparr>mmk_ctx_var := x, times_var := t\<rparr>) stub mp hist cs"
  by (simp add: mock_inv_def heap_ok_def at_rest_def installed_def is_trampoline_def logged_def
      trampoline_of_def matchers_live_def contracted_def contract_at_def [abs_def] cong: option.case_cong)

lemma at_rest_update:
  "at_rest s \<Longrightarrow> s\<lparr>mmk_ctx_var := x, ask_ctx := 0, times_var := t, matcher_ctx := NULL, mock_called := 0\<rparr> =
    s\<lparr>mmk_ctx_var := x, times_var := t\<rparr>"
  by (cases s) (simp add: at_rest_def)

text \<open>The call of a verification: the matchers of the expression are gone, and the count is stored.\<close>

lemma verify_called:
  assumes set: "setting_ok E bp" and inv: "mock_inv E bp fr s stub mp hist cs"
    and sz: "sizeof_params (bp_params bp) < 2 ^ 64"
    and init: "mmk_matcher_init E s 1 = Inr s1" and ev: "eval_args E s1 as = Inr s2"
  shows "call_mock E P bp fr s2 (trampoline_of s stub) args =
    Inr (0, s\<lparr>matcher_ctx := matcher_ctx s2, mmk_ctx_var := stub, ask_ctx := 0, mock_called := mock_called s + 1,
      times_var := of_nat (count_of (predicate P) as args hist)\<rparr>)"
proof -
  obtain mk keys where heap: "heap_ok s" and rest: "at_rest s" and inst: "installed E s stub (bp_stub bp) mp"
    and mk: "mocks s mp = Some mk" and log: "logged bp fr s stub mk keys"
    and hist: "map (decode_key (bp_params bp)) keys = hist"
    using inv by (auto simp: mock_inv_def)
  have L: "libc_ok (c_lib E)"
    using set by (simp add: setting_ok_def)
  obtain c ps bs ms h ms1 where s1: "s1 = s\<lparr>live := (c, sizeof_mmk_matcher) # live s, matchers := ms1, matcher_ctx := c\<rparr>"
    and s2: "s2 = s1\<lparr>live := bs @ live s, matchers := ms\<rparr>" and mc: "matcher_ctx s2 = c"
    and links: "links m_next ms c (c # ps)" and ks: "map (m_key ms) ps = sort_key fst (rev (map arg_key as))"
    and wf: "blocks_wf (bs @ live s)" and new: "mset (map fst bs) = mset (c # ps)"
    and out: "\<forall>p. p \<notin> set (c # ps) \<longrightarrow> ms p = matchers s p" and h: "ms c = Some h" "m_kind h = 1"
    and ml: "matchers_live s2"
    by (rule expression_evaluated [OF L heap init refl refl refl ev])
  have s2': "s2 = s\<lparr>live := bs @ live s, matchers := ms, matcher_ctx := c\<rparr>"
    by (simp add: s2 s1)
  define s3 where "s3 = mmk_mock_report_call (s2\<lparr>mmk_ctx_var := stub, ask_ctx := 0\<rparr>)"
  note s3 = s3_def s2' mmk_mock_report_call_def
  have inst2: "installed E s2 stub (bp_stub bp) mp" and t2: "trampoline_of s2 stub = trampoline_of s stub"
    using inst by (auto simp: s2' trampoline_of_def intro: installed_cong)
  have call: "call_mock E P bp fr s2 (trampoline_of s stub) args =
      andthen (stub_verify P bp s3 mp args) (\<lambda>s. Inr (0, s))"
    using call_in_expression(2) [OF inst2 _ _ _ h(2), of P fr args] rest h(1) links
    unfolding t2 s3_def [symmetric] by (simp add: s2' at_rest_def)
  have log3: "logged bp fr s3 stub mk keys"
  proof (rule logged_cong [OF log])
    show "mk_call_data mk \<notin> dom (matchers s3) \<union> dom (bindings s3)"
      using log out new_blocks_apart [OF wf new log_data_live [OF log]] by (auto simp: logged_def s3)
  qed (simp_all add: s3)
  have "stub_verify P bp s3 mp args = Inr (s3\<lparr>live := filter (\<lambda>b. fst b \<notin> set (matcher_ctx s3 # ps)) (live s3),
    matchers := (\<lambda>q. if q \<in> set (matcher_ctx s3 # ps) then None else matchers s3 q),
    times_var := of_nat (length (filter (accepts (predicate P) (map (m_key (matchers s3)) ps) args)
      (map (decode_key (bp_params bp)) keys)))\<rparr>)"
    using heap links mk wf ml by (intro stub_verify_Inr [OF set log3 _ sz])
      (simp_all add: s3 heap_ok_def vitals_ready_def matchers_live_def)
  moreover have "(\<lambda>q. if q \<in> set (c # ps) then None else ms q) = matchers s"
  proof
    fix q
    have "matchers s q = None" if "q \<in> set (c # ps)"
      using that new_blocks_apart [OF wf new, of q] heap by (auto simp: heap_ok_def matchers_live_def)
    then show "(if q \<in> set (c # ps) then None else ms q) = matchers s q"
      using out by simp
  qed
  ultimately show ?thesis
    using new_blocks_removed [OF wf new] unfolding call mc by (simp add: s3 ks hist count_of_def cong: if_cong)
qed

text \<open>A verification leaves the state as it was, apart from two variables.\<close>

lemma mmk_verify_Inr:
  assumes set: "setting_ok E bp" and inv: "mock_inv E bp fr s stub mp hist cs"
    and sz: "sizeof_params (bp_params bp) < 2 ^ 64"
    and run: "mmk_verify E P bp fr s (trampoline_of s stub) as args params = Inr (v, s')"
  shows "s' = s\<lparr>mmk_ctx_var := stub, times_var := of_nat (count_of (predicate P) as args hist)\<rparr>"
    and "v = mmk_verify_times (matching_fn P) s' params"
    and "mock_inv E bp fr s' stub mp hist cs"
proof -
  have rest: "at_rest s"
    using inv by (simp add: mock_inv_def)
  from run obtain s1 s2 r s4 where init: "mmk_matcher_init E s 1 = Inr s1" and ev: "eval_args E s1 as = Inr s2"
    and c4: "call_mock E P bp fr s2 (trampoline_of s stub) args = Inr (r, s4)"
    and fin: "s' = s4\<lparr>matcher_ctx := NULL, mock_called := 0\<rparr>" and v: "v = mmk_verify_times (matching_fn P) s' params"
    by (auto simp: mmk_verify_def ends mmk_matcher_term_def)
  have s4: "s4 = s\<lparr>matcher_ctx := matcher_ctx s2, mmk_ctx_var := stub, ask_ctx := 0, mock_called := mock_called s + 1,
      times_var := of_nat (count_of (predicate P) as args hist)\<rparr>"
    using c4 unfolding verify_called [OF set inv sz init ev] by simp
  show s': "s' = s\<lparr>mmk_ctx_var := stub, times_var := of_nat (count_of (predicate P) as args hist)\<rparr>"
    unfolding fin s4 using at_rest_update [OF rest] by simp
  show "v = mmk_verify_times (matching_fn P) s' params"
    by (rule v)
  show "mock_inv E bp fr s' stub mp hist cs"
    unfolding s' by (rule mock_inv_verified [OF inv])
qed

end
