(* ===== verification/Mock_Session.thy ===== *)
theory Mock_Session
  imports Mock_Refinement
begin

text \<open>
  Mocks from their creation on: the invariant is established by \<open>mmk_mock_create\<close>, kept by every event of a test,
  and each event gives the value that the specification says. Also when the operations return at all.
\<close>

section \<open>Creating a mock\<close>

lemma mmk_init_fields:
  assumes "mmk_init E s = Inr (s' :: 'a mock_state_scheme)"
  shows "matchers s' = matchers s" "bindings s' = bindings s" "matcher_ctx s' = matcher_ctx s"
    "mock_called s' = mock_called s" "stubs s' = stubs s"
  using assms by (auto elim!: mmk_init_Inr)

text \<open>\<open>mmk_stub_create\<close> changes none of the fields that this theory adds.\<close>

lemma mmk_stub_create_fields:
  assumes L: "libc_ok (c_lib E)" and wf: "core_wf E s" and run: "mmk_stub_create E s target fn ctx = Inr (stub, s')"
    and init: "mmk_init E s = Inr (s :: 'a mock_state_scheme)"
  shows "matchers s' = matchers s" "bindings s' = bindings s" "matcher_ctx s' = matcher_ctx s"
    "mock_called s' = mock_called s" "mocks s' = mocks s" "vit s' = vit s" "live s' = live s \<or> (\<exists>bs. live s' = bs @ live s)"
    "initialized s' = initialized s" "plt s' = plt s"
  using L wf run
  by (cases rule: mmk_stub_create_Inr; use init in \<open>auto simp: stubbed_state_def Let_def\<close>)+

lemma mmk_stub_create_blocks:
  assumes L: "libc_ok (c_lib E)" and wf: "core_wf E s" and run: "mmk_stub_create E s target fn ctx = Inr (stub, s')"
    and stub: "stub \<noteq> NULL"
  shows "\<exists>op m np n. live s' = (trampoline_of s' stub - 16, PAGE_SIZE) # (op, m) # (np, n) # (stub, sizeof_mmk_stub) # live s"
  using L wf run
proof (cases rule: mmk_stub_create_Inr)
  case (created s1 np op t as pr)
  then show ?thesis
    by (simp add: stubbed_state_def Let_def trampoline_of_def)
qed (use stub in simp)

definition quiet :: "blueprint \<Rightarrow> frame \<Rightarrow> 'a mock_state_scheme \<Rightarrow> bool" where
  "quiet bp fr s \<longleftrightarrow> matcher_ctx s = NULL \<and> mock_called s = 0 \<and> matchers_live s \<and>
     dom (bindings s) \<subseteq> fst ` set (live s) \<and>
     (\<exists>(q, k) \<in> set (live s). within q k (fr_params fr) (sizeof_params (bp_params bp)))"


definition self_target :: "string \<Rightarrow> bool" where
  "self_target target \<longleftrightarrow>
     (case mmk_strchr target (CHR ''@'') of None \<Rightarrow> True | Some e \<Rightarrow> mmk_strneq (tl e) ''self'' 4)"

lemma mock_create_steps:
  assumes run: "mmk_mock_create_internal E s target fn noabort = Inr (t, s')" and t: "t \<noteq> NULL"
    and self: "self_target target"
  obtains s1 mp s2 np s3 stub s4 mk st where "mmk_init E s = Inr s1"
    and "mmk_malloc (c_lib E) s1 sizeof_mmk_mock_ctx = Inr (mp, s2)" and "mp \<noteq> NULL"
    and "mmk_malloc (c_lib E) (s2\<lparr>mocks := (mocks s2)(mp \<mapsto> \<lparr>mk_params = NULL, mk_stubs = NULL, mk_call_data = NULL,
        mk_call_data_top = 0, mk_call_data_size = 0\<rparr>)\<rparr>)
      (of_nat ((case mmk_strchr target (CHR ''@'') of None \<Rightarrow> mmk_strlen target | Some e \<Rightarrow> length target - length e) + 1)) =
      Inr (np, s3)" and "np \<noteq> NULL"
    and "mmk_stub_create E s3 target fn mp = Inr (stub, s4)" and "stub \<noteq> NULL"
    and "mocks s4 mp = Some mk" and "mmk_free (s4\<lparr>mocks := (mocks s4)(mp \<mapsto> mk\<lparr>mk_stubs := stub\<rparr>)\<rparr>) np = Inr s'"
    and "stubs s' stub = Some st" and "t = stub_trampoline st"
  using run t self
  by (auto simp: mmk_mock_create_internal_def mock_fails_def self_target_def free_mock_ctx_def ends Let_def
      split: if_splits option.splits)


text \<open>The mock when its stub has been made, and the copy of the name has not been freed yet.\<close>

lemma mock_with_stub:
  assumes set: "setting_ok E bp" and wf: "core_wf E s" and quiet: "quiet bp fr s"
    and init: "mmk_init E s = Inr s1" and slots: "target_slots s1 target = Some as" "slots_ok (live s) as"
    and mp: "mmk_malloc (c_lib E) s1 sizeof_mmk_mock_ctx = Inr (mp, s2)" "mp \<noteq> NULL"
    and np: "mmk_malloc (c_lib E) (s2\<lparr>mocks := (mocks s2)(mp \<mapsto> \<lparr>mk_params = NULL, mk_stubs = NULL,
        mk_call_data = NULL, mk_call_data_top = 0, mk_call_data_size = 0\<rparr>)\<rparr>) n = Inr (np, s3)" "np \<noteq> NULL"
    and sc: "mmk_stub_create E s3 target (bp_stub bp) mp = Inr (stub, s4)" "stub \<noteq> NULL"
    and mk: "mocks s4 mp = Some mk"
    and s5: "s5 = s4\<lparr>mocks := (mocks s4)(mp \<mapsto> mk\<lparr>mk_stubs := stub\<rparr>)\<rparr>"
  obtains bs where "live s5 = ((trampoline_of s5 stub - 16, PAGE_SIZE) # bs) @ (np, n) # (mp, sizeof_mmk_mock_ctx) # live s"
    and "stub \<in> fst ` set bs" and "mock_inv E bp fr s5 stub mp [] []" and "core_wf E s5" and "mmk_init E s5 = Inr s5"
    and "as \<noteq> []" and "\<forall>a \<in> set as. ld64 (mem s5) a = trampoline_of s5 stub"
    and "mocks s5 mp = Some \<lparr>mk_params = NULL, mk_stubs = stub, mk_call_data = NULL, mk_call_data_top = 0,
        mk_call_data_size = 0\<rparr>"
    and "matchers s5 = matchers s" and "bindings s5 = bindings s" and "plt s5 = plt s1"
    and "\<forall>(q, k) \<in> set (live s). \<forall>x. in_region q (unat k) x \<longrightarrow> (\<forall>a \<in> set as. \<not> in_region a 8 x) \<longrightarrow> mem s5 x = mem s x"
proof -
  have L: "libc_ok (c_lib E)" and code: "length (trampoline_code E) + 16 \<le> unat PAGE_SIZE"
    using set by (simp_all add: setting_ok_def)
  have keep1: "mem s1 = mem s" "live s1 = live s" and f1: "matchers s1 = matchers s" "bindings s1 = bindings s"
      "matcher_ctx s1 = matcher_ctx s" "mock_called s1 = mock_called s"
    using mmk_init_keeps [OF init] mmk_init_fields [OF init] by simp_all
  let ?mk0 = "\<lparr>mk_params = NULL, mk_stubs = NULL, mk_call_data = NULL, mk_call_data_top = 0, mk_call_data_size = 0\<rparr>"
  have s3: "s3 = s1\<lparr>live := (np, n) # (mp, sizeof_mmk_mock_ctx) # live s, mocks := (mocks s1)(mp \<mapsto> ?mk0)\<rparr>"
    using mp np by (auto simp: mmk_malloc_Inr_iff keep1)
  have fresh: "fresh_block (live s) mp sizeof_mmk_mock_ctx" "fresh_block ((mp, sizeof_mmk_mock_ctx) # live s) np n"
    using mmk_malloc_fresh [OF L mp] mmk_malloc_fresh [OF L np] mp by (simp_all add: keep1 mmk_malloc_Inr_iff)
  have wf1: "core_wf E s1" and ini: "initialized s1 \<noteq> 0" and rdy: "vitals_ready (vit s1)"
    using mmk_init_wf [OF wf init] mmk_init_initialized [OF init] mmk_init_ready [OF wf init] by auto
  have wf3: "core_wf E s3" and init3: "mmk_init E s3 = Inr s3"
    using wf1 ini fresh wf by (simp_all add: core_wf_def s3 mmk_init_def)
  have sl3: "target_slots s3 target = Some as" "slots_ok (live s3) as"
    using slots(1) slots_ok_Cons [OF slots_ok_Cons [OF slots(2)]]
    by (simp_all add: s3 target_slots_def cong: option.case_cong sum.case_cong)
  note c = mmk_stub_create_installs [OF L wf3 code init3 sl3 sc]
  note f4 = mmk_stub_create_fields [OF L wf3 sc(1) init3]
  have mk0: "mk = ?mk0"
    using mk f4(5) by (simp add: s3)
  obtain op m nm k where "live s4 = (trampoline_of s4 stub - 16, PAGE_SIZE) # (op, m) # (nm, k) # (stub, sizeof_mmk_stub) # live s3"
    using mmk_stub_create_blocks [OF L wf3 sc] by blast
  then obtain bs where live: "live s5 = ((trampoline_of s5 stub - 16, PAGE_SIZE) # bs) @ (np, n) # (mp, sizeof_mmk_mock_ctx) # live s"
    and sb: "stub \<in> fst ` set bs"
    by (intro that [of "[(op, m), (nm, k), (stub, sizeof_mmk_stub)]"]) (simp_all add: s3 s5 trampoline_of_def)
  have wf5: "blocks_wf (live s5)"
    using c(5) by (simp add: s5)
  have tr: "trampoline_of s4 stub = trampoline_of s5 stub"
    by (simp add: trampoline_of_def s5)
  have heap: "heap_ok s5"
    using wf5 live rdy quiet by (auto simp: heap_ok_def s5 f4 s3 f1 quiet_def matchers_live_def)
  have "at_rest s5"
    using quiet c(4) by (simp add: at_rest_def s5 f4 s3 f1 quiet_def)
  moreover have "installed E s5 stub (bp_stub bp) mp"
    using c(1) by (auto simp: installed_def is_trampoline_def s5 trampoline_of_def split: option.splits)
  moreover have "logged bp fr s5 stub (mk\<lparr>mk_stubs := stub\<rparr>) []"
  proof -
    have nn: "NULL \<notin> fst ` set (live s5)"
      by (rule blocks_wf_NULL [OF wf5])
    then have "NULL \<notin> dom (matchers s5) \<union> dom (bindings s5)" and "trampoline_of s5 stub - 16 \<noteq> NULL"
      using heap by (auto simp: heap_ok_def matchers_live_def live)
    moreover obtain q k where q: "(q, k) \<in> set (live s)" "within q k (fr_params fr) (sizeof_params (bp_params bp))"
      using quiet by (auto simp: quiet_def)
    moreover have "(q, k) \<in> set (live s5)"
      using q(1) by (simp add: live)
    moreover from this nn have "q \<noteq> NULL"
      by force
    moreover have "q \<noteq> trampoline_of s5 stub - 16"
    proof -
      have "q \<in> fst ` set (live s)"
        using q(1) by (metis fst_conv image_eqI)
      moreover have "trampoline_of s5 stub - 16 \<notin> fst ` set (live s)"
        using blocks_wf_distinct [OF wf5] by (simp add: live)
      ultimately show ?thesis
        by blast
    qed
    ultimately show ?thesis
      by (auto simp: logged_def call_log_ok_def mk0)
  qed
  moreover have "contracted s5 NULL []"
    by (simp add: contracted_def)
  ultimately have inv: "mock_inv E bp fr s5 stub mp [] []"
    using heap by (auto simp: mock_inv_def s5 mk0)
  have core: "core_wf E s5" and init5: "mmk_init E s5 = Inr s5" and plt: "plt s5 = plt s1"
    using wf1 ini wf5 f4(6,8,9) mmk_init_ready [OF wf init] by (simp_all add: core_wf_def s5 s3 mmk_init_def)
  have mem: "\<forall>(q, k) \<in> set (live s). \<forall>x. in_region q (unat k) x \<longrightarrow> (\<forall>a \<in> set as. \<not> in_region a 8 x) \<longrightarrow> mem s5 x = mem s x"
    using c(8) by (auto simp: s5 s3 keep1)
  show thesis
    by (rule that [OF live sb inv core init5 c(2) _ _ _ _ plt mem]) (use c(3) in \<open>simp_all add: s5 tr mk0 f4 s3 f1\<close>)
qed

text \<open>The frame, the objects from before and the copy of the name are apart from each other and from the trampoline.\<close>

lemma name_apart:
  assumes wf: "blocks_wf (((page, sz) # bs) @ (np, n) # (mp, m) # live s)" and quiet: "quiet bp fr s"
    and same: "matchers s' = matchers s" "bindings s' = bindings s"
  shows "np \<notin> dom (matchers s') \<union> dom (bindings s')" and "np \<noteq> page"
    and "(\<And>q k. (q, k) \<in> set (live s) \<Longrightarrow> within q k (fr_params fr) (sizeof_params (bp_params bp)) \<Longrightarrow>
      q \<noteq> page \<Longrightarrow> q \<noteq> NULL \<Longrightarrow> thesis) \<Longrightarrow> thesis"
proof -
  have d: "distinct (map fst (((page, sz) # bs) @ (np, n) # (mp, m) # live s))"
    and nn: "NULL \<notin> fst ` set (((page, sz) # bs) @ (np, n) # (mp, m) # live s)"
    using blocks_wf_distinct [OF wf] blocks_wf_NULL [OF wf] by blast+
  show "np \<notin> dom (matchers s') \<union> dom (bindings s')"
    using d quiet unfolding same quiet_def matchers_live_def by auto
  show "np \<noteq> page"
    using d by auto
  obtain q k where q: "(q, k) \<in> set (live s)" "within q k (fr_params fr) (sizeof_params (bp_params bp))"
    using quiet by (auto simp: quiet_def)
  moreover have "q \<in> fst ` set (live s)"
    using q(1) by (metis fst_conv image_eqI)
  then have "q \<noteq> page" and "q \<noteq> NULL"
    using d nn by auto
  ultimately show thesis
    if "\<And>q k. (q, k) \<in> set (live s) \<Longrightarrow> within q k (fr_params fr) (sizeof_params (bp_params bp)) \<Longrightarrow> q \<noteq> page \<Longrightarrow> q \<noteq> NULL \<Longrightarrow> thesis"
    using that by blast
qed

lemma mock_create_establishes:
  assumes set: "setting_ok E bp" and wf: "core_wf E s" and quiet: "quiet bp fr s"
    and init: "mmk_init E s = Inr s1" and slots: "target_slots s1 target = Some as" "slots_ok (live s) as"
    and self: "self_target target"
    and run: "mmk_mock_create_internal E s target (bp_stub bp) noabort = Inr (t, s')" and t: "t \<noteq> NULL"
  shows "\<exists>stub mp. trampoline_of s' stub = t \<and> mock_inv E bp fr s' stub mp [] []"
    and "as \<noteq> []" and "\<forall>a \<in> set as. ld64 (mem s') a = t"
proof -
  obtain mp s2 np n s3 stub s4 mk st where mp: "mmk_malloc (c_lib E) s1 sizeof_mmk_mock_ctx = Inr (mp, s2)" "mp \<noteq> NULL"
    and np: "mmk_malloc (c_lib E) (s2\<lparr>mocks := (mocks s2)(mp \<mapsto> \<lparr>mk_params = NULL, mk_stubs = NULL,
        mk_call_data = NULL, mk_call_data_top = 0, mk_call_data_size = 0\<rparr>)\<rparr>) n = Inr (np, s3)" "np \<noteq> NULL"
    and sc: "mmk_stub_create E s3 target (bp_stub bp) mp = Inr (stub, s4)" "stub \<noteq> NULL"
    and mk: "mocks s4 mp = Some mk"
    and fin: "mmk_free (s4\<lparr>mocks := (mocks s4)(mp \<mapsto> mk\<lparr>mk_stubs := stub\<rparr>)\<rparr>) np = Inr s'"
    and st: "stubs s' stub = Some st" "t = stub_trampoline st"
    by (rule mock_create_steps [OF run t self]) (use init in auto)
  define s5 where "s5 = s4\<lparr>mocks := (mocks s4)(mp \<mapsto> mk\<lparr>mk_stubs := stub\<rparr>)\<rparr>"
  obtain bs where live: "live s5 = ((trampoline_of s5 stub - 16, PAGE_SIZE) # bs) @ (np, n) # (mp, sizeof_mmk_mock_ctx) # live s"
    and inv: "mock_inv E bp fr s5 stub mp [] []" and "as \<noteq> []" and slot: "\<forall>a \<in> set as. ld64 (mem s5) a = trampoline_of s5 stub"
    and mk5: "mocks s5 mp = Some \<lparr>mk_params = NULL, mk_stubs = stub, mk_call_data = NULL, mk_call_data_top = 0,
        mk_call_data_size = 0\<rparr>" and same: "matchers s5 = matchers s" "bindings s5 = bindings s"
    by (rule mock_with_stub [OF set wf quiet init slots mp np sc mk s5_def])
  have wf5: "blocks_wf (live s5)" and vit: "fp_free (vit s5) \<noteq> NULL"
    using inv by (simp_all add: mock_inv_def heap_ok_def vitals_ready_def)
  have s': "s' = s5\<lparr>live := ((trampoline_of s5 stub - 16, PAGE_SIZE) # bs) @ (mp, sizeof_mmk_mock_ctx) # live s\<rparr>"
    using fin mmk_free_block [OF vit live wf5] by (simp add: s5_def)
  have tr: "trampoline_of s5 stub = t" "trampoline_of s' stub = t"
    using st by (simp_all add: trampoline_of_def s')
  show "as \<noteq> []" and "\<forall>a \<in> set as. ld64 (mem s') a = t"
    using \<open>as \<noteq> []\<close> slot by (simp_all add: s' tr)
  note apart = name_apart [OF wf5 [unfolded live] quiet same]
  obtain q k where "(q, k) \<in> set (live s)" "within q k (fr_params fr) (sizeof_params (bp_params bp))"
    and "q \<noteq> trampoline_of s5 stub - 16" "q \<noteq> NULL"
    by (rule apart(3))
  then have "mock_inv E bp fr s' stub mp [] []"
    unfolding s' using set apart(1,2) np(2)
    by (intro mock_inv_freed [OF inv mk5 _ live]) (simp_all add: setting_ok_def)
  with tr show "\<exists>stub mp. trampoline_of s' stub = t \<and> mock_inv E bp fr s' stub mp [] []"
    by blast
qed

section \<open>A session of a test\<close>

text \<open>
  What a test does with a mock, one event after the other. The specification of a mock is a function of these events: its
  history are the calls, in order, and its contracts the behaviours, the last one first.
\<close>

datatype event =
    Sets_up "(cint \<times> cint \<times> addr) list" "int list" mmk_result
  | Calls "int list"
  | Checks "(cint \<times> cint \<times> addr) list" "int list" mmk_verify_params

fun perform ::
  "env \<Rightarrow> 'a mock_state_scheme program \<Rightarrow> blueprint \<Rightarrow> frame \<Rightarrow> 'a mock_state_scheme \<Rightarrow> addr \<Rightarrow> event \<Rightarrow>
    fault + int \<times> 'a mock_state_scheme" where
  "perform E P bp fr s fn (Sets_up as args res) = andthen (mmk_when E P bp fr s fn as args res) (\<lambda>s. Inr (0, s))"
| "perform E P bp fr s fn (Calls args) = call_mock E P bp fr s fn args"
| "perform E P bp fr s fn (Checks as args params) =
     andthen (mmk_verify E P bp fr s fn as args params) (\<lambda>(v, s). Inr (uint v, s))"

definition performs ::
  "env \<Rightarrow> 'a mock_state_scheme program \<Rightarrow> blueprint \<Rightarrow> frame \<Rightarrow> 'a mock_state_scheme \<Rightarrow> addr \<Rightarrow> event list \<Rightarrow>
    fault + int list \<times> 'a mock_state_scheme" where
  "performs E P bp fr s fn es = run_events (\<lambda>s e. perform E P bp fr s fn e) s es"

lemma performs_simps [simp]:
  "performs E P bp fr s fn [] = Inr ([], s)"
  "performs E P bp fr s fn (e # es) =
     andthen (perform E P bp fr s fn e) (\<lambda>(r, s).
     andthen (performs E P bp fr s fn es) (\<lambda>(rs, s). Inr (r # rs, s)))"
  by (simp_all add: performs_def)

fun spec_history :: "event list \<Rightarrow> int list list" where
  "spec_history [] = []"
| "spec_history (Calls args # es) = args # spec_history es"
| "spec_history (_ # es) = spec_history es"

fun spec_contracts :: "event list \<Rightarrow> contract list \<Rightarrow> contract list" where
  "spec_contracts [] cs = cs"
| "spec_contracts (Sets_up as args res # es) cs = spec_contracts es (contract_of as args res # cs)"
| "spec_contracts (_ # es) cs = spec_contracts es cs"

text \<open>The events that the development follows: values of the declared types, and no calls of functions of the program.\<close>

fun event_ok :: "blueprint \<Rightarrow> event \<Rightarrow> bool" where
  "event_ok bp (Sets_up as args res) \<longleftrightarrow> then_call res = NULL"
| "event_ok bp (Calls args) \<longleftrightarrow> list_all2 in_range (bp_params bp) args"
| "event_ok bp (Checks as args params) \<longleftrightarrow> True"

definition no_calls :: "contract list \<Rightarrow> bool" where
  "no_calls cs \<longleftrightarrow> (\<forall>c \<in> set cs. then_call (snd (snd c)) = NULL)"

lemma no_calls_chosen: "no_calls cs \<Longrightarrow> calls_nothing (chosen pr args cs)"
proof (cases "find (\<lambda>c. accepts pr (fst c) (fst (snd c)) args) cs")
  case (Some c)
  then have "c \<in> set cs"
    by (auto simp: find_Some_iff)
  moreover assume "no_calls cs"
  ultimately show ?thesis
    using Some by (simp add: no_calls_def calls_nothing_def chosen_def)
qed (simp add: calls_nothing_def chosen_def)

lemma log_fits_append: "log_fits bp (hist @ hist') \<Longrightarrow> log_fits bp hist"
  unfolding log_fits_def
  by (rule le_less_trans [of _ "(length (hist @ hist') + 1) * (sizeof_params (bp_params bp) + 8) + 8192"]) simp_all

text \<open>One event: the value it gives and the history and contracts after it.\<close>

definition verdict :: "(addr \<Rightarrow> size_t \<Rightarrow> cint) \<Rightarrow> nat \<Rightarrow> mmk_verify_params \<Rightarrow> cint" where
  "verdict f n params = mmk_verify_times f
     \<lparr>mem = (\<lambda>_. 0), live = [], prot = (\<lambda>_. 0),
      vit = \<lparr>fp_vfprintf = 0, fp_abort = 0, fp_malloc = 0, fp_realloc = 0, fp_free = 0, fp_mprotect = 0\<rparr>,
      initialized = 0, plt = [], ask_ctx = 0, mmk_ctx_var = 0, stubs = (\<lambda>_. None), errno = 0,
      matchers = (\<lambda>_. None), matcher_ctx = 0, mocks = (\<lambda>_. None), times_var = of_nat n\<rparr> params"

lemma verdict: "times_var s = of_nat n \<Longrightarrow> mmk_verify_times f s params = verdict f n params"
  by (simp add: mmk_verify_times_def verdict_def Let_def)

fun spec_value :: "'s program \<Rightarrow> blueprint \<Rightarrow> mem \<Rightarrow> int list list \<Rightarrow> contract list \<Rightarrow> event \<Rightarrow> int" where
  "spec_value P bp m hist cs (Sets_up as args res) = 0"
| "spec_value P bp m hist cs (Calls args) = result_of bp m (chosen (predicate P) args cs)"
| "spec_value P bp m hist cs (Checks as args params) =
     uint (verdict (matching_fn P) (count_of (predicate P) as args hist) params)"

lemma perform_refines:
  assumes set: "setting_ok E bp" and inv: "mock_inv E bp fr s stub mp hist cs" and cs: "no_calls cs"
    and fits: "log_fits bp (hist @ spec_history [e])" and e: "event_ok bp e"
    and run: "perform E P bp fr s (trampoline_of s stub) e = Inr (r, s')"
  shows "mock_inv E bp fr s' stub mp (hist @ spec_history [e]) (spec_contracts [e] cs) \<and>
    r = spec_value P bp (mem s') hist cs e \<and> trampoline_of s' stub = trampoline_of s stub \<and>
    no_calls (spec_contracts [e] cs)"
proof (cases e)
  case (Sets_up as args res)
  with run e cs show ?thesis
    using mmk_when_Inr [OF set inv] by (auto simp: ends trampoline_of_def no_calls_def contract_of_def)
next
  case (Calls args)
  with run e cs show ?thesis
    using call_mock_Inr(1,2,4) [OF set inv _ log_fits_append [OF fits] no_calls_chosen [OF cs], of args P r s']
    by (simp add: trampoline_of_def)
next
  case (Checks as args params)
  with run obtain v where v: "mmk_verify E P bp fr s (trampoline_of s stub) as args params = Inr (v, s')" "r = uint v"
    by (auto simp: ends)
  have sz: "sizeof_params (bp_params bp) < 2 ^ 64"
    using fits by (simp add: log_fits_def)
  note c = mmk_verify_Inr [OF set inv sz v(1)]
  from c(1) have "times_var s' = of_nat (count_of (predicate P) as args hist)" and "stubs s' = stubs s"
    by simp_all
  then show ?thesis
    using c(2,3) verdict [of s'] v(2) cs Checks by (simp add: trampoline_of_def)
qed

lemma spec_history_Cons: "spec_history (e # es) = spec_history [e] @ spec_history es"
  by (cases e) simp_all

lemma spec_history_append: "spec_history (es @ fs) = spec_history es @ spec_history fs"
  by (induction es rule: spec_history.induct) simp_all

lemma spec_contracts_Cons: "spec_contracts (e # es) cs = spec_contracts es (spec_contracts [e] cs)"
  by (cases e) simp_all

text \<open>The specification as a state that follows the events, and the contract of a test's events with it.\<close>

type_synonym mock_abstract = "int list list \<times> contract list"

fun mock_follow :: "event \<Rightarrow> mock_abstract \<Rightarrow> mock_abstract" where
  "mock_follow e (hist, cs) = (hist @ spec_history [e], spec_contracts [e] cs)"

fun mock_answer :: "'s program \<Rightarrow> blueprint \<Rightarrow> mock_abstract \<Rightarrow> 'a mock_state_scheme \<Rightarrow> event \<Rightarrow> int" where
  "mock_answer P bp (hist, cs) s e = spec_value P bp (mem s) hist cs e"

fun mock_admits :: "blueprint \<Rightarrow> mock_abstract \<Rightarrow> event \<Rightarrow> bool" where
  "mock_admits bp (hist, cs) e \<longleftrightarrow> event_ok bp e \<and> log_fits bp (hist @ spec_history [e])"

fun mock_models ::
  "env \<Rightarrow> blueprint \<Rightarrow> frame \<Rightarrow> addr \<Rightarrow> addr \<Rightarrow> addr \<Rightarrow> mock_abstract \<Rightarrow> 'a mock_state_scheme \<Rightarrow> bool" where
  "mock_models E bp fr stub mp t (hist, cs) s \<longleftrightarrow>
     setting_ok E bp \<and> no_calls cs \<and> trampoline_of s stub = t \<and> mock_inv E bp fr s stub mp hist cs"

lemma fold_mock_follow: "fold mock_follow es (hist, cs) = (hist @ spec_history es, spec_contracts es cs)"
  by (induction es arbitrary: hist cs) (simp, subst spec_history_Cons, subst spec_contracts_Cons, simp)

lemma mock_admitted:
  "\<forall>e \<in> set es. event_ok bp e \<Longrightarrow> log_fits bp (hist @ spec_history es) \<Longrightarrow>
    admitted mock_follow (mock_admits bp) (hist, cs) es"
proof (induction es arbitrary: hist cs)
  case (Cons e es)
  have "log_fits bp ((hist @ spec_history [e]) @ spec_history es)"
    using Cons.prems(2) unfolding spec_history_Cons [of e es] by simp
  with Cons log_fits_append [OF this] show ?case
    by simp
qed simp

interpretation session: event_contract "\<lambda>s e. perform E P bp fr s t e" "mock_models E bp fr stub mp t"
    mock_follow "mock_answer P bp" "mock_admits bp" for E P bp fr stub mp t
proof
  fix a s e r s'
  assume "mock_models E bp fr stub mp t a s" and "mock_admits bp a e" and "perform E P bp fr s t e = Inr (r, s')"
  then show "mock_models E bp fr stub mp t (mock_follow e a) s' \<and> r = mock_answer P bp a s' e"
    using perform_refines [of E bp fr s stub mp "fst a" "snd a" e P r s'] by (cases a) auto
qed

lemma performs_refines:
  assumes "setting_ok E bp" and "mock_inv E bp fr s stub mp hist cs" and "no_calls cs"
    and "log_fits bp (hist @ spec_history es)" and "\<forall>e \<in> set es. event_ok bp e"
    and "performs E P bp fr s (trampoline_of s stub) es = Inr (rs, s')"
  shows "mock_inv E bp fr s' stub mp (hist @ spec_history es) (spec_contracts es cs) \<and>
    trampoline_of s' stub = trampoline_of s stub \<and> no_calls (spec_contracts es cs)"
  using session.run_models [of E bp fr stub mp "trampoline_of s stub" "(hist, cs)" s es P rs s'] mock_admitted [OF assms(5,4)] assms
  by (simp add: performs_def fold_mock_follow)

section \<open>When the operations return\<close>

text \<open>
  \<open>grow L bs ns\<close>: the blocks after allocations of the sizes \<open>ns\<close>, one after the other, or \<open>None\<close> when one of them fails.
\<close>

fun grow :: "libc \<Rightarrow> blocks \<Rightarrow> size_t list \<Rightarrow> blocks option" where
  "grow L bs [] = Some bs"
| "grow L bs (n # ns) =
     (if libc_malloc L bs n = NULL then None else grow L ((libc_malloc L bs n, n) # bs) ns)"

lemma grow_append: "grow L bs (ns @ ms) = Option.bind (grow L bs ns) (\<lambda>bs. grow L bs ms)"
  by (induction ns arbitrary: bs) auto

lemma eval_args_returns:
  assumes L: "libc_ok (c_lib E)"
  shows "fp_malloc (vit s) \<noteq> NULL \<Longrightarrow> matchers_live s \<Longrightarrow> arg_matchers s ps \<Longrightarrow>
    grow (c_lib E) (live s) (replicate (length as) sizeof_mmk_matcher) = Some bs \<Longrightarrow>
    \<exists>s'. eval_args E s as = Inr s' \<and> live s' = bs"
proof (induction as arbitrary: s ps)
  case Nil
  then show ?case by simp
next
  case (Cons a as)
  obtain kind counter dat where a: "a = (kind, counter, dat)"
    by (cases a)
  define out where "out = libc_malloc (c_lib E) (live s) sizeof_mmk_matcher"
  have out: "out \<noteq> NULL"
    using Cons.prems(4) by (auto simp: out_def)
  then have m: "mmk_malloc (c_lib E) s sizeof_mmk_matcher = Inr (out, s\<lparr>live := (out, sizeof_mmk_matcher) # live s\<rparr>)"
    using Cons.prems(1) by (simp add: mmk_malloc_def out_def Let_def)
  obtain s1 ps1 where 1: "mmk_matcher_add_data E s kind counter dat = Inr s1"
    and add: "added s ps (scast counter, kind, dat) out s1 ps1"
    using mmk_matcher_add_data_adds [OF L Cons.prems(2,3) m out, of kind counter dat] by blast
  obtain ms1 where s1: "s1 = s\<lparr>live := (out, sizeof_mmk_matcher) # live s, matchers := ms1\<rparr>"
    using add unfolding added_def by blast
  have "\<exists>s'. eval_args E s1 as = Inr s' \<and> live s' = bs"
    using add Cons.prems(1,4) by (intro Cons.IH [of s1 ps1]) (auto simp: added_def s1 out_def split: if_splits)
  then show ?case
    by (simp add: a 1)
qed

lemma expression_returns:
  assumes L: "libc_ok (c_lib E)" and heap: "heap_ok (s :: 'a mock_state_scheme)"
    and grow: "grow (c_lib E) (live s) (sizeof_mmk_matcher # replicate n sizeof_mmk_matcher @ ns) = Some bs"
  shows "\<exists>s1. mmk_matcher_init E s kind = Inr s1 \<and>
    (\<forall>(s1' :: 'a mock_state_scheme) as. live s1' = live s1 \<and> matchers s1' = matchers s1 \<and> matcher_ctx s1' = matcher_ctx s1 \<and>
      vit s1' = vit s \<and> length as = n \<longrightarrow> (\<exists>s2. eval_args E s1' as = Inr s2 \<and> grow (c_lib E) (live s2) ns = Some bs))"
proof -
  let ?c = "libc_malloc (c_lib E) (live s) sizeof_mmk_matcher"
  have fp: "fp_malloc (vit s) \<noteq> NULL" and ml: "matchers_live s"
    using heap by (simp_all add: heap_ok_def vitals_ready_def)
  have c: "?c \<noteq> NULL"
    using grow by (auto split: if_splits)
  then have "mmk_malloc (c_lib E) s sizeof_mmk_matcher = Inr (?c, s\<lparr>live := (?c, sizeof_mmk_matcher) # live s\<rparr>)"
    using fp by (simp add: mmk_malloc_def Let_def)
  with c obtain s1 where init: "mmk_matcher_init E s kind = Inr s1" and live: "live s1 = (?c, sizeof_mmk_matcher) # live s"
    by (simp add: mmk_matcher_init_def)
  have am: "arg_matchers s1 []" "matchers_live s1"
    using mmk_matcher_init_Inr [OF L ml init] by blast+
  have "\<exists>s2. eval_args E s1' as = Inr s2 \<and> grow (c_lib E) (live s2) ns = Some bs"
    if same: "live s1' = live s1" "matchers s1' = matchers s1" "matcher_ctx s1' = matcher_ctx s1" "vit s1' = vit s"
      "length as = n" for s1' as
  proof -
    obtain bs1 where 1: "grow (c_lib E) (live s1') (replicate (length as) sizeof_mmk_matcher) = Some bs1"
      and 2: "grow (c_lib E) bs1 ns = Some bs"
      using grow c same live by (auto simp: grow_append bind_eq_Some_conv)
    have "arg_matchers s1' []" "matchers_live s1'" "fp_malloc (vit s1') \<noteq> NULL"
      using am same fp by (simp_all add: arg_matchers_def matchers_live_def)
    from eval_args_returns [OF L this(3,2,1) 1] 2 show ?thesis
      by blast
  qed
  with init show ?thesis
    by auto
qed

lemma mmk_when_returns:
  assumes set: "setting_ok E bp" and inv: "mock_inv E bp fr (s :: 'a mock_state_scheme) stub mp hist cs"
    and grow: "grow (c_lib E) (live s) (sizeof_mmk_matcher # replicate (length as) sizeof_mmk_matcher @ [sizeof_binding bp]) = Some bs"
  shows "\<exists>s'. mmk_when E P bp fr s (trampoline_of s stub) as args res = Inr s' \<and> live s' = bs \<and>
    (\<exists>p. mocks s' mp = map_option (\<lambda>mk. mk\<lparr>mk_params := p\<rparr>) (mocks s mp))"
proof -
  obtain mk keys where heap: "heap_ok s" and rest: "at_rest s" and inst: "installed E s stub (bp_stub bp) mp"
    and mk: "mocks s mp = Some mk"
    using inv by (auto simp: mock_inv_def)
  have L: "libc_ok (c_lib E)"
    using set by (simp add: setting_ok_def)
  obtain s1 where init: "mmk_matcher_init E s 0 = Inr s1"
    and evr: "\<forall>(s1' :: 'a mock_state_scheme) as0. live s1' = live s1 \<and> matchers s1' = matchers s1 \<and> matcher_ctx s1' = matcher_ctx s1 \<and>
      vit s1' = vit s \<and> length as0 = length as \<longrightarrow>
      (\<exists>s2. eval_args E s1' as0 = Inr s2 \<and> grow (c_lib E) (live s2) [sizeof_binding bp] = Some bs)"
    using expression_returns [OF L heap grow, of 0] by blast
  have same: "live (mmk_when_init s1 res) = live s1" "matchers (mmk_when_init s1 res) = matchers s1"
    "matcher_ctx (mmk_when_init s1 res) = matcher_ctx s1" "vit (mmk_when_init s1 res) = vit s"
    using init by (auto simp: mmk_when_init_def mmk_matcher_init_def ends mmk_malloc_Inr_iff split: if_splits)
  obtain s2 where ev: "eval_args E (mmk_when_init s1 res) as = Inr s2"
    and last: "grow (c_lib E) (live s2) [sizeof_binding bp] = Some bs"
    using evr same by blast
  obtain c ps nb ms h ms1 where s1: "s1 = s\<lparr>live := (c, sizeof_mmk_matcher) # live s, matchers := ms1, matcher_ctx := c\<rparr>"
    and s2: "s2 = mmk_when_init s1 res\<lparr>live := nb @ live s, matchers := ms\<rparr>" and "matcher_ctx s2 = c"
    and links: "links m_next ms c (c # ps)" and "map (m_key ms) ps = sort_key fst (rev (map arg_key as))"
    and "blocks_wf (nb @ live s)" and "mset (map fst nb) = mset (c # ps)"
    and "\<forall>p. p \<notin> set (c # ps) \<longrightarrow> ms p = matchers s p" and h: "ms c = Some h" "m_kind h = 0"
    and "matchers_live s2"
    by (rule expression_evaluated [OF L heap init same(1-3) ev])
  have s2': "s2 = s\<lparr>live := nb @ live s, matchers := ms, matcher_ctx := c, cur_result := Some res\<rparr>"
    by (simp add: s2 s1 mmk_when_init_def)
  have inst2: "installed E s2 stub (bp_stub bp) mp" and t2: "trampoline_of s2 stub = trampoline_of s stub"
    using inst by (auto simp: s2' trampoline_of_def intro: installed_cong)
  have "call_mock E P bp fr s2 (trampoline_of s stub) args =
      andthen (stub_when E bp (mmk_mock_report_call (s2\<lparr>mmk_ctx_var := stub, ask_ctx := 0\<rparr>)) mp args) (\<lambda>s. Inr (0, s))"
    using call_in_expression(1) [OF inst2 _ _ _ h(2), of P fr args] rest h(1) links
    unfolding t2 by (simp add: s2' at_rest_def)
  then show ?thesis
    using init ev last rest heap mk
    by (simp add: mmk_when_def stub_when_def mmk_malloc_def mmk_mock_report_call_def s2' heap_ok_def vitals_ready_def
        Let_def mmk_when_get_result_def mmk_when_impl_def at_rest_def mmk_mock_reset_call_def mmk_matcher_term_def
        split: if_splits) blast
qed

lemma mmk_verify_returns:
  assumes set: "setting_ok E bp" and inv: "mock_inv E bp fr (s :: 'a mock_state_scheme) stub mp hist cs"
    and sz: "sizeof_params (bp_params bp) < 2 ^ 64"
    and grow: "grow (c_lib E) (live s) (sizeof_mmk_matcher # replicate (length as) sizeof_mmk_matcher) = Some bs"
  shows "\<exists>v s'. mmk_verify E P bp fr s (trampoline_of s stub) as args params = Inr (v, s')"
proof -
  obtain mk keys where heap: "heap_ok s" and rest: "at_rest s" and inst: "installed E s stub (bp_stub bp) mp"
    and mk: "mocks s mp = Some mk" and log: "logged bp fr s stub mk keys"
    using inv by (auto simp: mock_inv_def)
  have L: "libc_ok (c_lib E)"
    using set by (simp add: setting_ok_def)
  obtain s1 where init: "mmk_matcher_init E s 1 = Inr s1"
    and evr: "\<forall>(s1' :: 'a mock_state_scheme) as0. live s1' = live s1 \<and> matchers s1' = matchers s1 \<and>
      matcher_ctx s1' = matcher_ctx s1 \<and> vit s1' = vit s \<and> length as0 = length as \<longrightarrow>
      (\<exists>s2. eval_args E s1' as0 = Inr s2 \<and> grow (c_lib E) (live s2) [] = Some bs)"
    using expression_returns [OF L heap, of "length as" "[]" bs 1] grow by auto
  have "vit s1 = vit s"
    using init by (auto simp: mmk_matcher_init_def ends mmk_malloc_Inr_iff split: if_splits)
  then obtain s2 where ev: "eval_args E s1 as = Inr s2"
    using evr by blast
  then show ?thesis
    using init verify_called [OF set inv sz init ev, of P args] inv
    by (simp add: mmk_verify_def mmk_mock_reset_call_def mmk_matcher_term_def mock_inv_def at_rest_def)
qed

text \<open>A call returns when the log has room for it; a first call needs one allocation.\<close>

definition log_live :: "env \<Rightarrow> 'a mock_state_scheme \<Rightarrow> mmk_mock_ctx \<Rightarrow> blocks" where
  "log_live E s mk =
     (if mk_call_data mk = NULL then (libc_malloc (c_lib E) (live s) 4096, 4096) # live s else live s)"

definition log_room :: "env \<Rightarrow> 'a mock_state_scheme \<Rightarrow> mmk_mock_ctx \<Rightarrow> nat \<Rightarrow> bool" where
  "log_room E s mk n \<longleftrightarrow>
     (if mk_call_data mk = NULL then libc_malloc (c_lib E) (live s) 4096 \<noteq> NULL \<and> n + 8 < 4096
      else unat (mk_call_data_top mk) + n + 8 < unat (mk_call_data_size mk))"

lemma register_call_returns:
  assumes set: "setting_ok E bp" and heap: "heap_ok s" and at: "mmk_ctx_var s = stub"
    and inst: "installed E s stub (bp_stub bp) mp" and mk: "mocks s mp = Some mk"
    and log: "logged bp fr s stub mk keys" and room: "log_room E s mk (sizeof_params (bp_params bp))"
  shows "\<exists>s'. mmk_verify_register_call E s (fr_params fr) (of_nat (sizeof_params (bp_params bp))) = Inr s' \<and>
    live s' = log_live E s mk"
proof -
  let ?sz = "sizeof_params (bp_params bp)"
  have ok: "list_all ctype_ok (bp_params bp)" and L: "libc_ok (c_lib E)"
    using set by (simp_all add: setting_ok_def)
  have n: "24 \<le> ?sz"
    using sizeof_params_facts(1) [OF ok] .
  have wf: "blocks_wf (live s)" and fp: "fp_malloc (vit s) \<noteq> NULL"
    using heap by (simp_all add: heap_ok_def vitals_ready_def)
  have log': "call_log_ok (mem s) (live s) mk (?sz - 8) (fold bump keys [])"
    using log by (simp add: logged_def)
  obtain mk1 s1 where e: "ensure_call_data E s mk = Inr (mk1, s1)" and live: "live s1 = log_live E s mk"
    using room fp by (cases "mk_call_data mk = NULL")
      (simp_all add: ensure_call_data_def log_room_def log_live_def mmk_malloc_def Let_def)
  note e' = ensure_call_data_Inr [OF L wf log' e]
  have top: "unat (mk_call_data_top mk1) + ?sz + 8 < unat (mk_call_data_size mk1)"
    using room e log' by (auto simp: ensure_call_data_def log_room_def call_log_ok_def ends split: if_splits)
  moreover have "unat (mk_call_data_size mk1) < 2 ^ 64"
    by (rule unat_less_64)
  ultimately have "unat (mk_call_data_top mk1 + of_nat ?sz + 8) = unat (mk_call_data_top mk1) + ?sz + 8"
    using unat_add_no_wrap [of "mk_call_data_top mk1" "?sz + 8"] by (simp add: add.assoc)
  then have "\<not> mk_call_data_size mk1 \<le> mk_call_data_top mk1 + of_nat ?sz + 8"
    using top by (simp add: word_le_nat_alt)
  then have "make_room E s1 mk1 (of_nat ?sz) = Inr (mk1, s1)"
    by (simp add: make_room_def)
  moreover have "unat (of_nat ?sz :: size_t) = ?sz - 8 + 8"
    using top n unat_less_64 [of "mk_call_data_size mk1"] by (simp add: unat_of_nat)
  note find_and_inc_bump [OF e'(2,1) refl this]
  moreover have "mmk_stub_context s (mmk_ctx s) = Inr mp"
    using installed_context [OF inst] at by (simp add: mmk_ctx_def)
  ultimately show ?thesis
    using e mk live by (simp add: mmk_verify_register_call_def)
qed

lemma framed_call_returns:
  assumes set: "setting_ok E bp" and inv: "mock_inv E bp fr s stub mp hist cs" and mk: "mocks s mp = Some mk"
    and args: "list_all2 in_range (bp_params bp) args" and fits: "log_fits bp hist"
    and room: "log_room E s mk (sizeof_params (bp_params bp))"
  shows "\<exists>s2. mmk_verify_register_call E (frame_state bp fr s stub args) (fr_params fr)
      (of_nat (sizeof_params (bp_params bp))) = Inr s2 \<and> live s2 = log_live E s mk"
proof -
  obtain keys where heap: "heap_ok s" and inst: "installed E s stub (bp_stub bp) mp" and log: "logged bp fr s stub mk keys"
    using inv mk by (auto simp: mock_inv_def)
  have sz: "sizeof_params (bp_params bp) < 2 ^ 64"
    using fits by (simp add: log_fits_def)
  note st = frame_stored [OF set heap inst log args sz frame_state_def]
  have "mmk_ctx_var (frame_state bp fr s stub args) = stub" and "mocks (frame_state bp fr s stub args) mp = Some mk"
    and "log_room E (frame_state bp fr s stub args) mk (sizeof_params (bp_params bp))"
    and "log_live E (frame_state bp fr s stub args) mk = log_live E s mk"
    using mk room by (simp_all add: frame_state_def log_room_def log_live_def)
  with register_call_returns [OF set st(1) _ st(2) _ st(3)] show ?thesis
    by fastforce
qed

lemma call_mock_returns:
  assumes "setting_ok E bp" and "mock_inv E bp fr s stub mp hist cs" and "mocks s mp = Some mk"
    and "list_all2 in_range (bp_params bp) args" and "log_fits bp hist"
    and "log_room E s mk (sizeof_params (bp_params bp))"
    and "calls_nothing (chosen (predicate P) args cs)"
  shows "\<exists>r s'. call_mock E P bp fr s (trampoline_of s stub) args = Inr (r, s') \<and> live s' = log_live E s mk"
  using framed_call_returns [OF assms(1-6)] unfolding call_mock_eq [OF assms(1,2,4,5,7)] by fastforce

text \<open>A call that is delegated returns when the function of the behaviour does.\<close>

lemma delegated_call_returns:
  assumes "setting_ok E bp" and "mock_inv E bp fr s stub mp hist cs" and "mocks s mp = Some mk"
    and "list_all2 in_range (bp_params bp) args" and "log_fits bp hist"
    and "log_room E s mk (sizeof_params (bp_params bp))"
    and ch: "chosen (predicate P) args cs = Some res" and calls: "then_call res \<noteq> NULL" "then_return res = NULL"
    and returns: "\<And>s. \<exists>v s'. delegate P (then_call res) args s = Inr (v, s')"
  shows "\<exists>r s'. call_mock E P bp fr s (trampoline_of s stub) args = Inr (r, s')"
proof -
  obtain s2 where reg: "mmk_verify_register_call E (frame_state bp fr s stub args) (fr_params fr)
      (of_nat (sizeof_params (bp_params bp))) = Inr s2"
    using framed_call_returns [OF assms(1-6)] by blast
  obtain p where call: "call_mock E P bp fr s (trampoline_of s stub) args =
      (if p = NULL then Inr (0, s2) else apply_binding P bp s2 p args)"
    and "case chosen (predicate P) args cs of None \<Rightarrow> p = NULL
      | Some res \<Rightarrow> p \<noteq> NULL \<and> (\<exists>b. bindings s2 p = Some b \<and> b_result b = res)"
    by (rule call_mock_dispatch [OF assms(1,2,4,5) reg])
  then obtain b where "p \<noteq> NULL" and "bindings s2 p = Some b" "b_result b = res"
    by (auto simp: ch)
  then show ?thesis
    using calls returns by (simp add: call apply_binding_def Let_def)
qed

text \<open>Otherwise the only way in which a call can fail is the assertion that the log could be allocated.\<close>

lemma call_mock_Inl:
  assumes set: "setting_ok E bp" and inv: "mock_inv E bp fr s stub mp hist cs"
    and args: "list_all2 in_range (bp_params bp) args" and fits: "log_fits bp hist"
    and quiet: "calls_nothing (chosen (predicate P) args cs)"
    and run: "call_mock E P bp fr s (trampoline_of s stub) args = Inl e"
  shows "e = Assert_failed ''mock->call_data''"
proof -
  obtain mk keys where heap: "heap_ok s" and inst: "installed E s stub (bp_stub bp) mp"
    and mk: "mocks s mp = Some mk" and log: "logged bp fr s stub mk keys"
    and hist: "map (decode_key (bp_params bp)) keys = hist"
    using inv by (auto simp: mock_inv_def)
  let ?s1 = "frame_state bp fr s stub args" and ?sz = "sizeof_params (bp_params bp)"
  have ok: "list_all ctype_ok (bp_params bp)" and L: "libc_ok (c_lib E)"
    using set by (simp_all add: setting_ok_def)
  have sz: "?sz < 2 ^ 64"
    using fits by (simp add: log_fits_def)
  note st = frame_stored [OF set heap inst log args sz frame_state_def]
  have log1: "call_log_ok (mem ?s1) (live ?s1) mk (?sz - 8) (fold bump keys [])"
    using st(3) by (simp add: logged_def)
  have "mmk_stub_context ?s1 (mmk_ctx ?s1) = Inr mp"
    using installed_context [OF st(2)] by (simp add: mmk_ctx_def frame_state_def)
  moreover have "unat (of_nat ?sz :: size_t) = ?sz - 8 + 8"
    using sz sizeof_params_facts(1) [OF ok] by (simp add: unat_of_nat)
  moreover have "length (log_bytes (fold bump keys [])) + (?sz - 8) + 8192 < 2 ^ 64"
    using log_bound [OF ok log1] fits by (auto simp: log_fits_def simp flip: hist)
  moreover have "mmk_verify_register_call E ?s1 (fr_params fr) (of_nat ?sz) = Inl e"
    using run unfolding call_mock_eq [OF set inv args fits quiet] by (simp add: andthen_Inl_iff)
  ultimately show ?thesis
    using st(1) mk by (intro mmk_verify_register_call_Inl [OF L _ _ _ _ log1])
      (simp_all add: heap_ok_def frame_state_def)
qed

end
