(* ===== verification/Mock_Demo.thy ===== *)
theory Mock_Demo
  imports Mock_Session Demo
begin

text \<open>
  A mock of the function \<open>f\<close> in the process of theory \<open>Demo\<close>: it is created, a behaviour is set up, it is called, and
  the call is verified. The witnesses of the properties of mocks use it.
\<close>

lemma demo_mock_allocations:
  "libc_malloc demo_libc [(0x400000, 0x1000), (0x7f0000, 0x1000)] 40 = 0x10000"
  "libc_malloc demo_libc [(0x10000, 40), (0x400000, 0x1000), (0x7f0000, 0x1000)] 2 = 0x20000"
  "libc_malloc demo_libc [(0x20000, 2), (0x10000, 40), (0x400000, 0x1000), (0x7f0000, 0x1000)] 80 = 0x30000"
  "libc_malloc demo_libc [(0x30000, 80), (0x20000, 2), (0x10000, 40), (0x400000, 0x1000), (0x7f0000, 0x1000)] 2 = 0x40000"
  "libc_realloc demo_libc [(0x40000, 2), (0x30000, 80), (0x20000, 2), (0x10000, 40), (0x400000, 0x1000), (0x7f0000, 0x1000)]
     NULL 16 = 0x110000"
  "libc_mmap demo_libc [(0x110000, 16), (0x40000, 2), (0x30000, 80), (0x20000, 2), (0x10000, 40), (0x400000, 0x1000),
     (0x7f0000, 0x1000)] 0x1000 = 0x210000"
  by (simp_all add: demo_allocations)

lemma demo_mock_create:
  "\<exists>s'. mmk_mock_create_internal demo_env demo ''f'' fn noabort = Inr (0x210010, s') \<and>
     live s' = [(0x210000, 0x1000), (0x110000, 16), (0x40000, 2), (0x30000, 80), (0x10000, 40), (0x400000, 0x1000),
       (0x7f0000, 0x1000)] \<and> mocks s' = [0x10000 \<mapsto> \<lparr>mk_params = NULL, mk_stubs = 0x30000, mk_call_data = NULL,
       mk_call_data_top = 0, mk_call_data_size = 0\<rparr>]"
  by (simp add: mmk_mock_create_internal_def mmk_stub_create_def mmk_init_def mmk_malloc_def Let_def
      demo_mock_allocations mmk_stub_create_static_def split_target_def mmk_plt_ctx_def plt_get_lib_def
      plt_get_offsets_def demo_find_slots [unfolded demo_ctx_def nth_Cons_0] demo_ctx_def realloc_block_def
      create_trampoline_def PAGE_SIZE_def sys_mmap_def mmk_mprotect_def mmk_free_def)


definition demo_blueprint :: blueprint where
  "demo_blueprint = \<lparr>bp_params = [\<lparr>ty_size = 4, ty_signed = True\<rparr>], bp_ret = Some \<lparr>ty_size = 4, ty_signed = True\<rparr>,
     bp_stub = 0x500000\<rparr>"

definition demo_frame :: frame where
  "demo_frame = \<lparr>fr_params = 0x7f0100, fr_junk = (\<lambda>_. 0xaa)\<rparr>"

definition demo_program :: "mock_state program" where
  "demo_program = \<lparr>predicate = (\<lambda>_ v. if v = 3 then 1 else 0), matching_fn = (\<lambda>_ n. if n = 1 then 1 else 0),
     delegate = (\<lambda>_ args s. Inr (hd args, s))\<rparr>"

definition demo_result :: mmk_result where
  "demo_result = \<lparr>then_errno = 12, then_return = 0x7f0200, then_call = NULL\<rparr>"

lemma demo_mock_parts [simp]:
  "bp_params demo_blueprint = [\<lparr>ty_size = 4, ty_signed = True\<rparr>]" "bp_stub demo_blueprint = 0x500000"
  "sizeof_params [\<lparr>ty_size = 4, ty_signed = True\<rparr>] = 32" "fr_params demo_frame = 0x7f0100"
  "sizeof_binding demo_blueprint = 80" "predicate demo_program = (\<lambda>_ v. if v = 3 then 1 else 0)"
  "matching_fn demo_program = (\<lambda>_ n. if n = 1 then 1 else 0)"
  "then_errno demo_result = 12" "then_return demo_result = 0x7f0200" "then_call demo_result = NULL"
  by (simp_all add: demo_blueprint_def demo_frame_def demo_program_def demo_result_def sizeof_params_def align_up_def
      sizeof_binding_def)

lemma demo_setting: "setting_ok demo_env demo_blueprint"
  by (simp add: setting_ok_def demo_libc_ok PAGE_SIZE_def ctype_ok_def)

lemma demo_quiet: "quiet demo_blueprint demo_frame demo"
  by (simp add: quiet_def matchers_live_def within_def)

lemma demo_created:
  obtains s stub where "mmk_mock_create_internal demo_env demo ''f'' 0x500000 noabort = Inr (0x210010, s)"
    and "live s = [(0x210000, 0x1000), (0x110000, 16), (0x40000, 2), (0x30000, 80), (0x10000, 40), (0x400000, 0x1000),
       (0x7f0000, 0x1000)]"
    and "trampoline_of s stub = 0x210010" and "mock_inv demo_env demo_blueprint demo_frame s stub 0x10000 [] []"
    and "mocks s = [0x10000 \<mapsto> \<lparr>mk_params = NULL, mk_stubs = 0x30000, mk_call_data = NULL,
       mk_call_data_top = 0, mk_call_data_size = 0\<rparr>]"
proof -
  obtain s where s: "mmk_mock_create_internal demo_env demo ''f'' 0x500000 noabort = Inr (0x210010, s)"
    "live s = [(0x210000, 0x1000), (0x110000, 16), (0x40000, 2), (0x30000, 80), (0x10000, 40), (0x400000, 0x1000),
       (0x7f0000, 0x1000)]"
    "mocks s = [0x10000 \<mapsto> \<lparr>mk_params = NULL, mk_stubs = 0x30000, mk_call_data = NULL,
       mk_call_data_top = 0, mk_call_data_size = 0\<rparr>]"
    using demo_mock_create by blast
  have "\<exists>stub mp. trampoline_of s stub = 0x210010 \<and> mock_inv demo_env demo_blueprint demo_frame s stub mp [] []"
    using s(1) by (intro mock_create_establishes(1) [OF demo_setting demo_wf(1) demo_quiet _ demo_target_slots])
      (simp_all add: mmk_init_def demo_slots_ok self_target_def)
  then obtain stub mp where inv: "trampoline_of s stub = 0x210010"
    "mock_inv demo_env demo_blueprint demo_frame s stub mp [] []"
    by blast
  then have "mp = 0x10000"
    using s(3) by (auto simp: mock_inv_def split: if_splits)
  with s inv that show thesis
    by blast
qed

lemma demo_when_allocations:
  "libc_malloc demo_libc [(0x210000, 0x1000), (0x110000, 16), (0x40000, 2), (0x30000, 80), (0x10000, 40),
     (0x400000, 0x1000), (0x7f0000, 0x1000)] 32 = 0x20000"
  "libc_malloc demo_libc [(0x20000, 32), (0x210000, 0x1000), (0x110000, 16), (0x40000, 2), (0x30000, 80), (0x10000, 40),
     (0x400000, 0x1000), (0x7f0000, 0x1000)] 32 = 0x50000"
  "libc_malloc demo_libc [(0x50000, 32), (0x20000, 32), (0x210000, 0x1000), (0x110000, 16), (0x40000, 2), (0x30000, 80),
     (0x10000, 40), (0x400000, 0x1000), (0x7f0000, 0x1000)] 80 = 0x60000"
  "libc_malloc demo_libc [(0x60000, 80), (0x50000, 32), (0x20000, 32), (0x210000, 0x1000), (0x110000, 16), (0x40000, 2),
     (0x30000, 80), (0x10000, 40), (0x400000, 0x1000), (0x7f0000, 0x1000)] 4096 = 0x70000"
  "libc_malloc demo_libc [(0x70000, 4096), (0x60000, 80), (0x50000, 32), (0x20000, 32), (0x210000, 0x1000), (0x110000, 16),
     (0x40000, 2), (0x30000, 80), (0x10000, 40), (0x400000, 0x1000), (0x7f0000, 0x1000)] 32 = 0x80000"
  "libc_malloc demo_libc [(0x80000, 32), (0x70000, 4096), (0x60000, 80), (0x50000, 32), (0x20000, 32), (0x210000, 0x1000),
     (0x110000, 16), (0x40000, 2), (0x30000, 80), (0x10000, 40), (0x400000, 0x1000), (0x7f0000, 0x1000)] 32 = 0x90000"
  by (simp_all add: demo_allocations)

text \<open>The mock after a behaviour for the argument 3 has been set up, and a call with this argument.\<close>

lemma demo_called:
  obtains s0 s stub r s' p where
    "mock_inv demo_env demo_blueprint demo_frame s stub 0x10000 [] [contract_of [(MMK_MATCHER_EQ, 0, NULL)] [3] demo_result]"
    and "call_mock demo_env demo_program demo_blueprint demo_frame s (trampoline_of s stub) [3] = Inr (r, s')"
    and "mocks s 0x10000 = Some \<lparr>mk_params = p, mk_stubs = 0x30000, mk_call_data = NULL, mk_call_data_top = 0, mk_call_data_size = 0\<rparr>"
    and "(0x400000, 0x1000) \<in> set (live s)"
    and "mmk_mock_create_internal demo_env demo ''f'' 0x500000 noabort = Inr (0x210010, s0)"
    and "mmk_when demo_env demo_program demo_blueprint demo_frame s0 0x210010 [(MMK_MATCHER_EQ, 0, NULL)] [3] demo_result = Inr s"
    and "trampoline_of s stub = 0x210010"
    and "live s = [(0x60000, 80), (0x50000, 32), (0x20000, 32), (0x210000, 0x1000), (0x110000, 16), (0x40000, 2),
     (0x30000, 80), (0x10000, 40), (0x400000, 0x1000), (0x7f0000, 0x1000)]"
    and "live s' = (0x70000, 4096) # live s"
proof -
  let ?as = "[(MMK_MATCHER_EQ, 0, NULL)]"
  obtain s0 stub where s0: "mmk_mock_create_internal demo_env demo ''f'' 0x500000 noabort = Inr (0x210010, s0)"
    and live0: "live s0 = [(0x210000, 0x1000), (0x110000, 16), (0x40000, 2), (0x30000, 80), (0x10000, 40),
       (0x400000, 0x1000), (0x7f0000, 0x1000)]"
    and t0: "trampoline_of s0 stub = 0x210010" and inv0: "mock_inv demo_env demo_blueprint demo_frame s0 stub 0x10000 [] []"
    and mk0: "mocks s0 = [0x10000 \<mapsto> \<lparr>mk_params = NULL, mk_stubs = 0x30000, mk_call_data = NULL,
       mk_call_data_top = 0, mk_call_data_size = 0\<rparr>]"
    by (rule demo_created)
  obtain s1 p where s1: "mmk_when demo_env demo_program demo_blueprint demo_frame s0 0x210010 ?as [3] demo_result = Inr s1"
    and live1: "live s1 = [(0x60000, 80), (0x50000, 32), (0x20000, 32), (0x210000, 0x1000), (0x110000, 16), (0x40000, 2),
     (0x30000, 80), (0x10000, 40), (0x400000, 0x1000), (0x7f0000, 0x1000)]"
    and mk1: "mocks s1 0x10000 = Some \<lparr>mk_params = p, mk_stubs = 0x30000, mk_call_data = NULL,
       mk_call_data_top = 0, mk_call_data_size = 0\<rparr>"
    using mmk_when_returns [OF demo_setting inv0, of ?as _ demo_program "[3]" demo_result] live0 mk0
    by (auto simp: t0 demo_when_allocations)
  note w = mmk_when_Inr [OF demo_setting inv0 s1 [folded t0]]
  have t1: "trampoline_of s1 stub = 0x210010"
    using w(4) t0 by (simp add: trampoline_of_def)
  have no: "no_calls [contract_of ?as [3] demo_result]"
    by (simp add: no_calls_def contract_of_def)
  have fits: "log_fits demo_blueprint []" and args: "list_all2 in_range (bp_params demo_blueprint) [3]"
    by (simp_all add: log_fits_def in_range_def)
  have room: "log_room demo_env s1 \<lparr>mk_params = p, mk_stubs = 0x30000, mk_call_data = NULL,
       mk_call_data_top = 0, mk_call_data_size = 0\<rparr> (sizeof_params (bp_params demo_blueprint))"
    using live1 by (simp add: log_room_def demo_when_allocations)
  obtain r2 s2 where s2: "call_mock demo_env demo_program demo_blueprint demo_frame s1 (trampoline_of s1 stub) [3] = Inr (r2, s2)"
    and live2: "live s2 = (0x70000, 4096) # live s1"
    using call_mock_returns [OF demo_setting w(1) mk1 args fits room no_calls_chosen [OF no], of demo_program]
    by (auto simp: log_live_def live1 demo_when_allocations)
  have "(0x400000, 0x1000) \<in> set (live s1)"
    by (simp add: live1)
  from that [OF w(1) s2 mk1 this s0 s1 t1 live1 live2] show thesis .
qed

text \<open>A session with the mock: the behaviour is set up, the mock is called, and the call is verified.\<close>

definition demo_events :: "event list" where
  "demo_events = [Sets_up [(MMK_MATCHER_EQ, 0, NULL)] [3] demo_result, Calls [3]]"

lemma demo_session:
  obtains s0 rs s stub r s' where "mmk_mock_create_internal demo_env demo ''f'' 0x500000 noabort = Inr (0x210010, s0)"
    and "performs demo_env demo_program demo_blueprint demo_frame s0 0x210010 demo_events = Inr (rs, s)"
    and "perform demo_env demo_program demo_blueprint demo_frame s 0x210010
      (Checks [(MMK_MATCHER_EQ, 0, NULL)] [3] (no_keys\<lparr>vp_times := 1\<rparr>)) = Inr (r, s')"
    and "mock_inv demo_env demo_blueprint demo_frame s stub 0x10000 [[3]]
      [contract_of [(MMK_MATCHER_EQ, 0, NULL)] [3] demo_result]" and "trampoline_of s stub = 0x210010"
    and "live s = [(0x70000, 4096), (0x60000, 80), (0x50000, 32), (0x20000, 32), (0x210000, 0x1000), (0x110000, 16),
     (0x40000, 2), (0x30000, 80), (0x10000, 40), (0x400000, 0x1000), (0x7f0000, 0x1000)]"
proof -
  let ?as = "[(MMK_MATCHER_EQ, 0, NULL)]"
  obtain s0 s1 stub r s2 p where inv: "mock_inv demo_env demo_blueprint demo_frame s1 stub 0x10000 [] [contract_of ?as [3] demo_result]"
    and s2: "call_mock demo_env demo_program demo_blueprint demo_frame s1 (trampoline_of s1 stub) [3] = Inr (r, s2)"
    and "mocks s1 0x10000 = Some \<lparr>mk_params = p, mk_stubs = 0x30000, mk_call_data = NULL, mk_call_data_top = 0, mk_call_data_size = 0\<rparr>"
    and "(0x400000, 0x1000) \<in> set (live s1)"
    and s0: "mmk_mock_create_internal demo_env demo ''f'' 0x500000 noabort = Inr (0x210010, s0)"
    and s1: "mmk_when demo_env demo_program demo_blueprint demo_frame s0 0x210010 ?as [3] demo_result = Inr s1"
    and t1: "trampoline_of s1 stub = 0x210010"
    and live1: "live s1 = [(0x60000, 80), (0x50000, 32), (0x20000, 32), (0x210000, 0x1000), (0x110000, 16), (0x40000, 2),
     (0x30000, 80), (0x10000, 40), (0x400000, 0x1000), (0x7f0000, 0x1000)]"
    and live2: "live s2 = (0x70000, 4096) # live s1"
    by (rule demo_called)
  have no: "no_calls [contract_of ?as [3] demo_result]"
    by (simp add: no_calls_def contract_of_def)
  have fits: "log_fits demo_blueprint []" and args: "list_all2 in_range (bp_params demo_blueprint) [3]"
    by (simp_all add: log_fits_def in_range_def)
  note c = call_mock_Inr [OF demo_setting inv args fits no_calls_chosen [OF no] s2]
  have t2: "trampoline_of s2 stub = 0x210010"
    using c(4) t1 by (simp add: trampoline_of_def)
  obtain v s3 where v: "mmk_verify demo_env demo_program demo_blueprint demo_frame s2 0x210010 ?as [3]
      (no_keys\<lparr>vp_times := 1\<rparr>) = Inr (v, s3)"
    using mmk_verify_returns [OF demo_setting c(1), of ?as _ demo_program "[3]" "no_keys\<lparr>vp_times := 1\<rparr>"]
    by (auto simp: t2 live2 live1 demo_when_allocations)
  show thesis
    using s0 s1 s2 t1 t2 c(1) v by (intro that [of s0 "[0, r]" s2 "uint v" s3 stub]) (simp_all add: demo_events_def live2 live1)
qed

end
