(* ===== verification/Mock_Lifecycle.thy ===== *)
theory Mock_Lifecycle
  imports Mock_Session
begin

text \<open>
  The life of a mock, from its creation to \<open>mmk_reset\<close>: which blocks it owns, that every event keeps account of them, and that
  destroying it frees exactly these and puts the redirected slots back.
\<close>

section \<open>Accounts of blocks\<close>

text \<open>
  \<open>accounts bs ps base\<close>: the live blocks are those at the addresses \<open>ps\<close>, each of them once, and
  those of \<open>base\<close>, which are in the same order.
\<close>

definition accounts :: "blocks \<Rightarrow> addr list \<Rightarrow> blocks \<Rightarrow> bool" where
  "accounts bs ps base \<longleftrightarrow>
     distinct ps \<and> set ps \<subseteq> fst ` set bs \<and> base = filter (\<lambda>b. fst b \<notin> set ps) bs"

lemma accounts_perm: "mset ps = mset qs \<Longrightarrow> accounts bs ps base \<longleftrightarrow> accounts bs qs base"
  unfolding accounts_def by (metis mset_eq_imp_distinct_iff mset_eq_setD)

lemma accounts_Nil: "accounts bs [] base \<longleftrightarrow> base = bs"
  by (auto simp: accounts_def)

lemma accounts_alloc:
  assumes "accounts bs ps base" and "distinct (map fst (cs @ bs))" and "mset (map fst cs) = mset qs"
  shows "accounts (cs @ bs) (qs @ ps) base"
proof -
  have qs: "set qs = fst ` set cs" "distinct qs"
    using assms(2) mset_eq_setD [OF assms(3)] mset_eq_imp_distinct_iff [OF assms(3)] by auto
  then have "filter (\<lambda>b. fst b \<notin> set qs \<union> set ps) bs = filter (\<lambda>b. fst b \<notin> set ps) bs"
    using assms(2) by (intro filter_cong) auto
  then show ?thesis
    using assms(1,2) qs by (auto simp: accounts_def filter_empty_conv)
qed

lemma accounts_free:
  assumes "accounts bs (ps @ qs) base"
  shows "accounts (filter (\<lambda>b. fst b \<notin> set ps) bs) qs base"
proof -
  have "set qs \<subseteq> fst ` set (filter (\<lambda>b. fst b \<notin> set ps) bs)"
    using assms by (force simp: accounts_def)
  then show ?thesis
    using assms by (auto simp: accounts_def intro: filter_cong)
qed

lemma accounts_unblock: "accounts bs (p # qs) base \<Longrightarrow> accounts (unblock p bs) qs base"
  using accounts_free [of bs "[p]" qs base] by (simp add: unblock_def)

lemma accounts_live: "accounts bs ps base \<Longrightarrow> set ps \<subseteq> fst ` set bs"
  by (simp add: accounts_def)

lemma accounts_base: "accounts bs ps base \<Longrightarrow> (q, k) \<in> set base \<Longrightarrow> (q, k) \<in> set bs \<and> q \<notin> set ps"
  by (auto simp: accounts_def)

lemma mmk_free_accounted:
  assumes "accounts (live s) (p # ps) base" and "p \<noteq> NULL" and "fp_free (vit s) \<noteq> NULL"
  shows "mmk_free s p = Inr (s\<lparr>live := unblock p (live s)\<rparr>)"
  using assms by (auto simp: mmk_free_def accounts_def)

section \<open>What a mock owns\<close>

definition chained :: "'a mock_state_scheme \<Rightarrow> addr list \<Rightarrow> addr list list \<Rightarrow> bool" where
  "chained s bps mss \<longleftrightarrow>
     list_all2 (\<lambda>p ms. \<exists>b. bindings s p = Some b \<and> links m_next (matchers s) (b_matcher_ctx b) ms) bps mss"

text \<open>
  A \<open>holding\<close> lists the objects of a mock: its stub and its context with their contents, its bindings, and for each binding
  its matchers. \<open>blocks_of\<close> are the addresses of all its blocks.
\<close>

record holding =
  h_stub :: addr
  h_mp :: addr
  h_st :: mmk_stub
  h_mk :: mmk_mock_ctx
  h_bps :: "addr list"
  h_mss :: "addr list list"

definition log_blocks :: "mmk_mock_ctx \<Rightarrow> addr list" where
  "log_blocks mk = (if mk_call_data mk = NULL then [] else [mk_call_data mk])"

definition blocks_of :: "holding \<Rightarrow> addr list" where
  "blocks_of h =
     [stub_offsets_ptr (h_st h), stub_trampoline (h_st h) - 16, stub_name_ptr (h_st h), h_stub h] @
     log_blocks (h_mk h) @ h_bps h @ concat (h_mss h) @ [h_mp h]"

definition holds :: "'a mock_state_scheme \<Rightarrow> holding \<Rightarrow> bool" where
  "holds s h \<longleftrightarrow> stubs s (h_stub h) = Some (h_st h) \<and> stub_next (h_st h) = NULL \<and>
     mocks s (h_mp h) = Some (h_mk h) \<and> mk_stubs (h_mk h) = h_stub h \<and>
     links b_next (bindings s) (mk_params (h_mk h)) (h_bps h) \<and> chained s (h_bps h) (h_mss h)"

definition owns :: "'a mock_state_scheme \<Rightarrow> holding \<Rightarrow> blocks \<Rightarrow> bool" where
  "owns s h base \<longleftrightarrow> holds s h \<and> accounts (live s) (blocks_of h) base"

section \<open>Destroying a mock\<close>

lemma chained_cong:
  "chained s bps mss \<Longrightarrow> (\<And>p. p \<in> set bps \<Longrightarrow> bindings s' p = bindings s p) \<Longrightarrow>
    (\<And>m. m \<in> set (concat mss) \<Longrightarrow> matchers s' m = matchers s m) \<Longrightarrow> chained s' bps mss"
  unfolding chained_def
proof (induction rule: list_all2_induct)
  case (Cons p bps ms mss)
  then obtain b where b: "bindings s p = Some b" "links m_next (matchers s) (b_matcher_ctx b) ms"
    by blast
  have "links m_next (matchers s') (b_matcher_ctx b) ms"
    using Cons.prems(2) by (intro links_cong [OF b(2)]) simp
  with b(1) Cons show ?case
    by simp
qed simp

lemma free_bindings_accounted:
  "links b_next (bindings s) p bps \<Longrightarrow> chained s bps mss \<Longrightarrow> fp_free (vit s) \<noteq> NULL \<Longrightarrow>
    accounts (live s) (bps @ concat mss @ qs) base \<Longrightarrow>
    \<exists>bs. free_bindings s p = Some (Inr (s\<lparr>live := bs, matchers := matchers s |` (- set (concat mss)),
      bindings := bindings s |` (- set bps)\<rparr>)) \<and> accounts bs qs base"
proof (induction bps arbitrary: s p mss)
  case Nil
  then show ?case
    by (intro exI [of _ "live s"]) (simp add: free_bindings.simps chained_def)
next
  case (Cons q bps)
  then obtain b ms mss' where p: "p = q" "q \<noteq> NULL" and b: "bindings s q = Some b"
    and l: "links b_next (bindings s) (b_next b) bps" and mss: "mss = ms # mss'"
    and ms: "links m_next (matchers s) (b_matcher_ctx b) ms" and ch: "chained s bps mss'"
    by (auto simp: chained_def list_all2_Cons1)
  have acc: "accounts (live s) (ms @ q # bps @ concat mss' @ qs) base"
    using Cons.prems(4) by (subst accounts_perm [of _ "(q # bps) @ concat mss @ qs"]) (simp_all add: mss ac_simps)
  let ?s1 = "s\<lparr>live := filter (\<lambda>b. fst b \<notin> set ms) (live s),
      matchers := (\<lambda>x. if x \<in> set ms then None else matchers s x)\<rparr>"
  have f1: "free_matchers s (b_matcher_ctx b) = Some (Inr ?s1)"
    using free_matchers_chain [OF ms] accounts_live [OF acc] Cons.prems(3) by auto
  have acc1: "accounts (live ?s1) (q # bps @ concat mss' @ qs) base"
    using accounts_free [OF acc] by simp
  let ?s2 = "?s1\<lparr>live := unblock q (live ?s1), bindings := (bindings s)(q := None)\<rparr>"
  have f2: "mmk_free ?s1 q = Inr (?s1\<lparr>live := unblock q (live ?s1)\<rparr>)"
    using Cons.prems(3) by (intro mmk_free_accounted [OF acc1 p(2)]) simp
  have acc2: "accounts (live ?s2) (bps @ concat mss' @ qs) base"
    using accounts_unblock [OF acc1] by simp
  have dist: "distinct (ms @ q # bps @ concat mss' @ qs)"
    using acc by (simp add: accounts_def)
  then have "links b_next (bindings ?s2) (b_next b) bps"
    using l by simp
  moreover have "chained ?s2 bps mss'"
    using dist by (intro chained_cong [OF ch]) auto
  ultimately have "\<exists>bs. free_bindings ?s2 (b_next b) = Some (Inr (?s2\<lparr>live := bs,
      matchers := matchers ?s2 |` (- set (concat mss')), bindings := bindings ?s2 |` (- set bps)\<rparr>)) \<and>
      accounts bs qs base"
    using acc2 Cons.prems(3) by (intro Cons.IH [of ?s2 "b_next b" mss']) (simp_all add: fun_upd_def)
  then obtain bs where rest: "free_bindings ?s2 (b_next b) = Some (Inr (?s2\<lparr>live := bs,
      matchers := matchers ?s2 |` (- set (concat mss')), bindings := bindings ?s2 |` (- set bps)\<rparr>))"
    and "accounts bs qs base"
    by blast
  moreover have "matchers ?s2 |` (- set (concat mss')) = matchers s |` (- set (concat mss))"
    and "bindings ?s2 |` (- set bps) = bindings s |` (- set (q # bps))"
    by (auto simp: restrict_map_def mss)
  ultimately show ?case
    using p b f1 f2 by (subst free_bindings.simps) auto
qed

lemma destroy_stub_accounted:
  assumes st: "stubs s p = Some st" "stub_next st = NULL"
    and acc: "accounts (live s) ([stub_offsets_ptr st, stub_trampoline st - 16, stub_name_ptr st, p] @ qs) base"
    and ne: "NULL \<notin> fst ` set (live s)" and free: "fp_free (vit s) \<noteq> NULL"
  shows "\<exists>bs. destroy_stubs s p = Some (Inr (s\<lparr>mem := unpatch (mem s) (stub_offsets st), live := bs,
      stubs := (stubs s)(p := None)\<rparr>)) \<and> accounts bs qs base"
proof -
  let ?o = "stub_offsets_ptr st" and ?t = "stub_trampoline st - 16" and ?n = "stub_name_ptr st"
  have nn: "?o \<noteq> NULL" "?n \<noteq> NULL" "p \<noteq> NULL"
  proof -
    have "x \<noteq> NULL" if "x \<in> {?o, ?n, p}" for x
      using ne that subsetD [OF accounts_live [OF acc], of x] by fastforce
    then show "?o \<noteq> NULL" "?n \<noteq> NULL" "p \<noteq> NULL"
      by simp_all
  qed
  define s0 where "s0 = s\<lparr>mem := unpatch (mem s) (stub_offsets st)\<rparr>"
  define l1 l2 l3 where "l1 = unblock ?o (live s)" and "l2 = unblock ?t l1" and "l3 = unblock ?n l2"
  note a0 = acc [simplified append_Cons]
  note a1 = accounts_unblock [OF a0, folded l1_def]
  note a2 = accounts_unblock [OF a1, folded l2_def]
  note a3 = accounts_unblock [OF a2, folded l3_def]
  have 1: "mmk_free s0 ?o = Inr (s0\<lparr>live := l1\<rparr>)"
    using mmk_free_accounted [of s0 ?o _ base] a0 nn free by (simp add: s0_def l1_def)
  have 2: "destroy_trampoline (s0\<lparr>live := l1\<rparr>) (stub_trampoline st) = s0\<lparr>live := l2\<rparr>"
    by (simp add: destroy_trampoline_def sys_munmap_def l2_def)
  have 3: "mmk_free (s0\<lparr>live := l2\<rparr>) ?n = Inr (s0\<lparr>live := l3\<rparr>)"
    using mmk_free_accounted [of "s0\<lparr>live := l2\<rparr>" ?n _ base] a2 nn free by (simp add: s0_def l3_def)
  have 4: "mmk_free (s0\<lparr>live := l3\<rparr>) p = Inr (s0\<lparr>live := unblock p l3\<rparr>)"
    using mmk_free_accounted [of "s0\<lparr>live := l3\<rparr>" p _ base] a3 nn free by (simp add: s0_def)
  have "mmk_stub_destroy s p = Inr (s0\<lparr>live := unblock p l3, stubs := (stubs s)(p := None)\<rparr>)"
    using 1 2 3 4 by (simp add: mmk_stub_destroy_def mmk_stub_destroy_static_def st plt_reset_offsets_unpatch
        s0_def [symmetric]) (simp add: s0_def)
  moreover have "accounts (unblock p l3) qs base"
    using accounts_unblock [OF a3] by simp
  ultimately show ?thesis
    using st nn by (simp add: destroy_stubs.simps s0_def) blast
qed

lemma mock_destroy_accounted:
  assumes own: "owns s h base" and ne: "NULL \<notin> fst ` set (live s)" and free: "fp_free (vit s) \<noteq> NULL"
  shows "mmk_mock_destroy_internal s (h_mp h) = Inr (s\<lparr>mem := unpatch (mem s) (stub_offsets (h_st h)), live := base,
      stubs := (stubs s)(h_stub h := None), matchers := matchers s |` (- set (concat (h_mss h))),
      bindings := bindings s |` (- set (h_bps h)), mocks := (mocks s)(h_mp h := None)\<rparr>)"
proof -
  let ?mk = "h_mk h" and ?mp = "h_mp h" and ?offs = "stub_offsets (h_st h)"
  have h: "holds s h" and acc: "accounts (live s) (blocks_of h) base"
    using own by (simp_all add: owns_def)
  have st: "stubs s (h_stub h) = Some (h_st h)" "stub_next (h_st h) = NULL"
    and mk: "mocks s ?mp = Some ?mk" "mk_stubs ?mk = h_stub h"
    and l: "links b_next (bindings s) (mk_params ?mk) (h_bps h)" and ch: "chained s (h_bps h) (h_mss h)"
    using h by (simp_all add: holds_def)
  have "?mp \<in> fst ` set (live s)"
    using accounts_live [OF acc] by (simp add: blocks_of_def)
  then have mp: "?mp \<noteq> NULL"
    using ne by metis
  note acc0 = acc [unfolded blocks_of_def]
  obtain bs1 where d1: "destroy_stubs s (h_stub h) = Some (Inr (s\<lparr>mem := unpatch (mem s) ?offs, live := bs1,
      stubs := (stubs s)(h_stub h := None)\<rparr>))" and a1: "accounts bs1 (log_blocks ?mk @ h_bps h @ concat (h_mss h) @ [?mp]) base"
    using destroy_stub_accounted [OF st acc0 ne free] by auto
  define s1 where "s1 = s\<lparr>mem := unpatch (mem s) ?offs, live := bs1, stubs := (stubs s)(h_stub h := None)\<rparr>"
  obtain bs2 where d2: "mmk_free s1 (mk_call_data ?mk) = Inr (s1\<lparr>live := bs2\<rparr>)"
    and a2: "accounts bs2 (h_bps h @ concat (h_mss h) @ [?mp]) base"
  proof (cases "mk_call_data ?mk = NULL")
    case True
    then show thesis
      using a1 free by (intro that [of bs1]) (simp_all add: log_blocks_def s1_def mmk_free_def)
  next
    case False
    with a1 have a1': "accounts bs1 (mk_call_data ?mk # h_bps h @ concat (h_mss h) @ [?mp]) base"
      by (simp add: log_blocks_def)
    show thesis
      using mmk_free_accounted [of s1 "mk_call_data ?mk" _ base] a1' False free accounts_unblock [OF a1']
      by (intro that [of "unblock (mk_call_data ?mk) bs1"]) (simp_all add: s1_def)
  qed
  define s2 where "s2 = s1\<lparr>live := bs2\<rparr>"
  define s3 where "s3 = s2\<lparr>matchers := matchers s |` (- set (concat (h_mss h))), bindings := bindings s |` (- set (h_bps h))\<rparr>"
  have "chained s2 (h_bps h) (h_mss h)" and "links b_next (bindings s2) (mk_params ?mk) (h_bps h)"
    using ch l by (auto simp: s1_def s2_def intro: chained_cong)
  moreover have "fp_free (vit s2) \<noteq> NULL" and "accounts (live s2) (h_bps h @ concat (h_mss h) @ [?mp]) base"
    using a2 free by (simp_all add: s1_def s2_def)
  ultimately obtain bs3 where d3: "free_bindings s2 (mk_params ?mk) = Some (Inr (s2\<lparr>live := bs3,
      matchers := matchers s2 |` (- set (concat (h_mss h))), bindings := bindings s2 |` (- set (h_bps h))\<rparr>))"
    and a3: "accounts bs3 [?mp] base"
    using free_bindings_accounted [of s2 "mk_params ?mk" "h_bps h" "h_mss h" "[?mp]" base] by blast
  have s3: "s2\<lparr>live := bs3, matchers := matchers s2 |` (- set (concat (h_mss h))), bindings := bindings s2 |` (- set (h_bps h))\<rparr> =
      s3\<lparr>live := bs3\<rparr>"
    by (simp add: s3_def s2_def s1_def)
  have d4: "mmk_free (s3\<lparr>live := bs3\<rparr>) ?mp = Inr (s3\<lparr>live := base\<rparr>)"
    using mmk_free_accounted [of "s3\<lparr>live := bs3\<rparr>" ?mp "[]" base] a3 mp free
      accounts_unblock [OF a3] by (simp add: s3_def s2_def s1_def accounts_Nil)
  show ?thesis
    using mk d1 d2 d3 [unfolded s3] d4
    by (simp add: mmk_mock_destroy_internal_def free_mock_ctx_def s1_def [symmetric] s2_def [symmetric])
      (simp add: s3_def s2_def s1_def)
qed


section \<open>Every event keeps the account\<close>

lemma ensure_call_data_account:
  assumes L: "libc_ok (c_lib E)" and run: "ensure_call_data E s mk = Inr (mk', s')"
  shows "mk_params mk' = mk_params mk \<and> mk_stubs mk' = mk_stubs mk \<and> mk_call_data mk' \<noteq> NULL \<and>
    (mk' = mk \<and> s' = s \<or> mk_call_data mk = NULL \<and> (\<exists>n. fresh_block (live s) (mk_call_data mk') n \<and>
      s' = s\<lparr>live := (mk_call_data mk', n) # live s\<rparr>))"
  using run mmk_malloc_fresh [OF L, of s 4096]
  by (fastforce simp: ensure_call_data_def ends mmk_malloc_Inr_iff split: if_splits)

lemma make_room_account:
  assumes L: "libc_ok (c_lib E)" and run: "make_room E s mk sz = Inr (mk', s')"
  shows "mk_params mk' = mk_params mk \<and> mk_stubs mk' = mk_stubs mk \<and>
    (mk' = mk \<and> s' = s \<or> (\<exists>n m. fresh_block (unblock (mk_call_data mk) (live s)) (mk_call_data mk') n \<and>
      s' = s\<lparr>live := (mk_call_data mk', n) # unblock (mk_call_data mk) (live s), mem := m\<rparr>))"
proof (cases "mk_call_data_size mk \<le> mk_call_data_top mk + sz + 8")
  case True
  with run obtain n p where g: "mmk_realloc (c_lib E) s (mk_call_data mk) n = Inr (p, s')" "p \<noteq> NULL"
    and mk': "mk' = mk\<lparr>mk_call_data := p, mk_call_data_size := n\<rparr>"
    by (auto simp: make_room_def ends)
  from g have "p = libc_realloc (c_lib E) (live s) (mk_call_data mk) n"
    and "\<exists>m. s' = s\<lparr>live := (p, n) # unblock (mk_call_data mk) (live s), mem := m\<rparr>"
    by (auto simp: mmk_realloc_def realloc_block_def ends Let_def split: if_splits)
  moreover from this(1) have "fresh_block (unblock (mk_call_data mk) (live s)) p n"
    using L g(2) by (simp add: libc_ok_def)
  ultimately show ?thesis
    using mk' by auto
next
  case False
  with run show ?thesis
    by (simp add: make_room_def)
qed


text \<open>A call leaves the log of its mock where it is, or moves it (from \<open>NULL\<close>, when it is the first).\<close>

definition log_moved :: "blocks \<Rightarrow> addr \<Rightarrow> addr \<Rightarrow> blocks \<Rightarrow> bool" where
  "log_moved bs d d' bs' \<longleftrightarrow> d' = d \<and> bs' = bs \<or>
     (\<exists>n. fresh_block (unblock d bs) d' n \<and> bs' = (d', n) # unblock d bs)"

lemma register_call_account:
  assumes L: "libc_ok (c_lib E)" and wf: "blocks_wf (live s)"
    and ctx: "mmk_stub_context s (mmk_ctx s) = Inr ctx" and mk: "mocks s ctx = Some mk"
    and run: "mmk_verify_register_call E s params sz = Inr s'"
  shows "\<exists>mk'. mocks s' ctx = Some mk' \<and> mk_params mk' = mk_params mk \<and> mk_stubs mk' = mk_stubs mk \<and>
    log_moved (live s) (mk_call_data mk) (mk_call_data mk') (live s')"
proof -
  from run ctx mk obtain mk1 s1 found m where e: "ensure_call_data E s mk = Inr (mk1, s1)"
    and f: "find_and_inc_call_matching (mem s1) mk1 params sz = Some (found, m)"
    and rest: "if found then s' = s1\<lparr>mem := m, mocks := (mocks s1)(ctx \<mapsto> mk1)\<rparr>
      else \<exists>mk2 s2. make_room E s1 mk1 sz = Inr (mk2, s2) \<and> s' = s2\<lparr>mem := append_call (mem s2) mk2 params sz,
        mocks := (mocks s2)(ctx \<mapsto> mk2\<lparr>mk_call_data_top := mk_call_data_top mk2 + (sz + 8)\<rparr>)\<rparr>"
    by (auto simp: mmk_verify_register_call_def ends split: if_splits)
  have nn: "NULL \<notin> fst ` set (live s)"
    by (rule blocks_wf_NULL [OF wf])
  note E1 = ensure_call_data_account [OF L e]
  have 1: "log_moved (live s) (mk_call_data mk) (mk_call_data mk1) (live s1)"
    using E1 unblock_fresh [OF nn] by (auto simp: log_moved_def)
  show ?thesis
  proof (cases found)
    case True
    with rest E1 1 show ?thesis
      by simp
  next
    case False
    with rest obtain mk2 s2 where room: "make_room E s1 mk1 sz = Inr (mk2, s2)"
      and s': "s' = s2\<lparr>mem := append_call (mem s2) mk2 params sz,
        mocks := (mocks s2)(ctx \<mapsto> mk2\<lparr>mk_call_data_top := mk_call_data_top mk2 + (sz + 8)\<rparr>)\<rparr>"
      by auto
    note E2 = make_room_account [OF L room]
    have "log_moved (live s) (mk_call_data mk) (mk_call_data mk2) (live s2)"
    proof (cases "mk2 = mk1 \<and> s2 = s1")
      case True
      with 1 show ?thesis by simp
    next
      case moved: False
      then obtain n where n: "fresh_block (unblock (mk_call_data mk1) (live s1)) (mk_call_data mk2) n"
        "live s2 = (mk_call_data mk2, n) # unblock (mk_call_data mk1) (live s1)"
        using E2 by auto
      have "unblock (mk_call_data mk1) (live s1) = unblock (mk_call_data mk) (live s)"
        using E1 unblock_fresh [OF nn] by (auto simp: unblock_head)
      with n show ?thesis
        by (auto simp: log_moved_def)
    qed
    with s' E1 E2 show ?thesis
      by auto
  qed
qed

lemma log_moved_accounts:
  assumes acc: "accounts bs (blocks_of h) base" and wf: "blocks_wf bs"
    and moved: "log_moved bs (mk_call_data (h_mk h)) (mk_call_data mk') bs'"
  shows "accounts bs' (blocks_of (h\<lparr>h_mk := mk'\<rparr>)) base"
proof (cases "mk_call_data mk' = mk_call_data (h_mk h) \<and> bs' = bs")
  case True
  then have "blocks_of (h\<lparr>h_mk := mk'\<rparr>) = blocks_of h"
    by (simp add: blocks_of_def log_blocks_def)
  with acc True show ?thesis
    by simp
next
  case False
  let ?d = "mk_call_data (h_mk h)" and ?d' = "mk_call_data mk'"
  obtain n where fresh: "fresh_block (unblock ?d bs) ?d' n" and bs': "bs' = (?d', n) # unblock ?d bs"
    using False moved by (auto simp: log_moved_def)
  define os where "os = [stub_offsets_ptr (h_st h), stub_trampoline (h_st h) - 16, stub_name_ptr (h_st h), h_stub h] @
    h_bps h @ concat (h_mss h) @ [h_mp h]"
  have "accounts (unblock ?d bs) os base"
  proof (cases "?d = NULL")
    case True
    have "mset os = mset (blocks_of h)"
      using True by (simp add: os_def blocks_of_def log_blocks_def)
    then have "accounts bs os base"
      using acc by (simp only: accounts_perm [of os])
    then show ?thesis
      using True unblock_NULL [OF wf] by simp
  next
    case nn: False
    have "mset (?d # os) = mset (blocks_of h)"
      using nn by (simp add: os_def blocks_of_def log_blocks_def)
    then have "accounts bs (?d # os) base"
      using acc by (simp only: accounts_perm [of "?d # os"])
    then show ?thesis
      by (rule accounts_unblock)
  qed
  moreover have "blocks_wf ([(?d', n)] @ unblock ?d bs)"
    using fresh blocks_wf_unblock [OF wf] by simp
  ultimately have "accounts bs' ([?d'] @ os) base"
    using accounts_alloc [OF _ blocks_wf_distinct, of "unblock ?d bs" os base "[(?d', n)]" "[?d']"]
    by (simp add: bs')
  moreover have "mset ([?d'] @ os) = mset (blocks_of (h\<lparr>h_mk := mk'\<rparr>))"
    using fresh by (simp add: os_def blocks_of_def log_blocks_def fresh_block_def)
  ultimately show ?thesis
    by (simp only: accounts_perm [of "[?d'] @ os"])
qed

text \<open>
  \<open>advances s s' h h'\<close>: what an event changes of the objects of the library, and that the holding of the mock that it
  belongs to only grows.
\<close>

definition advances :: "'a mock_state_scheme \<Rightarrow> 'a mock_state_scheme \<Rightarrow> holding \<Rightarrow> holding \<Rightarrow> bool" where
  "advances s s' h h' \<longleftrightarrow> h_stub h' = h_stub h \<and> h_mp h' = h_mp h \<and> h_st h' = h_st h \<and>
     set (h_bps h) \<subseteq> set (h_bps h') \<and> set (concat (h_mss h)) \<subseteq> set (concat (h_mss h')) \<and>
     stubs s' = stubs s \<and> (\<forall>p. p \<noteq> h_mp h \<longrightarrow> mocks s' p = mocks s p) \<and>
     (\<forall>p \<in> insert NULL (fst ` set (live s)). matchers s' p = matchers s p \<and> bindings s' p = bindings s p) \<and>
     dom (matchers s') \<subseteq> dom (matchers s) \<union> set (concat (h_mss h')) \<and>
     dom (bindings s') \<subseteq> dom (bindings s) \<union> set (h_bps h') \<and>
     initialized s' = initialized s \<and> plt s' = plt s \<and> vit s' = vit s"

lemma call_mock_owns:
  assumes set: "setting_ok E bp" and inv: "mock_inv E bp fr s stub mp hist cs"
    and args: "list_all2 in_range (bp_params bp) args" and fits: "log_fits bp hist"
    and quiet: "calls_nothing (chosen (predicate P) args cs)"
    and run: "call_mock E P bp fr s (trampoline_of s stub) args = Inr (r, s')"
    and own: "owns s h base" and h: "h_stub h = stub" "h_mp h = mp"
  shows "\<exists>h'. owns s' h' base \<and> advances s s' h h'"
    and "(q, k) \<in> set base \<Longrightarrow> in_region q (unat k) x \<Longrightarrow>
      \<not> in_region (fr_params fr) (sizeof_params (bp_params bp)) x \<Longrightarrow> mem s' x = mem s x"
proof -
  let ?mk = "h_mk h"
  have st: "stubs s stub = Some (h_st h)" "stub_next (h_st h) = NULL"
    and mk: "mocks s mp = Some ?mk" "mk_stubs ?mk = stub"
    and l: "links b_next (bindings s) (mk_params ?mk) (h_bps h)" and ch: "chained s (h_bps h) (h_mss h)"
    and acc: "accounts (live s) (blocks_of h) base"
    using own h by (auto simp: owns_def holds_def)
  obtain keys where heap: "heap_ok s" and inst: "installed E s stub (bp_stub bp) mp"
    and log: "logged bp fr s stub ?mk keys" and hist: "map (decode_key (bp_params bp)) keys = hist"
    using inv mk by (auto simp: mock_inv_def)
  let ?f = "frame_state bp fr s stub args" and ?sz = "sizeof_params (bp_params bp)"
  have L: "libc_ok (c_lib E)" and wf: "blocks_wf (live s)" and sz: "?sz < 2 ^ 64" and ok: "list_all ctype_ok (bp_params bp)"
    using set heap fits by (simp_all add: setting_ok_def heap_ok_def log_fits_def)
  obtain s2 where reg: "mmk_verify_register_call E ?f (fr_params fr) (of_nat ?sz) = Inr s2"
    and s': "s' = s2\<lparr>errno := errno_of (errno s) (chosen (predicate P) args cs)\<rparr>"
    using run unfolding call_mock_eq [OF set inv args fits quiet] by (auto simp: ends)
  obtain mk' bs m where s2: "s2 = ?f\<lparr>live := bs, mem := m, mocks := (mocks s)(mp \<mapsto> mk')\<rparr>"
    and kept: "bytes_kept (mk_call_data ?mk) ?f s2"
    by (rule register_call_framed [OF set heap inst mk(1) log args fits [folded hist] reg])
  have "mmk_stub_context ?f (mmk_ctx ?f) = Inr mp"
    using installed_context [OF inst] by (simp add: frame_state_def mmk_ctx_def mmk_stub_context_def split: if_splits)
  then have moved: "log_moved (live s) (mk_call_data ?mk) (mk_call_data mk') (live s2)"
    and mk': "mk_params mk' = mk_params ?mk" "mk_stubs mk' = mk_stubs ?mk"
    using register_call_account [OF L _ _ _ reg, of mp ?mk] mk(1) wf by (auto simp: s2 frame_state_def)
  let ?h = "h\<lparr>h_mk := mk'\<rparr>"
  have "chained s' (h_bps h) (h_mss h)"
    by (rule chained_cong [OF ch]) (simp_all add: s' s2 frame_state_def)
  then have "holds s' ?h"
    using st mk l mk' h by (simp add: holds_def s' s2 frame_state_def)
  moreover have "accounts (live s') (blocks_of ?h) base"
    using log_moved_accounts [OF acc wf moved] by (simp add: s')
  moreover have "advances s s' h ?h"
    using h by (auto simp: advances_def s' s2 frame_state_def)
  ultimately show "\<exists>h'. owns s' h' base \<and> advances s s' h h'"
    unfolding owns_def by blast
  assume b: "(q, k) \<in> set base" and x: "in_region q (unat k) x" "\<not> in_region (fr_params fr) ?sz x"
  have nn: "NULL \<notin> fst ` set (live s)"
    by (rule blocks_wf_NULL [OF wf])
  have bl: "(q, k) \<in> set (live s)" "q \<notin> set (blocks_of h)"
    using accounts_base [OF acc b] by simp_all
  moreover have "q \<noteq> mk_call_data ?mk"
  proof (cases "mk_call_data ?mk = NULL")
    case True
    then show ?thesis
      using bl(1) nn by force
  qed (use bl(2) in \<open>simp add: blocks_of_def log_blocks_def\<close>)
  ultimately have "mem s2 x = mem ?f x"
    using bytes_keptD [OF kept, of q k x] x(1) by (simp add: frame_state_def)
  also have "\<dots> = mem s x"
  proof -
    have "length (params_bytes (fr_junk fr) (bp_params bp) args) = ?sz"
      using ok args by (intro sizeof_params_facts) (simp_all add: list_all2_lengthD)
    then show ?thesis
      using x(2) sz by (simp add: frame_state_def wr_outside)
  qed
  finally show "mem s' x = mem s x"
    by (simp add: s')
qed


lemma mmk_when_owns:
  assumes set: "setting_ok E bp" and inv: "mock_inv E bp fr s stub mp hist cs"
    and run: "mmk_when E P bp fr s (trampoline_of s stub) as args res = Inr s'"
    and own: "owns s h base" and h: "h_stub h = stub" "h_mp h = mp"
  shows "\<exists>h'. owns s' h' base \<and> advances s s' h h'"
proof -
  let ?mk = "h_mk h"
  have st: "stubs s stub = Some (h_st h)" "stub_next (h_st h) = NULL"
    and mk: "mocks s mp = Some ?mk" "mk_stubs ?mk = stub"
    and l: "links b_next (bindings s) (mk_params ?mk) (h_bps h)" and ch: "chained s (h_bps h) (h_mss h)"
    and acc: "accounts (live s) (blocks_of h) base"
    using own h by (auto simp: owns_def holds_def)
  obtain mk0 c ps bs ms bnd where mk0: "mocks s mp = Some mk0"
    and s': "s' = s\<lparr>live := (bnd, sizeof_binding bp) # bs @ live s, matchers := ms, matcher_ctx := NULL,
      cur_result := Some res, mmk_ctx_var := stub, ask_ctx := 0, mock_called := 0,
      bindings := (bindings s)(bnd \<mapsto>
        \<lparr>b_matcher_ctx = c, b_next = mk_params mk0, b_result = res, b_params = args\<rparr>),
      mocks := (mocks s)(mp \<mapsto> mk0\<lparr>mk_params := bnd\<rparr>)\<rparr>"
    and links: "links m_next ms c (c # ps)"
    and wf: "blocks_wf ((bnd, sizeof_binding bp) # bs @ live s)" and new: "mset (map fst bs) = mset (c # ps)"
    and out: "\<forall>p. p \<notin> set (c # ps) \<longrightarrow> ms p = matchers s p"
    by (rule mmk_when_state [OF set inv run])
  have [simp]: "mk0 = ?mk"
    using mk mk0 by simp
  let ?cs = "(bnd, sizeof_binding bp) # bs"
  have dist: "distinct (map fst (?cs @ live s))" and qs: "mset (map fst ?cs) = mset (bnd # c # ps)"
    using blocks_wf_distinct [OF wf] new by simp_all
  have apart: "x \<notin> set (bnd # c # ps)" if "x \<in> insert NULL (fst ` set (live s))" for x
  proof -
    have "set (bnd # c # ps) = fst ` set ?cs"
      using mset_eq_setD [OF qs] by (metis set_map)
    moreover have "fst ` set ?cs \<inter> fst ` set (live s) = {}"
      using dist unfolding map_append distinct_append set_map by blast
    moreover have "NULL \<notin> fst ` set ?cs"
      using blocks_wf_NULL [OF wf] by auto
    ultimately show ?thesis
      using that by blast
  qed
  have old: "set (h_bps h @ concat (h_mss h)) \<subseteq> fst ` set (live s)"
    using accounts_live [OF acc] by (simp add: blocks_of_def)
  let ?h = "h\<lparr>h_mk := ?mk\<lparr>mk_params := bnd\<rparr>, h_bps := bnd # h_bps h, h_mss := (c # ps) # h_mss h\<rparr>"
  have "links b_next (bindings s') bnd (bnd # h_bps h)"
  proof -
    have "bnd \<notin> set (h_bps h)" and "bnd \<noteq> NULL"
      using old apart [of bnd] by auto
    then show ?thesis
      using l by (simp add: s')
  qed
  moreover have "chained s' (bnd # h_bps h) ((c # ps) # h_mss h)"
  proof -
    have "chained s' (h_bps h) (h_mss h)"
    proof (rule chained_cong [OF ch])
      show "bindings s' p = bindings s p" if "p \<in> set (h_bps h)" for p
        using apart [of p] subsetD [OF old, of p] that by (simp add: s')
      show "matchers s' m = matchers s m" if "m \<in> set (concat (h_mss h))" for m
        using apart [of m] subsetD [OF old, of m] out that by (simp add: s')
    qed
    then show ?thesis
      using links by (simp add: chained_def s')
  qed
  ultimately have "holds s' ?h"
    using st mk h by (simp add: holds_def s')
  moreover have "accounts (live s') (blocks_of ?h) base"
    using accounts_alloc [OF acc dist qs]
    by (subst accounts_perm [of _ "(bnd # c # ps) @ blocks_of h"]) (simp_all add: s' blocks_of_def log_blocks_def ac_simps)
  moreover have "advances s s' h ?h"
  proof -
    have "matchers s' p = matchers s p \<and> bindings s' p = bindings s p" if "p \<in> insert NULL (fst ` set (live s))" for p
      using apart [OF that] out by (simp add: s')
    moreover have "dom (matchers s') \<subseteq> dom (matchers s) \<union> set (c # ps)"
      using out by (auto simp: s' dom_def)
    ultimately show ?thesis
      using h by (auto simp: advances_def s')
  qed
  ultimately show ?thesis
    unfolding owns_def by blast
qed


lemma perform_owns:
  assumes set: "setting_ok E bp" and inv: "mock_inv E bp fr s stub mp hist cs" and cs: "no_calls cs"
    and fits: "log_fits bp (hist @ spec_history [e])" and e: "event_ok bp e"
    and run: "perform E P bp fr s (trampoline_of s stub) e = Inr (r, s')"
    and own: "owns s h base" and h: "h_stub h = stub" "h_mp h = mp"
  shows "\<exists>h'. owns s' h' base \<and> advances s s' h h'"
    and "(q, k) \<in> set base \<Longrightarrow> in_region q (unat k) x \<Longrightarrow>
      \<not> in_region (fr_params fr) (sizeof_params (bp_params bp)) x \<Longrightarrow> mem s' x = mem s x"
proof -
  have "(\<exists>h'. owns s' h' base \<and> advances s s' h h') \<and> ((q, k) \<in> set base \<longrightarrow> in_region q (unat k) x \<longrightarrow>
      \<not> in_region (fr_params fr) (sizeof_params (bp_params bp)) x \<longrightarrow> mem s' x = mem s x)"
  proof (cases e)
    case (Sets_up as args res)
    with run have w: "mmk_when E P bp fr s (trampoline_of s stub) as args res = Inr s'"
      by (auto simp: ends)
    show ?thesis
      using mmk_when_owns [OF set inv w own h] mmk_when_Inr(2) [OF set inv w] by simp
  next
    case (Calls args)
    with run e have "call_mock E P bp fr s (trampoline_of s stub) args = Inr (r, s')"
      and "list_all2 in_range (bp_params bp) args"
      by simp_all
    with call_mock_owns [OF set inv _ log_fits_append [OF fits] no_calls_chosen [OF cs] _ own h] show ?thesis
      by blast
  next
    case (Checks as args params)
    with run obtain v where v: "mmk_verify E P bp fr s (trampoline_of s stub) as args params = Inr (v, s')"
      by (auto simp: ends)
    have sz: "sizeof_params (bp_params bp) < 2 ^ 64"
      using fits by (simp add: log_fits_def)
    note s' = mmk_verify_Inr(1) [OF set inv sz v]
    have "owns s' h base" and "advances s s' h h"
      using own h by (auto simp: s' owns_def holds_def chained_def advances_def)
    then show ?thesis
      by (auto simp: s')
  qed
  then show "\<exists>h'. owns s' h' base \<and> advances s s' h h'"
    and "(q, k) \<in> set base \<Longrightarrow> in_region q (unat k) x \<Longrightarrow>
      \<not> in_region (fr_params fr) (sizeof_params (bp_params bp)) x \<Longrightarrow> mem s' x = mem s x"
    by blast+
qed

text \<open>The account of a mock as part of the contract of its events: \<open>m\<close> is the memory of the other blocks.\<close>

fun account_models ::
  "env \<Rightarrow> blueprint \<Rightarrow> frame \<Rightarrow> holding \<Rightarrow> addr \<Rightarrow> blocks \<Rightarrow> mem \<Rightarrow> mock_abstract \<Rightarrow> 'a mock_state_scheme \<Rightarrow> bool" where
  "account_models E bp fr h t base m a s \<longleftrightarrow> mock_models E bp fr (h_stub h) (h_mp h) t a s \<and>
     (\<exists>h'. owns s h' base \<and> h_stub h' = h_stub h \<and> h_mp h' = h_mp h \<and> h_st h' = h_st h) \<and>
     (\<forall>(q, k) \<in> set base. \<forall>x. in_region q (unat k) x \<longrightarrow>
       \<not> in_region (fr_params fr) (sizeof_params (bp_params bp)) x \<longrightarrow> mem s x = m x)"

interpretation account: event_contract "\<lambda>s e. perform E P bp fr s t e" "account_models E bp fr h t base m"
    mock_follow "mock_answer P bp" "mock_admits bp" for E P bp fr h t base m
proof
  fix a s e r s'
  assume m: "account_models E bp fr h t base m a s" and adm: "mock_admits bp a e" and run: "perform E P bp fr s t e = Inr (r, s')"
  obtain hist cs where a: "a = (hist, cs)"
    by (cases a)
  obtain h' where own: "owns s h' base" "h_stub h' = h_stub h" "h_mp h' = h_mp h" "h_st h' = h_st h"
    using m by auto
  have set: "setting_ok E bp" and inv: "mock_inv E bp fr s (h_stub h) (h_mp h) hist cs" and cs: "no_calls cs"
    and t: "trampoline_of s (h_stub h) = t" and fits: "log_fits bp (hist @ spec_history [e])" and e: "event_ok bp e"
    using m adm by (simp_all add: a)
  note p = perform_owns [OF set inv cs fits e run [folded t] own(1-3)]
  have "mock_models E bp fr (h_stub h) (h_mp h) t (mock_follow e a) s' \<and> r = mock_answer P bp a s' e"
    using m adm run by (intro session.handled) simp_all
  moreover obtain h1 where "owns s' h1 base" and "advances s s' h' h1"
    using p(1) by blast
  then have "\<exists>h1. owns s' h1 base \<and> h_stub h1 = h_stub h \<and> h_mp h1 = h_mp h \<and> h_st h1 = h_st h"
    using own by (auto simp: advances_def)
  moreover have "\<forall>(q, k) \<in> set base. \<forall>x. in_region q (unat k) x \<longrightarrow>
      \<not> in_region (fr_params fr) (sizeof_params (bp_params bp)) x \<longrightarrow> mem s' x = m x"
    using p(2) m by auto
  ultimately show "account_models E bp fr h t base m (mock_follow e a) s' \<and> r = mock_answer P bp a s' e"
    by simp
qed

section \<open>From creation to reset\<close>

lemma mmk_init_mocks: "mmk_init E s = Inr s' \<Longrightarrow> mocks s' = mocks s"
  by (auto elim!: mmk_init_Inr)

lemma unpatch_cong:
  "m x = m' x \<or> (\<exists>a \<in> set (slots offs). in_region a 8 x) \<Longrightarrow> unpatch m offs x = unpatch m' offs x"
proof (induction offs arbitrary: m m')
  case (Cons off offs)
  have "st64 m (offset off) v x = st64 m' (offset off) v x" if "in_region (offset off) 8 x" for v
    using that by (simp add: st64_def wr_apply in_region_def)
  moreover have "st64 m (offset off) v x = st64 m' (offset off) v x" if "m x = m' x" for v
    using that by (rule st64_cong)
  ultimately show ?case
    using Cons.prems by (auto intro!: Cons.IH)
qed simp

lemma mock_create_owns:
  assumes set: "setting_ok E bp" and wf: "core_wf E s" and quiet: "quiet bp fr s"
    and init: "mmk_init E s = Inr s1" and slots: "target_slots s1 target = Some as" "slots_ok (live s) as"
    and self: "self_target target"
    and run: "mmk_mock_create_internal E s target (bp_stub bp) noabort = Inr (t, s')" and t: "t \<noteq> NULL"
  shows "\<exists>h. trampoline_of s' (h_stub h) = t \<and> mock_inv E bp fr s' (h_stub h) (h_mp h) [] [] \<and> owns s' h (live s) \<and>
    slots (stub_offsets (h_st h)) = as \<and> h_bps h = [] \<and> h_mss h = [] \<and>
    (\<forall>(q, k) \<in> set (live s). \<forall>x. in_region q (unat k) x \<longrightarrow> unpatch (mem s') (stub_offsets (h_st h)) x = mem s x) \<and>
    (\<forall>p. p \<noteq> h_stub h \<longrightarrow> stubs s' p = stubs s p) \<and> (\<forall>p. p \<noteq> h_mp h \<longrightarrow> mocks s' p = mocks s p) \<and>
    matchers s' = matchers s \<and> bindings s' = bindings s \<and> core_wf E s'"
proof -
  have L: "libc_ok (c_lib E)" and code: "length (trampoline_code E) + 16 \<le> unat PAGE_SIZE"
    using set by (simp_all add: setting_ok_def)
  obtain mp s2 np n s3 stub s4 mk st where mp: "mmk_malloc (c_lib E) s1 sizeof_mmk_mock_ctx = Inr (mp, s2)" "mp \<noteq> NULL"
    and np: "mmk_malloc (c_lib E) (s2\<lparr>mocks := (mocks s2)(mp \<mapsto> \<lparr>mk_params = NULL, mk_stubs = NULL,
        mk_call_data = NULL, mk_call_data_top = 0, mk_call_data_size = 0\<rparr>)\<rparr>) n = Inr (np, s3)" "np \<noteq> NULL"
    and sc: "mmk_stub_create E s3 target (bp_stub bp) mp = Inr (stub, s4)" "stub \<noteq> NULL"
    and mk: "mocks s4 mp = Some mk"
    and fin: "mmk_free (s4\<lparr>mocks := (mocks s4)(mp \<mapsto> mk\<lparr>mk_stubs := stub\<rparr>)\<rparr>) np = Inr s'"
    and st: "stubs s' stub = Some st" "t = stub_trampoline st"
    by (rule mock_create_steps [OF run t self]) (use init in auto)
  have keep1: "mem s1 = mem s" "live s1 = live s"
    using mmk_init_keeps [OF init] by simp_all
  let ?mk0 = "\<lparr>mk_params = NULL, mk_stubs = NULL, mk_call_data = NULL, mk_call_data_top = 0, mk_call_data_size = 0\<rparr>"
  have s3: "s3 = s1\<lparr>live := (np, n) # (mp, sizeof_mmk_mock_ctx) # live s, mocks := (mocks s1)(mp \<mapsto> ?mk0)\<rparr>"
    using mp np by (auto simp: mmk_malloc_Inr_iff keep1)
  have fresh: "fresh_block (live s) mp sizeof_mmk_mock_ctx" "fresh_block ((mp, sizeof_mmk_mock_ctx) # live s) np n"
    using mmk_malloc_fresh [OF L mp] mmk_malloc_fresh [OF L np] mp by (simp_all add: keep1 mmk_malloc_Inr_iff)
  have wf1: "core_wf E s1" and ini: "initialized s1 \<noteq> 0" and rdy: "vitals_ready (vit s1)"
    using mmk_init_wf [OF wf init] mmk_init_initialized [OF init] mmk_init_ready [OF wf init] by auto
  have wf3: "core_wf E s3" and init3: "mmk_init E s3 = Inr s3"
    using wf1 ini fresh wf by (simp_all add: core_wf_def s3 mmk_init_def)
  have sl3: "target_slots s3 target = Some as"
    using slots(1) by (simp add: s3 target_slots_def cong: option.case_cong sum.case_cong)
  obtain nm op t' pr where blocks: "blocks_wf ((t' - 16, PAGE_SIZE) # (op, of_nat (16 * length as)) #
      (nm, of_nat (length target + 1)) # (stub, sizeof_mmk_stub) # live s3)"
    and s4: "s4 = stubbed_state E (s3\<lparr>live := (stub, sizeof_mmk_stub) # live s3\<rparr>) stub target (bp_stub bp) mp nm op t' as pr"
    by (rule mmk_stub_create_Inr [OF L wf3 sc(1)]) (use sc(2) init3 sl3 in auto)
  let ?new = "[(t' - 16, PAGE_SIZE), (op, of_nat (16 * length as)), (nm, of_nat (length target + 1)), (stub, sizeof_mmk_stub)]"
  have live4: "live s4 = ?new @ (np, n) # (mp, sizeof_mmk_mock_ctx) # live s"
    by (simp add: s4 stubbed_state_def Let_def s3)
  have "fp_free (vit s4) \<noteq> NULL"
    using rdy by (simp add: s4 stubbed_state_def Let_def s3 vitals_ready_def)
  then have s': "s' = s4\<lparr>live := ?new @ (mp, sizeof_mmk_mock_ctx) # live s, mocks := (mocks s4)(mp \<mapsto> mk\<lparr>mk_stubs := stub\<rparr>)\<rparr>"
    using fin mmk_free_block [of "s4\<lparr>mocks := (mocks s4)(mp \<mapsto> mk\<lparr>mk_stubs := stub\<rparr>)\<rparr>" ?new np n "(mp, sizeof_mmk_mock_ctx) # live s"]
      live4 blocks by (simp add: s3)
  have wf': "blocks_wf ((?new @ [(mp, sizeof_mmk_mock_ctx)]) @ live s)"
    using blocks_wf_unblock [of "live s4" np] unblock_middle [of ?new np n] blocks by (simp add: live4 s3)
  let ?m = "wr (mem s) (t' - 16) (trampoline_bytes (trampoline_code E) stub (bp_stub bp))"
  let ?offs = "fst (patch ?m (new_slots as) t')"
  have mem': "mem s' = snd (patch ?m (new_slots as) t')" and mk0: "mk = ?mk0"
    using mk by (simp_all add: s' s4 stubbed_state_def Let_def s3 keep1)
  have st': "stub_next st = NULL" "stub_offsets st = ?offs" "stub_offsets_ptr st = op" "stub_name_ptr st = nm"
      "stub_trampoline st = t'" "stub_ctx st = mp"
    using st by (auto simp: s' s4 stubbed_state_def Let_def s3 keep1)
  have un: "unpatch (mem s') ?offs = ?m"
    using unpatch_patch [of "new_slots as" ?m t'] slots(2) by (simp add: mem' slots_ok_def)
  let ?h = "\<lparr>h_stub = stub, h_mp = mp, h_st = st, h_mk = mk\<lparr>mk_stubs := stub\<rparr>, h_bps = [], h_mss = []\<rparr>"
  have "owns s' ?h (live s)"
  proof -
    have "accounts (live s) [] (live s)"
      by (simp add: accounts_Nil)
    from accounts_alloc [OF this blocks_wf_distinct [OF wf'], of "[t' - 16, op, nm, stub, mp]"]
    have "accounts (live s') [t' - 16, op, nm, stub, mp] (live s)"
      by (simp add: s')
    then have "accounts (live s') (blocks_of ?h) (live s)"
      by (subst accounts_perm [of _ "[t' - 16, op, nm, stub, mp]"]) (simp_all add: blocks_of_def log_blocks_def st' mk0)
    moreover have "holds s' ?h"
      using st st' by (simp add: holds_def s' mk0 chained_def)
    ultimately show ?thesis
      by (simp add: owns_def)
  qed
  moreover have "(\<forall>p. p \<noteq> stub \<longrightarrow> stubs s' p = stubs s p) \<and> (\<forall>p. p \<noteq> mp \<longrightarrow> mocks s' p = mocks s p) \<and>
    matchers s' = matchers s \<and> bindings s' = bindings s"
    using mmk_init_fields [OF init] mmk_init_mocks [OF init] by (simp add: s' s4 stubbed_state_def Let_def s3)
  moreover have "core_wf E s'"
    using wf1 wf' by (simp add: core_wf_def s' s4 stubbed_state_def Let_def s3)
  moreover have "unpatch (mem s') ?offs x = mem s x" if "(q, k) \<in> set (live s)" "in_region q (unat k) x" for q k x
  proof -
    have page: "fresh_block ((op, of_nat (16 * length as)) # (nm, of_nat (length target + 1)) # (stub, sizeof_mmk_stub) # live s3) (t' - 16) PAGE_SIZE"
      using blocks by (simp only: blocks_wf.simps fst_conv snd_conv)
    have "separate (t' - 16) (unat PAGE_SIZE) q (unat k)"
      using that(1) by (intro fresh_block_separate [OF page]) (simp add: s3)
    then have "\<not> in_region (t' - 16) (16 + length (trampoline_code E)) x"
      using that(2) code in_region_prefix [of "t' - 16" _ x "unat PAGE_SIZE"] by (auto simp: separate_def)
    then show ?thesis
      using code by (simp add: un wr_outside PAGE_SIZE_def)
  qed
  moreover have "trampoline_of s' stub = t \<and> mock_inv E bp fr s' stub mp [] []"
  proof -
    obtain stub0 mp0 where 0: "trampoline_of s' stub0 = t" "mock_inv E bp fr s' stub0 mp0 [] []"
      using mock_create_establishes(1) [OF assms] by blast
    then have i: "installed E s' stub0 (bp_stub bp) mp0"
      by (simp add: mock_inv_def)
    have "installed E s4 stub (bp_stub bp) mp"
      using slots_ok_Cons [OF slots_ok_Cons [OF slots(2)]]
      by (intro mmk_stub_create_installs(1) [OF L wf3 code init3 sl3 _ sc]) (simp add: s3)
    then have "trampoline_ctx (mem s') t = stub"
      using st by (auto simp: installed_def s' split: option.splits)
    moreover have "trampoline_ctx (mem s') t = stub0" and "\<exists>st0. stubs s' stub0 = Some st0 \<and> stub_ctx st0 = mp0"
      using i 0(1) by (auto simp: installed_def trampoline_of_def split: option.splits)
    ultimately show ?thesis
      using 0 st st' by auto
  qed
  ultimately show ?thesis
    using st' by (intro exI [of _ ?h]) (simp, blast)
qed

text \<open>Resetting a mock.\<close>

lemma mmk_reset_owned:
  assumes inv: "mock_inv E bp fr s stub mp hist cs" and own: "owns s h base" and h: "h_stub h = stub" "h_mp h = mp"
  shows "mmk_reset E s (trampoline_of s stub) = Inr (s\<lparr>ask_ctx := 0, mmk_ctx_var := stub,
      mem := unpatch (mem s) (stub_offsets (h_st h)), live := base,
      stubs := (stubs s)(stub := None), matchers := matchers s |` (- set (concat (h_mss h))),
      bindings := bindings s |` (- set (h_bps h)), mocks := (mocks s)(mp := None)\<rparr>)"
proof -
  have heap: "heap_ok s" and inst: "installed E s stub (bp_stub bp) mp"
    using inv by (auto simp: mock_inv_def)
  let ?s = "s\<lparr>ask_ctx := 0, mmk_ctx_var := stub\<rparr>"
  have ask: "mmk_ask_ctx E s (trampoline_of s stub) = Inr (stub, ?s)" and ctx: "mmk_stub_context ?s stub = Inr mp"
    using ask_installed [OF inst] installed_context [OF inst]
    by (simp_all add: mmk_stub_context_def split: if_splits)
  have nn: "NULL \<notin> fst ` set (live s)"
    using heap by (auto simp: heap_ok_def dest: blocks_wf_NULL)
  have "trampoline_of s stub \<noteq> NULL"
  proof
    assume "trampoline_of s stub = NULL"
    then have "(- 16, PAGE_SIZE) \<in> set (live s)"
      using inst by (auto simp: installed_def is_trampoline_def trampoline_of_def split: option.splits)
    then have "unat (- 16 :: addr) + unat PAGE_SIZE < 2 ^ 64"
      using heap by (intro blocks_wf_no_wrap [of "live s"]) (simp_all add: heap_ok_def)
    then show False
      by (simp add: PAGE_SIZE_def)
  qed
  moreover have "owns ?s h base" and "NULL \<notin> fst ` set (live ?s)" and "fp_free (vit ?s) \<noteq> NULL"
    using own nn heap by (simp_all add: owns_def holds_def chained_def heap_ok_def vitals_ready_def)
  ultimately show ?thesis
    using ask ctx mock_destroy_accounted [of ?s h base] h by (simp add: mmk_reset_def)
qed

lemma reset_restores:
  assumes set: "setting_ok E bp" and wf: "core_wf E s" and quiet: "quiet bp fr s"
    and init: "mmk_init E s = Inr s1" and slots: "target_slots s1 target = Some as" "slots_ok (live s) as"
    and self: "self_target target"
    and run: "mmk_mock_create_internal E s target (bp_stub bp) noabort = Inr (t, s2)" and t: "t \<noteq> NULL"
    and ok: "\<forall>e \<in> set es. event_ok bp e" and fits: "log_fits bp (spec_history es)"
    and session: "performs E P bp fr s2 t es = Inr (rs, s3)"
  shows "\<exists>s4. mmk_reset E s3 t = Inr s4 \<and> live s4 = live s \<and> (\<forall>a \<in> set as. ld64 (mem s4) a = ld64 (mem s) a) \<and>
    (\<forall>(q, k) \<in> set (live s). \<forall>x. in_region q (unat k) x \<longrightarrow>
      \<not> in_region (fr_params fr) (sizeof_params (bp_params bp)) x \<longrightarrow> mem s4 x = mem s x)"
proof -
  obtain h where tr: "trampoline_of s2 (h_stub h) = t" and inv: "mock_inv E bp fr s2 (h_stub h) (h_mp h) [] []"
    and own: "owns s2 h (live s)" and as: "slots (stub_offsets (h_st h)) = as"
    and un: "\<forall>(q, k) \<in> set (live s). \<forall>x. in_region q (unat k) x \<longrightarrow> unpatch (mem s2) (stub_offsets (h_st h)) x = mem s x"
    using mock_create_owns [OF assms(1-9)] by blast
  define offs where "offs = stub_offsets (h_st h)"
  note as = as [folded offs_def] and un = un [folded offs_def]
  have fits': "log_fits bp ([] @ spec_history es)"
    using fits by simp
  have "account_models E bp fr h t (live s) (mem s2) ([], []) s2"
    using set tr inv own by (auto simp: no_calls_def)
  from account.run_models [OF this mock_admitted [OF ok fits'] session [unfolded performs_def]]
  obtain h3 where inv3: "mock_inv E bp fr s3 (h_stub h) (h_mp h) (spec_history es) (spec_contracts es [])"
    "trampoline_of s3 (h_stub h) = t"
    and own3: "owns s3 h3 (live s)" "h_stub h3 = h_stub h" "h_mp h3 = h_mp h" "h_st h3 = h_st h"
    and kept: "\<forall>(q, k) \<in> set (live s). \<forall>x. in_region q (unat k) x \<longrightarrow>
      \<not> in_region (fr_params fr) (sizeof_params (bp_params bp)) x \<longrightarrow> mem s3 x = mem s2 x"
    by (auto simp: fold_mock_follow)
  obtain s4 where r: "mmk_reset E s3 t = Inr s4" and s4: "mem s4 = unpatch (mem s3) offs" "live s4 = live s"
    using mmk_reset_owned [OF inv3(1) own3(1-3)] unfolding inv3(2) by (simp add: own3 offs_def)
  have restored: "unpatch (mem s3) offs x = mem s x" if "(q, k) \<in> set (live s)" "in_region q (unat k) x"
    "(\<exists>a \<in> set as. in_region a 8 x) \<or> \<not> in_region (fr_params fr) (sizeof_params (bp_params bp)) x" for q k x
  proof -
    have "unpatch (mem s3) offs x = unpatch (mem s2) offs x"
      using kept that as by (intro unpatch_cong) auto
    with un that(1,2) show ?thesis
      by auto
  qed
  have "ld64 (unpatch (mem s3) offs) a = ld64 (mem s) a" if a: "a \<in> set as" for a
  proof (intro ld64_cong rd_cong)
    fix i :: nat
    assume "i < 8"
    then have i: "in_region a 8 (a + of_nat i)"
      by (intro in_region_nth) simp_all
    obtain q k where qk: "(q, k) \<in> set (live s)" "within q k a 8"
      using slots(2) a by (auto simp: slots_ok_def)
    have "(\<exists>a \<in> set as. in_region a 8 (a + of_nat i)) \<or> \<not> in_region (fr_params fr) (sizeof_params (bp_params bp)) (a + of_nat i)"
      using a i by blast
    then show "unpatch (mem s3) offs (a + of_nat i) = mem s (a + of_nat i)"
      using a i by (intro restored [OF qk(1) within_in_region [OF qk(2) i]]) blast
  qed
  then show ?thesis
    using r s4 restored by auto
qed

end
