(* ===== verification/Mock_Properties.thy ===== *)
theory Mock_Properties
  imports Mock_Demo Mock_Lifecycle
begin

text \<open>
  The properties of mocks (\<open>src/mock.c\<close>, \<open>src/when.c\<close>, \<open>src/verify.c\<close> and \<open>include/mimick/mock.h\<close>), each with a witness at
  the process of theory \<open>Demo\<close>.
\<close>

text \<open>C1: a mock implements its specification. From the creation of a mock on, whatever behaviours are set up, whatever calls
  are made and whatever is verified, in any order, the next event gives the value that the specification computes from the
  list of past calls and the list of behaviours: a call gives the result of the newest behaviour that accepts it, and a
  verification judges the number of past calls that its matchers accept.\<close>

theorem mock_session_refines:
  assumes "setting_ok E bp" and "core_wf E s" and "quiet bp fr s" and "mmk_init E s = Inr s1"
    and "target_slots s1 target = Some as" and "slots_ok (live s) as" and "self_target target"
    and "mmk_mock_create_internal E s target (bp_stub bp) noabort = Inr (t, s2)" and "t \<noteq> NULL"
    and "\<forall>e \<in> set (es @ [e]). event_ok bp e" and "log_fits bp (spec_history (es @ [e]))"
    and "performs E P bp fr s2 t es = Inr (rs, s3)" and "perform E P bp fr s3 t e = Inr (r, s4)"
  shows "r = spec_value P bp (mem s4) (spec_history es) (spec_contracts es []) e"
proof -
  obtain stub mp where t: "trampoline_of s2 stub = t" and inv: "mock_inv E bp fr s2 stub mp [] []"
    using mock_create_establishes(1) [OF assms(1-9)] by blast
  have "mock_models E bp fr stub mp t ([], []) s2"
    using assms(1) t inv by (simp add: no_calls_def)
  moreover have "admitted mock_follow (mock_admits bp) ([], []) (es @ [e])"
    using assms(10,11) by (intro mock_admitted) simp_all
  ultimately have "r = mock_answer P bp (fold mock_follow es ([], [])) s4 e"
    by (rule session.run_answers [OF _ _ assms(12) [unfolded performs_def] assms(13)])
  then show ?thesis
    by (simp add: fold_mock_follow)
qed

theorem mock_session_refines_witness:
  "\<exists>s0 rs s s'. mmk_mock_create_internal demo_env demo ''f'' 0x500000 False = Inr (0x210010, s0) \<and>
     performs demo_env demo_program demo_blueprint demo_frame s0 0x210010 demo_events = Inr (rs, s) \<and>
     perform demo_env demo_program demo_blueprint demo_frame s 0x210010
       (Checks [(MMK_MATCHER_EQ, 0, NULL)] [3] (no_keys\<lparr>vp_times := 1\<rparr>)) = Inr (1, s')"
proof -
  obtain s0 rs s r s' where c: "mmk_mock_create_internal demo_env demo ''f'' 0x500000 False = Inr (0x210010, s0)"
    and p: "performs demo_env demo_program demo_blueprint demo_frame s0 0x210010 demo_events = Inr (rs, s)"
    and v: "perform demo_env demo_program demo_blueprint demo_frame s 0x210010
      (Checks [(MMK_MATCHER_EQ, 0, NULL)] [3] (no_keys\<lparr>vp_times := 1\<rparr>)) = Inr (r, s')"
    by (rule demo_session)
  have acc: "accepts (\<lambda>_ v. if v = 3 then 1 else 0) [(0, MMK_MATCHER_EQ, NULL)] [3] [3]"
    by (simp add: accepts_def matcher_accepts_kinds node_of_def)
  have init: "mmk_init demo_env demo = Inr demo" and self: "self_target ''f''"
    and ok: "slots_ok (live demo) [0x4001f8]"
    by (simp_all add: mmk_init_def demo_slots_ok self_target_def)
  have "r = spec_value demo_program demo_blueprint (mem s') (spec_history demo_events) (spec_contracts demo_events [])
      (Checks [(MMK_MATCHER_EQ, 0, NULL)] [3] (no_keys\<lparr>vp_times := 1\<rparr>))"
    by (rule mock_session_refines [OF demo_setting demo_wf(1) demo_quiet init demo_target_slots ok self _ _ _ _ p v])
      (use c in \<open>simp_all add: demo_events_def log_fits_def in_range_def\<close>)
  also have "\<dots> = 1"
    using acc by (simp add: demo_events_def count_of_def verdict_def mmk_verify_times_def Let_def no_keys_def truth_def
        sort_key_def)
  finally show ?thesis
    using c p v by blast
qed

text \<open>C3: a mock leaves nothing behind. Whatever a test did with a mock since its creation, resetting it succeeds, frees
  every block that was allocated for it (stub, trampoline, log, behaviours, matchers and their arguments), gives every slot
  of the target its value from before the creation, and no byte of another block has changed since then, the stack frame of
  the stub function apart.\<close>

theorem mock_life_cycle:
  assumes "setting_ok E bp" and "core_wf E s" and "quiet bp fr s" and "mmk_init E s = Inr s1"
    and "target_slots s1 target = Some as" and "slots_ok (live s) as" and "self_target target"
    and "mmk_mock_create_internal E s target (bp_stub bp) noabort = Inr (t, s2)" and "t \<noteq> NULL"
    and "\<forall>e \<in> set es. event_ok bp e" and "log_fits bp (spec_history es)"
    and "performs E P bp fr s2 t es = Inr (rs, s3)"
  shows "\<exists>s4. mmk_reset E s3 t = Inr s4 \<and> live s4 = live s \<and> (\<forall>a \<in> set as. ld64 (mem s4) a = ld64 (mem s) a) \<and>
    (\<forall>(q, k) \<in> set (live s). \<forall>x. in_region q (unat k) x \<longrightarrow>
      \<not> in_region (fr_params fr) (sizeof_params (bp_params bp)) x \<longrightarrow> mem s4 x = mem s x)"
  by (rule reset_restores [OF assms])

theorem mock_life_cycle_witness:
  "\<exists>s0 rs s s4. mmk_mock_create_internal demo_env demo ''f'' 0x500000 False = Inr (0x210010, s0) \<and>
     performs demo_env demo_program demo_blueprint demo_frame s0 0x210010 demo_events = Inr (rs, s) \<and>
     length (live s) = 11 \<and> ld64 (mem s0) 0x4001f8 = 0x210010 \<and>
     mmk_reset demo_env s 0x210010 = Inr s4 \<and> live s4 = live demo \<and> ld64 (mem s4) 0x4001f8 = ld64 (mem demo) 0x4001f8"
proof -
  obtain s0 rs s where c: "mmk_mock_create_internal demo_env demo ''f'' 0x500000 False = Inr (0x210010, s0)"
    and p: "performs demo_env demo_program demo_blueprint demo_frame s0 0x210010 demo_events = Inr (rs, s)"
    and n: "length (live s) = 11"
    by (rule demo_session [of False]) simp
  have init: "mmk_init demo_env demo = Inr demo" and self: "self_target ''f''"
    and ok: "slots_ok (live demo) [0x4001f8]"
    by (simp_all add: mmk_init_def demo_slots_ok self_target_def)
  have c': "mmk_mock_create_internal demo_env demo ''f'' (bp_stub demo_blueprint) False = Inr (0x210010, s0)"
    and t: "(0x210010 :: addr) \<noteq> NULL"
    using c by simp_all
  have "ld64 (mem s0) 0x4001f8 = 0x210010"
    using mock_create_establishes(3) [OF demo_setting demo_wf(1) demo_quiet init demo_target_slots ok self c' t] by simp
  moreover obtain s4 where "mmk_reset demo_env s 0x210010 = Inr s4" and "live s4 = live demo"
    and "ld64 (mem s4) 0x4001f8 = ld64 (mem demo) 0x4001f8"
    using mock_life_cycle [OF demo_setting demo_wf(1) demo_quiet init demo_target_slots ok self c' t _ _ p]
    by (auto simp: demo_events_def log_fits_def in_range_def)
  ultimately show ?thesis
    using c p n by blast
qed

text \<open>C15: creating a mock redirects every slot of its target to the trampoline that is returned, and leaves a
  mock without history and behaviours: a call through any slot runs the stub function of the mock.\<close>

theorem mock_create_redirects:
  assumes "setting_ok E bp" and "core_wf E s" and "quiet bp fr s" and "mmk_init E s = Inr s1"
    and "target_slots s1 target = Some as" and "slots_ok (live s) as" and "self_target target"
    and "mmk_mock_create_internal E s target (bp_stub bp) noabort = Inr (t, s2)" and "t \<noteq> NULL"
  shows "as \<noteq> [] \<and> (\<forall>a \<in> set as. ld64 (mem s2) a = t) \<and>
    (\<exists>stub mp. mock_inv E bp fr s2 stub mp [] [] \<and>
      (\<forall>P args. call_mock E P bp fr s2 t args = mock_stub E P bp fr (s2\<lparr>mmk_ctx_var := stub, ask_ctx := 0\<rparr>) args))"
proof -
  obtain stub mp where "trampoline_of s2 stub = t" and inv: "mock_inv E bp fr s2 stub mp [] []"
    using mock_create_establishes(1) [OF assms] by blast
  moreover from this have "call_mock E P bp fr s2 t args = mock_stub E P bp fr (s2\<lparr>mmk_ctx_var := stub, ask_ctx := 0\<rparr>) args"
    for P args using enter_mock [of E s2 stub bp mp P fr args] by (simp add: mock_inv_def at_rest_def)
  ultimately show ?thesis
    using mock_create_establishes(2,3) [OF assms] by blast
qed

theorem mock_create_redirects_witness:
  "\<exists>s. mmk_mock_create_internal demo_env demo ''f'' 0x500000 True = Inr (0x210010, s) \<and> ld64 (mem s) 0x4001f8 = 0x210010"
proof -
  obtain s stub where s: "mmk_mock_create_internal demo_env demo ''f'' 0x500000 True = Inr (0x210010, s)"
    by (rule demo_created)
  have "mmk_init demo_env demo = Inr demo" and "slots_ok (live demo) [0x4001f8]" and "self_target ''f''"
    by (simp_all add: mmk_init_def demo_slots_ok self_target_def)
  from mock_create_redirects [OF demo_setting demo_wf(1) demo_quiet this(1) demo_target_slots this(2,3) _ _, of True] s
  show ?thesis
    by simp
qed

text \<open>C8: a call of a mock is logged, returns what the newest behaviour that accepts its arguments says (zero if there is none),
  and sets \<open>errno\<close> if that behaviour says so.\<close>

theorem call_follows_newest_behaviour:
  assumes "setting_ok E bp" and "mock_inv E bp fr s stub mp hist cs" and "list_all2 in_range (bp_params bp) args"
    and "log_fits bp hist" and "calls_nothing (chosen (predicate P) args cs)"
    and "call_mock E P bp fr s (trampoline_of s stub) args = Inr (r, s')"
  shows "mock_inv E bp fr s' stub mp (hist @ [args]) cs \<and> r = result_of bp (mem s') (chosen (predicate P) args cs) \<and>
    errno s' = errno_of (errno s) (chosen (predicate P) args cs)"
  using call_mock_Inr(1-3) [OF assms] by blast

theorem call_follows_newest_behaviour_witness:
  "\<exists>s stub s'. mock_inv demo_env demo_blueprint demo_frame s stub 0x10000 [] [contract_of [(MMK_MATCHER_EQ, 0, NULL)] [3] demo_result] \<and>
     call_mock demo_env demo_program demo_blueprint demo_frame s (trampoline_of s stub) [3] =
       Inr (load_result demo_blueprint (mem s') 0x7f0200, s') \<and> errno s' = 12"
proof -
  let ?c = "contract_of [(MMK_MATCHER_EQ, 0, NULL)] [3] demo_result"
  obtain s stub r s' where s: "mock_inv demo_env demo_blueprint demo_frame s stub 0x10000 [] [?c]"
    "call_mock demo_env demo_program demo_blueprint demo_frame s (trampoline_of s stub) [3] = Inr (r, s')"
    by (rule demo_called)
  have "chosen (predicate demo_program) [3] [?c] = Some demo_result"
    by (simp add: chosen_def contract_of_def accepts_def matcher_accepts_kinds node_of_def)
  with call_follows_newest_behaviour [OF demo_setting s(1) _ _ _ s(2)] s show ?thesis
    by (auto simp: in_range_def log_fits_def calls_nothing_def result_of_def errno_of_def)
qed

text \<open>C9: a behaviour with \<open>then_call\<close>: its function runs when the call is already part of the history and \<open>errno\<close> is set, so that
  a verification or another call that it makes itself finds the mock intact; the value of the call is the one that the
  function returns, or the one at \<open>then_return\<close>, read afterwards.\<close>

theorem call_delegates:
  assumes "setting_ok E bp" and "mock_inv E bp fr s stub mp hist cs" and "list_all2 in_range (bp_params bp) args"
    and "log_fits bp hist" and "chosen (predicate P) args cs = Some res" and "then_call res \<noteq> NULL"
    and "call_mock E P bp fr s (trampoline_of s stub) args = Inr (r, s')"
  shows "\<exists>s1 v. mock_inv E bp fr s1 stub mp (hist @ [args]) cs \<and> errno s1 = errno_of (errno s) (Some res) \<and>
    delegate P (then_call res) args s1 = Inr (v, s') \<and> (then_return res = NULL \<longrightarrow> r = v) \<and>
    (then_return res \<noteq> NULL \<and> bindings s' = bindings s1 \<longrightarrow> r = load_result bp (mem s') (then_return res))"
  by (rule call_mock_delegates [OF assms(1-4,5,6,7)]) blast

theorem call_delegates_witness:
  "\<exists>s s'. call_mock demo_env demo_program demo_blueprint demo_frame s 0x210010 [3] = Inr (3, s') \<and> errno s' = 12 \<and>
     (\<exists>stub mp. mock_inv demo_env demo_blueprint demo_frame s' stub mp [[3]]
       [contract_of [(MMK_MATCHER_EQ, 0, NULL)] [3] (demo_result\<lparr>then_return := NULL, then_call := 0x600000\<rparr>)])"
proof -
  let ?as = "[(MMK_MATCHER_EQ, 0, NULL)]" and ?res = "demo_result\<lparr>then_return := NULL, then_call := 0x600000\<rparr>"
  let ?c = "contract_of ?as [3] ?res"
  obtain s :: mock_state and stub where live: "live s = [(0x210000, 0x1000), (0x110000, 16), (0x40000, 2), (0x30000, 80), (0x10000, 40),
       (0x400000, 0x1000), (0x7f0000, 0x1000)]"
    and t: "trampoline_of s stub = 0x210010"
    and inv: "mock_inv demo_env demo_blueprint demo_frame s stub 0x10000 [] []"
    and mk: "mocks s = [0x10000 \<mapsto> \<lparr>mk_params = NULL, mk_stubs = 0x30000, mk_call_data = NULL,
       mk_call_data_top = 0, mk_call_data_size = 0\<rparr>]"
    by (rule demo_created [where noabort = False])
  obtain s1 p where s1: "mmk_when demo_env demo_program demo_blueprint demo_frame s (trampoline_of s stub) ?as [3] ?res = Inr s1"
    and live1: "live s1 = [(0x60000, 80), (0x50000, 32), (0x20000, 32), (0x210000, 0x1000), (0x110000, 16), (0x40000, 2),
     (0x30000, 80), (0x10000, 40), (0x400000, 0x1000), (0x7f0000, 0x1000)]"
    and mk1: "mocks s1 0x10000 = Some \<lparr>mk_params = p, mk_stubs = 0x30000, mk_call_data = NULL,
       mk_call_data_top = 0, mk_call_data_size = 0\<rparr>"
    using mmk_when_returns [OF demo_setting inv, of ?as _ demo_program "[3]" ?res] live mk
    by (auto simp: t demo_when_allocations)
  note w = mmk_when_Inr [OF demo_setting inv s1]
  have t1: "trampoline_of s1 stub = 0x210010"
    using w(4) t by (simp add: trampoline_of_def)
  have ch: "chosen (predicate demo_program) [3] [?c] = Some ?res"
    by (simp add: chosen_def contract_of_def accepts_def matcher_accepts_kinds node_of_def)
  have args: "list_all2 in_range (bp_params demo_blueprint) [3]" and fits: "log_fits demo_blueprint []"
    by (simp_all add: in_range_def log_fits_def)
  have d: "delegate demo_program f xs s = Inr (hd xs, s)" for f xs s
    by (simp add: demo_program_def)
  have "log_room demo_env s1 \<lparr>mk_params = p, mk_stubs = 0x30000, mk_call_data = NULL, mk_call_data_top = 0,
      mk_call_data_size = 0\<rparr> (sizeof_params (bp_params demo_blueprint))"
    by (simp add: log_room_def live1 demo_when_allocations)
  then obtain r s' where call: "call_mock demo_env demo_program demo_blueprint demo_frame s1 (trampoline_of s1 stub) [3] = Inr (r, s')"
    using delegated_call_returns [OF demo_setting w(1) mk1 args fits _ ch] by (auto simp: d)
  from call_delegates [OF demo_setting w(1) args fits ch _ call]
  have "r = 3" and "errno s' = 12" and "mock_inv demo_env demo_blueprint demo_frame s' stub 0x10000 [[3]] [?c]"
    by (auto simp: d errno_of_def)
  with call t1 show ?thesis
    by auto
qed

text \<open>C17: a call of a mock writes only the log of the mock, its stack frame and \<open>errno\<close>: every other live block stays live and keeps its
  bytes, and stubs, matchers, behaviours and other mocks are as before.\<close>

theorem call_frame:
  assumes "setting_ok E bp" and "mock_inv E bp fr s stub mp hist cs" and "list_all2 in_range (bp_params bp) args"
    and "log_fits bp hist" and "calls_nothing (chosen (predicate P) args cs)"
    and "call_mock E P bp fr s (trampoline_of s stub) args = Inr (r, s')" and "mocks s mp = Some mk"
    and "(q, k) \<in> set (live s)" and "q \<noteq> mk_call_data mk"
    and "separate (fr_params fr) (sizeof_params (bp_params bp)) q (unat k)"
  shows "(q, k) \<in> set (live s') \<and> (\<forall>x. in_region q (unat k) x \<longrightarrow> mem s' x = mem s x) \<and> stubs s' = stubs s \<and>
    matchers s' = matchers s \<and> bindings s' = bindings s \<and> (\<forall>p. p \<noteq> mp \<longrightarrow> mocks s' p = mocks s p)"
  using call_mock_Inr(4-7) [OF assms(1-6)] call_mock_Inr(8) [OF assms(1-6) assms(8,7,9,10)] by blast

theorem call_frame_witness:
  "\<exists>s stub r s'. call_mock demo_env demo_program demo_blueprint demo_frame s (trampoline_of s stub) [3] = Inr (r, s') \<and>
     (0x400000, 0x1000) \<in> set (live s') \<and> mem s' 0x4001f8 = mem s 0x4001f8"
proof -
  let ?c = "contract_of [(MMK_MATCHER_EQ, 0, NULL)] [3] demo_result"
  obtain s stub r s' p where s: "mock_inv demo_env demo_blueprint demo_frame s stub 0x10000 [] [?c]"
    "call_mock demo_env demo_program demo_blueprint demo_frame s (trampoline_of s stub) [3] = Inr (r, s')"
    "mocks s 0x10000 = Some \<lparr>mk_params = p, mk_stubs = 0x30000, mk_call_data = NULL, mk_call_data_top = 0, mk_call_data_size = 0\<rparr>"
    "(0x400000, 0x1000) \<in> set (live s)"
    by (rule demo_called)
  have "chosen (predicate demo_program) [3] [?c] = Some demo_result"
    by (simp add: chosen_def contract_of_def accepts_def matcher_accepts_kinds node_of_def)
  with call_frame [OF demo_setting s(1) _ _ _ s(2,3,4)]
  have "(0x400000, 0x1000) \<in> set (live s')" and f: "\<forall>x. in_region 0x400000 0x1000 x \<longrightarrow> mem s' x = mem s x"
    by (simp_all add: in_range_def log_fits_def calls_nothing_def separate_iff)
  moreover have "mem s' 0x4001f8 = mem s 0x4001f8"
    using spec [OF f, of "0x4001f8"] by (simp add: in_region_def)
  ultimately show ?thesis
    using s(2) by blast
qed
text \<open>C11: \<open>mmk_when\<close> puts one behaviour in front of those of the mock: its matchers in the order of their counters
  (whatever the order in which the arguments were evaluated), the reference values and the result. The log is as before.\<close>

theorem when_registers:
  assumes "setting_ok E bp" and "mock_inv E bp fr s stub mp hist cs"
    and "mmk_when E P bp fr s (trampoline_of s stub) as args res = Inr s'"
  shows "mock_inv E bp fr s' stub mp hist ((sort_key fst (rev (map arg_key as)), args, res) # cs) \<and>
    mem s' = mem s \<and> errno s' = errno s \<and> stubs s' = stubs s \<and> set (live s) \<subseteq> set (live s')"
  using mmk_when_Inr [OF assms] by (simp add: contract_of_def)

theorem when_registers_witness:
  "\<exists>s stub s'. mmk_when demo_env demo_program demo_blueprint demo_frame s 0x210010 [(MMK_MATCHER_EQ, 0, NULL)] [3] demo_result = Inr s' \<and>
     mock_inv demo_env demo_blueprint demo_frame s' stub 0x10000 [] [([(0, MMK_MATCHER_EQ, NULL)], [3], demo_result)]"
proof -
  let ?as = "[(MMK_MATCHER_EQ, 0, NULL)]"
  obtain s :: mock_state and stub where live: "live s = [(0x210000, 0x1000), (0x110000, 16), (0x40000, 2), (0x30000, 80), (0x10000, 40),
       (0x400000, 0x1000), (0x7f0000, 0x1000)]"
    and t: "trampoline_of s stub = 0x210010"
    and inv: "mock_inv demo_env demo_blueprint demo_frame s stub 0x10000 [] []"
    by (rule demo_created [where noabort = False])
  obtain s' where w: "mmk_when demo_env demo_program demo_blueprint demo_frame s (trampoline_of s stub) ?as [3] demo_result = Inr s'"
    using mmk_when_returns [OF demo_setting inv, of ?as _ demo_program "[3]" demo_result] live
    by (auto simp: demo_when_allocations)
  from when_registers [OF demo_setting inv w] w show ?thesis
    unfolding t by auto
qed

text \<open>C7: \<open>mmk_verify\<close> counts the past calls that its matchers accept and judges the count by its keys; it frees its matchers and leaves
  no trace other than the two variables that hold the context and the count.\<close>

theorem verify_counts_and_leaves_no_trace:
  assumes "setting_ok E bp" and "mock_inv E bp fr s stub mp hist cs" and "sizeof_params (bp_params bp) < 2 ^ 64"
    and "mmk_verify E P bp fr s (trampoline_of s stub) as args params = Inr (v, s')"
  shows "s' = s\<lparr>mmk_ctx_var := stub, times_var := of_nat (length (filter
      (accepts (predicate P) (sort_key fst (rev (map arg_key as))) args) hist))\<rparr> \<and>
    v = mmk_verify_times (matching_fn P) s' params \<and> mock_inv E bp fr s' stub mp hist cs"
  using mmk_verify_Inr [OF assms] by (simp add: count_of_def)

theorem verify_counts_and_leaves_no_trace_witness:
  "\<exists>s s'. mmk_verify demo_env demo_program demo_blueprint demo_frame s 0x210010 [(MMK_MATCHER_EQ, 0, NULL)] [3]
       (no_keys\<lparr>vp_times := 1\<rparr>) = Inr (1, s') \<and> times_var s' = 1 \<and> live s' = live s"
proof -
  let ?as = "[(MMK_MATCHER_EQ, 0, NULL)]" and ?k = "no_keys\<lparr>vp_times := 1\<rparr>"
  obtain s stub r s' where p: "perform demo_env demo_program demo_blueprint demo_frame s 0x210010 (Checks ?as [3] ?k) = Inr (r, s')"
    and inv: "mock_inv demo_env demo_blueprint demo_frame s stub 0x10000 [[3]] [contract_of ?as [3] demo_result]"
    and t: "trampoline_of s stub = 0x210010"
    by (rule demo_session)
  obtain v s' where v: "mmk_verify demo_env demo_program demo_blueprint demo_frame s (trampoline_of s stub) ?as [3] ?k = Inr (v, s')"
    using p unfolding t by (auto simp: ends)
  have "accepts (\<lambda>_ v. if v = 3 then 1 else 0) [(0, MMK_MATCHER_EQ, NULL)] [3] [3]"
    by (simp add: accepts_def matcher_accepts_kinds node_of_def)
  with verify_counts_and_leaves_no_trace [OF demo_setting inv _ v] have "v = 1" "times_var s' = 1" "live s' = live s"
    by (auto simp: mmk_verify_times_def no_keys_def Let_def truth_def)
  with v show ?thesis
    unfolding t by blast
qed

text \<open>C10: a call of a mock terminates without undefined behaviour: the only fault it can end in is the assertion that the log
  could be allocated.\<close>

theorem call_never_crashes:
  assumes "setting_ok E bp" and "mock_inv E bp fr s stub mp hist cs" and "list_all2 in_range (bp_params bp) args"
    and "log_fits bp hist" and "calls_nothing (chosen (predicate P) args cs)"
  shows "(\<exists>r s'. call_mock E P bp fr s (trampoline_of s stub) args = Inr (r, s')) \<or>
    call_mock E P bp fr s (trampoline_of s stub) args = Inl (Assert_failed ''mock->call_data'')"
proof (cases "call_mock E P bp fr s (trampoline_of s stub) args")
  case (Inl e)
  then show ?thesis
    using call_mock_Inl [OF assms Inl] by simp
qed auto

theorem call_never_crashes_witness:
  "\<exists>s stub r s'. mock_inv demo_env demo_blueprint demo_frame s stub 0x10000 [] [contract_of [(MMK_MATCHER_EQ, 0, NULL)] [3] demo_result] \<and>
     call_mock demo_env demo_program demo_blueprint demo_frame s (trampoline_of s stub) [3] = Inr (r, s')"
proof -
  let ?c = "contract_of [(MMK_MATCHER_EQ, 0, NULL)] [3] demo_result"
  obtain s stub r s' where s: "mock_inv demo_env demo_blueprint demo_frame s stub 0x10000 [] [?c]"
    "call_mock demo_env demo_program demo_blueprint demo_frame s (trampoline_of s stub) [3] = Inr (r, s')"
    by (rule demo_called)
  have "chosen (predicate demo_program) [3] [?c] = Some demo_result"
    by (simp add: chosen_def contract_of_def accepts_def matcher_accepts_kinds node_of_def)
  with call_never_crashes [OF demo_setting s(1), of "[3]" demo_program] s show ?thesis
    by (auto simp: in_range_def log_fits_def calls_nothing_def)
qed

text \<open>C19: \<open>mmk_when\<close> returns as soon as its allocations succeed (one matcher for the expression, one for each argument that has one,
  and the binding), and then allocates exactly these.\<close>

theorem when_returns:
  assumes "setting_ok E bp" and "mock_inv E bp fr s stub mp hist cs"
    and "grow (c_lib E) (live s) (32 # replicate (length as) 32 @ [sizeof_binding bp]) = Some bs"
  shows "\<exists>s'. mmk_when E P bp fr s (trampoline_of s stub) as args res = Inr s' \<and> live s' = bs"
  using mmk_when_returns [OF assms] by blast

theorem when_returns_witness:
  "\<exists>s s'. mmk_when demo_env demo_program demo_blueprint demo_frame s 0x210010 [(MMK_MATCHER_EQ, 0, NULL)] [3] demo_result = Inr s' \<and>
     live s' = [(0x60000, 80), (0x50000, 32), (0x20000, 32)] @ live s"
proof -
  obtain s :: mock_state and stub where live: "live s = [(0x210000, 0x1000), (0x110000, 16), (0x40000, 2), (0x30000, 80), (0x10000, 40),
       (0x400000, 0x1000), (0x7f0000, 0x1000)]"
    and t: "trampoline_of s stub = 0x210010"
    and inv: "mock_inv demo_env demo_blueprint demo_frame s stub 0x10000 [] []"
    by (rule demo_created [where noabort = False])
  from when_returns [OF demo_setting inv, of "[(MMK_MATCHER_EQ, 0, NULL)]" _ demo_program "[3]" demo_result]
  obtain s' where "mmk_when demo_env demo_program demo_blueprint demo_frame s 0x210010 [(MMK_MATCHER_EQ, 0, NULL)] [3] demo_result = Inr s'"
    and "live s' = [(0x60000, 80), (0x50000, 32), (0x20000, 32)] @ live s"
    by (auto simp: demo_when_allocations t live)
  then show ?thesis
    by blast
qed

text \<open>C18: a verification always completes when its matchers can be allocated, however long the log is.\<close>

theorem verify_returns:
  assumes "setting_ok E bp" and "mock_inv E bp fr s stub mp hist cs" and "sizeof_params (bp_params bp) < 2 ^ 64"
    and "grow (c_lib E) (live s) (32 # replicate (length as) 32) = Some bs"
  shows "\<exists>v s'. mmk_verify E P bp fr s (trampoline_of s stub) as args params = Inr (v, s')"
  by (rule mmk_verify_returns [OF assms])

theorem verify_returns_witness:
  "\<exists>s v s'. mmk_verify demo_env demo_program demo_blueprint demo_frame s 0x210010 [(MMK_MATCHER_ANY, 0, NULL)] [0]
     (no_keys\<lparr>vp_at_least := 1\<rparr>) = Inr (v, s')"
proof -
  obtain s :: mock_state and stub where inv: "mock_inv demo_env demo_blueprint demo_frame s stub 0x10000 [[3]]
      [contract_of [(MMK_MATCHER_EQ, 0, NULL)] [3] demo_result]"
    and t: "trampoline_of s stub = 0x210010"
    and live: "live s = [(0x70000, 4096), (0x60000, 80), (0x50000, 32), (0x20000, 32), (0x210000, 0x1000), (0x110000, 16),
     (0x40000, 2), (0x30000, 80), (0x10000, 40), (0x400000, 0x1000), (0x7f0000, 0x1000)]"
    by (rule demo_session [where noabort = False])
  from verify_returns [OF demo_setting inv, of "[(MMK_MATCHER_ANY, 0, NULL)]" _ demo_program "[0]"
      "no_keys\<lparr>vp_at_least := 1\<rparr>"] live show ?thesis
    by (auto simp: demo_when_allocations t)
qed

end
