(* ===== verification/Preprocess.thy ===== *)
theory Preprocess
  imports Prelude "HOL-Library.Monad_Syntax"
begin

text \<open>
  The macros of \<open>include/mimick/preprocess.h\<close>. Text is a list of preprocessing tokens, and a macro is a function from the
  arguments of its call, each a text, to the text that it expands to, or \<open>None\<close> where that text would hold the
  name of a macro that does not exist, a call with arguments that the macro does not take, or a paste that is no
  token. \<open>split_args\<close> is how the preprocessor finds the arguments of a call in
  text: at the commas outside parentheses. A family of macros that differ in a number (\<open>MMK_LAST_1\<close>, \<open>MMK_LAST_2\<close>, ...)
  is one recursive function of the number, which ends where the family ends. \<open>MMK_EXPAND\<close> only asks for another
  scan and does not appear.
\<close>

type_synonym token = string

type_synonym tokens = "token list"

section \<open>Arguments\<close>

definition depth_after :: "nat \<Rightarrow> token \<Rightarrow> nat" where
  "depth_after d t = (if t = ''('' then Suc d else if t = '')'' then d - 1 else d)"

fun split_from :: "nat \<Rightarrow> tokens \<Rightarrow> tokens list" where
  "split_from d [] = [[]]"
| "split_from d (t # ts) =
     (if t = '','' \<and> d = 0 then [] # split_from 0 ts
      else (t # hd (split_from (depth_after d t) ts)) # tl (split_from (depth_after d t) ts))"

definition split_args :: "tokens \<Rightarrow> tokens list" where
  "split_args ts = split_from 0 ts"

fun join_args :: "tokens list \<Rightarrow> tokens" where
  "join_args [] = []"
| "join_args [a] = a"
| "join_args (a # as) = a @ '','' # join_args as"

text \<open>\<open>__VA_ARGS__\<close> in the place of arguments: without any, it is one empty argument.\<close>

definition va_args :: "tokens list \<Rightarrow> tokens list" where
  "va_args as = (if as = [] then [[]] else as)"

fun closes :: "nat \<Rightarrow> tokens \<Rightarrow> bool" where
  "closes d [] \<longleftrightarrow> d = 0"
| "closes d (t # ts) \<longleftrightarrow>
     \<not> (t = '','' \<and> d = 0) \<and> \<not> (t = '')'' \<and> d = 0) \<and> closes (depth_after d t) ts"

definition argument :: "tokens \<Rightarrow> bool" where
  "argument a \<longleftrightarrow> closes 0 a"

lemma split_from_not_empty [simp]: "split_from d ts \<noteq> []"
  by (cases ts) auto

lemma split_from_argument: "closes d a \<Longrightarrow> split_from d a = [a]"
  by (induction d a rule: closes.induct) auto

lemma split_from_separated: "closes d a \<Longrightarrow> split_from d (a @ '','' # ts) = a # split_from 0 ts"
  by (induction d a rule: closes.induct) auto

lemma split_join_args:
  "as \<noteq> [] \<Longrightarrow> list_all argument as \<Longrightarrow> split_args (join_args as) = as"
  by (induction as rule: join_args.induct)
    (auto simp: split_args_def argument_def split_from_argument split_from_separated)

lemma join_args_Cons: "as \<noteq> [] \<Longrightarrow> join_args (a # as) = a @ '','' # join_args as"
  by (cases as) auto

lemma join_split_from: "join_args (split_from d ts) = ts"
proof (induction d ts rule: split_from.induct)
  case (2 d t ts)
  show ?case
  proof (cases "t = '','' \<and> d = 0")
    case True
    then show ?thesis
      using 2(1) by (simp add: join_args_Cons)
  next
    case False
    then obtain a as where s: "split_from (depth_after d t) ts = a # as"
      by (metis split_from_not_empty list.exhaust)
    then have "join_args (a # as) = ts"
      using 2(2) [OF False] by simp
    then have "join_args ((t # a) # as) = t # ts"
      by (cases as) auto
    with s False show ?thesis
      by (simp only: split_from.simps if_False list.sel)
  qed
qed simp

section \<open>Numbers and pasting\<close>

fun decimal :: "nat \<Rightarrow> token" where
  "decimal n =
     (if n < 10 then [char_of (48 + n)] else decimal (n div 10) @ [char_of (48 + n mod 10)])"

declare decimal.simps [simp del]

definition value_of :: "token \<Rightarrow> nat" where
  "value_of t = foldl (\<lambda>v c. 10 * v + (of_char c - 48)) 0 t"

lemma of_char_digit: "d < 10 \<Longrightarrow> of_char (char_of (48 + d) :: char) = (48 + d :: nat)"
  by (simp add: of_char_of)

lemma value_of_decimal [simp]: "value_of (decimal n) = n"
proof (induction n rule: decimal.induct)
  case (1 n)
  show ?case
  proof (cases "n < 10")
    case True
    then show ?thesis
      by (subst decimal.simps) (simp add: value_of_def of_char_digit)
  next
    case False
    then have "value_of (decimal n) = 10 * value_of (decimal (n div 10)) + n mod 10"
      by (subst decimal.simps) (simp add: value_of_def of_char_digit)
    with 1 [OF False] show ?thesis
      by simp
  qed
qed

lemma decimal_eq_iff [simp]: "decimal m = decimal n \<longleftrightarrow> m = n"
  by (metis value_of_decimal)

lemma decimal_digit: "decimal 0 = ''0''" "decimal (Suc 0) = ''1''" "decimal 2 = ''2''"
  by code_simp+

definition ident_char :: "char \<Rightarrow> bool" where
  "ident_char c \<longleftrightarrow> (let n = of_char c :: nat in
     48 \<le> n \<and> n \<le> 57 \<or> 65 \<le> n \<and> n \<le> 90 \<or> 97 \<le> n \<and> n \<le> 122 \<or> n = 95)"

text \<open>\<open>prefix ## t\<close> for a prefix that is an identifier.\<close>

definition paste :: "token \<Rightarrow> token \<Rightarrow> token option" where
  "paste prefix t = (if t \<noteq> '''' \<and> list_all ident_char t then Some (prefix @ t) else None)"

text \<open>
  \<open>member_of lo hi n\<close> is the number of the macro that a paste of the text \<open>n\<close> names, in a family that counts
  from \<open>lo\<close> to \<open>hi\<close>.
\<close>

definition member_of :: "nat \<Rightarrow> nat \<Rightarrow> tokens \<Rightarrow> nat option" where
  "member_of lo hi n =
     (case n of [t] \<Rightarrow> find (\<lambda>k. decimal k = t) [lo..<Suc hi] | _ \<Rightarrow> None)"

lemma member_of_decimal [simp]: "member_of lo hi [decimal k] = (if lo \<le> k \<and> k \<le> hi then Some k else None)"
proof -
  have "find (\<lambda>j. decimal j = decimal k) xs = (if k \<in> set xs then Some k else None)" for xs
    by (induction xs) auto
  then show ?thesis
    by (auto simp: member_of_def simp del: upt_Suc)
qed

lemma member_of_None: "\<forall>k. n \<noteq> [decimal k] \<Longrightarrow> member_of lo hi n = None"
  by (auto simp: member_of_def find_None_iff split: list.splits)

definition MMK_INC :: "token \<Rightarrow> token" where
  "MMK_INC n =
     (case map_of (map (\<lambda>k. (decimal k, decimal (Suc k))) [0..<64]) n of
        Some t \<Rightarrow> t | None \<Rightarrow> ''MMK_INC_'' @ n)"

definition MMK_DEC :: "token \<Rightarrow> token" where
  "MMK_DEC n =
     (case map_of ((decimal 0, decimal 0) # map (\<lambda>k. (decimal (Suc k), decimal k)) [0..<64]) n of
        Some t \<Rightarrow> t | None \<Rightarrow> ''MMK_DEC_'' @ n)"

lemma map_of_decimal:
  "map_of (map (\<lambda>k. (decimal (f k), g k)) xs) (decimal n) = map_of (map (\<lambda>k. (f k, g k)) xs) n"
  by (induction xs) auto

lemma map_of_upt_id: "map_of (map (\<lambda>k. (k, g k)) [i..<j]) n = (if i \<le> n \<and> n < j then Some (g n) else None)"
  by (auto simp: map_of_eq_None_iff intro!: map_of_is_SomeI simp: distinct_map inj_on_def)

lemma MMK_INC_decimal [simp]: "n < 64 \<Longrightarrow> MMK_INC (decimal n) = decimal (Suc n)"
  using map_of_decimal [where f = "\<lambda>k. k" and g = "\<lambda>k. decimal (Suc k)" and xs = "[0..<64]" and n = n]
  by (simp add: MMK_INC_def map_of_upt_id)

lemma map_of_upt_Suc: "map_of (map (\<lambda>k. (Suc k, g k)) [i..<j]) (Suc n) = (if i \<le> n \<and> n < j then Some (g n) else None)"
proof -
  have "map_of (map (\<lambda>k. (Suc k, g k)) xs) (Suc n) = map_of (map (\<lambda>k. (k, g k)) xs) n" for xs
    by (induction xs) auto
  then show ?thesis
    by (simp add: map_of_upt_id)
qed

lemma MMK_DEC_decimal [simp]: "n \<le> 64 \<Longrightarrow> MMK_DEC (decimal n) = decimal (n - 1)"
  using map_of_decimal [where f = Suc and g = decimal and xs = "[0..<64]" and n = n]
  by (cases n) (simp_all add: MMK_DEC_def map_of_upt_Suc)

section \<open>Heads, tails and counts\<close>

definition MMK_VA_TAIL_SELECT64 :: "tokens list \<Rightarrow> tokens option" where
  "MMK_VA_TAIL_SELECT64 as = (case drop 63 as of [] \<Rightarrow> None | x # _ \<Rightarrow> Some x)"

definition MMK_VA_TAIL_SELECT :: "tokens list \<Rightarrow> tokens option" where
  "MMK_VA_TAIL_SELECT as = MMK_VA_TAIL_SELECT64 (as @ replicate 62 [''2''] @ [[''1''], [''_'']])"

definition MMK_VA_NARGS :: "tokens list \<Rightarrow> tokens option" where
  "MMK_VA_NARGS as = MMK_VA_TAIL_SELECT64 (as @ map (\<lambda>n. [decimal n]) (rev [0..<64]))"

text \<open>The \<open>_HELPER_\<close> macros: a choice by the pasted \<open>1\<close> or \<open>2\<close>.\<close>

definition helper :: "tokens option \<Rightarrow> 'a option \<Rightarrow> 'a option \<Rightarrow> 'a option" where
  "helper sel one two =
     (if sel = Some [''1''] then one else if sel = Some [''2''] then two else None)"

definition MMK_VA_TAIL :: "tokens list \<Rightarrow> tokens option" where
  "MMK_VA_TAIL as =
     helper (MMK_VA_TAIL_SELECT as)
       (case as of [_] \<Rightarrow> Some [] | _ \<Rightarrow> None)
       (case as of [] \<Rightarrow> None | _ # rest \<Rightarrow> Some (join_args rest))"

definition MMK_VA_HEAD :: "tokens list \<Rightarrow> tokens option" where
  "MMK_VA_HEAD as =
     helper (MMK_VA_TAIL_SELECT as)
       (case as of [h] \<Rightarrow> Some h | _ \<Rightarrow> None)
       (case as of [] \<Rightarrow> None | h # _ \<Rightarrow> Some h)"

lemma MMK_VA_TAIL_SELECT64_append:
  "MMK_VA_TAIL_SELECT64 (as @ bs) =
     (if 64 \<le> length as then Some (as ! 63)
      else if 64 \<le> length as + length bs then Some (bs ! (63 - length as)) else None)"
proof -
  have "(case drop 63 xs of [] \<Rightarrow> None | x # _ \<Rightarrow> Some x) =
      (if 63 < length xs then Some (xs ! 63) else None)" for xs :: "tokens list"
    by (cases "63 < length xs") (simp_all flip: Cons_nth_drop_Suc)
  then show ?thesis
    by (auto simp: MMK_VA_TAIL_SELECT64_def nth_append simp del: drop_append)
qed

lemma MMK_VA_NARGS_eq:
  "as \<noteq> [] \<Longrightarrow> MMK_VA_NARGS as = (if length as < 64 then Some [decimal (length as)] else Some (as ! 63))"
  by (auto simp: MMK_VA_NARGS_def MMK_VA_TAIL_SELECT64_append rev_nth Suc_diff_le)

lemma MMK_VA_TAIL_SELECT_eq:
  "as \<noteq> [] \<Longrightarrow> MMK_VA_TAIL_SELECT as =
     (if length as = 1 then Some [''1''] else if length as < 64 then Some [''2''] else Some (as ! 63))"
  by (cases "length as")
    (auto simp: MMK_VA_TAIL_SELECT_def MMK_VA_TAIL_SELECT64_append nth_append)

lemma helper_simps [simp]:
  "helper (Some [''1'']) a b = a"
  "helper (Some [''2'']) a b = b"
  by (simp_all add: helper_def)

lemma MMK_VA_TAIL_Cons: "length ps < 63 \<Longrightarrow> MMK_VA_TAIL (p # ps) = Some (join_args ps)"
  by (cases ps) (simp_all add: MMK_VA_TAIL_def MMK_VA_TAIL_SELECT_eq)

lemma MMK_VA_HEAD_Cons: "length ps < 63 \<Longrightarrow> MMK_VA_HEAD (p # ps) = Some p"
  by (cases ps) (simp_all add: MMK_VA_HEAD_def MMK_VA_TAIL_SELECT_eq)

section \<open>Loops over arguments\<close>

fun MMK_APPLY_Nk ::
  "(token \<Rightarrow> tokens \<Rightarrow> tokens \<Rightarrow> tokens option) \<Rightarrow> nat \<Rightarrow> token \<Rightarrow> tokens \<Rightarrow> tokens list \<Rightarrow> tokens option" where
  "MMK_APPLY_Nk mac 0 n prefix as = None"
| "MMK_APPLY_Nk mac (Suc 0) n prefix as = Some []"
| "MMK_APPLY_Nk mac (Suc (Suc k)) n prefix [] = None"
| "MMK_APPLY_Nk mac (Suc (Suc k)) n prefix (h # rest) = do {
     out \<leftarrow> mac n prefix h;
     more \<leftarrow> MMK_APPLY_Nk mac (Suc k) (MMK_INC n) prefix (va_args rest);
     Some (out @ more)}"

definition MMK_APPLY_N_NE ::
  "(token \<Rightarrow> tokens \<Rightarrow> tokens \<Rightarrow> tokens option) \<Rightarrow> tokens \<Rightarrow> tokens list \<Rightarrow> tokens option" where
  "MMK_APPLY_N_NE mac prefix as = do {
     n \<leftarrow> MMK_VA_NARGS ([] # as);
     k \<leftarrow> member_of 1 65 n;
     MMK_APPLY_Nk mac k (decimal 0) prefix (as @ [[]])}"

definition MMK_APPLY_N ::
  "(token \<Rightarrow> tokens \<Rightarrow> tokens \<Rightarrow> tokens option) \<Rightarrow> tokens \<Rightarrow> tokens list \<Rightarrow> tokens option" where
  "MMK_APPLY_N mac prefix as =
     helper (MMK_VA_TAIL_SELECT as)
       (Some [])
       (do {t \<leftarrow> MMK_VA_TAIL as; MMK_APPLY_N_NE mac prefix (split_args t)})"

fun MMK_LAST_k :: "nat \<Rightarrow> tokens list \<Rightarrow> tokens option" where
  "MMK_LAST_k 0 as = None"
| "MMK_LAST_k (Suc 0) as = Some []"
| "MMK_LAST_k (Suc (Suc 0)) (h # rest) = Some h"
| "MMK_LAST_k (Suc (Suc (Suc k))) (h # rest) = MMK_LAST_k (Suc (Suc k)) (va_args rest)"
| "MMK_LAST_k (Suc (Suc k)) [] = None"

definition MMK_LAST :: "tokens list \<Rightarrow> tokens option" where
  "MMK_LAST as = do {
     n \<leftarrow> MMK_VA_NARGS ([] # as);
     k \<leftarrow> member_of 1 65 n;
     MMK_LAST_k k (as @ [[]])}"

fun MMK_PAIR_APPLY_k ::
  "(tokens \<Rightarrow> tokens \<Rightarrow> tokens \<Rightarrow> tokens option) \<Rightarrow> nat \<Rightarrow> tokens \<Rightarrow> tokens list \<Rightarrow> tokens option" where
  "MMK_PAIR_APPLY_k mac 0 prefix as = None"
| "MMK_PAIR_APPLY_k mac (Suc 0) prefix as = Some []"
| "MMK_PAIR_APPLY_k mac (Suc (Suc 0)) prefix as = Some []"
| "MMK_PAIR_APPLY_k mac (Suc (Suc (Suc k))) prefix (a # b # rest) =
     (if odd k then None
      else do {
        out \<leftarrow> mac prefix a b;
        more \<leftarrow> MMK_PAIR_APPLY_k mac (Suc k) prefix (va_args rest);
        Some (out @ more)})"
| "MMK_PAIR_APPLY_k mac (Suc (Suc (Suc k))) prefix as = None"

definition MMK_PAIR_APPLY ::
  "(tokens \<Rightarrow> tokens \<Rightarrow> tokens \<Rightarrow> tokens option) \<Rightarrow> tokens list \<Rightarrow> tokens option" where
  "MMK_PAIR_APPLY mac as = do {
     n \<leftarrow> MMK_VA_NARGS as;
     k \<leftarrow> member_of 1 65 n;
     case as of [] \<Rightarrow> None
     | prefix # rest \<Rightarrow> MMK_PAIR_APPLY_k mac k prefix (va_args rest @ [[]])}"

text \<open>What they compute.\<close>

definition sequence_of :: "tokens option list \<Rightarrow> tokens option" where
  "sequence_of xs = map_option concat (those xs)"

lemma sequence_of_simps [simp]:
  "sequence_of [] = Some []"
  "sequence_of (x # xs) = do {a \<leftarrow> x; b \<leftarrow> sequence_of xs; Some (a @ b)}"
  by (auto simp: sequence_of_def split: option.splits bind_splits)

lemma MMK_APPLY_Nk_eq:
  "n + length as \<le> 64 \<Longrightarrow> MMK_APPLY_Nk mac (Suc (length as)) (decimal n) prefix (as @ [x]) =
     sequence_of (map (\<lambda>(i, a). mac (decimal i) prefix a) (enumerate n as))"
proof (induction as arbitrary: n)
  case (Cons a as)
  then show ?case
    by (simp add: va_args_def)
qed simp

lemma MMK_APPLY_N_NE_eq:
  "length as < 63 \<Longrightarrow> MMK_APPLY_N_NE mac prefix as =
     sequence_of (map (\<lambda>(i, a). mac (decimal i) prefix a) (enumerate 0 as))"
  using MMK_APPLY_Nk_eq [of 0 as mac prefix "[]"]
  by (simp add: MMK_APPLY_N_NE_def MMK_VA_NARGS_eq)

lemma MMK_APPLY_N_eq:
  assumes "list_all argument ps" and "length ps < 63"
  shows "MMK_APPLY_N mac prefix (r # ps) =
    sequence_of (map (\<lambda>(i, a). mac (decimal i) prefix a) (enumerate 0 ps))"
proof (cases "ps = []")
  case False
  then show ?thesis
    using assms
    by (simp add: MMK_APPLY_N_def MMK_VA_TAIL_SELECT_eq MMK_VA_TAIL_Cons split_join_args MMK_APPLY_N_NE_eq)
qed (simp add: MMK_APPLY_N_def MMK_VA_TAIL_SELECT_eq)

lemma MMK_LAST_k_eq: "MMK_LAST_k (Suc (length as)) (as @ [x]) = (if as = [] then Some [] else Some (last as))"
proof (induction as)
  case (Cons a as)
  then show ?case
    by (cases as) (auto simp: va_args_def)
qed simp

lemma MMK_LAST_eq: "as \<noteq> [] \<Longrightarrow> length as < 63 \<Longrightarrow> MMK_LAST as = Some (last as)"
  by (simp add: MMK_LAST_def MMK_VA_NARGS_eq MMK_LAST_k_eq)

fun pairs :: "'a list \<Rightarrow> ('a \<times> 'a) list" where
  "pairs (a # b # rest) = (a, b) # pairs rest"
| "pairs _ = []"

lemma MMK_PAIR_APPLY_k_eq:
  "even (length as) \<Longrightarrow> MMK_PAIR_APPLY_k mac (Suc (length as)) prefix (as @ [x]) =
     sequence_of (map (\<lambda>(a, b). mac prefix a b) (pairs as))"
proof (induction as rule: pairs.induct)
  case (1 a b rest)
  then show ?case
    by (simp add: va_args_def)
qed auto

text \<open>An odd number of arguments is accepted only when it is one, which is then ignored.\<close>

lemma MMK_PAIR_APPLY_k_odd:
  "odd (length as) \<Longrightarrow> MMK_PAIR_APPLY_k mac (Suc (length as)) prefix (as @ [x]) =
     (if length as = 1 then Some [] else None)"
proof (induction as rule: pairs.induct)
  case (1 a b rest)
  then show ?case
    by (cases rest) (auto simp: va_args_def split: bind_splits)
qed auto

section \<open>Choices by a token\<close>

text \<open>
  A type is pasted to a prefix; where that names the marker macro and a call follows, the marker expands to a
  comma, and the comma makes two arguments of one.
\<close>

fun after_paren :: "nat \<Rightarrow> tokens \<Rightarrow> tokens option" where
  "after_paren d [] = None"
| "after_paren d (t # ts) =
     (if t = ''('' then after_paren (Suc d) ts
      else if t = '')'' then (if d = 0 then Some ts else after_paren (d - 1) ts)
      else after_paren d ts)"

definition expand_marker :: "token \<Rightarrow> (tokens \<Rightarrow> tokens option) \<Rightarrow> tokens \<Rightarrow> tokens option" where
  "expand_marker name close ts =
     (case ts of
        t # p # rest \<Rightarrow>
          if t = name \<and> p = ''('' then map_option (\<lambda>r. '','' # r) (close rest) else Some ts
      | _ \<Rightarrow> Some ts)"

text \<open>A marker declared with \<open>(...)\<close> takes any arguments, one declared with \<open>()\<close> none.\<close>

definition no_arguments :: "tokens \<Rightarrow> tokens option" where
  "no_arguments ts = (case ts of t # r \<Rightarrow> if t = '')'' then Some r else None | [] \<Rightarrow> None)"

definition MMK_TOKEN :: "token \<Rightarrow> tokens \<Rightarrow> tokens option" where
  "MMK_TOKEN tag t =
     (let prefix = ''MMK_TOKEN_'' @ tag @ ''_''
      in case t of
           [] \<Rightarrow> Some [prefix, ''('', ''_'', '')'']
         | w # ws \<Rightarrow> do {
             nm \<leftarrow> paste prefix w;
             expand_marker (prefix @ ''mmk_va_args'') (after_paren 0) (nm # ws @ [''('', ''_'', '')''])})"

definition MMK_TOKEN_SELECT :: "token \<Rightarrow> 'a option \<Rightarrow> 'a option \<Rightarrow> tokens \<Rightarrow> 'a option" where
  "MMK_TOKEN_SELECT tag one two t = do {
     m \<leftarrow> MMK_TOKEN tag t;
     helper (MMK_VA_TAIL_SELECT (split_args (m @ [''_'']))) one two}"

definition select_type :: "token \<Rightarrow> token \<Rightarrow> tokens \<Rightarrow> tokens option" where
  "select_type prefix special t =
     (case t of
        [] \<Rightarrow> Some [prefix, ''('', '')'']
      | w # ws \<Rightarrow> do {
          nm \<leftarrow> paste prefix w;
          expand_marker (prefix @ special) no_arguments (nm # ws @ [''('', '')''])})"

definition MMK_COND_VOID :: "'a option \<Rightarrow> 'a option \<Rightarrow> tokens \<Rightarrow> 'a option" where
  "MMK_COND_VOID one two t = do {
     m \<leftarrow> select_type ''MMK_VOID_SELECT_TYPE_'' ''void'' t;
     helper (MMK_VA_TAIL_SELECT (split_args m)) one two}"

definition MMK_COND_VA :: "'a option \<Rightarrow> 'a option \<Rightarrow> tokens \<Rightarrow> 'a option" where
  "MMK_COND_VA one two t = do {
     m \<leftarrow> select_type ''MMK_VA_SELECT_TYPE_VAL_'' ''mmk_va_args'' t;
     helper (MMK_VA_TAIL_SELECT (split_args m)) one two}"

definition digit :: "char \<Rightarrow> bool" where
  "digit c \<longleftrightarrow> (let n = of_char c :: nat in 48 \<le> n \<and> n \<le> 57)"

text \<open>A type as the library takes it: it starts with an identifier, which no argument list follows.\<close>

definition type_text :: "tokens \<Rightarrow> bool" where
  "type_text t \<longleftrightarrow> argument t \<and>
     (case t of [] \<Rightarrow> False
      | w # ws \<Rightarrow> w \<noteq> [] \<and> \<not> digit (hd w) \<and> list_all ident_char w \<and> (ws \<noteq> [] \<longrightarrow> hd ws \<noteq> ''(''))"

lemma digit_decimal: "decimal n \<noteq> [] \<and> digit (hd (decimal n))"
proof (induction n rule: decimal.induct)
  case (1 n)
  then show ?case
    by (subst (1 2) decimal.simps) (auto simp: digit_def of_char_digit)
qed

lemma type_text_not_number: "type_text t \<Longrightarrow> t \<noteq> [decimal k]"
  using digit_decimal [of k] by (auto simp: type_text_def)

lemma closes_append: "closes d a \<Longrightarrow> closes 0 b \<Longrightarrow> closes d (a @ b)"
  by (induction d a rule: closes.induct) auto

lemma type_text_cases:
  assumes "type_text t"
  obtains w ws where "t = w # ws" and "w \<noteq> []" and "list_all ident_char w" and "closes 0 ws"
    and "ws \<noteq> [] \<longrightarrow> hd ws \<noteq> ''(''" and "w \<noteq> '',''" and "w \<noteq> ''(''" and "w \<noteq> '')''"
proof -
  obtain w ws where t: "t = w # ws" and w: "w \<noteq> []" "list_all ident_char w"
    and h: "ws \<noteq> [] \<longrightarrow> hd ws \<noteq> ''(''" and c: "closes 0 (w # ws)"
    using assms by (auto simp: type_text_def argument_def split: list.splits)
  have "w \<noteq> '',''" and "w \<noteq> ''(''" and "w \<noteq> '')''"
    using w by (auto simp: ident_char_def)
  with t w h c show thesis
    by (intro that [of w ws]) (simp_all add: depth_after_def)
qed

lemma one_argument: "argument a \<Longrightarrow> MMK_VA_TAIL_SELECT (split_args a) = Some [''1'']"
  by (simp add: argument_def split_args_def split_from_argument MMK_VA_TAIL_SELECT_eq)

lemma marked: "MMK_VA_TAIL_SELECT (split_args ('','' # r)) = Some [''2'']" if "argument r"
  using that by (simp add: argument_def split_args_def split_from_argument MMK_VA_TAIL_SELECT_eq)

lemma prefixed_word: "c \<noteq> CHR '','' \<Longrightarrow> c \<noteq> CHR ''('' \<Longrightarrow> c \<noteq> CHR '')'' \<Longrightarrow> closes 0 ts \<Longrightarrow>
    argument (((c # cs) @ w) # ts)"
  by (simp add: argument_def depth_after_def)

lemma select_type_eq:
  assumes "type_text t" and "prefix = CHR ''M'' # cs"
  shows "do {m \<leftarrow> select_type prefix special t; helper (MMK_VA_TAIL_SELECT (split_args m)) one two} =
    (if t = [special] then two else one)"
  using assms(1)
proof (cases rule: type_text_cases)
  case (1 w ws)
  have arg: "argument ((prefix @ w) # ws @ [''('', '')''])"
    unfolding assms(2) using 1 by (intro prefixed_word closes_append) (simp_all add: depth_after_def)
  show ?thesis
  proof (cases "ws = []")
    case True
    then show ?thesis
      using 1 one_argument [OF arg] marked [of "[]"]
      by (auto simp: select_type_def paste_def expand_marker_def no_arguments_def argument_def)
  next
    case False
    then show ?thesis
      using 1 one_argument [OF arg]
      by (cases ws) (auto simp: select_type_def paste_def expand_marker_def)
  qed
qed

lemma MMK_COND_VOID_eq: "type_text t \<Longrightarrow> MMK_COND_VOID one two t = (if t = [''void''] then two else one)"
  unfolding MMK_COND_VOID_def by (rule select_type_eq) simp_all

lemma MMK_COND_VA_eq: "type_text t \<Longrightarrow> MMK_COND_VA one two t = (if t = [''mmk_va_args''] then two else one)"
  unfolding MMK_COND_VA_def by (rule select_type_eq) simp_all

lemma MMK_TOKEN_SELECT_eq:
  assumes "type_text t"
  shows "MMK_TOKEN_SELECT tag one two t = (if t = [''mmk_va_args''] then two else one)"
  using assms
proof (cases rule: type_text_cases)
  case (1 w ws)
  have arg: "argument (((CHR ''M'' # ''MK_TOKEN_'' @ tag @ ''_'') @ w) # ws @ [''('', ''_'', '')'', ''_''])"
    using 1 by (intro prefixed_word closes_append) (simp_all add: depth_after_def)
  show ?thesis
  proof (cases "ws = []")
    case True
    then show ?thesis
      using 1 one_argument [OF arg] marked [of "[''_'']"]
      by (auto simp: MMK_TOKEN_SELECT_def MMK_TOKEN_def paste_def expand_marker_def argument_def depth_after_def)
  next
    case False
    then show ?thesis
      using 1 one_argument [OF arg]
      by (cases ws) (auto simp: MMK_TOKEN_SELECT_def MMK_TOKEN_def paste_def expand_marker_def)
  qed
qed

section \<open>Parameter lists\<close>

definition MMK_PARAM_N :: "token \<Rightarrow> token \<Rightarrow> token" where
  "MMK_PARAM_N p n = p @ n"

fun MMK_PARAM_LIST_k :: "tokens \<Rightarrow> nat \<Rightarrow> token \<Rightarrow> tokens list \<Rightarrow> tokens option" where
  "MMK_PARAM_LIST_k va 0 n as = None"
| "MMK_PARAM_LIST_k va (Suc 0) n as = Some []"
| "MMK_PARAM_LIST_k va (Suc (Suc 0)) n (t # rest) =
     MMK_TOKEN_SELECT ''plist'' (Some (t @ [MMK_PARAM_N ''param'' n])) (Some va) t"
| "MMK_PARAM_LIST_k va (Suc (Suc (Suc k))) n (t # rest) = do {
     more \<leftarrow> MMK_PARAM_LIST_k va (Suc (Suc k)) (MMK_INC n) (va_args rest);
     Some (t @ [MMK_PARAM_N ''param'' n, '',''] @ more)}"
| "MMK_PARAM_LIST_k va (Suc (Suc k)) n [] = None"

definition MMK_PARAM_LIST_NE :: "tokens \<Rightarrow> tokens list \<Rightarrow> tokens option" where
  "MMK_PARAM_LIST_NE va as = do {
     n \<leftarrow> MMK_VA_NARGS as;
     k \<leftarrow> member_of 1 63 n;
     case as of [] \<Rightarrow> None | _ # rest \<Rightarrow> MMK_PARAM_LIST_k va k (decimal 0) (va_args rest @ [[]])}"

definition MMK_PARAM_LIST :: "tokens \<Rightarrow> tokens list \<Rightarrow> tokens option" where
  "MMK_PARAM_LIST va as = helper (MMK_VA_TAIL_SELECT as) (Some [''void'']) (MMK_PARAM_LIST_NE va as)"

fun MMK_PARAM_PACK_k :: "nat \<Rightarrow> token \<Rightarrow> tokens list \<Rightarrow> tokens option" where
  "MMK_PARAM_PACK_k 0 n as = None"
| "MMK_PARAM_PACK_k (Suc 0) n as = Some []"
| "MMK_PARAM_PACK_k (Suc (Suc 0)) n (t # rest) =
     MMK_TOKEN_SELECT ''ppack'' (Some [MMK_PARAM_N ''param'' n]) (Some [''vl_cpy__'']) t"
| "MMK_PARAM_PACK_k (Suc (Suc (Suc k))) n (t # rest) = do {
     more \<leftarrow> MMK_PARAM_PACK_k (Suc (Suc k)) (MMK_INC n) (va_args rest);
     Some ([MMK_PARAM_N ''param'' n, '',''] @ more)}"
| "MMK_PARAM_PACK_k (Suc (Suc k)) n [] = None"

definition MMK_PARAM_PACK_NE :: "tokens list \<Rightarrow> tokens option" where
  "MMK_PARAM_PACK_NE as = do {
     n \<leftarrow> MMK_VA_NARGS as;
     k \<leftarrow> member_of 1 63 n;
     case as of [] \<Rightarrow> None | _ # rest \<Rightarrow> MMK_PARAM_PACK_k k (decimal 0) (va_args rest @ [[]])}"

definition MMK_PARAM_PACK :: "tokens list \<Rightarrow> tokens option" where
  "MMK_PARAM_PACK as = helper (MMK_VA_TAIL_SELECT as) (Some []) (MMK_PARAM_PACK_NE as)"

text \<open>
  The declaration of the \<open>i\<close>th parameter, and the argument that passes it on. Only the last one may be
  \<open>mmk_va_args\<close>.
\<close>

definition param_name :: "nat \<Rightarrow> token" where
  "param_name i = ''param'' @ decimal i"

definition declared :: "tokens \<Rightarrow> nat \<times> tokens \<Rightarrow> tokens" where
  "declared va it = (if snd it = [''mmk_va_args''] then va else snd it @ [param_name (fst it)])"

definition passed :: "nat \<times> tokens \<Rightarrow> tokens" where
  "passed it = (if snd it = [''mmk_va_args''] then [''vl_cpy__''] else [param_name (fst it)])"

definition param_types :: "tokens list \<Rightarrow> bool" where
  "param_types ps \<longleftrightarrow> list_all type_text ps \<and> list_all (\<lambda>t. t \<noteq> [''mmk_va_args'']) (butlast ps)"

lemma param_name_eq_iff [simp]: "param_name i = param_name j \<longleftrightarrow> i = j"
  by (simp add: param_name_def)

lemma param_name_no_punctuation [simp]:
  "param_name i \<noteq> '',''" "param_name i \<noteq> ''(''" "param_name i \<noteq> '')''"
  by (simp_all add: param_name_def)

lemma param_types_arguments: "param_types ps \<Longrightarrow> list_all argument ps"
  by (auto simp: param_types_def type_text_def list_all_iff)

lemma MMK_PARAM_LIST_k_eq:
  "ps \<noteq> [] \<Longrightarrow> n + length ps \<le> 64 \<Longrightarrow> param_types ps \<Longrightarrow>
    MMK_PARAM_LIST_k va (Suc (length ps)) (decimal n) (ps @ [x]) =
      Some (join_args (map (declared va) (enumerate n ps)))"
proof (induction ps arbitrary: n)
  case (Cons p ps)
  show ?case
  proof (cases ps)
    case Nil
    then show ?thesis
      using Cons.prems
      by (simp add: param_types_def MMK_TOKEN_SELECT_eq declared_def MMK_PARAM_N_def param_name_def)
  next
    case (Cons q qs)
    then show ?thesis
      using Cons.prems Cons.IH [of "Suc n"]
      by (simp add: param_types_def declared_def MMK_PARAM_N_def param_name_def va_args_def)
  qed
qed simp

lemma MMK_PARAM_PACK_k_eq:
  "ps \<noteq> [] \<Longrightarrow> n + length ps \<le> 64 \<Longrightarrow> param_types ps \<Longrightarrow>
    MMK_PARAM_PACK_k (Suc (length ps)) (decimal n) (ps @ [x]) =
      Some (join_args (map passed (enumerate n ps)))"
proof (induction ps arbitrary: n)
  case (Cons p ps)
  show ?case
  proof (cases ps)
    case Nil
    then show ?thesis
      using Cons.prems
      by (simp add: param_types_def MMK_TOKEN_SELECT_eq passed_def MMK_PARAM_N_def param_name_def)
  next
    case (Cons q qs)
    then show ?thesis
      using Cons.prems Cons.IH [of "Suc n"]
      by (simp add: param_types_def passed_def MMK_PARAM_N_def param_name_def va_args_def)
  qed
qed simp

lemma MMK_PARAM_LIST_eq:
  "param_types ps \<Longrightarrow> length ps < 63 \<Longrightarrow> MMK_PARAM_LIST va (r # ps) =
     Some (if ps = [] then [''void''] else join_args (map (declared va) (enumerate 0 ps)))"
  using MMK_PARAM_LIST_k_eq [of ps 0 va "[]"]
  by (simp add: MMK_PARAM_LIST_def MMK_PARAM_LIST_NE_def MMK_VA_TAIL_SELECT_eq MMK_VA_NARGS_eq va_args_def)

lemma MMK_PARAM_PACK_eq:
  "param_types ps \<Longrightarrow> length ps < 63 \<Longrightarrow> MMK_PARAM_PACK (r # ps) =
     Some (join_args (map passed (enumerate 0 ps)))"
  using MMK_PARAM_PACK_k_eq [of ps 0 "[]"]
  by (cases ps)
    (simp_all add: MMK_PARAM_PACK_def MMK_PARAM_PACK_NE_def MMK_VA_TAIL_SELECT_eq MMK_VA_NARGS_eq va_args_def)

end
