(* ===== verification/Blueprint.thy ===== *)
theory Blueprint
  imports Preprocess
begin

text \<open>
  The text that \<open>mmk_mock_define\<close> of \<open>include/mimick/mock.h\<close> expands to, as far as it depends on the types given: the choice of
  the variant, the declarations of \<open>MMK_MOCK_DEFINE_TYPES\<close>, the statements that are repeated for each
  parameter, and the start and the end of the variadic arguments. The arguments of the macros here are the
  name of the blueprint, the return type and the parameter types. \<open>Params\<close> and \<open>Mock\<close> hold the meaning of
  what is declared.
\<close>

section \<open>Statements for each parameter\<close>

definition MMK_MANGLE :: "token \<Rightarrow> token \<Rightarrow> token" where
  "MMK_MANGLE bp name = ''mmkuser_'' @ bp @ ''_'' @ name"

definition MMK_DEF_FIELD :: "token \<Rightarrow> tokens \<Rightarrow> tokens \<Rightarrow> tokens option" where
  "MMK_DEF_FIELD n _ t = MMK_COND_VA (Some (t @ [''param'' @ n, '';''])) (Some []) t"

definition MMK_SET_PARAMS :: "token \<Rightarrow> tokens \<Rightarrow> tokens \<Rightarrow> tokens option" where
  "MMK_SET_PARAMS n bp t =
     MMK_COND_VA
       (Some [''bind'', ''->'', ''params'', ''.'', ''param'' @ n, ''='', ''param'' @ n, '';''])
       (Some []) t"

definition MMK_DEF_VERIFY_PARAM :: "token \<Rightarrow> tokens \<Rightarrow> tokens \<Rightarrow> tokens option" where
  "MMK_DEF_VERIFY_PARAM n bp t =
     MMK_COND_VA (Some [''.'', ''param'' @ n, ''='', ''param'' @ n, '','']) (Some []) t"

section \<open>Types\<close>

definition MMK_VA_TYPE :: tokens where
  "MMK_VA_TYPE = [''...'']"

definition MMK_VA_LIST_TYPE :: tokens where
  "MMK_VA_LIST_TYPE = [''va_list'', ''vl__'']"

definition MMK_VA_LIST_TYPE_SRLZ :: tokens where
  "MMK_VA_LIST_TYPE_SRLZ =
     [''va_list'', ''vl__'', '','', ''size_t'', ''*'', ''mmk_size_out'', '','',
      ''struct'', ''mmk_va_param'', ''*'', ''*'', ''*'', ''data_out'']"

definition MMK_MOCK_DEFINE_TYPES :: "token \<Rightarrow> tokens list \<Rightarrow> tokens option" where
  "MMK_MOCK_DEFINE_TYPES bp as = do {
     ret \<leftarrow> MMK_VA_HEAD as;
     params \<leftarrow> MMK_PARAM_LIST MMK_VA_TYPE as;
     delegate \<leftarrow> MMK_PARAM_LIST MMK_VA_LIST_TYPE as;
     serializer \<leftarrow> MMK_PARAM_LIST MMK_VA_LIST_TYPE_SRLZ as;
     fields \<leftarrow> MMK_APPLY_N MMK_DEF_FIELD [bp] as;
     Some ([''typedef''] @ ret @ [MMK_MANGLE bp ''returntype'', '';''] @
       [''typedef'', MMK_MANGLE bp ''returntype'', ''('', ''*'', bp, '')'', ''(''] @ params @ ['')'', '';''] @
       [''typedef'', MMK_MANGLE bp ''returntype'', ''('', ''*'', MMK_MANGLE bp ''delegate'', '')'', ''(''] @
         delegate @ ['')'', '';''] @
       [''typedef'', ''int'', ''('', ''*'', MMK_MANGLE bp ''va_serializer'', '')'', ''(''] @ serializer @ ['')'', '';''] @
       [''struct'', MMK_MANGLE bp ''params'', ''{'',
          ''size_t'', ''mmk_times__'', '';'',
          ''size_t'', ''mmk_va_args_sz__'', '';'',
          ''struct'', ''mmk_va_param'', ''*'', ''*'', ''mmk_va_args__'', '';''] @ fields @
       [''}'', '';'', ''struct'', MMK_MANGLE bp ''binding'', ''{'',
          ''struct'', ''mmk_params'', ''item'', '';'',
          ''struct'', ''mmk_result'', ''result'', '';'',
          ''struct'', MMK_MANGLE bp ''params'', ''params'', '';'', ''}'', '';''])}"

definition MMK_MOCK_VA_PREDECL :: "token \<Rightarrow> tokens list \<Rightarrow> tokens option" where
  "MMK_MOCK_VA_PREDECL bp as = do {
     t \<leftarrow> MMK_VA_TAIL as;
     n \<leftarrow> MMK_VA_NARGS (split_args t);
     last_named \<leftarrow> (case n of [k] \<Rightarrow> Some (MMK_PARAM_N ''param'' (MMK_DEC (MMK_DEC k))) | _ \<Rightarrow> None);
     Some ([MMK_MANGLE bp ''va_serializer'', ''mmk_va_serializer__'', ''='', MMK_MANGLE bp ''serialize_va'', '';'',
        ''va_list'', ''vl__'', '','', ''vl_cpy__'', '';'',
        ''va_start'', ''('', ''vl__'', '','', last_named, '')''])}"

section \<open>The choice of the variant\<close>

text \<open>\<open>VaMacro(name)\<close>: the macro that a variadic step is made by.\<close>

definition va_macro :: "token \<Rightarrow> token \<Rightarrow> token option" where
  "va_macro vm name =
     (if vm = ''MMK_MOCK_VA_WITHOUT'' then Some ''MMK_NOOP_FN''
      else if vm = ''MMK_MOCK_VA_WITH'' then Some (''MMK_MOCK_VA_'' @ name) else None)"

text \<open>The arguments that \<open>MMK_MOCK_DEFINE\<close> is given.\<close>

definition MMK_MOCK_DEFINE_IMPL :: "token \<Rightarrow> token \<Rightarrow> tokens list \<Rightarrow> tokens list option" where
  "MMK_MOCK_DEFINE_IMPL bp vm as = do {
     ret \<leftarrow> MMK_VA_HEAD as;
     MMK_COND_VOID
       (Some ([[''MMK_MOCK_DEFINE_ZERO''], [''MMK_MOCK_VALUE_RETURN''], [''MMK_MOCK_VALUE_RETURN_SE''], [vm], [bp]] @ as))
       (Some ([[''MMK_NOOP_FN''], [''MMK_MOCK_VOID_RETURN''], [''MMK_MOCK_VOID_RETURN_SE''], [vm], [bp]] @ as))
       ret}"

definition mmk_mock_define :: "token \<Rightarrow> tokens list \<Rightarrow> tokens list option" where
  "mmk_mock_define bp as = do {
     l \<leftarrow> MMK_LAST as;
     vm \<leftarrow> MMK_COND_VA (Some ''MMK_MOCK_VA_WITHOUT'') (Some ''MMK_MOCK_VA_WITH'') l;
     MMK_MOCK_DEFINE_IMPL bp vm as}"

section \<open>Returning from the stub function\<close>

text \<open>The steps of a variadic stub function, for the macro \<open>VaMacro\<close> that has been chosen.\<close>

definition MMK_MOCK_VA_COPY :: tokens where
  "MMK_MOCK_VA_COPY = [''va_copy'', ''('', ''vl_cpy__'', '','', ''vl__'', '')'']"

definition MMK_MOCK_VA_COPY_END :: tokens where
  "MMK_MOCK_VA_COPY_END = [''va_end'', ''('', ''vl_cpy__'', '')'']"

definition MMK_MOCK_VA_END :: tokens where
  "MMK_MOCK_VA_END = [''va_end'', ''('', ''vl__'', '')'']"

definition va_step :: "token \<Rightarrow> token \<Rightarrow> tokens option" where
  "va_step vm name = do {
     mac \<leftarrow> va_macro vm name;
     if mac = ''MMK_NOOP_FN'' then Some []
     else if mac = ''MMK_MOCK_VA_COPY'' then Some MMK_MOCK_VA_COPY
     else if mac = ''MMK_MOCK_VA_COPY_END'' then Some MMK_MOCK_VA_COPY_END
     else if mac = ''MMK_MOCK_VA_END'' then Some MMK_MOCK_VA_END
     else None}"

definition MMK_MOCK_DEFINE_ZERO :: "token \<Rightarrow> tokens" where
  "MMK_MOCK_DEFINE_ZERO bp = [''static'', MMK_MANGLE bp ''returntype'', ''zero__'']"

definition MMK_MOCK_VALUE_RETURN :: "tokens \<Rightarrow> tokens" where
  "MMK_MOCK_VALUE_RETURN val = [''return'', ''(''] @ val @ ['')'']"

definition MMK_MOCK_VALUE_RETURN_SE :: "token \<Rightarrow> token \<Rightarrow> tokens \<Rightarrow> tokens option" where
  "MMK_MOCK_VALUE_RETURN_SE bp vm val = do {
     copy \<leftarrow> va_step vm ''COPY'';
     copy_end \<leftarrow> va_step vm ''COPY_END'';
     end_list \<leftarrow> va_step vm ''END'';
     Some ([''do'', ''{''] @ copy @ ['';''] @
       [MMK_MANGLE bp ''returntype'', ''mmk_val__'', ''='', ''(''] @ val @ ['')'', '';''] @
       copy_end @ ['';''] @ end_list @ ['';'', ''return'', ''mmk_val__'', '';'', ''}'', ''while'', ''('', ''0'', '')''])}"

definition MMK_MOCK_VOID_RETURN :: "tokens \<Rightarrow> tokens" where
  "MMK_MOCK_VOID_RETURN val = [''return'']"

definition MMK_MOCK_VOID_RETURN_SE :: "token \<Rightarrow> token \<Rightarrow> tokens \<Rightarrow> tokens option" where
  "MMK_MOCK_VOID_RETURN_SE bp vm val = do {
     copy \<leftarrow> va_step vm ''COPY'';
     copy_end \<leftarrow> va_step vm ''COPY_END'';
     end_list \<leftarrow> va_step vm ''END'';
     Some ([''do'', ''{''] @ copy @ ['';''] @ [''('', ''void'', '')'', ''(''] @ val @ ['')'', '';''] @
       copy_end @ ['';''] @ end_list @ ['';'', ''return'', '';'', ''}'', ''while'', ''('', ''0'', '')''])}"

text \<open>What a text does with lists of variadic arguments, and where it returns, in order.\<close>

fun va_uses :: "tokens \<Rightarrow> tokens" where
  "va_uses [] = []"
| "va_uses (t # ts) =
     (if t = ''return'' then t # va_uses ts
      else if t = ''va_copy'' \<or> t = ''va_end'' then t # take 1 (drop 1 ts) @ va_uses ts
      else va_uses ts)"

lemma va_uses_append:
  "set xs \<inter> {''return'', ''va_copy'', ''va_end''} = {} \<Longrightarrow> va_uses (xs @ ys) = va_uses ys"
  by (induction xs) auto

text \<open>
  The delegate is called between the copy of the list and its end, and both lists are ended before the function
  returns; without variadic arguments there are none.
\<close>

lemma return_ends_lists:
  assumes "set val \<inter> {''return'', ''va_copy'', ''va_end''} = {}"
  shows "map_option va_uses (MMK_MOCK_VALUE_RETURN_SE bp ''MMK_MOCK_VA_WITH'' val) =
      Some [''va_copy'', ''vl_cpy__'', ''va_end'', ''vl_cpy__'', ''va_end'', ''vl__'', ''return'']"
    and "map_option va_uses (MMK_MOCK_VOID_RETURN_SE bp ''MMK_MOCK_VA_WITH'' val) =
      Some [''va_copy'', ''vl_cpy__'', ''va_end'', ''vl_cpy__'', ''va_end'', ''vl__'', ''return'']"
    and "map_option va_uses (MMK_MOCK_VALUE_RETURN_SE bp ''MMK_MOCK_VA_WITHOUT'' val) = Some [''return'']"
    and "map_option va_uses (MMK_MOCK_VOID_RETURN_SE bp ''MMK_MOCK_VA_WITHOUT'' val) = Some [''return'']"
  using assms
  by (simp_all add: MMK_MOCK_VALUE_RETURN_SE_def MMK_MOCK_VOID_RETURN_SE_def va_step_def va_macro_def MMK_MOCK_VA_COPY_def
      MMK_MOCK_VA_COPY_END_def MMK_MOCK_VA_END_def MMK_MANGLE_def va_uses_append)

section \<open>Lemmas\<close>

lemma sequence_of_Some:
  "list_all (\<lambda>x. f x = Some (g x)) xs \<Longrightarrow> sequence_of (map f xs) = Some (concat (map g xs))"
  by (induction xs) auto

lemma each_parameter:
  assumes "param_types ps" and "length ps < 63"
    and "\<And>i t. type_text t \<Longrightarrow> mac (decimal i) prefix t = Some (g (i, t))"
  shows "MMK_APPLY_N mac prefix (r # ps) = Some (concat (map g (enumerate 0 ps)))"
proof -
  have "list_all (\<lambda>x. (\<lambda>(i, a). mac (decimal i) prefix a) x = Some (g x)) (enumerate 0 ps)"
    using assms(1,3) by (auto simp: list_all_iff param_types_def in_set_enumerate_eq)
  then show ?thesis
    using MMK_APPLY_N_eq [OF param_types_arguments [OF assms(1)] assms(2)] by (simp add: sequence_of_Some)
qed

text \<open>The field of a parameter: none for the variadic ones.\<close>

definition field_text :: "nat \<times> tokens \<Rightarrow> tokens" where
  "field_text it = (if snd it = [''mmk_va_args''] then [] else snd it @ [param_name (fst it), '';''])"

definition set_text :: "nat \<times> tokens \<Rightarrow> tokens" where
  "set_text it =
     (if snd it = [''mmk_va_args''] then []
      else [''bind'', ''->'', ''params'', ''.'', param_name (fst it), ''='', param_name (fst it), '';''])"

definition init_text :: "nat \<times> tokens \<Rightarrow> tokens" where
  "init_text it =
     (if snd it = [''mmk_va_args''] then [] else [''.'', param_name (fst it), ''='', param_name (fst it), '',''])"

lemma fields_of:
  "param_types ps \<Longrightarrow> length ps < 63 \<Longrightarrow>
    MMK_APPLY_N MMK_DEF_FIELD [bp] (r # ps) = Some (concat (map field_text (enumerate 0 ps)))"
  "param_types ps \<Longrightarrow> length ps < 63 \<Longrightarrow>
    MMK_APPLY_N MMK_SET_PARAMS [bp] (r # ps) = Some (concat (map set_text (enumerate 0 ps)))"
  "param_types ps \<Longrightarrow> length ps < 63 \<Longrightarrow>
    MMK_APPLY_N MMK_DEF_VERIFY_PARAM [bp] (r # ps) = Some (concat (map init_text (enumerate 0 ps)))"
  by (rule each_parameter; simp add: MMK_DEF_FIELD_def MMK_SET_PARAMS_def MMK_DEF_VERIFY_PARAM_def
      MMK_COND_VA_eq field_text_def set_text_def init_text_def param_name_def)+

lemma MMK_LAST_None: "62 < length as \<Longrightarrow> list_all type_text as \<Longrightarrow> MMK_LAST as = None"
proof -
  assume l: "62 < length as" and t: "list_all type_text as"
  then have "type_text (as ! 62)"
    by (simp add: list_all_length)
  then have "member_of 1 65 (as ! 62) = None"
    by (intro member_of_None) (auto dest: type_text_not_number)
  moreover have "as \<noteq> []"
    using l by auto
  ultimately show ?thesis
    using l by (simp add: MMK_LAST_def MMK_VA_NARGS_eq)
qed

lemma argument_declared: "argument va \<Longrightarrow> type_text (snd it) \<Longrightarrow> argument (declared va it)"
  by (auto simp: declared_def argument_def type_text_def depth_after_def intro!: closes_append)

lemma argument_passed: "argument (passed it)"
  by (simp add: passed_def argument_def depth_after_def)

lemma param_types_nth: "param_types ps \<Longrightarrow> it \<in> set (enumerate 0 ps) \<Longrightarrow> type_text (snd it)"
  by (auto simp: param_types_def list_all_length in_set_enumerate_eq)

lemmas type_text_simps =
  type_text_def argument_def depth_after_def ident_char_def digit_def param_types_def

lemma parameters_lines:
  assumes "param_types ps" and "ps \<noteq> []" and "length ps \<le> 62" and "argument va"
  shows "map_option split_args (MMK_PARAM_LIST va (ret # ps)) = Some (map (declared va) (enumerate 0 ps)) \<and>
    map_option split_args (MMK_PARAM_PACK (ret # ps)) = Some (map passed (enumerate 0 ps))"
proof -
  have "list_all argument (map (declared va) (enumerate 0 ps))"
    using assms(1,4) by (auto simp: list_all_iff intro!: argument_declared dest: param_types_nth)
  moreover have "list_all argument (map passed (enumerate 0 ps))"
    by (simp add: list_all_iff argument_passed)
  moreover have "enumerate 0 ps \<noteq> []"
    using assms(2) by (cases ps) simp_all
  ultimately have "split_args (join_args (map (declared va) (enumerate 0 ps))) = map (declared va) (enumerate 0 ps)"
    and "split_args (join_args (map passed (enumerate 0 ps))) = map passed (enumerate 0 ps)"
    by (simp_all only: split_join_args map_is_Nil_conv not_False_eq_True)
  then show ?thesis
    using assms(1-3) by (simp add: MMK_PARAM_LIST_eq MMK_PARAM_PACK_eq)
qed

section \<open>Properties\<close>

text \<open>The unrolled loops compute what a loop would, up to the length they are unrolled to: \<open>MMK_VA_NARGS\<close> the
  number of up to 63 arguments, \<open>MMK_LAST\<close> the last of up to 62, and \<open>MMK_APPLY_N\<close> the expansions of the
  macro for each of up to 62 arguments after the first, numbered from 0, in order.\<close>

theorem loops_over_arguments:
  assumes "as \<noteq> []" and "length as \<le> 62" and "list_all argument as"
  shows "MMK_VA_NARGS as = Some [decimal (length as)] \<and>
    MMK_LAST as = Some (last as) \<and>
    MMK_APPLY_N mac prefix (r # as) =
      map_option concat (those (map (\<lambda>(i, a). mac (decimal i) prefix a) (enumerate 0 as)))"
  using assms by (simp_all add: MMK_VA_NARGS_eq MMK_LAST_eq MMK_APPLY_N_eq sequence_of_def)

theorem loops_over_arguments_witness:
  "MMK_LAST [[''int''], [''char'', ''*'']] = Some [''char'', ''*''] \<and>
   MMK_APPLY_N (\<lambda>n p a. Some (n # p @ a)) [''P''] [[''int''], [''char''], [''long'']] =
     Some [''0'', ''P'', ''char'', ''1'', ''P'', ''long'']"
  using loops_over_arguments [of "[[''int''], [''char'', ''*'']]"]
    loops_over_arguments [of "[[''char''], [''long'']]" "\<lambda>n p a. Some (n # p @ a)" "[''P'']" "[''int'']"]
  by (simp add: argument_def depth_after_def decimal_digit)

text \<open>The choices by a type are exact: \<open>MMK_COND_VOID\<close> takes its second branch for the type \<open>void\<close> alone and
  not for types that begin with it, such as \<open>void *\<close>; \<open>MMK_COND_VA\<close> and \<open>MMK_TOKEN_SELECT\<close> do the same for
  \<open>mmk_va_args\<close>.\<close>

theorem choices_are_exact:
  assumes "type_text t"
  shows "MMK_COND_VOID one two t = (if t = [''void''] then two else one) \<and>
    MMK_COND_VA one two t = (if t = [''mmk_va_args''] then two else one) \<and>
    MMK_TOKEN_SELECT tag one two t = (if t = [''mmk_va_args''] then two else one)"
  using assms by (simp_all add: MMK_COND_VOID_eq MMK_COND_VA_eq MMK_TOKEN_SELECT_eq)

theorem choices_are_exact_witness:
  "MMK_COND_VOID (Some ''value'') (Some ''nothing'') [''void'', ''*''] = Some ''value'' \<and>
   MMK_COND_VOID (Some ''value'') (Some ''nothing'') [''void''] = Some ''nothing''"
  using choices_are_exact [of "[''void'', ''*'']" "Some ''value''" "Some ''nothing''"]
    choices_are_exact [of "[''void'']" "Some ''value''" "Some ''nothing''"]
  by (simp add: type_text_simps)

text \<open>C34: \<open>mmk_mock_define\<close> defines a blueprint exactly for a return type with at most 61 parameter types. With
  more, \<open>MMK_LAST\<close> is out of its table and the expansion names macros that do not exist.\<close>

theorem define_limit:
  assumes "as \<noteq> []" and "list_all type_text as"
  shows "mmk_mock_define bp as \<noteq> None \<longleftrightarrow> length as \<le> 62"
proof (cases "length as \<le> 62")
  case True
  then obtain ret ps where as: "as = ret # ps" and n: "length ps < 62"
    using assms(1) by (cases as) auto
  moreover have "type_text (last as)" and "type_text ret"
    using assms as by (simp_all add: list_all_iff)
  ultimately show ?thesis
    using True
    by (simp add: mmk_mock_define_def MMK_MOCK_DEFINE_IMPL_def MMK_LAST_eq MMK_COND_VA_eq MMK_VA_HEAD_Cons
        MMK_COND_VOID_eq)
next
  case False
  then show ?thesis
    using assms by (simp add: mmk_mock_define_def MMK_LAST_None)
qed

theorem define_limit_witness:
  "mmk_mock_define ''f'' (replicate 62 [''int'']) \<noteq> None \<and> mmk_mock_define ''f'' (replicate 63 [''int'']) = None"
proof -
  have "type_text [''int'']"
    by (simp add: type_text_simps)
  then have "list_all type_text (replicate n [''int''])" for n
    by (simp add: list_all_iff)
  then show ?thesis
    using define_limit [of "replicate 62 [''int'']" "''f''"] define_limit [of "replicate 63 [''int'']" "''f''"]
    by simp
qed

text \<open>Which variant a blueprint gets: the value-returning one unless the return type is \<open>void\<close>, and the
  variadic steps only if the last parameter type is \<open>mmk_va_args\<close>.\<close>

theorem define_chooses_variant:
  assumes "type_text ret" and "ret \<noteq> [''mmk_va_args'']" and "param_types ps" and "length ps \<le> 61"
  shows "mmk_mock_define bp (ret # ps) =
    Some ((if ret = [''void'']
           then [[''MMK_NOOP_FN''], [''MMK_MOCK_VOID_RETURN''], [''MMK_MOCK_VOID_RETURN_SE'']]
           else [[''MMK_MOCK_DEFINE_ZERO''], [''MMK_MOCK_VALUE_RETURN''], [''MMK_MOCK_VALUE_RETURN_SE'']]) @
          [[if ps \<noteq> [] \<and> last ps = [''mmk_va_args''] then ''MMK_MOCK_VA_WITH'' else ''MMK_MOCK_VA_WITHOUT''],
           [bp]] @ ret # ps)"
proof -
  have "type_text (last (ret # ps))"
    using assms(1,3) by (auto simp: param_types_def list_all_iff)
  then show ?thesis
    using assms
    by (auto simp: mmk_mock_define_def MMK_MOCK_DEFINE_IMPL_def MMK_LAST_eq MMK_COND_VA_eq MMK_VA_HEAD_Cons
        MMK_COND_VOID_eq)
qed

theorem define_chooses_variant_witness:
  "mmk_mock_define ''log'' [[''void''], [''char'', ''*''], [''mmk_va_args'']] =
     Some [[''MMK_NOOP_FN''], [''MMK_MOCK_VOID_RETURN''], [''MMK_MOCK_VOID_RETURN_SE''], [''MMK_MOCK_VA_WITH''],
       [''log''], [''void''], [''char'', ''*''], [''mmk_va_args'']]"
  using define_chooses_variant [of "[''void'']" "[[''char'', ''*''], [''mmk_va_args'']]" "''log''"]
  by (simp add: type_text_simps)

text \<open>C33: The stub of a blueprint, its delegates and its records agree on the parameters. The parameter list
  declares one parameter per type, in order, with names that differ; the list of arguments passed on to a
  delegate names the same ones in the same order, with a copy of the \<open>va_list\<close> in the variadic
  place; and the record of a call has a field of the declared type for each parameter but the variadic ones, filled
  from the parameter of the same name.\<close>

theorem parameters_line_up:
  assumes "param_types ps" and "ps \<noteq> []" and "length ps \<le> 62" and "argument va"
  shows "map_option split_args (MMK_PARAM_LIST va (ret # ps)) = Some (map (declared va) (enumerate 0 ps)) \<and>
    map_option split_args (MMK_PARAM_PACK (ret # ps)) = Some (map passed (enumerate 0 ps)) \<and>
    MMK_APPLY_N MMK_DEF_FIELD [bp] (ret # ps) = Some (concat (map field_text (enumerate 0 ps))) \<and>
    MMK_APPLY_N MMK_SET_PARAMS [bp] (ret # ps) = Some (concat (map set_text (enumerate 0 ps))) \<and>
    MMK_APPLY_N MMK_DEF_VERIFY_PARAM [bp] (ret # ps) = Some (concat (map init_text (enumerate 0 ps))) \<and>
    distinct (map param_name [0..<length ps])"
  using assms parameters_lines [OF assms]
  by (simp add: fields_of distinct_map inj_on_def)

theorem parameters_line_up_witness:
  "map_option split_args (MMK_PARAM_LIST MMK_VA_LIST_TYPE [[''int''], [''char'', ''*''], [''mmk_va_args'']]) =
     Some [[''char'', ''*'', ''param0''], [''va_list'', ''vl__'']] \<and>
   map_option split_args (MMK_PARAM_PACK [[''int''], [''char'', ''*''], [''mmk_va_args'']]) =
     Some [[''param0''], [''vl_cpy__'']]"
  using parameters_line_up [of "[[''char'', ''*''], [''mmk_va_args'']]" MMK_VA_LIST_TYPE "[''int'']" "''f''"]
  by (simp add: type_text_simps declared_def passed_def param_name_def decimal_digit MMK_VA_LIST_TYPE_def)

text \<open>\<open>va_start\<close> is given the last named parameter: the one declared right before the variadic ones, when
  there is one.\<close>

theorem va_start_names_last_parameter:
  assumes "param_types (qs @ [[''mmk_va_args'']])" and "qs \<noteq> []" and "length qs \<le> 61"
  shows "(\<exists>pre. MMK_MOCK_VA_PREDECL bp (ret # qs @ [[''mmk_va_args'']]) =
    Some (pre @ [''va_start'', ''('', ''vl__'', '','', param_name (length qs - 1), '')''])) \<and>
    map_option split_args (MMK_PARAM_LIST MMK_VA_TYPE (ret # qs @ [[''mmk_va_args'']])) =
    Some (map (declared MMK_VA_TYPE) (enumerate 0 (butlast qs)) @
      [last qs @ [param_name (length qs - 1)], [''...'']])"
proof -
  let ?ps = "qs @ [[''mmk_va_args'']]"
  have a: "list_all argument ?ps"
    using assms(1) by (rule param_types_arguments)
  have "MMK_VA_NARGS (split_args (join_args ?ps)) = Some [decimal (Suc (length qs))]"
    using assms(3) by (simp add: split_join_args [OF _ a] MMK_VA_NARGS_eq)
  then have "\<exists>pre. MMK_MOCK_VA_PREDECL bp (ret # ?ps) =
      Some (pre @ [''va_start'', ''('', ''vl__'', '','', param_name (length qs - 1), '')''])"
    using assms(3) by (simp add: MMK_MOCK_VA_PREDECL_def MMK_VA_TAIL_Cons MMK_PARAM_N_def param_name_def)
  moreover have "map_option split_args (MMK_PARAM_LIST MMK_VA_TYPE (ret # ?ps)) =
      Some (map (declared MMK_VA_TYPE) (enumerate 0 ?ps))"
    using assms(3) by (intro conjunct1 [OF parameters_lines [OF assms(1)]])
      (simp_all add: MMK_VA_TYPE_def argument_def depth_after_def)
  moreover have "last qs \<noteq> [''mmk_va_args'']"
    using assms(1,2) by (simp add: param_types_def list_all_iff)
  moreover have "enumerate 0 qs = enumerate 0 (butlast qs) @ [(length qs - 1, last qs)]"
    using assms(2) by (induction qs rule: rev_induct) (simp_all add: enumerate_append_eq)
  ultimately show ?thesis
    by (simp add: enumerate_append_eq declared_def MMK_VA_TYPE_def)
qed

theorem va_start_names_last_parameter_witness:
  "\<exists>pre. MMK_MOCK_VA_PREDECL ''f'' [[''int''], [''int''], [''char'', ''*''], [''mmk_va_args'']] =
    Some (pre @ [''va_start'', ''('', ''vl__'', '','', ''param1'', '')''])"
  using va_start_names_last_parameter [of "[[''int''], [''char'', ''*'']]" "''f''" "[''int'']"]
  by (simp add: type_text_simps param_name_def decimal_digit)

end
