(* ===== verification/Plt_Mach_O.thy ===== *)
theory Plt_Mach_O
  imports Plt_Elf
begin

text \<open>
  \<open>src/plt-mach-o.c\<close> for a 64-bit target: the back end for Mach-O images. An image is read from memory
  through its load commands; the slots of a function are the entries of the symbol
  pointer sections whose indirect symbol has the function's name. What \<open>dyld\<close> knows (the images with their
  names and headers, the definitions \<open>dlsym\<close> finds) is a parameter; a library handle is a
  position in the list of images, and \<open>-1\<close> the program.
\<close>

record dyld =
  dyld_images :: "(string option \<times> addr) list"
  dlsym :: "string \<Rightarrow> addr"

definition dyld_get_image_name :: "dyld \<Rightarrow> nat \<Rightarrow> string option" where
  "dyld_get_image_name D i = (if i < length (dyld_images D) then fst (dyld_images D ! i) else None)"

definition dyld_get_image_header :: "dyld \<Rightarrow> nat \<Rightarrow> addr" where
  "dyld_get_image_header D i = (if i < length (dyld_images D) then snd (dyld_images D ! i) else NULL)"

section \<open>Load commands\<close>

abbreviation (input) LC_SYMTAB :: "32 word" where "LC_SYMTAB \<equiv> 0x2"
abbreviation (input) LC_DYSYMTAB :: "32 word" where "LC_DYSYMTAB \<equiv> 0xb"
abbreviation (input) MMK_LC_SEGMENT :: "32 word" where "MMK_LC_SEGMENT \<equiv> 0x19"
abbreviation (input) INDIRECT_SYMBOL_LOCAL :: "32 word" where "INDIRECT_SYMBOL_LOCAL \<equiv> 0x80000000"
abbreviation (input) INDIRECT_SYMBOL_ABS :: "32 word" where "INDIRECT_SYMBOL_ABS \<equiv> 0x40000000"

definition ptr_add :: "addr \<Rightarrow> 32 word \<Rightarrow> addr" where
  "ptr_add ptr off = ptr + ucast off"

definition ncmds :: "mem \<Rightarrow> addr \<Rightarrow> nat" where
  "ncmds m hdr = unat (ld32 m (hdr + 16))"

definition first_command :: "addr \<Rightarrow> addr" where
  "first_command hdr = ptr_add hdr 32"

record tables =
  t_symtab :: addr
  t_strtab :: addr
  t_isymtab :: addr
  t_nisyms :: size_t

fun find_tables_from :: "mem \<Rightarrow> addr \<Rightarrow> nat \<Rightarrow> addr \<Rightarrow> bool \<Rightarrow> bool \<Rightarrow> tables \<Rightarrow> tables" where
  "find_tables_from m hdr 0 lc symtab_found dysymtab_found t = t"
| "find_tables_from m hdr (Suc n) lc symtab_found dysymtab_found t =
     (let cmd = ld32 m lc;
          t = (if cmd = LC_SYMTAB
               then t\<lparr>t_symtab := ptr_add hdr (ld32 m (lc + 8)), t_strtab := ptr_add hdr (ld32 m (lc + 16))\<rparr>
               else if cmd = LC_DYSYMTAB
               then t\<lparr>t_isymtab := ptr_add hdr (ld32 m (lc + 56)), t_nisyms := ucast (ld32 m (lc + 60))\<rparr>
               else t);
          symtab_found = (symtab_found \<or> cmd = LC_SYMTAB);
          dysymtab_found = (dysymtab_found \<or> cmd = LC_DYSYMTAB)
      in if symtab_found \<and> dysymtab_found then t
         else find_tables_from m hdr n (ptr_add lc (ld32 m (lc + 4))) symtab_found dysymtab_found t)"

definition find_tables :: "mem \<Rightarrow> addr \<Rightarrow> tables" where
  "find_tables m hdr =
     find_tables_from m hdr (ncmds m hdr) (first_command hdr) False False
       \<lparr>t_symtab = NULL, t_strtab = NULL, t_isymtab = NULL, t_nisyms = 0\<rparr>"

text \<open>\<open>!strncmp (name, field, 16)\<close> for a name field of an image: a name of 16 characters has no terminator.\<close>

definition field_is :: "mem \<Rightarrow> addr \<Rightarrow> string \<Rightarrow> bool" where
  "field_is m a name \<longleftrightarrow> takeWhile (\<lambda>b. b \<noteq> 0) (rd m a 16) = take 16 (cbytes name)"

fun section_in :: "mem \<Rightarrow> nat \<Rightarrow> addr \<Rightarrow> string \<Rightarrow> addr option" where
  "section_in m 0 s sectname = None"
| "section_in m (Suc n) s sectname =
     (if field_is m s sectname then Some s else section_in m n (s + 80) sectname)"

fun section_from :: "mem \<Rightarrow> nat \<Rightarrow> addr \<Rightarrow> string \<Rightarrow> string \<Rightarrow> addr option" where
  "section_from m 0 lc segname sectname = None"
| "section_from m (Suc n) lc segname sectname =
     (let found = (if ld32 m lc = MMK_LC_SEGMENT \<and> field_is m (lc + 8) segname
                   then section_in m (unat (ld32 m (lc + 64))) (lc + 72) sectname else None)
      in case found of
           Some s \<Rightarrow> Some s
         | None \<Rightarrow> section_from m n (ptr_add lc (ld32 m (lc + 4))) segname sectname)"

definition get_section :: "mem \<Rightarrow> addr \<Rightarrow> string \<Rightarrow> string \<Rightarrow> addr option" where
  "get_section m hdr segname sectname = section_from m (ncmds m hdr) (first_command hdr) segname sectname"

section \<open>Slots\<close>

text \<open>
  \<open>names_symbol\<close> is the body of the loop of \<open>get_offsets\<close>: the \<open>i\<close>th entry of the indirect symbol table is
  for a symbol with the name, which has an underscore in front.
\<close>

definition names_symbol :: "mem \<Rightarrow> tables \<Rightarrow> string \<Rightarrow> size_t \<Rightarrow> bool" where
  "names_symbol m t name i \<longleftrightarrow>
     (let isym = ld32 m (t_isymtab t + 4 * i)
      in isym \<noteq> INDIRECT_SYMBOL_LOCAL \<and> isym \<noteq> INDIRECT_SYMBOL_ABS \<and>
         name_at m (ptr_add (t_strtab t) (ld32 m (t_symtab t + 16 * ucast isym)) + 1) name)"

fun get_offsets_from :: "mem \<Rightarrow> tables \<Rightarrow> string \<Rightarrow> nat \<Rightarrow> nat \<Rightarrow> size_t \<Rightarrow> size_t list" where
  "get_offsets_from m t name 0 n i = []"
| "get_offsets_from m t name (Suc k) 0 i = []"
| "get_offsets_from m t name (Suc k) (Suc n) i =
     (if names_symbol m t name i then i # get_offsets_from m t name k n (i + 1)
      else get_offsets_from m t name k (Suc n) (i + 1))"

definition get_offsets :: "mem \<Rightarrow> tables \<Rightarrow> string \<Rightarrow> nat \<Rightarrow> size_t list" where
  "get_offsets m t name n = get_offsets_from m t name (unat (t_nisyms t)) n 0"

definition holds_index :: "mem \<Rightarrow> addr \<Rightarrow> size_t \<Rightarrow> bool" where
  "holds_index m sec i \<longleftrightarrow>
     (let idx_start = ld32 m (sec + 68);
          count = ucast (ld64 m (sec + 40) div 8)
      in ucast idx_start \<le> i \<and> i < ucast (idx_start + count))"

definition find_offset_in :: "mem \<Rightarrow> addr \<Rightarrow> addr \<Rightarrow> size_t list \<Rightarrow> addr" where
  "find_offset_in m hdr sec indices =
     (case filter (holds_index m sec) indices of
        [] \<Rightarrow> NULL
      | i # _ \<Rightarrow> ptr_add hdr (ld32 m (sec + 48)) + 8 * (i - ucast (ld32 m (sec + 68))))"

definition gots :: "string list" where
  "gots = [''__la_symbol_ptr'', ''__nl_symbol_ptr'', ''__got'']"

definition section_slots :: "mem \<Rightarrow> addr \<Rightarrow> size_t list \<Rightarrow> addr list" where
  "section_slots m hdr indices =
     filter (\<lambda>a. a \<noteq> NULL)
       (concat (map (\<lambda>sect. case get_section m hdr ''__DATA'' sect of
          None \<Rightarrow> [] | Some sec \<Rightarrow> [find_offset_in m hdr sec indices]) gots))"

text \<open>
  The array has room for one slot less than indirect symbols were found. \<open>counted\<close> is whether the caller
  passes a place for the number of slots.
\<close>

definition plt_get_offsets_macho ::
  "dyld \<Rightarrow> libc \<Rightarrow> 'a heap_scheme \<Rightarrow> int \<Rightarrow> string \<Rightarrow> bool \<Rightarrow>
    fault + addr \<times> plt_offset list \<times> 'a heap_scheme" where
  "plt_get_offsets_macho D L s lib name counted =
     andthen (mmk_assert ''lib'' (lib \<noteq> 0)) (\<lambda>_.
       let hdr = dyld_get_image_header D (nat (if lib = - 1 then 0 else lib));
           t = find_tables (mem s) hdr
       in if hdr = NULL then Inr (NULL, [], s)
          else if t_symtab t = NULL \<or> t_strtab t = NULL \<or> t_isymtab t = NULL \<or> t_nisyms t = 0
          then Inr (NULL, [], s)
          else let indices = get_offsets (mem s) t name 32;
                   n = length indices
               in if n = 0 then Inr (NULL, [], s)
                  else if \<not> counted then
                    andthen (mmk_malloc L s 1) (\<lambda>(p, s). Inr (p, [], s))
                  else
                    andthen (mmk_malloc L s (of_nat (16 * (n - 1)))) (\<lambda>(p, s).
                      let as = section_slots (mem s) hdr indices
                      in if as \<noteq> [] \<and> p = NULL \<or> n - 1 < length as then Inl UB
                         else Inr (p, map (\<lambda>a. \<lparr>offset = a, oldval = NULL\<rparr>) as, s)))"

fun plt_set_offsets_macho :: "'a heap_scheme \<Rightarrow> plt_offset list \<Rightarrow> addr \<Rightarrow> fault + plt_offset list \<times> 'a heap_scheme" where
  "plt_set_offsets_macho s [] newval = Inr ([], s)"
| "plt_set_offsets_macho s (off # offs) newval =
     (let off' = (if oldval off = NULL then off\<lparr>oldval := ld64 (mem s) (offset off)\<rparr> else off)
      in andthen (plt_set_offsets_macho (s\<lparr>mem := st64 (mem s) (offset off) newval\<rparr>) offs newval)
           (\<lambda>(offs', s). Inr (off' # offs', s)))"

fun plt_reset_offsets_macho :: "'a heap_scheme \<Rightarrow> plt_offset list \<Rightarrow> fault + 'a heap_scheme" where
  "plt_reset_offsets_macho s [] = Inr s"
| "plt_reset_offsets_macho s (off # offs) =
     plt_reset_offsets_macho (s\<lparr>mem := st64 (mem s) (offset off) (oldval off)\<rparr>) offs"

section \<open>Libraries and definitions\<close>

text \<open>The pattern is cut by a buffer of \<open>val_len + 8\<close> bytes.\<close>

definition lib_pattern :: "string \<Rightarrow> string" where
  "lib_pattern val = take (mmk_strlen val + 8 - 1) (''/lib'' @ val @ ''.dylib'')"

fun image_from ::
  "dyld \<Rightarrow> libc \<Rightarrow> 'a heap_scheme \<Rightarrow> plt_selector \<Rightarrow> string \<Rightarrow> nat list \<Rightarrow> fault + int \<times> 'a heap_scheme" where
  "image_from D L s sel val [] = Inr (0, s)"
| "image_from D L s sel val (i # is) =
     (let img_name = dyld_get_image_name D i
      in if sel = PLT_SEL_LIB then
           (if img_name \<noteq> None \<and> strstr (the img_name) (lib_pattern val) then Inr (int i, s)
            else image_from D L s sel val is)
         else if sel = PLT_SEL_NONE \<or> sel = PLT_SEL_FILE then
           (if img_name = Some val then Inr (int i, s) else image_from D L s sel val is)
         else
           andthen (plt_get_offsets_macho D L s (int i) val False) (\<lambda>(off, _, s).
           andthen (mmk_free s off) (\<lambda>s.
             if off \<noteq> NULL then Inr (int i, s) else image_from D L s sel val is)))"

definition plt_get_lib_macho ::
  "dyld \<Rightarrow> libc \<Rightarrow> 'a heap_scheme \<Rightarrow> string option \<Rightarrow> fault + int \<times> 'a heap_scheme" where
  "plt_get_lib_macho D L s name =
     (case name of
        None \<Rightarrow> Inr (- 1, s)
      | Some name \<Rightarrow>
          if name = ''self'' then Inr (- 1, s)
          else andthen (plt_get_selector name) (\<lambda>(sel, val).
                 image_from D L s sel val [1..<length (dyld_images D)]))"

definition plt_get_real_fn_macho :: "dyld \<Rightarrow> string \<Rightarrow> addr" where
  "plt_get_real_fn_macho D name = dlsym D name"

section \<open>The contract of a back end\<close>

lemma plt_set_offsets_macho_patch:
  "plt_set_offsets_macho s offs v = Inr (fst (patch (mem s) offs v), s\<lparr>mem := snd (patch (mem s) offs v)\<rparr>)"
  by (induction s offs v rule: plt_set_offsets_macho.induct) (auto simp: Let_def split_beta)

lemma plt_reset_offsets_macho_unpatch:
  "plt_reset_offsets_macho s offs = Inr (s\<lparr>mem := unpatch (mem s) offs\<rparr>)"
  by (induction s offs rule: plt_reset_offsets_macho.induct) auto

interpretation macho_patcher: got_patcher plt_set_offsets_macho plt_reset_offsets_macho mem "\<lambda>s. True"
  by unfold_locales (simp_all add: plt_set_offsets_macho_patch plt_reset_offsets_macho_unpatch)

section \<open>Lemmas\<close>

lemma lib_pattern_eq: "lib_pattern val = ''/lib'' @ val @ ''.dy''"
  by (simp add: lib_pattern_def eval_nat_numeral)

text \<open>The entries found are the first \<open>n\<close> that name the function, in order.\<close>

lemma get_offsets_from_eq:
  "get_offsets_from m t name k n i =
     take n (filter (names_symbol m t name) (map (\<lambda>j. i + of_nat j) [0..<k]))"
proof (induction m t name k n i rule: get_offsets_from.induct)
  case (3 m t name k n i)
  have "map (\<lambda>j. i + of_nat j) [0..<Suc k] = i # map (\<lambda>j. i + 1 + of_nat j) [0..<k]"
    by (simp only: map_upt_Suc) (simp add: add.assoc)
  with 3 show ?case
    by (simp del: upt_Suc)
qed auto

lemma get_offsets_eq:
  "get_offsets m t name n = take n (filter (names_symbol m t name) (map of_nat [0..<unat (t_nisyms t)]))"
  by (simp add: get_offsets_def get_offsets_from_eq)

lemma length_section_slots: "length (section_slots m hdr indices) \<le> 3"
  unfolding section_slots_def gots_def
  by (rule order_trans [OF length_filter_le]) (simp split: option.splits)

lemma section_slots_sound:
  assumes "a \<in> set (section_slots m hdr indices)"
  obtains sect sec i where "sect \<in> set gots" and "get_section m hdr ''__DATA'' sect = Some sec"
    and "i \<in> set indices" and "holds_index m sec i"
    and "a = ptr_add hdr (ld32 m (sec + 48)) + 8 * (i - ucast (ld32 m (sec + 68)))"
proof -
  obtain sect where s: "sect \<in> set gots" and "a \<noteq> NULL"
    and "a \<in> set (case get_section m hdr ''__DATA'' sect of
      None \<Rightarrow> [] | Some sec \<Rightarrow> [find_offset_in m hdr sec indices])"
    using assms by (auto simp: section_slots_def)
  then obtain sec where sec: "get_section m hdr ''__DATA'' sect = Some sec"
    and a: "a = find_offset_in m hdr sec indices" and "a \<noteq> NULL"
    by (cases "get_section m hdr ''__DATA'' sect") auto
  then obtain i js where f: "filter (holds_index m sec) indices = i # js"
    by (auto simp: find_offset_in_def split: list.splits)
  then have "i \<in> set (filter (holds_index m sec) indices)"
    by simp
  then have "i \<in> set indices" and "holds_index m sec i"
    by (simp_all only: set_filter mem_Collect_eq)
  with s sec a f show thesis
    by (intro that [of sect sec i]) (simp_all add: find_offset_in_def)
qed

end
