(* ===== verification/Plt_Pe.thy ===== *)
theory Plt_Pe
  imports Plt_Elf
begin

text \<open>
  \<open>src/plt-pe.c\<close> for a 64-bit target: the back end for the PE images of Windows. The slot of a function is
  found through the import directory of a module, and written between two calls of \<open>VirtualProtect\<close>. The
  services of Windows that the code calls are a parameter, the protections of pages are
  part of the state. A library handle is the address of a module.
\<close>

record windows =
  module_snapshot :: "addr list option"
  ends_with_no_more_files :: bool
  get_module_handle :: "string option \<Rightarrow> addr"
  get_proc_address :: "addr \<Rightarrow> string \<Rightarrow> addr"
  virtual_protect :: "(addr \<Rightarrow> 32 word) \<Rightarrow> addr \<Rightarrow> size_t \<Rightarrow> 32 word \<Rightarrow> 32 word \<times> (addr \<Rightarrow> 32 word)"

record pe_state = heap +
  page_prot :: "addr \<Rightarrow> 32 word"

section \<open>The import directory\<close>

definition nt_header_from_lib :: "mem \<Rightarrow> addr \<Rightarrow> addr" where
  "nt_header_from_lib m lib = lib + scast (ld32 m (lib + 0x3c))"

text \<open>The entry of the import directory lies 144 bytes into the header.\<close>

definition get_first_import_descriptor :: "mem \<Rightarrow> addr \<Rightarrow> addr" where
  "get_first_import_descriptor m lib =
     (let off = ld32 m (nt_header_from_lib m lib + 144)
      in if off = 0 then NULL else lib + ucast off)"

text \<open>The loops end at the first empty thunk and at the first descriptor without a name.\<close>

partial_function (option) thunk_from :: "mem \<Rightarrow> addr \<Rightarrow> string \<Rightarrow> addr \<Rightarrow> addr \<Rightarrow> addr option option" where
  "thunk_from m base name thunk thunk_data =
     (if ld64 m thunk_data = 0 then Some None
      else if name_at m (base + (ld64 m thunk_data + 2)) name then Some (Some thunk)
      else thunk_from m base name (thunk + 8) (thunk_data + 8))"

definition thunk_table :: "mem \<Rightarrow> addr \<Rightarrow> addr \<Rightarrow> addr" where
  "thunk_table m base entry =
     base + ucast (if ld32 m entry \<noteq> 0 then ld32 m entry else ld32 m (entry + 16))"

partial_function (option) descriptor_from :: "mem \<Rightarrow> addr \<Rightarrow> string \<Rightarrow> addr \<Rightarrow> addr option" where
  "descriptor_from m base name entry =
     (if ld32 m (entry + 12) = 0 then Some NULL
      else case thunk_from m base name (base + ucast (ld32 m (entry + 16))) (thunk_table m base entry) of
        None \<Rightarrow> None
      | Some (Some thunk) \<Rightarrow> Some thunk
      | Some None \<Rightarrow> descriptor_from m base name (entry + 20))"

definition plt_get_offset_pe :: "mem \<Rightarrow> addr \<Rightarrow> string \<Rightarrow> addr option" where
  "plt_get_offset_pe m lib name =
     (let entry = get_first_import_descriptor m lib
      in if entry = NULL then Some NULL else descriptor_from m lib name entry)"

declare thunk_from.simps [simp del] descriptor_from.simps [simp del]

section \<open>Libraries and slots\<close>

fun module_with :: "mem \<Rightarrow> string \<Rightarrow> addr list \<Rightarrow> fault + (addr \<times> addr) option" where
  "module_with m name [] = Inr None"
| "module_with m name (h # hs) =
     andthen (returns (plt_get_offset_pe m h name)) (\<lambda>fn.
       if fn \<noteq> NULL then Inr (Some (fn, h)) else module_with m name hs)"

definition plt_find_offset :: "windows \<Rightarrow> mem \<Rightarrow> string \<Rightarrow> fault + (addr \<times> addr) option" where
  "plt_find_offset W m name =
     andthen (mmk_assert ''snap != INVALID_HANDLE_VALUE'' (module_snapshot W \<noteq> None)) (\<lambda>_.
     andthen (module_with m name (the (module_snapshot W))) (\<lambda>r.
       case r of
         Some x \<Rightarrow> Inr (Some x)
       | None \<Rightarrow> andthen (mmk_assert ''GetLastError() == ERROR_NO_MORE_FILES'' (ends_with_no_more_files W))
           (\<lambda>_. Inr None)))"

definition plt_get_lib_pe :: "windows \<Rightarrow> mem \<Rightarrow> string option \<Rightarrow> fault + addr" where
  "plt_get_lib_pe W m name =
     (let name = (case name of None \<Rightarrow> ''self'' | Some n \<Rightarrow> n)
      in if mmk_streq name ''self'' then Inr (get_module_handle W None)
         else andthen (plt_get_selector name) (\<lambda>(sel, val).
           if sel = PLT_SEL_FILE \<or> sel = PLT_SEL_LIB then
             (let h = get_module_handle W (Some val)
              in Inr (if h = NULL then get_module_handle W (Some (''lib'' @ val)) else h))
           else if sel = PLT_SEL_SYM then
             andthen (plt_find_offset W m (drop 4 name)) (\<lambda>r.
               case r of None \<Rightarrow> Inr NULL | Some (_, lib) \<Rightarrow> Inr lib)
           else Inr NULL))"

definition plt_get_offsets_pe ::
  "libc \<Rightarrow> 'a heap_scheme \<Rightarrow> addr \<Rightarrow> string \<Rightarrow> fault + addr \<times> plt_offset list \<times> 'a heap_scheme" where
  "plt_get_offsets_pe L s lib name =
     andthen (returns (plt_get_offset_pe (mem s) lib name)) (\<lambda>off.
       if off \<noteq> NULL then
         andthen (mmk_malloc L s 16) (\<lambda>(ot, s).
           if ot = NULL then Inl UB else Inr (ot, [\<lparr>offset = off, oldval = NULL\<rparr>], s))
       else Inr (NULL, [], s))"

abbreviation (input) PAGE_EXECUTE_READWRITE :: "32 word" where
  "PAGE_EXECUTE_READWRITE \<equiv> 0x40"

definition plt_set_offset :: "windows \<Rightarrow> 'a pe_state_scheme \<Rightarrow> addr \<Rightarrow> addr \<Rightarrow> 'a pe_state_scheme" where
  "plt_set_offset W s slot newval =
     (let (old, pp) = virtual_protect W (page_prot s) slot 8 PAGE_EXECUTE_READWRITE;
          (_, pp) = virtual_protect W pp slot 8 old
      in s\<lparr>mem := st64 (mem s) slot newval, page_prot := pp\<rparr>)"

fun plt_set_offsets_pe ::
  "windows \<Rightarrow> 'a pe_state_scheme \<Rightarrow> plt_offset list \<Rightarrow> addr \<Rightarrow> fault + plt_offset list \<times> 'a pe_state_scheme" where
  "plt_set_offsets_pe W s [] newval = Inr ([], s)"
| "plt_set_offsets_pe W s (off # offs) newval =
     (let off' = (if oldval off = NULL then off\<lparr>oldval := ld64 (mem s) (offset off)\<rparr> else off)
      in andthen (plt_set_offsets_pe W (plt_set_offset W s (offset off) newval) offs newval)
           (\<lambda>(offs', s). Inr (off' # offs', s)))"

fun plt_reset_offsets_pe :: "windows \<Rightarrow> 'a pe_state_scheme \<Rightarrow> plt_offset list \<Rightarrow> fault + 'a pe_state_scheme" where
  "plt_reset_offsets_pe W s [] = Inr s"
| "plt_reset_offsets_pe W s (off # offs) =
     plt_reset_offsets_pe W (plt_set_offset W s (offset off) (oldval off)) offs"

fun proc_in :: "windows \<Rightarrow> string \<Rightarrow> addr list \<Rightarrow> addr" where
  "proc_in W name [] = NULL"
| "proc_in W name (h # hs) =
     (if get_proc_address W h name \<noteq> NULL then get_proc_address W h name else proc_in W name hs)"

definition plt_get_real_fn_pe :: "windows \<Rightarrow> string \<Rightarrow> fault + addr" where
  "plt_get_real_fn_pe W name =
     andthen (mmk_assert ''snap != INVALID_HANDLE_VALUE'' (module_snapshot W \<noteq> None)) (\<lambda>_.
       let fn = proc_in W name (the (module_snapshot W))
       in if fn \<noteq> NULL then Inr fn
          else andthen (mmk_assert ''GetLastError() == ERROR_NO_MORE_FILES'' (ends_with_no_more_files W))
            (\<lambda>_. Inr NULL))"

section \<open>The contract of a back end\<close>

lemma mem_plt_set_offset [simp]: "mem (plt_set_offset W s slot v) = st64 (mem s) slot v"
  by (simp add: plt_set_offset_def split_beta Let_def)

lemma plt_set_offsets_pe_patch:
  "\<exists>s'. plt_set_offsets_pe W s offs v = Inr (fst (patch (mem s) offs v), s') \<and>
    mem s' = snd (patch (mem s) offs v)"
proof (induction offs arbitrary: s)
  case (Cons off offs)
  from Cons [of "plt_set_offset W s (offset off) v"] show ?case
    by (auto simp: Let_def split_beta)
qed simp

lemma plt_reset_offsets_pe_unpatch:
  "\<exists>s'. plt_reset_offsets_pe W s offs = Inr s' \<and> mem s' = unpatch (mem s) offs"
proof (induction offs arbitrary: s)
  case (Cons off offs)
  from Cons [of "plt_set_offset W s (offset off) (oldval off)"] show ?case
    by simp
qed simp

interpretation pe_patcher: got_patcher "plt_set_offsets_pe W" "plt_reset_offsets_pe W" mem "\<lambda>s. True"
    for W :: windows
  by unfold_locales (simp_all add: plt_set_offsets_pe_patch plt_reset_offsets_pe_unpatch)

section \<open>Page protections\<close>

text \<open>
  What \<open>VirtualProtect\<close> is documented to do: it changes the protection of every page that contains a byte of the
  range, and returns the protection that the first of these pages had.
\<close>

definition page_of :: "addr \<Rightarrow> addr" where
  "page_of a = of_nat (unat a div 4096 * 4096)"

definition protects_pages :: "windows \<Rightarrow> bool" where
  "protects_pages W \<longleftrightarrow> (\<forall>pp a n p. 0 < n \<longrightarrow> virtual_protect W pp a n p =
     (pp (page_of a), \<lambda>x. if \<exists>y. in_region a (unat n) y \<and> page_of y = x then p else pp x))"

lemma aligned_page:
  assumes "unat a mod 8 = 0" and "in_region a 8 y"
  shows "page_of y = page_of a"
proof -
  define k where "k = unat (y - a)"
  obtain q where q: "unat a = 8 * q"
    using assms(1) by (auto elim: dvdE simp flip: dvd_eq_mod_eq_0)
  have k: "k < 8"
    using assms(2) by (simp add: k_def in_region_def)
  have "unat (a + of_nat k) = unat a + k"
    using k q unat_less_64 [of a] by (intro unat_add_no_wrap) simp
  moreover have "y = a + of_nat k"
    by (simp add: k_def)
  ultimately have "unat y div 4096 = (8 * q + k) div 8 div 512"
    using q by (simp add: div_mult2_eq [symmetric])
  moreover have "unat a div 4096 = (8 * q) div 8 div 512"
    using q by (simp add: div_mult2_eq [symmetric])
  ultimately show ?thesis
    using k by (simp add: page_of_def)
qed

lemma plt_set_offset_keeps_protection:
  assumes "protects_pages W" and "unat slot mod 8 = 0"
  shows "page_prot (plt_set_offset W s slot v) = page_prot s"
proof -
  have in_page: "(\<exists>y. in_region slot 8 y \<and> page_of y = x) = (x = page_of slot)" for x
  proof
    assume "\<exists>y. in_region slot 8 y \<and> page_of y = x"
    then show "x = page_of slot"
      by (auto dest: aligned_page [OF assms(2)])
  next
    assume "x = page_of slot"
    then show "\<exists>y. in_region slot 8 y \<and> page_of y = x"
      by (intro exI [of _ slot]) (simp add: in_region_def)
  qed
  have vp: "virtual_protect W pp slot 8 p = (pp (page_of slot), pp(page_of slot := p))" for pp p
  proof -
    have "virtual_protect W pp slot 8 p =
        (pp (page_of slot), \<lambda>x. if \<exists>y. in_region slot (unat (8 :: size_t)) y \<and> page_of y = x then p else pp x)"
      using assms(1) by (simp only: protects_pages_def) simp
    then show ?thesis
      by (simp add: in_page fun_upd_def)
  qed
  show ?thesis
    by (simp add: plt_set_offset_def vp)
qed

section \<open>Finding the slot\<close>

definition imported :: "mem \<Rightarrow> addr \<Rightarrow> string \<Rightarrow> addr \<Rightarrow> addr \<Rightarrow> addr \<Rightarrow> bool" where
  "imported m base name thunk thunk_data a \<longleftrightarrow>
     (\<exists>k :: nat. a = thunk + 8 * of_nat k \<and> ld64 m (thunk_data + 8 * of_nat k) \<noteq> 0 \<and>
        name_at m (base + (ld64 m (thunk_data + 8 * of_nat k) + 2)) name)"

lemma imported_first:
  "ld64 m thunk_data \<noteq> 0 \<Longrightarrow> name_at m (base + (ld64 m thunk_data + 2)) name \<Longrightarrow>
    imported m base name thunk thunk_data thunk"
  unfolding imported_def by (rule exI [of _ 0]) simp

lemma imported_later:
  "imported m base name (thunk + 8) (thunk_data + 8) a \<Longrightarrow> imported m base name thunk thunk_data a"
proof -
  have "p + 8 + 8 * of_nat k = p + 8 * of_nat (Suc k)" for p :: addr and k
    by (simp add: algebra_simps)
  then show "imported m base name (thunk + 8) (thunk_data + 8) a \<Longrightarrow> imported m base name thunk thunk_data a"
    unfolding imported_def by metis
qed

lemma thunk_from_sound:
  assumes "thunk_from m base name thunk thunk_data = Some (Some a)"
  shows "imported m base name thunk thunk_data a"
proof -
  have "\<forall>a. r = Some a \<longrightarrow> imported m base name thunk thunk_data a"
    if "thunk_from m base name thunk thunk_data = Some r" for r
  proof (rule thunk_from.raw_induct [where P = "\<lambda>m base name thunk thunk_data r.
        \<forall>a. r = Some a \<longrightarrow> imported m base name thunk thunk_data a", OF _ that])
    fix f :: "mem \<Rightarrow> addr \<Rightarrow> string \<Rightarrow> addr \<Rightarrow> addr \<Rightarrow> addr option option"
    fix m base name thunk thunk_data r
    assume IH: "\<And>m base name thunk thunk_data r. f m base name thunk thunk_data = Some r \<Longrightarrow>
        \<forall>a. r = Some a \<longrightarrow> imported m base name thunk thunk_data a"
      and eq: "(if ld64 m thunk_data = 0 then Some None
        else if name_at m (base + (ld64 m thunk_data + 2)) name then Some (Some thunk)
        else f m base name (thunk + 8) (thunk_data + 8)) = Some r"
    show "\<forall>a. r = Some a \<longrightarrow> imported m base name thunk thunk_data a"
    proof (cases "ld64 m thunk_data = 0")
      case True
      with eq show ?thesis
        by simp
    next
      case nonzero: False
      show ?thesis
      proof (cases "name_at m (base + (ld64 m thunk_data + 2)) name")
        case True
        with eq nonzero have "r = Some thunk"
          by simp
        with imported_first [OF nonzero True] show ?thesis
          by simp
      next
        case False
        with eq nonzero have "f m base name (thunk + 8) (thunk_data + 8) = Some r"
          by simp
        then show ?thesis
          using IH imported_later by blast
      qed
    qed
  qed
  with assms show ?thesis
    by blast
qed

text \<open>The slot found for a name is that of an entry with the name in the table of some descriptor.\<close>

definition import_slot :: "mem \<Rightarrow> addr \<Rightarrow> string \<Rightarrow> addr \<Rightarrow> addr \<Rightarrow> bool" where
  "import_slot m base name entry a \<longleftrightarrow>
     (\<exists>j :: nat. let d = entry + 20 * of_nat j
        in ld32 m (d + 12) \<noteq> 0 \<and>
           imported m base name (base + ucast (ld32 m (d + 16))) (thunk_table m base d) a)"

lemma import_slot_first:
  "ld32 m (entry + 12) \<noteq> 0 \<Longrightarrow>
    imported m base name (base + ucast (ld32 m (entry + 16))) (thunk_table m base entry) a \<Longrightarrow>
    import_slot m base name entry a"
  unfolding import_slot_def Let_def by (rule exI [of _ 0]) simp

lemma import_slot_later: "import_slot m base name (entry + 20) a \<Longrightarrow> import_slot m base name entry a"
proof -
  have "p + 20 + 20 * of_nat k = p + 20 * of_nat (Suc k)" for p :: addr and k
    by (simp add: algebra_simps)
  then show "import_slot m base name (entry + 20) a \<Longrightarrow> import_slot m base name entry a"
    unfolding import_slot_def by metis
qed

lemma descriptor_from_sound:
  assumes "descriptor_from m base name entry = Some a"
  shows "a = NULL \<or> import_slot m base name entry a"
proof (rule descriptor_from.raw_induct [where P = "\<lambda>m base name entry a.
      a = NULL \<or> import_slot m base name entry a", OF _ assms])
  fix f :: "mem \<Rightarrow> addr \<Rightarrow> string \<Rightarrow> addr \<Rightarrow> addr option"
  fix m base name entry a
  assume IH: "\<And>m base name entry a. f m base name entry = Some a \<Longrightarrow>
      a = NULL \<or> import_slot m base name entry a"
    and eq: "(if ld32 m (entry + 12) = 0 then Some NULL
      else case thunk_from m base name (base + ucast (ld32 m (entry + 16))) (thunk_table m base entry) of
        None \<Rightarrow> None
      | Some (Some thunk) \<Rightarrow> Some thunk
      | Some None \<Rightarrow> f m base name (entry + 20)) = Some a"
  show "a = NULL \<or> import_slot m base name entry a"
  proof (cases "ld32 m (entry + 12) = 0")
    case True
    with eq show ?thesis
      by simp
  next
    case named: False
    let ?r = "thunk_from m base name (base + ucast (ld32 m (entry + 16))) (thunk_table m base entry)"
    show ?thesis
    proof (cases ?r)
      case None
      with eq named show ?thesis
        by simp
    next
      case (Some r)
      show ?thesis
      proof (cases r)
        case None
        with eq named Some have "f m base name (entry + 20) = Some a"
          by simp
        then show ?thesis
          using IH import_slot_later by blast
      next
        case (Some thunk)
        with eq named \<open>?r = Some r\<close> have "?r = Some (Some a)"
          by simp
        from import_slot_first [OF named thunk_from_sound [OF this]] show ?thesis ..
      qed
    qed
  qed
qed

lemma plt_get_offset_pe_sound:
  "plt_get_offset_pe m lib name = Some a \<Longrightarrow> a \<noteq> NULL \<Longrightarrow>
    import_slot m lib name (get_first_import_descriptor m lib) a"
  by (auto simp: plt_get_offset_pe_def Let_def split: if_splits dest: descriptor_from_sound)

lemma plt_set_offsets_pe_protection:
  "protects_pages W \<Longrightarrow> \<forall>a \<in> set (slots offs). unat a mod 8 = 0 \<Longrightarrow>
    plt_set_offsets_pe W s offs v = Inr (offs', s') \<Longrightarrow> page_prot s' = page_prot s"
proof (induction offs arbitrary: s offs' s')
  case (Cons off offs)
  then show ?case
    by (auto simp: Let_def andthen_Inr_iff plt_set_offset_keeps_protection)
qed simp

lemma plt_reset_offsets_pe_protection:
  "protects_pages W \<Longrightarrow> \<forall>a \<in> set (slots offs). unat a mod 8 = 0 \<Longrightarrow>
    plt_reset_offsets_pe W s offs = Inr s' \<Longrightarrow> page_prot s' = page_prot s"
  by (induction offs arbitrary: s) (auto simp: plt_set_offset_keeps_protection)

end
