(* ===== verification/Back_Ends.thy ===== *)
theory Back_Ends
  imports Plt_Mach_O Plt_Pe Demo
begin

text \<open>
  The properties of the back ends for Mach-O and PE, and that of all three together. The witnesses read two small
  images, each given by its words of eight bytes.
\<close>

section \<open>Images\<close>

definition image_word :: "(nat \<times> nat) list \<Rightarrow> nat \<Rightarrow> nat" where
  "image_word ws i = (case map_of ws i of None \<Rightarrow> 0 | Some w \<Rightarrow> w)"

definition image_mem :: "(nat \<times> nat) list \<Rightarrow> mem" where
  "image_mem ws a = of_nat (image_word ws (unat a div 8) div 256 ^ (unat a mod 8))"

lemma le_val_shifted: "le_val (map (\<lambda>i. of_nat (v div 256 ^ (k + i))) [0..<n]) = v div 256 ^ k mod 256 ^ n"
proof (induction n arbitrary: k)
  case (Suc n)
  have "map (\<lambda>i. of_nat (v div 256 ^ (k + i)) :: byte) [0..<Suc n] =
      of_nat (v div 256 ^ k) # map (\<lambda>i. of_nat (v div 256 ^ (Suc k + i))) [0..<n]"
    by (simp only: map_upt_Suc) simp
  moreover have "v div 256 ^ k mod 256 ^ Suc n = v div 256 ^ k mod 256 + 256 * (v div 256 ^ Suc k mod 256 ^ n)"
    by (simp add: mod_mult2_eq div_mult2_eq [symmetric] mult.commute)
  ultimately show ?case
    using Suc [of "Suc k"] by (simp add: unat_of_nat_byte del: upt_Suc power_Suc)
qed simp

lemma rd_image:
  assumes "unat p mod 8 + n \<le> 8"
  shows "rd (image_mem ws) p n =
    map (\<lambda>i. of_nat (image_word ws (unat p div 8) div 256 ^ (unat p mod 8 + i))) [0..<n]"
proof (rule nth_equalityI)
  fix i
  assume "i < length (rd (image_mem ws) p n)"
  then have i: "i < n"
    by simp
  have "unat p + i < 2 ^ 64"
  proof -
    have "unat p div 8 < 2305843009213693952"
      using unat_less_64 [of p] by (intro less_mult_imp_div_less) simp
    moreover have "unat p = 8 * (unat p div 8) + unat p mod 8"
      by simp
    ultimately have "unat p + i < 18446744073709551616"
      using i assms by linarith
    then show ?thesis
      by simp
  qed
  then have a: "unat (p + of_nat i) = unat p + i"
    by (rule unat_add_no_wrap)
  have "unat p + i = 8 * (unat p div 8) + (unat p mod 8 + i)" and "unat p mod 8 + i < 8"
    using i assms by auto
  then have "(unat p + i) div 8 = unat p div 8" and "(unat p + i) mod 8 = unat p mod 8 + i"
    by (metis div_mult_self4 div_less add.right_neutral zero_neq_numeral add.commute,
        metis mod_mult_self4 mod_less add.commute)
  with i a show "rd (image_mem ws) p n ! i =
      map (\<lambda>i. of_nat (image_word ws (unat p div 8) div 256 ^ (unat p mod 8 + i))) [0..<n] ! i"
    by (simp add: rd_nth image_mem_def)
qed simp

lemma ld32_image: "unat p mod 8 + 4 \<le> 8 \<Longrightarrow>
    ld32 (image_mem ws) p = of_nat (image_word ws (unat p div 8) div 256 ^ (unat p mod 8) mod 256 ^ 4)"
  by (simp add: ld32_def rd_image le_val_shifted)

lemma ld64_image: "unat p mod 8 = 0 \<Longrightarrow>
    ld64 (image_mem ws) p = of_nat (image_word ws (unat p div 8) mod 256 ^ 8)"
  using rd_image [of p 8 ws] le_val_shifted [of _ 0 8] by (simp add: ld64_def)

lemmas image_simps = ld32_image ld64_image image_word_def

text \<open>
  The Mach-O image, at \<open>0x1000\<close>: its load commands for the symbol table, for \<open>n\<close> indirect symbols and for a segment
  with the section \<open>__got\<close>. The symbol is \<open>_f\<close>.
\<close>

definition macho_image :: "nat \<Rightarrow> mem" where
  "macho_image n = image_mem
     [(0x202, 3),
      (0x204, 0x1800000002), (0x205, 0x100000200), (0x206, 0x240),
      (0x207, 0x500000000b), (0x20e, n * 2 ^ 32 + 0x280),
      (0x211, 0x9800000019), (0x212, 0x415441445f5f), (0x219, 1),
      (0x21a, 0x746f675f5f), (0x21f, 16), (0x220, 0x300), (0x222, 0),
      (0x240, 1), (0x248, 0x665f00), (0x250, 0)]"

definition demo_dyld :: dyld where
  "demo_dyld = \<lparr>dyld_images = [(Some ''program'', 0x1000)], dlsym = (\<lambda>_. NULL)\<rparr>"

lemma find_tables_steps:
  "0 < n \<Longrightarrow> ld32 m lc = LC_SYMTAB \<Longrightarrow> find_tables_from m hdr n lc sf df t =
    (let t = t\<lparr>t_symtab := ptr_add hdr (ld32 m (lc + 8)), t_strtab := ptr_add hdr (ld32 m (lc + 16))\<rparr>
     in if df then t else find_tables_from m hdr (n - 1) (ptr_add lc (ld32 m (lc + 4))) True df t)"
  "0 < n \<Longrightarrow> ld32 m lc = LC_DYSYMTAB \<Longrightarrow> find_tables_from m hdr n lc sf df t =
    (let t = t\<lparr>t_isymtab := ptr_add hdr (ld32 m (lc + 56)), t_nisyms := ucast (ld32 m (lc + 60))\<rparr>
     in if sf then t else find_tables_from m hdr (n - 1) (ptr_add lc (ld32 m (lc + 4))) sf True t)"
  by (cases n, simp, simp add: Let_def cong: option.case_cong)+

lemma section_steps:
  "0 < n \<Longrightarrow> ld32 m lc \<noteq> MMK_LC_SEGMENT \<Longrightarrow>
    section_from m n lc segname sectname = section_from m (n - 1) (ptr_add lc (ld32 m (lc + 4))) segname sectname"
  "0 < n \<Longrightarrow> ld32 m lc = MMK_LC_SEGMENT \<Longrightarrow> field_is m (lc + 8) segname \<Longrightarrow>
    section_from m n lc segname sectname =
      (case section_in m (unat (ld32 m (lc + 64))) (lc + 72) sectname of
         Some s \<Rightarrow> Some s
       | None \<Rightarrow> section_from m (n - 1) (ptr_add lc (ld32 m (lc + 4))) segname sectname)"
  by (cases n, simp, simp add: Let_def cong: option.case_cong)+

lemma macho_commands:
  "ld32 (macho_image n) 0x1010 = 3" "ld32 (macho_image n) 0x1020 = 2" "ld32 (macho_image n) 0x1024 = 24"
  "ld32 (macho_image n) 0x1038 = 0xb" "ld32 (macho_image n) 0x103c = 80" "ld32 (macho_image n) 0x1088 = 0x19"
  by (simp_all add: macho_image_def image_simps)

lemma macho_symtab:
  "ld32 (macho_image n) 0x1028 = 0x200" "ld32 (macho_image n) 0x1030 = 0x240" "ld32 (macho_image n) 0x1070 = 0x280"
  "ld32 (macho_image n) 0x1200 = 1" "ld32 (macho_image n) 0x1280 = 0" "ld32 (macho_image n) 0x1284 = 0"
  by (simp_all add: macho_image_def image_simps)

lemma macho_segment:
  "ld32 (macho_image n) 0x10c8 = 1" "ld64 (macho_image n) 0x10f8 = 16" "ld32 (macho_image n) 0x1100 = 0x300"
  "ld32 (macho_image n) 0x1114 = 0"
  by (simp_all add: macho_image_def image_simps)

lemma macho_nisyms: "n < 2 ^ 32 \<Longrightarrow> ld32 (macho_image n) 0x1074 = of_nat n"
  by (simp add: macho_image_def image_simps)

lemma macho_tables:
  "n < 2 ^ 32 \<Longrightarrow> find_tables (macho_image n) 0x1000 =
    \<lparr>t_symtab = 0x1200, t_strtab = 0x1240, t_isymtab = 0x1280, t_nisyms = ucast (of_nat n :: 32 word)\<rparr>"
  by (simp add: find_tables_def ncmds_def first_command_def ptr_add_def macho_commands macho_symtab macho_nisyms
      find_tables_steps)

lemma macho_names:
  "field_is (macho_image n) 0x1090 ''__DATA''" "field_is (macho_image n) 0x10d0 ''__got''"
  "\<not> field_is (macho_image n) 0x10d0 ''__la_symbol_ptr''" "\<not> field_is (macho_image n) 0x10d0 ''__nl_symbol_ptr''"
proof -
  have "rd m p 16 = rd m p 8 @ rd m (p + 8) 8" for m p
    using rd_append [of m p 8 8] by simp
  then have "rd (macho_image n) 0x1090 16 = [95, 95, 68, 65, 84, 65, 0, 0, 0, 0, 0, 0, 0, 0, 0, 0]"
    and "rd (macho_image n) 0x10d0 16 = [95, 95, 103, 111, 116, 0, 0, 0, 0, 0, 0, 0, 0, 0, 0, 0]"
    by (simp_all add: macho_image_def rd_image image_word_def upt_rec)
  then show "field_is (macho_image n) 0x1090 ''__DATA''" and "field_is (macho_image n) 0x10d0 ''__got''"
    and "\<not> field_is (macho_image n) 0x10d0 ''__la_symbol_ptr''"
    and "\<not> field_is (macho_image n) 0x10d0 ''__nl_symbol_ptr''"
    by (simp_all add: field_is_def cbytes_def)
qed

lemma macho_name: "name_at (macho_image n) 0x1242 ''f''"
  by (simp add: name_at_def cbytes_def macho_image_def image_mem_def image_word_def)

lemma macho_section:
  "sect \<in> set gots \<Longrightarrow> get_section (macho_image n) 0x1000 ''__DATA'' sect =
    (if sect = ''__got'' then Some 0x10d0 else None)"
  by (auto simp: gots_def get_section_def ncmds_def first_command_def ptr_add_def macho_commands macho_segment
      macho_names section_steps numeral_eq_Suc [of num.One])

lemma macho_symbol:
  "names_symbol (macho_image n) \<lparr>t_symtab = 0x1200, t_strtab = 0x1240, t_isymtab = 0x1280, t_nisyms = k\<rparr> ''f'' 0"
  "names_symbol (macho_image n) \<lparr>t_symtab = 0x1200, t_strtab = 0x1240, t_isymtab = 0x1280, t_nisyms = k\<rparr> ''f'' 1"
  by (simp_all add: names_symbol_def ptr_add_def macho_symtab macho_name)

text \<open>
  The PE image, at \<open>0x1000\<close>: its headers, one import descriptor with one thunk, for the name \<open>f\<close>, whose slot is at \<open>0x1180\<close>.
\<close>

definition pe_image :: mem where
  "pe_image = image_mem
     [(0x207, 0x4000000000), (0x21a, 0x100),
      (0x220, 0x140), (0x221, 0x100000000), (0x222, 0x180),
      (0x228, 0x1c0), (0x238, 0x660000)]"

lemma pe_words:
  "ld32 pe_image 0x103c = 0x40" "ld32 pe_image 0x10d0 = 0x100" "ld32 pe_image 0x1100 = 0x140"
  "ld32 pe_image 0x110c = 1" "ld32 pe_image 0x1110 = 0x180" "ld64 pe_image 0x1140 = 0x1c0"
  by (simp_all add: pe_image_def image_simps)

lemma pe_name: "name_at pe_image 0x11c2 ''f''"
  by (simp add: name_at_def cbytes_def pe_image_def image_mem_def image_word_def)

lemma pe_slot: "plt_get_offset_pe pe_image 0x1000 ''f'' = Some 0x1180"
  by (simp add: plt_get_offset_pe_def get_first_import_descriptor_def nt_header_from_lib_def pe_words
      descriptor_from.simps thunk_table_def thunk_from.simps pe_name)

section \<open>Properties\<close>

lemma mem_mmk_malloc: "mmk_malloc L s n = Inr (p, s') \<Longrightarrow> mem s' = mem s"
  by (auto simp: mmk_malloc_def Let_def split: if_splits)

text \<open>C16: The three back ends redirect alike. For the same memory and the same slots, \<open>plt_set_offsets\<close> of each
  gives the same array with the values saved, and the same memory, in which every slot holds the new function; and
  after \<open>plt_reset_offsets\<close> of each, memory is as it was.\<close>

theorem back_ends_redirect_alike:
  fixes s :: "'a heap_scheme" and s2 :: "'b heap_scheme" and s3 :: "'c pe_state_scheme"
  assumes "fp_mprotect (vit s) \<noteq> NULL" and "mem s2 = mem s" and "mem s3 = mem s"
    and "slots_apart (slots offs)" and "\<forall>off \<in> set offs. oldval off = NULL"
  shows "\<exists>offs' r1 r2 r3 e1 e2 e3.
    plt_set_offsets L s offs v = Inr (offs', r1) \<and> plt_set_offsets_macho s2 offs v = Inr (offs', r2) \<and>
    plt_set_offsets_pe W s3 offs v = Inr (offs', r3) \<and> mem r2 = mem r1 \<and> mem r3 = mem r1 \<and>
    (\<forall>a \<in> set (slots offs). ld64 (mem r1) a = v) \<and>
    plt_reset_offsets r1 offs' = Inr e1 \<and> plt_reset_offsets_macho r2 offs' = Inr e2 \<and>
    plt_reset_offsets_pe W r3 offs' = Inr e3 \<and>
    mem e1 = mem s \<and> mem e2 = mem s \<and> mem e3 = mem s"
proof -
  let ?p = "patch (mem s) offs v"
  obtain r1 where r1: "plt_set_offsets L s offs v = Inr (fst ?p, r1)" "mem r1 = snd ?p"
    using elf_patcher.set_patches [OF assms(1), of L offs v] by blast
  obtain r2 where r2: "plt_set_offsets_macho s2 offs v = Inr (fst ?p, r2)" "mem r2 = snd ?p"
    using macho_patcher.set_patches [of s2 offs v] assms(2) by auto
  obtain r3 where r3: "plt_set_offsets_pe W s3 offs v = Inr (fst ?p, r3)" "mem r3 = snd ?p"
    using pe_patcher.set_patches [of W s3 offs v] assms(3) by auto
  obtain e3 where e3: "plt_reset_offsets_pe W r3 (fst ?p) = Inr e3" "mem e3 = unpatch (mem r3) (fst ?p)"
    using pe_patcher.reset_unpatches [of W r3 "fst ?p"] by auto
  show ?thesis
    using r1 r2 r3 e3 unpatch_patch [OF assms(4,5), of "mem s" v]
    by (simp add: plt_reset_offsets_unpatch plt_reset_offsets_macho_unpatch patch_slot [OF assms(4)])
qed

definition demo_windows :: windows where
  "demo_windows = \<lparr>module_snapshot = Some [0x1000], ends_with_no_more_files = True,
     get_module_handle = (\<lambda>_. 0x1000), get_proc_address = (\<lambda>_ _. NULL),
     virtual_protect = (\<lambda>pp a n p.
       (pp (page_of a), \<lambda>x. if \<exists>y. in_region a (unat n) y \<and> page_of y = x then p else pp x))\<rparr>"

definition demo_pe :: "mem \<Rightarrow> pe_state" where
  "demo_pe m = \<lparr>mem = m, live = [], prot = (\<lambda>_. 0), vit = demo_vitals, page_prot = (\<lambda>_. 4)\<rparr>"

theorem back_ends_redirect_alike_witness:
  "\<exists>r1 r2 r3. plt_set_offsets demo_libc demo [\<lparr>offset = 0x4001f8, oldval = NULL\<rparr>] 0x5000 = Inr r1 \<and>
    plt_set_offsets_macho demo [\<lparr>offset = 0x4001f8, oldval = NULL\<rparr>] 0x5000 = Inr r2 \<and>
    plt_set_offsets_pe demo_windows (demo_pe demo_mem) [\<lparr>offset = 0x4001f8, oldval = NULL\<rparr>] 0x5000 = Inr r3 \<and>
    fst r2 = fst r1 \<and> mem (snd r3) = mem (snd r1) \<and> ld64 (mem (snd r1)) 0x4001f8 = 0x5000"
  using back_ends_redirect_alike [of demo demo "demo_pe demo_mem" "[\<lparr>offset = 0x4001f8, oldval = NULL\<rparr>]"
      demo_libc "0x5000" demo_windows]
  by (auto simp: demo_pe_def)

text \<open>C36: What the Mach-O back end finds. Each of the at most three slots that \<open>plt_get_offsets\<close> returns is the place in
  a symbol pointer section that belongs to an entry of the indirect symbol table with the function's name;
  there is one slot less than such entries, or fewer; and memory is not written.\<close>

theorem macho_slots_sound:
  fixes s :: "'a heap_scheme"
  assumes "plt_get_offsets_macho D L s lib name True = Inr (p, offs, s')"
    and "hdr = dyld_get_image_header D (nat (if lib = - 1 then 0 else lib))"
    and "t = find_tables (mem s) hdr"
  shows "length offs \<le> 3 \<and> length offs \<le> length (get_offsets (mem s) t name 32) - 1 \<and> mem s' = mem s \<and>
    (\<forall>off \<in> set offs. oldval off = NULL \<and>
       (\<exists>sect sec i. sect \<in> set gots \<and> get_section (mem s) hdr ''__DATA'' sect = Some sec \<and>
          i < t_nisyms t \<and> names_symbol (mem s) t name i \<and> holds_index (mem s) sec i \<and>
          offset off = ptr_add hdr (ld32 (mem s) (sec + 48)) + 8 * (i - ucast (ld32 (mem s) (sec + 68)))))"
proof -
  let ?inds = "get_offsets (mem s) t name 32"
  consider (none) "offs = []" "s' = s"
    | (some) "p = p" "mem s' = mem s" "offs = map (\<lambda>a. \<lparr>offset = a, oldval = NULL\<rparr>) (section_slots (mem s) hdr ?inds)"
        "length (section_slots (mem s) hdr ?inds) \<le> length ?inds - 1"
    using assms(1) unfolding plt_get_offsets_macho_def assms(2,3)
    by (auto simp: andthen_Inr_iff Let_def mmk_assert_def mem_mmk_malloc split: if_splits)
  then show ?thesis
  proof cases
    case some
    have "i < t_nisyms t \<and> names_symbol (mem s) t name i" if "i \<in> set ?inds" for i
    proof -
      have "i \<in> set (filter (names_symbol (mem s) t name) (map of_nat [0..<unat (t_nisyms t)]))"
        using that unfolding get_offsets_eq by (rule in_set_takeD)
      then show ?thesis
        by (auto simp: word_less_nat_alt unat_of_nat intro: le_less_trans [OF mod_less_eq_dividend])
    qed
    moreover have "\<exists>sect sec i. sect \<in> set gots \<and> get_section (mem s) hdr ''__DATA'' sect = Some sec \<and>
        i \<in> set ?inds \<and> holds_index (mem s) sec i \<and>
        a = ptr_add hdr (ld32 (mem s) (sec + 48)) + 8 * (i - ucast (ld32 (mem s) (sec + 68)))"
      if "a \<in> set (section_slots (mem s) hdr ?inds)" for a
      using section_slots_sound [OF that] by metis
    ultimately show ?thesis
      using some length_section_slots [of "mem s" hdr ?inds] by fastforce
  qed simp
qed

lemma demo_image_header: "dyld_get_image_header demo_dyld 0 = 0x1000"
  by (simp add: dyld_get_image_header_def demo_dyld_def)

lemma macho_demo_indices:
  "get_offsets (macho_image 1) (find_tables (macho_image 1) 0x1000) ''f'' 32 = [0]"
  "get_offsets (macho_image 2) (find_tables (macho_image 2) 0x1000) ''f'' 32 = [0, 1]"
  by (simp_all add: macho_tables get_offsets_eq macho_symbol upt_rec)

lemma macho_demo_slots:
  "section_slots (macho_image n) 0x1000 (0 # is) = [0x1300]"
  by (simp add: section_slots_def gots_def macho_section [unfolded gots_def] find_offset_in_def holds_index_def
      macho_segment ptr_add_def)

lemma macho_demo_malloc: "libc_malloc demo_libc (live demo) 16 = 0x10000" "libc_malloc demo_libc (live demo) 0 = 0x10000"
  by (simp_all add: demo_allocations)

lemma macho_demo_offsets:
  "plt_get_offsets_macho demo_dyld demo_libc (demo\<lparr>mem := macho_image 2\<rparr>) (- 1) ''f'' True =
    Inr (0x10000, [\<lparr>offset = 0x1300, oldval = NULL\<rparr>],
      demo\<lparr>mem := macho_image 2, live := (0x10000, 16) # live demo\<rparr>)"
  using macho_demo_indices(2)
  by (simp add: plt_get_offsets_macho_def mmk_assert_def demo_image_header macho_tables mmk_malloc_def
      macho_demo_malloc [simplified] macho_demo_slots Let_def)

theorem macho_slots_sound_witness:
  "names_symbol (macho_image 2) (find_tables (macho_image 2) 0x1000) ''f'' 0 \<and>
   (\<exists>sect sec i. get_section (macho_image 2) 0x1000 ''__DATA'' sect = Some sec \<and> holds_index (macho_image 2) sec i \<and>
     (0x1300 :: addr) = ptr_add 0x1000 (ld32 (macho_image 2) (sec + 48)) + 8 * (i - ucast (ld32 (macho_image 2) (sec + 68))))"
  using macho_slots_sound [OF macho_demo_offsets refl refl] macho_symbol(1) [of 2 2]
  by (auto simp: demo_image_header macho_tables)

text \<open>C38: The array of the Mach-O back end is one element short when no indirect symbol is duplicated: a
  function that has one entry in the indirect symbol table, with a slot in a section, makes
  \<open>plt_get_offsets\<close> write past its allocation.\<close>

theorem macho_lone_entry_overflows:
  fixes s :: "'a heap_scheme"
  assumes "lib \<noteq> 0" and "hdr = dyld_get_image_header D (nat (if lib = - 1 then 0 else lib))" and "hdr \<noteq> NULL"
    and "t = find_tables (mem s) hdr" and "t_symtab t \<noteq> NULL" and "t_strtab t \<noteq> NULL" and "t_isymtab t \<noteq> NULL"
    and "get_offsets (mem s) t name 32 = [i]" and "section_slots (mem s) hdr [i] \<noteq> []"
  shows "plt_get_offsets_macho D L s lib name True = Inl UB"
proof -
  have "t_nisyms t \<noteq> 0"
    using assms(8) by (auto simp: get_offsets_def)
  then have "plt_get_offsets_macho D L s lib name True =
      andthen (mmk_malloc L s 0) (\<lambda>(p, s'). let as = section_slots (mem s') hdr [i]
        in if as \<noteq> [] \<and> p = NULL \<or> 0 < length as then Inl UB
           else Inr (p, map (\<lambda>a. \<lparr>offset = a, oldval = NULL\<rparr>) as, s'))"
    using assms(1,3,5-8) unfolding plt_get_offsets_macho_def assms(2) [symmetric] Let_def assms(4) [symmetric]
    by (simp add: mmk_assert_def cong: if_cong)
  moreover have "mmk_malloc L s 0 = Inl UB \<or> (\<exists>p s'. mmk_malloc L s 0 = Inr (p, s'))"
    by (simp add: mmk_malloc_def Let_def)
  ultimately show ?thesis
    using assms(9) by (auto simp: mem_mmk_malloc Let_def)
qed

theorem macho_lone_entry_overflows_witness:
  "plt_get_offsets_macho demo_dyld demo_libc (demo\<lparr>mem := macho_image 1\<rparr>) (- 1) ''f'' True = Inl UB"
  using macho_demo_indices(1)
  by (intro macho_lone_entry_overflows [where i = 0, OF _ refl _ refl])
    (simp_all add: demo_image_header macho_tables macho_demo_slots)

text \<open>C37: The slot that the PE back end finds for a function is that of a thunk with the function's name, in the
  table of a descriptor of the module's import directory.\<close>

theorem pe_slot_sound:
  assumes "plt_get_offset_pe m lib name = Some a" and "a \<noteq> NULL"
  shows "\<exists>j k. let d = get_first_import_descriptor m lib + 20 * of_nat j;
      thunk_data = thunk_table m lib d + 8 * of_nat k
    in ld32 m (d + 12) \<noteq> 0 \<and> ld64 m thunk_data \<noteq> 0 \<and> name_at m (lib + (ld64 m thunk_data + 2)) name \<and>
       a = lib + ucast (ld32 m (d + 16)) + 8 * of_nat k"
  using plt_get_offset_pe_sound [OF assms] unfolding import_slot_def imported_def Let_def by blast

theorem pe_slot_sound_witness:
  "\<exists>j k. let d = get_first_import_descriptor pe_image 0x1000 + 20 * of_nat j;
      thunk_data = thunk_table pe_image 0x1000 d + 8 * of_nat k
    in name_at pe_image (0x1000 + (ld64 pe_image thunk_data + 2)) ''f'' \<and>
       (0x1180 :: addr) = 0x1000 + ucast (ld32 pe_image (d + 16)) + 8 * of_nat k"
  using pe_slot_sound [OF pe_slot] by (auto simp: Let_def)

text \<open>Redirecting slots on Windows leaves the protections of the pages as they were, when \<open>VirtualProtect\<close> does what
  it is documented to do and the slots are aligned.\<close>

theorem pe_keeps_protections:
  assumes "protects_pages W" and "\<forall>a \<in> set (slots offs). unat a mod 8 = 0"
    and "plt_set_offsets_pe W s offs v = Inr (offs', s1)" and "plt_reset_offsets_pe W s1 offs = Inr s2"
  shows "page_prot s1 = page_prot s \<and> page_prot s2 = page_prot s"
  using plt_set_offsets_pe_protection [OF assms(1-3)] plt_reset_offsets_pe_protection [OF assms(1,2,4)] by simp

theorem pe_keeps_protections_witness:
  "\<exists>s1. plt_set_offsets_pe demo_windows (demo_pe pe_image) [\<lparr>offset = 0x1180, oldval = NULL\<rparr>] 0x5000 =
      Inr ([\<lparr>offset = 0x1180, oldval = ld64 pe_image 0x1180\<rparr>], s1) \<and> page_prot s1 = (\<lambda>_. 4)"
proof -
  let ?offs = "[\<lparr>offset = 0x1180, oldval = NULL\<rparr>]"
  have "protects_pages demo_windows"
    by (simp add: protects_pages_def demo_windows_def)
  moreover obtain s1 where s1: "plt_set_offsets_pe demo_windows (demo_pe pe_image) ?offs 0x5000 =
      Inr ([\<lparr>offset = 0x1180, oldval = ld64 pe_image 0x1180\<rparr>], s1)"
    by (simp add: demo_pe_def)
  moreover obtain s2 where "plt_reset_offsets_pe demo_windows s1 ?offs = Inr s2"
    using plt_reset_offsets_pe_unpatch by blast
  ultimately have "page_prot s1 = page_prot (demo_pe pe_image)"
    using pe_keeps_protections [of demo_windows ?offs "demo_pe pe_image" "0x5000" _ s1 s2] by simp
  with s1 show ?thesis
    by (simp add: demo_pe_def)
qed

end
