(* ===== verification/Library_Properties.thy ===== *)
theory Library_Properties
  imports Mock_Demo Back_Ends
begin

text \<open>
  The properties of the functions below the mocks: strings and memory (\<open>src/vitals.c\<close>), scopes (\<open>src/plt.c\<close>), the ELF back
  end (\<open>src/plt-elf.c\<close>), trampolines (\<open>src/trampoline.c\<close>), matchers (\<open>src/matcher.c\<close>) and the checks of
  counts (\<open>src/verify.c\<close>, \<open>src/mock.c\<close>).
\<close>

section \<open>Strings and memory\<close>

lemma mmk_strchr_offset:
  "mmk_strchr s c = (if c \<in> set s then Some (drop (length (takeWhile (\<lambda>x. x \<noteq> c) s)) s) else None)"
proof (cases "c \<in> set s")
  case True
  then obtain p u where s: "s = p @ c # u" and p: "c \<notin> set p"
    by (meson split_list_first)
  then have "takeWhile (\<lambda>x. x \<noteq> c) s = p"
    unfolding s by (subst takeWhile_append2) (use p in auto)
  with s p show ?thesis
    by simp
next
  case False
  then show ?thesis
    by (simp add: mmk_strchr_None_iff)
qed

text \<open>The string functions of the library compute on any two strings in memory what they are named for: equality,
  equality up to a prefix, length, and the place of the first occurrence of a character.\<close>

theorem string_functions_agree:
  assumes "cstring m a s" and "cstring m b t"
  shows "mem_streq m a b = Some (s = t) \<and> mem_strneq m a b n = (\<exists>u. s = take n t @ u) \<and>
    mem_strlen m a 0 = Some (of_nat (length s)) \<and>
    mem_strchr m a (scast c) =
      Some (if c \<in> set s then a + of_nat (length (takeWhile (\<lambda>x. x \<noteq> c) s)) else NULL)"
proof -
  have "length (takeWhile (\<lambda>x. x \<noteq> c) s) \<le> length s"
    by (rule length_takeWhile_le)
  then show ?thesis
    using mem_streq_refines [OF assms] mem_strneq_refines [OF assms] mem_strlen_refines [OF assms(1), of 0]
      mem_strchr_refines [OF assms(1), of c]
    by (simp add: mmk_strneq_take mmk_strchr_offset)
qed

definition text_at :: "addr \<Rightarrow> byte list \<Rightarrow> mem" where
  "text_at a bs = wr (\<lambda>_. 0) a (bs @ [0])"

lemma cstring_text_at: "0 \<notin> set bs \<Longrightarrow> length bs < 2 ^ 64 \<Longrightarrow> cstring (text_at a bs) a bs"
  by (simp add: text_at_def cstring_wr)

theorem string_functions_agree_witness:
  "mem_streq (text_at 0x100 [97, 98, 99]) 0x100 0x101 = Some False \<and>
   mem_strlen (text_at 0x100 [97, 98, 99]) 0x100 0 = Some 3 \<and>
   mem_strchr (text_at 0x100 [97, 98, 99]) 0x100 98 = Some 0x101"
proof -
  have "cstring (text_at 0x100 [97, 98, 99]) 0x100 [97, 98, 99]" and "cstring (text_at 0x100 [97, 98, 99]) 0x101 [98, 99]"
    by (simp_all add: text_at_def)
  from string_functions_agree [OF this, of 1 98] show ?thesis
    by simp
qed

text \<open>Copying. Between separate buffers \<open>mmk_memcpy\<close> copies the bytes, \<open>mmk_strcpy\<close> the string with its terminator,
  and both return what they are documented to; \<open>mmk_strncpy\<close> writes a terminator after the
  \<open>n\<close> characters, that is \<open>n + 1\<close> bytes.\<close>

theorem copies:
  assumes "cstring m src s" and "separate src (Suc (length s)) dst (Suc (length s))" and "n \<le> length s"
  shows "mmk_memcpy m dst src n = (dst, wr m dst (take n s)) \<and>
    mem_strcpy m dst src = Some (dst + of_nat (length s), wr m dst (s @ [0])) \<and>
    mem_strncpy m dst src n = (dst + of_nat n, wr m dst (take n s @ [0]))"
proof -
  have "separate src n dst n" and "separate src (Suc (length s)) dst (Suc n)"
    by (rule separate_sub [OF assms(2)]; use assms(3) in \<open>auto elim: in_region_prefix\<close>)+
  moreover have "rd m src n = take n s"
  proof -
    have "rd m src (length s) = s"
      by (rule cstring_rd [OF assms(1)])
    moreover have "rd m src (length s) = rd m src n @ rd m (src + of_nat n) (length s - n)"
      using rd_append [of m src n "length s - n"] assms(3) by simp
    ultimately show ?thesis
      by (metis append_eq_conv_conj length_rd)
  qed
  ultimately show ?thesis
    using assms memcpy_separate [of src n dst m] mem_strcpy_refines [OF assms(1,2)] mem_strncpy_refines [OF assms(1)]
    by (simp add: prod_eq_iff mmk_memcpy_def)
qed

theorem copies_witness:
  "mem_strncpy (text_at 0x100 [97, 98, 99]) 0x200 0x100 2 =
     (0x202, wr (text_at 0x100 [97, 98, 99]) 0x200 [97, 98, 0])"
proof -
  have "cstring (text_at 0x100 [97, 98, 99]) 0x100 [97, 98, 99]"
    by (simp add: text_at_def)
  from copies [OF this, of "0x200" 2] show ?thesis
    by (simp add: separate_iff)
qed

text \<open>\<open>mmk_memcmp\<close> is zero exactly for equal bytes; otherwise it has the sign of the order of the
  first two bytes that differ, taken as signed characters.\<close>

theorem memcmp_order:
  assumes "rd m a i = rd m b i" and "m (a + of_nat i) \<noteq> m (b + of_nat i)" and "i < n"
  shows "mmk_memcmp m a b n = (if sint (m (a + of_nat i)) < sint (m (b + of_nat i)) then - 1 else 1) \<and>
    (mmk_memcmp m a b k = 0 \<longleftrightarrow> rd m a k = rd m b k)"
  using mmk_memcmp_first_difference [OF assms] mmk_memcmp_zero_iff by simp

theorem memcmp_order_witness: "mmk_memcmp (text_at 0x100 [97, 200]) 0x101 0x100 1 = - 1"
  using memcmp_order [of "text_at 0x100 [97, 200]" "0x101" 0 "0x100" 1] by (simp add: text_at_def)

section \<open>Scopes\<close>

text \<open>A scope is parsed to what it was written from: \<open>plt_get_selector\<close> gives a selector and a value exactly for
  the text of that selector with that value, and \<open>self\<close> has no value.\<close>

theorem scope_round_trip:
  "plt_get_selector t = Inr (sel, v) \<longleftrightarrow> t = scope_text sel v \<and> (sel = PLT_SEL_NONE \<longrightarrow> v = '''')"
  by (rule plt_get_selector_Inr_iff)

theorem scope_round_trip_witness: "plt_get_selector ''file:/lib/x.so'' = Inr (PLT_SEL_FILE, ''/lib/x.so'')"
  using scope_round_trip [of "''file:/lib/x.so''" PLT_SEL_FILE "''/lib/x.so''"] by simp

section \<open>ELF\<close>

unbundle bit_operations_syntax

text \<open>C20: The search for the slots of a function ends on every object whose dynamic section is terminated and finds at most two:
  exactly the places that the tables give for the name. The tables, their sizes and the size of their entries are those that the first
  entries of the dynamic section with the tags give. Of the table of relocations (\<open>DT_RELA\<close> with its size and entry size where the
  object has it, otherwise \<open>DT_REL\<close> with those) and of the table \<open>DT_JMPREL\<close> with the size \<open>DT_PLTRELSZ\<close>, whose entries have the same
  size, each gives the offset of its first entry, within its size, for a symbol with the name, unless that offset is zero.\<close>

theorem elf_slots_found:
  assumes "dyn_at m (l_ld lib) ents"
  defines "P \<equiv> (\<lambda>t. case map_of ents t of None \<Rightarrow> NULL | Some p \<Rightarrow> dyn_ptr (l_addr lib) p)"
    and "V \<equiv> (\<lambda>t. case map_of ents t of None \<Rightarrow> 0 | Some v \<Rightarrow> v)"
  shows "\<exists>as. find_slots m lib name = Some as \<and> length as \<le> 2 \<and>
    (let rela = (P DT_RELA \<noteq> NULL);
         rel = (if rela then P DT_RELA else P DT_REL);
         rel_sz = (if rela then V DT_RELASZ else V DT_RELSZ);
         esz = (if rela then V DT_RELAENT else V DT_RELENT)
     in set as =
       {l_addr lib + ld64 m r | r t sz.
          (t, sz) \<in> {(rel, rel_sz), (P DT_JMPREL, V DT_PLTRELSZ)} \<and> rel \<noteq> NULL \<and> P DT_SYMTAB \<noteq> NULL \<and> P DT_STRTAB \<noteq> NULL \<and> esz \<noteq> 0 \<and>
          first_reloc m (P DT_SYMTAB) (P DT_STRTAB) name t (unat (sz div esz)) esz r \<and> ld64 m r \<noteq> 0})"
proof (rule find_slots_first)
  show "lib_dt_lookup m lib t = Some (P t)" and "lib_dt_lookup_val m lib t = Some (V t)" for t
    using assms(1) by (simp_all add: lib_dt_lookup_def lib_dt_lookup_val_def dt_lookup_from_dyn_at dt_lookup_val_from_dyn_at P_def V_def)
qed

theorem elf_slots_found_witness:
  "\<exists>as. find_slots demo_mem (demo_ctx ! 0) ''f'' = Some as \<and> as = [0x4001f8] \<and> length as \<le> 2"
proof -
  have "dyn_at demo_mem (l_ld (demo_ctx ! 0))
      [(5, 0x400180), (6, 0x400140), (23, 0x400100), (2, 24), (7, 0x400100), (9, 24)]"
    by (simp add: demo_ctx_def ld64_demo demo_word_simps)
  from elf_slots_found [OF this, of "''f''"] demo_find_slots show ?thesis
    by (auto simp: Let_def)
qed

text \<open>C21: What \<open>plt_get_real_fn\<close> returns is the address of a definition of that name with a size, in the first of the
  loaded objects that has one.\<close>

theorem real_fn_is_first_definition:
  assumes "plt_get_real_fn m ctx name = Inr f" and "f \<noteq> NULL"
  shows "\<exists>as lm bs sym symtab strtab. ctx = as @ lm # bs \<and> sym_lookup_dyn m lm name = Inr sym \<and>
    lib_dt_lookup m lm DT_SYMTAB = Some symtab \<and> lib_dt_lookup m lm DT_STRTAB = Some strtab \<and>
    (\<exists>i :: 32 word. sym = sym_at symtab (ucast i)) \<and> name_at m (sym_name m strtab sym) name \<and>
    ld64 m (sym + 16) \<noteq> 0 \<and> f = ld64 m (sym + 8) + l_addr lm \<and>
    (\<forall>l \<in> set as. \<exists>q. sym_lookup_dyn m l name = Inr q \<and> (q = NULL \<or> ld64 m (q + 16) = 0))"
proof -
  obtain as lm bs sym where sym: "ctx = as @ lm # bs" "sym_lookup_dyn m lm name = Inr sym" "sym \<noteq> NULL"
    "ld64 m (sym + 16) \<noteq> 0" "f = ld64 m (sym + 8) + l_addr lm"
    "\<forall>l \<in> set as. \<exists>q. sym_lookup_dyn m l name = Inr q \<and> (q = NULL \<or> ld64 m (q + 16) = 0)"
    using plt_get_real_fn_sound [OF assms] by blast
  with sym_lookup_dyn_sound [OF sym(2,3)] show ?thesis
    by blast
qed

definition elf_image :: mem where
  "elf_image = image_mem
     [(0x200, 5), (0x201, 0x1100), (0x202, 6), (0x203, 0x1140), (0x204, 4), (0x205, 0x11c0),
      (0x220, 0x6600), (0x22b, 1), (0x22c, 0x500), (0x22d, 8),
      (0x238, 0x200000001), (0x239, 1)]"

lemma elf_image_words:
  "ld64 elf_image 0x1000 = 5" "ld64 elf_image 0x1008 = 0x1100" "ld64 elf_image 0x1010 = 6"
  "ld64 elf_image 0x1018 = 0x1140" "ld64 elf_image 0x1020 = 4" "ld64 elf_image 0x1028 = 0x11c0"
  "ld64 elf_image 0x1030 = 0" "ld32 elf_image 0x1158 = 1" "ld64 elf_image 0x1160 = 0x500"
  by (simp_all add: elf_image_def image_simps)

lemma elf_image_hash:
  "ld64 elf_image 0x1168 = 8" "ld32 elf_image 0x11c0 = 1" "ld32 elf_image 0x11c8 = 1"
  by (simp_all add: elf_image_def image_simps)

lemma elf_image_name: "name_at elf_image 0x1101 ''f''"
  by (simp add: name_at_def cbytes_def elf_image_def image_mem_def image_word_def)

lemma elf_image_real_fn: "plt_get_real_fn elf_image [\<lparr>l_addr = 0x1000, l_name = '''', l_ld = 0x1000\<rparr>] ''f'' = Inr 0x1500"
  by (simp add: sym_lookup_dyn_def lib_dt_lookup_def dt_lookup_from.simps elf_image_words dyn_ptr_def returns_def
      elf_hash_find_def elf_image_hash elf_hash_chain.simps sym_at_def sym_name_def elf_image_name)

theorem real_fn_is_first_definition_witness:
  "\<exists>sym strtab. name_at elf_image (sym_name elf_image strtab sym) ''f'' \<and> ld64 elf_image (sym + 16) \<noteq> 0 \<and>
     (0x1500 :: addr) = ld64 elf_image (sym + 8) + 0x1000"
  using real_fn_is_first_definition [OF elf_image_real_fn] by (auto simp: Cons_eq_append_conv)

text \<open>The hashes are the published ones: \<open>gnu_hash\<close> multiplies by 33 from 5381, modulo \<open>2^32\<close>; the lower 32 bits of
  \<open>elf_hash\<close> are the hash of the System V ABI with 32-bit arithmetic. The upper bits are not always zero, as
  they are in the ABI's hash: the carry out of bit 31 is kept.\<close>

theorem hashes_are_the_published_ones:
  "gnu_hash s = foldl (\<lambda>h c. 33 * h + ucast c) 5381 (cbytes s) \<and>
   (ucast (elf_hash s) :: 32 word) = elf_hash32_loop 0 (cbytes s) \<and>
   elf_hash (map char_of [255 :: nat, 15, 15, 15, 15, 15, 18]) = 0x100000002"
proof -
  have "gnu_hash s = foldl (\<lambda>h c. 33 * h + ucast c) 5381 (cbytes s)"
    by (simp add: gnu_hash_def gnu_hash_loop_foldl)
  moreover have "(ucast (elf_hash s) :: 32 word) = elf_hash32_loop 0 (cbytes s)"
    by (simp add: elf_hash_def elf_hash_loop_low)
  ultimately show ?thesis
    using elf_hash_wraps_at_64_bits by blast
qed

theorem hashes_are_the_published_ones_witness: "gnu_hash ''f'' = 177675"
  using hashes_are_the_published_ones [of "''f''"] by (simp add: cbytes_def)

text \<open>Redirecting writes only where it has made memory writable. When changing protections succeeds, after
  \<open>plt_set_offsets\<close> every byte of every slot is in a page that is readable, writable and executable.\<close>

theorem elf_slots_made_writable:
  assumes "\<forall>a n p. libc_mprotect L a n p = 0" and "\<forall>a \<in> set (slots offs). unat a mod 8 = 0"
    and "plt_set_offsets L s offs v = Inr (offs', s')" and "a \<in> set (slots offs)" and "in_region a 8 x"
  shows "prot s' x = PROT_RWX"
proof -
  have keep: "prot s' x = PROT_RWX"
    if "plt_set_offsets L s offs v = Inr (offs', s')" and "prot s x = PROT_RWX" for s offs offs' and s' :: "'a heap_scheme"
    using that assms(1)
  proof (induction offs arbitrary: s offs')
    case (Cons off offs)
    then show ?case
      by (auto simp: Let_def andthen_Inr_iff mmk_mprotect_def split: if_splits)
  qed simp
  show ?thesis
    using assms(2-4)
  proof (induction offs arbitrary: s offs')
    case (Cons off offs)
    then obtain s1 os where s1: "mmk_mprotect L s (align2_down (offset off) 4096) 4096 PROT_RWX = Inr (0, s1)"
      and run: "plt_set_offsets L (s1\<lparr>mem := st64 (mem s1) (offset off) v\<rparr>) offs v = Inr (os, s')"
      using assms(1) by (auto simp: Let_def andthen_Inr_iff mmk_mprotect_def split: if_splits)
    show ?case
    proof (cases "a = offset off")
      case True
      then have "in_region (align2_down (offset off) 4096) 4096 x"
        using Cons.prems(1) assms(5) by (intro slot_in_page [where a = "offset off"]) auto
      then have "prot s1 x = PROT_RWX"
        using s1 assms(1) by (auto simp: mmk_mprotect_def Let_def split: if_splits)
      then show ?thesis
        using keep [OF run] by simp
    next
      case False
      then show ?thesis
        using Cons.IH [OF _ run] Cons.prems by simp
    qed
  qed simp
qed

theorem elf_slots_made_writable_witness:
  "\<exists>offs s'. plt_set_offsets demo_libc demo [\<lparr>offset = 0x4001f8, oldval = NULL\<rparr>] 0x5000 = Inr (offs, s') \<and>
     prot s' 0x4001fb = PROT_RWX"
proof -
  obtain offs s' where run: "plt_set_offsets demo_libc demo [\<lparr>offset = 0x4001f8, oldval = NULL\<rparr>] 0x5000 = Inr (offs, s')"
    using plt_set_offsets_patch [of demo demo_libc "[\<lparr>offset = 0x4001f8, oldval = NULL\<rparr>]" "0x5000"] by auto
  from elf_slots_made_writable [OF _ _ this, of "0x4001f8" "0x4001fb"] run show ?thesis
    by (auto simp: in_region_def)
qed

text \<open>C32: Two redirections of one slot that are undone in the order in which they were made leave the slot at
  the first trampoline, which is gone by then, instead of the original function.\<close>

theorem undone_in_order_of_creation:
  assumes "fp_mprotect (vit s) \<noteq> NULL"
    and "plt_set_offsets L s [\<lparr>offset = a, oldval = NULL\<rparr>] t1 = Inr (o1, s1)"
    and "plt_set_offsets L s1 [\<lparr>offset = a, oldval = NULL\<rparr>] t2 = Inr (o2, s2)"
    and "plt_reset_offsets s2 o1 = Inr s3" and "plt_reset_offsets s3 o2 = Inr s4"
  shows "ld64 (mem s4) a = t1"
proof -
  have s1: "patch (mem s) [\<lparr>offset = a, oldval = NULL\<rparr>] t1 = (o1, mem s1)" and "fp_mprotect (vit s1) \<noteq> NULL"
    using plt_set_offsets_patch [OF assms(1), of L "[\<lparr>offset = a, oldval = NULL\<rparr>]" t1] assms(1,2) by auto
  then have "patch (mem s1) [\<lparr>offset = a, oldval = NULL\<rparr>] t2 = (o2, mem s2)"
    using plt_set_offsets_patch [of s1 L "[\<lparr>offset = a, oldval = NULL\<rparr>]" t2] assms(3) by auto
  from unpatch_first_created_first [OF s1 this] show ?thesis
    using assms(4,5) by (auto simp: plt_reset_offsets_unpatch)
qed

theorem undone_in_order_of_creation_witness:
  "\<exists>o1 s1 o2 s2 s3 s4. plt_set_offsets demo_libc demo [\<lparr>offset = 0x4001f8, oldval = NULL\<rparr>] 0x5000 = Inr (o1, s1) \<and>
     plt_set_offsets demo_libc s1 [\<lparr>offset = 0x4001f8, oldval = NULL\<rparr>] 0x6000 = Inr (o2, s2) \<and>
     plt_reset_offsets s2 o1 = Inr s3 \<and> plt_reset_offsets s3 o2 = Inr s4 \<and> ld64 (mem s4) 0x4001f8 = 0x5000"
proof -
  let ?offs = "[\<lparr>offset = 0x4001f8, oldval = NULL\<rparr>]"
  obtain o1 s1 where s1: "plt_set_offsets demo_libc demo ?offs 0x5000 = Inr (o1, s1)" "fp_mprotect (vit s1) \<noteq> NULL"
    using plt_set_offsets_patch [of demo demo_libc ?offs "0x5000"] by auto
  obtain o2 s2 where s2: "plt_set_offsets demo_libc s1 ?offs 0x6000 = Inr (o2, s2)"
    using plt_set_offsets_patch [OF s1(2), of demo_libc ?offs "0x6000"] by auto
  obtain s3 s4 where "plt_reset_offsets s2 o1 = Inr s3" and "plt_reset_offsets s3 o2 = Inr s4"
    by (simp add: plt_reset_offsets_unpatch)
  with undone_in_order_of_creation [OF _ s1(1) s2 this] s1 s2 show ?thesis
    by auto
qed

section \<open>Trampolines\<close>

text \<open>A trampoline holds what it was made for: the context, the routine and the code, in a page of its own that is
  readable and executable; nothing outside the page is written, and destroying it frees the page.\<close>

theorem trampoline_page:
  assumes "libc_ok L" and "create_trampoline L code s ctx routine = Inr (t, s')"
    and "length code + 16 \<le> unat PAGE_SIZE"
  shows "trampoline_ctx (mem s') t = ctx \<and> trampoline_routine (mem s') t = routine \<and> is_trampoline code s' t \<and>
    (\<forall>x. in_region (t - 16) (unat PAGE_SIZE) x \<longrightarrow> prot s' x = PROT_RX) \<and>
    (\<forall>x. \<not> in_region (t - 16) (unat PAGE_SIZE) x \<longrightarrow> mem s' x = mem s x) \<and>
    live (destroy_trampoline s' t) = live s"
proof -
  have "\<forall>x. in_region (t - 16) (unat PAGE_SIZE) x \<longrightarrow> prot s' x = PROT_RX"
    using assms(2) by (rule create_trampoline_Inr) auto
  then show ?thesis
    using create_trampoline_holds [OF assms(2)] create_trampoline_frame [OF assms(2,3)]
      destroy_create_trampoline [OF assms(1,2)] by blast
qed

theorem trampoline_page_witness:
  "\<exists>s'. create_trampoline demo_libc [0xe8, 0, 0, 0, 0] demo 0x10000 0x500000 = Inr (0x210010, s') \<and>
     trampoline_ctx (mem s') 0x210010 = 0x10000 \<and> prot s' 0x210010 = PROT_RX"
proof -
  have "libc_mmap demo_libc (live demo) 0x1000 = 0x210000"
    by (simp add: demo_allocations)
  then have "\<exists>s'. create_trampoline demo_libc [0xe8, 0, 0, 0, 0] demo 0x10000 0x500000 = Inr (0x210010, s')"
    by (simp add: create_trampoline_def sys_mmap_def PAGE_SIZE_def mmk_mprotect_def mmk_assert_def Let_def)
  then obtain s' where "create_trampoline demo_libc [0xe8, 0, 0, 0, 0] demo 0x10000 0x500000 = Inr (0x210010, s')" ..
  with trampoline_page [OF demo_libc_ok this] show ?thesis
    by (auto simp: PAGE_SIZE_def in_region_def)
qed

section \<open>The log of calls\<close>

text \<open>C35: The log is read back as it was written: the iteration with \<open>mmk_mock_params_begin\<close> and \<open>mmk_mock_params_next\<close> visits
  the entries of the log, and after \<open>mmk_verify_register_call\<close>, whether it counted the call at an entry with the same
  bytes, wrote a new entry, moved the log to a larger block or allocated the first one, it visits the same entries in the
  same order, with one more call at the entry for these bytes or a new last entry with the count 1.\<close>

theorem registered_calls_read_back:
  assumes "libc_ok (c_lib E)" and "blocks_wf (live s)"
    and "mmk_stub_context s (mmk_ctx s) = Inr ctx" and "mocks s ctx = Some mock"
    and "call_log_ok (mem s) (live s) mock n es"
    and "(q, k) \<in> set (live s)" and "within q k params (n + 8)" and "q \<noteq> mk_call_data mock"
    and "rd (mem s) (params + 8) n = key" and "unat sz = n + 8" and "8 dvd n"
    and "length (log_bytes es) + n + 8192 < 2 ^ 64"
    and "mmk_verify_register_call E s params sz = Inr s'"
  shows "read_log (mem s) mock n (mmk_mock_params_begin mock) = Some es \<and>
    (\<exists>mock'. mocks s' ctx = Some mock' \<and> call_log_ok (mem s') (live s') mock' n (bump key es) \<and>
      read_log (mem s') mock' n (mmk_mock_params_begin mock') = Some (bump key es))"
proof -
  from mmk_verify_register_call_Inr [OF assms] obtain mock' bs m where
    s': "s' = s\<lparr>live := bs, mem := m, mocks := (mocks s)(ctx \<mapsto> mock')\<rparr>" and log: "log_in_block m bs mock' n (bump key es)"
    and wf: "blocks_wf bs"
    by metis
  have "call_log_ok m bs mock' n (bump key es)"
    using log by (simp add: call_log_ok_def log_in_block_def)
  with read_log_ok [OF assms(2,5)] read_log_in_block [OF wf log] show ?thesis
    by (simp add: s')
qed

text \<open>A mock without a log, and a record of one parameter of eight bytes in a live block.\<close>

abbreviation logging_demo :: mock_state where
  "logging_demo \<equiv> demo\<lparr>mmk_ctx_var := 0x500, stubs := [0x500 \<mapsto> undefined\<lparr>stub_ctx := 0x600\<rparr>],
     mocks := [0x600 \<mapsto> \<lparr>mk_params = NULL, mk_stubs = NULL, mk_call_data = NULL, mk_call_data_top = 0, mk_call_data_size = 0\<rparr>]\<rparr>"

lemma logging_demo_call: "\<exists>s'. mmk_verify_register_call demo_env logging_demo 0x7f0100 16 = Inr s'"
proof -
  have "libc_malloc demo_libc [(0x400000, 0x1000), (0x7f0000, 0x1000)] 4096 = 0x10000"
    by (simp add: demo_allocations)
  then show ?thesis
    by (simp add: mmk_verify_register_call_def mmk_stub_context_def mmk_ctx_def
        ensure_call_data_def mmk_malloc_def Let_def mmk_assert_def find_and_inc_call_matching_def mmk_mock_params_begin_def
        find_and_inc_loop.simps [of _ _ _ _ NULL] make_room_def)
qed

theorem registered_calls_read_back_witness:
  "\<exists>s' mock'. mmk_verify_register_call demo_env logging_demo 0x7f0100 16 = Inr s' \<and> mocks s' 0x600 = Some mock' \<and>
     read_log (mem s') mock' 8 (mmk_mock_params_begin mock') = Some [(1, rd demo_mem 0x7f0108 8)]"
proof -
  obtain s' where run: "mmk_verify_register_call demo_env logging_demo 0x7f0100 16 = Inr s'"
    using logging_demo_call ..
  have "mmk_stub_context logging_demo (mmk_ctx logging_demo) = Inr 0x600"
    by (simp add: mmk_stub_context_def mmk_ctx_def)
  from registered_calls_read_back [OF _ _ this _ _ _ _ _ _ _ _ _ run, of _ 8 "[]" "0x7f0000" "0x1000" "rd demo_mem 0x7f0108 8"]
  show ?thesis
    using run demo_wf(2) by (auto simp: demo_libc_ok call_log_ok_def within_def)
qed
section \<open>Matchers\<close>

text \<open>C22: For the values of an ordered type each kind of matcher accepts what its name says.\<close>

theorem matchers_mean_their_names:
  fixes v ref :: "'v :: linorder"
  shows "matcher_accepts (linorder_operators p) (m\<lparr>m_kind := MMK_MATCHER_ANY\<rparr>) v ref \<and>
    matcher_accepts (linorder_operators p) (m\<lparr>m_kind := MMK_MATCHER_THAT\<rparr>) v ref = (p (m_data m) v \<noteq> 0) \<and>
    matcher_accepts (linorder_operators p) (m\<lparr>m_kind := MMK_MATCHER_EQ\<rparr>) v ref = (v = ref) \<and>
    matcher_accepts (linorder_operators p) (m\<lparr>m_kind := MMK_MATCHER_NEQ\<rparr>) v ref = (v \<noteq> ref) \<and>
    matcher_accepts (linorder_operators p) (m\<lparr>m_kind := MMK_MATCHER_LT\<rparr>) v ref = (v < ref) \<and>
    matcher_accepts (linorder_operators p) (m\<lparr>m_kind := MMK_MATCHER_LEQ\<rparr>) v ref = (v \<le> ref) \<and>
    matcher_accepts (linorder_operators p) (m\<lparr>m_kind := MMK_MATCHER_GT\<rparr>) v ref = (ref < v) \<and>
    matcher_accepts (linorder_operators p) (m\<lparr>m_kind := MMK_MATCHER_GEQ\<rparr>) v ref = (ref \<le> v)"
  by (simp add: matcher_accepts_kinds)

theorem matchers_mean_their_names_witness:
  "matcher_accepts (linorder_operators (\<lambda>_ _. 0)) \<lparr>m_kind = MMK_MATCHER_LEQ, m_prio = 0, m_data = NULL, m_next = NULL\<rparr>
     (3 :: int) 4"
  using matchers_mean_their_names [of "\<lambda>_ _. 0" "\<lparr>m_kind = 0, m_prio = 0, m_data = NULL, m_next = NULL\<rparr>" "3 :: int" 4]
  by simp

text \<open>C23: The order in which the compiler evaluates the arguments of a call expression does not matter: two orders
  of evaluation of the same matchers leave lists with the same kinds and data in the same order, that of their
  counters.\<close>

theorem evaluation_order_is_irrelevant:
  assumes "libc_ok (c_lib E)" and "matchers_live s" and "arg_matchers s []"
    and "mset as = mset bs" and "distinct (map (fst \<circ> snd) as)"
    and "eval_args E s as = Inr s1" and "eval_args E s bs = Inr s2"
  shows "\<exists>ps qs. arg_matchers s1 ps \<and> arg_matchers s2 qs \<and>
    map (m_key (matchers s1)) ps = map (m_key (matchers s2)) qs \<and>
    sorted (map (fst \<circ> m_key (matchers s1)) ps)"
  using assms by (rule eval_args_order)

theorem evaluation_order_is_irrelevant_witness:
  "\<exists>s s1 s2 ps qs. mmk_matcher_init demo_env demo 0 = Inr s \<and>
     eval_args demo_env s [(MMK_MATCHER_EQ, 0, NULL), (MMK_MATCHER_LT, 1, NULL)] = Inr s1 \<and>
     eval_args demo_env s [(MMK_MATCHER_LT, 1, NULL), (MMK_MATCHER_EQ, 0, NULL)] = Inr s2 \<and>
     arg_matchers s1 ps \<and> arg_matchers s2 qs \<and> map (m_key (matchers s1)) ps = map (m_key (matchers s2)) qs"
proof -
  have alloc: "libc_malloc demo_libc [(0x400000, 0x1000), (0x7f0000, 0x1000)] 32 = 0x10000"
    "libc_malloc demo_libc [(0x10000, 32), (0x400000, 0x1000), (0x7f0000, 0x1000)] 32 = 0x20000"
    "libc_malloc demo_libc [(0x20000, 32), (0x10000, 32), (0x400000, 0x1000), (0x7f0000, 0x1000)] 32 = 0x30000"
    by (simp_all add: demo_allocations)
  obtain s where s: "mmk_matcher_init demo_env demo 0 = Inr s" and live: "live s = (0x10000, 32) # live demo" "vit s = demo_vitals"
    by (auto simp: mmk_matcher_init_def mmk_malloc_def Let_def alloc)
  have ml: "matchers_live s" and args: "arg_matchers s []"
    using mmk_matcher_init_Inr [of demo_env demo 0 s] s demo_libc_ok by (auto simp: matchers_live_def [of demo])
  have "\<exists>s'. eval_args demo_env s [a, b] = Inr s'" for a b
    using eval_args_returns [of demo_env s "[]" "[a, b]"] ml args live demo_libc_ok
    by (simp add: alloc) blast
  then obtain s1 s2 where ev: "eval_args demo_env s [(MMK_MATCHER_EQ, 0, NULL), (MMK_MATCHER_LT, 1, NULL)] = Inr s1"
    "eval_args demo_env s [(MMK_MATCHER_LT, 1, NULL), (MMK_MATCHER_EQ, 0, NULL)] = Inr s2"
    by metis
  from evaluation_order_is_irrelevant [OF _ ml args _ _ ev] s ev demo_libc_ok show ?thesis
    by (simp add: add_mset_commute) blast
qed

section \<open>Checks of counts\<close>

text \<open>C29: What the keys of \<open>mmk_verify\<close> ask for, each on its own and the bounds together, when they are not zero: among them
  \<open>.matching\<close>, which leaves the decision to the given predicate on the number of calls. A bound of zero asks for nothing.\<close>

theorem verify_keys:
  fixes s :: "'a verifying_scheme" and f :: "addr \<Rightarrow> size_t \<Rightarrow> cint"
  assumes "0 < n" and "g \<noteq> NULL"
  defines "passes \<equiv> (\<lambda>p. mmk_verify_times f s p \<noteq> 0)"
  shows "passes no_keys \<and> passes (no_keys\<lparr>vp_never := 1\<rparr>) = (times_var s = 0) \<and>
    passes (no_keys\<lparr>vp_times := n\<rparr>) = (times_var s = n) \<and>
    passes (no_keys\<lparr>vp_at_least := n\<rparr>) = (n \<le> times_var s) \<and>
    passes (no_keys\<lparr>vp_at_most := n\<rparr>) = (times_var s \<le> n) \<and>
    passes (no_keys\<lparr>vp_at_least := k, vp_at_most := n\<rparr>) = (k \<le> times_var s \<and> times_var s \<le> n) \<and>
    passes (no_keys\<lparr>vp_matching := g\<rparr>) = (f g (times_var s) \<noteq> 0) \<and>
    passes (no_keys\<lparr>vp_times := 0\<rparr>) \<and> passes (no_keys\<lparr>vp_at_most := 0\<rparr>)"
  unfolding passes_def
  using mmk_verify_times_keys(1,2) [where f = f and s = s] mmk_verify_times_keys(3-6) [OF assms(1), where f = f and s = s]
    mmk_verify_times_keys(7) [OF assms(2), where f = f and s = s] mmk_verify_times_zero_ignored [where f = f and s = s] by simp

theorem verify_keys_witness:
  "mmk_verify_times (\<lambda>_ _. 0) (demo\<lparr>times_var := 2\<rparr>) (no_keys\<lparr>vp_at_least := 1, vp_at_most := 3\<rparr>) \<noteq> 0 \<and>
   mmk_verify_times (\<lambda>_ _. 0) (demo\<lparr>times_var := 2\<rparr>) (no_keys\<lparr>vp_matching := 0x500000\<rparr>) = 0 \<and>
   mmk_verify_times (\<lambda>_ _. 0) (demo\<lparr>times_var := 2\<rparr>) (no_keys\<lparr>vp_times := 0\<rparr>) \<noteq> 0"
  using verify_keys [where n = 3 and g = "0x500000" and f = "\<lambda>_ _. 0" and s = "demo\<lparr>times_var := 2\<rparr>" and k = 1] by simp

text \<open>An expression in \<open>mmk_when\<close> or \<open>mmk_verify\<close> is accepted exactly when it called a mock once: the check
  after it resets the counter, or panics and says whether there was no call or how many there were.\<close>

theorem one_call_per_expression:
  "(mmk_mock_reset_call s = Inr s' \<longleftrightarrow> mock_called s = 1 \<and> s' = s\<lparr>mock_called := 0\<rparr>) \<and>
   (mmk_mock_reset_call s = Inl (Panic Never_called) \<longleftrightarrow> mock_called s = 0) \<and>
   (mmk_mock_reset_call s = Inl (Panic (Called_more_than_once n)) \<longleftrightarrow> 1 < mock_called s \<and> n = mock_called s)"
  by (auto simp: mmk_mock_reset_call_Inr_iff) (auto simp: mmk_mock_reset_call_def Let_def split: if_splits)

theorem one_call_per_expression_witness:
  "mmk_mock_reset_call (demo\<lparr>mock_called := 2\<rparr>) = Inl (Panic (Called_more_than_once 2))"
  using one_call_per_expression [of "demo\<lparr>mock_called := 2\<rparr>" demo 2] by simp

end
