(* ===== verification/Variadic.thy ===== *)
theory Variadic
  imports Mock_Invariant
begin

text \<open>
  Variadic blueprints: \<open>include/mimick/va.h\<close>, \<open>struct mmk_va_param\<close> of \<open>include/mimick.h\<close>, and the lines of
  \<open>include/mimick/mock.h\<close> that \<open>MMK_MOCK_DEFINE\<close> expands to when the last parameter type is
  \<open>mmk_va_args\<close>. The user's function that turns the variadic arguments into an array of pointers to
  \<open>struct mmk_va_param\<close> is a parameter, which gets a copy of the whole list each time (\<open>va_copy\<close>); so are delegates, which
  get the list itself, and predicates, which look at what an argument holds.
\<close>

unbundle bit_operations_syntax

section \<open>Serialised arguments\<close>

text \<open>\<open>struct mmk_va_param\<close> is the size of the value, in eight bytes, and its bytes.\<close>

definition va_data :: "mem \<Rightarrow> addr \<Rightarrow> byte list" where
  "va_data m p = rd m (p + 8) (unat (ld64 m p))"

definition mmk_make_va_param :: "env \<Rightarrow> 'a heap_scheme \<Rightarrow> ctype \<Rightarrow> int \<Rightarrow> fault + addr \<times> 'a heap_scheme" where
  "mmk_make_va_param E s ty val =
     andthen (mmk_malloc (c_lib E) s (of_nat (8 + ty_size ty))) (\<lambda>(vd, s).
       if vd = NULL then Inl UB
       else Inr (vd, s\<lparr>mem := wr (st64 (mem s) vd (of_nat (ty_size ty))) (vd + 8) (store_value ty val)\<rparr>))"

record ('s, 'v) va_program =
  va_predicate :: "addr \<Rightarrow> byte list \<Rightarrow> cint"
  serialize_va :: "int list \<Rightarrow> 'v \<Rightarrow> 's \<Rightarrow> fault + (cint \<times> size_t \<times> addr) \<times> 's"
  va_delegate :: "addr \<Rightarrow> int list \<Rightarrow> 'v \<Rightarrow> 's \<Rightarrow> fault + int \<times> 's"

text \<open>The two fields for variadic arguments in the parameters of a binding; in a record of the log they are its bytes 8 to 23.\<close>

record va_state = mock_state +
  bound_va :: "addr \<rightharpoonup> size_t \<times> addr"

section \<open>Verifying\<close>

text \<open>Two arguments are compared as bytes by \<open>mmk_memcmp\<close>, over the size of the second.\<close>

definition va_operators :: "(addr \<Rightarrow> byte list \<Rightarrow> cint) \<Rightarrow> mem \<Rightarrow> addr operators" where
  "va_operators pr m =
     \<lparr>op_eq = (\<lambda>r p. mmk_memcmp m (r + 8) (p + 8) (unat (ld64 m p)) = 0),
      op_lt = (\<lambda>r p. mmk_memcmp m (r + 8) (p + 8) (unat (ld64 m p)) < 0),
      op_gt = (\<lambda>r p. mmk_memcmp m (r + 8) (p + 8) (unat (ld64 m p)) > 0),
      op_predicate = (\<lambda>f r. pr f (va_data m r))\<rparr>"

text \<open>The named parameters in turn, as in \<open>match_params\<close>, with the matcher that is reached.\<close>

fun match_named ::
  "(addr \<rightharpoonup> mmk_matcher) \<Rightarrow> 'v operators \<Rightarrow> addr \<Rightarrow> ('v \<times> 'v) list \<Rightarrow> fault + bool \<times> addr" where
  "match_named ms ops m [] = Inr (True, m)"
| "match_named ms ops m ((v, ref) # ps) =
     andthen (MMK_TRYMATCH ms ops m v ref) (\<lambda>(ok, m).
       if ok then match_named ms ops m ps else Inr (False, m))"

text \<open>
  The loop of \<open>MMK_MOCK_VA_VERIFY\<close>, from index \<open>i\<close> on with \<open>n\<close> arguments to go: \<open>refs\<close> is the array of the logged
  call, \<open>args\<close> that of the expression. What is accepted is freed, and the array of the expression at
  the end; a \<open>goto fail\<close> frees nothing.
\<close>

fun va_compare ::
  "(addr \<Rightarrow> byte list \<Rightarrow> cint) \<Rightarrow> 'a matching_scheme \<Rightarrow> addr \<Rightarrow> addr \<Rightarrow> addr \<Rightarrow> nat \<Rightarrow> nat \<Rightarrow>
    fault + bool \<times> 'a matching_scheme" where
  "va_compare pr s m refs args i 0 = andthen (mmk_free s args) (\<lambda>s. Inr (True, s))"
| "va_compare pr s m refs args i (Suc n) =
     (let r = ld64 (mem s) (refs + of_nat (8 * i)); p = ld64 (mem s) (args + of_nat (8 * i))
      in if ld64 (mem s) r \<noteq> ld64 (mem s) p then Inr (False, s)
         else andthen (MMK_TRYMATCH (matchers s) (va_operators pr (mem s)) m r p) (\<lambda>(ok, m).
                if \<not> ok then Inr (False, s)
                else andthen (mmk_free s p) (\<lambda>s. va_compare pr s m refs args (Suc i) n)))"

definition MMK_MOCK_VA_VERIFY ::
  "('a va_state_scheme, 'v) va_program \<Rightarrow> 'a va_state_scheme \<Rightarrow> addr \<Rightarrow> addr \<Rightarrow> int list \<Rightarrow> 'v \<Rightarrow>
    fault + bool \<times> 'a va_state_scheme" where
  "MMK_MOCK_VA_VERIFY V s m params args va =
     andthen (serialize_va V args va s) (\<lambda>((ok, sz, arr), s).
       if ok = 0 \<or> ld64 (mem s) (params + 8) \<noteq> sz then Inr (False, s)
       else va_compare (va_predicate V) s m (ld64 (mem s) (params + 16)) arr 0 (unat sz))"

text \<open>The loop over the log. The matchers and the log are read anew in each round, since serialising changes the state.\<close>

partial_function (option) va_verify_loop ::
  "('a va_state_scheme, 'v) va_program \<Rightarrow> int operators \<Rightarrow> addr \<Rightarrow> addr \<Rightarrow> ctype list \<Rightarrow> int list \<Rightarrow> 'v \<Rightarrow>
    'a va_state_scheme \<Rightarrow> addr \<Rightarrow> size_t \<Rightarrow> (fault + size_t \<times> 'a va_state_scheme) option" where
  "va_verify_loop V ops mc mock tys args va s p n =
     (if p = NULL then Some (Inr (n, s))
      else case andthen (match_named (matchers s) ops mc (zip (read_params (mem s) p tys) args))
                  (\<lambda>(ok, m). if ok then MMK_MOCK_VA_VERIFY V s m p args va else Inr (False, s)) of
        Inl e \<Rightarrow> Some (Inl e)
      | Inr (ok, s) \<Rightarrow>
          (case mocks s mock of
             None \<Rightarrow> Some (Inl UB)
           | Some mk \<Rightarrow> va_verify_loop V ops mc mock tys args va s (mmk_mock_params_next (mem s) mk p)
                          (if ok then n + ld64 (mem s) p else n)))"

declare va_verify_loop.simps [simp del]

definition va_stub_verify ::
  "'s program \<Rightarrow> ('a va_state_scheme, 'v) va_program \<Rightarrow> blueprint \<Rightarrow> 'a va_state_scheme \<Rightarrow> addr \<Rightarrow> int list \<Rightarrow> 'v \<Rightarrow>
    fault + 'a va_state_scheme" where
  "va_stub_verify P V bp s mock args va =
     andthen (deref (mocks s mock)) (\<lambda>mk.
     andthen (finishes (va_verify_loop V (linorder_operators (predicate P)) (mmk_matcher_ctx s) mock
                (bp_params bp) args va s (mmk_mock_params_begin mk) 0)) (\<lambda>(times, s).
     andthen (finishes (free_matchers s (mmk_matcher_ctx s))) (\<lambda>s.
       Inr (mmk_verify_set_times s times))))"

section \<open>Registering behaviours and calls\<close>

definition MMK_MOCK_VA_BIND ::
  "('a va_state_scheme, 'v) va_program \<Rightarrow> 'a va_state_scheme \<Rightarrow> addr \<Rightarrow> int list \<Rightarrow> 'v \<Rightarrow> fault + 'a va_state_scheme" where
  "MMK_MOCK_VA_BIND V s bnd args va =
     andthen (serialize_va V args va s) (\<lambda>((ok, sz, arr), s).
       Inr (if ok \<noteq> 0 then s\<lparr>bound_va := (bound_va s)(bnd \<mapsto> (sz, arr))\<rparr> else s))"

definition MMK_MOCK_VA_REGISTER_CALL ::
  "('a va_state_scheme, 'v) va_program \<Rightarrow> 'a va_state_scheme \<Rightarrow> addr \<Rightarrow> int list \<Rightarrow> 'v \<Rightarrow> fault + 'a va_state_scheme" where
  "MMK_MOCK_VA_REGISTER_CALL V s params args va =
     andthen (serialize_va V args va s) (\<lambda>((ok, sz, arr), s).
       Inr (if ok \<noteq> 0 then s\<lparr>mem := st64 (st64 (mem s) (params + 8) sz) (params + 16) arr\<rparr> else s))"

definition va_stub_when ::
  "env \<Rightarrow> ('a va_state_scheme, 'v) va_program \<Rightarrow> blueprint \<Rightarrow> 'a va_state_scheme \<Rightarrow> addr \<Rightarrow> int list \<Rightarrow> 'v \<Rightarrow>
    fault + 'a va_state_scheme" where
  "va_stub_when E V bp s mock args va =
     andthen (mmk_malloc (c_lib E) s (sizeof_binding bp)) (\<lambda>(bnd, s).
     andthen (deref (mmk_when_get_result s)) (\<lambda>res.
       if bnd = NULL then Inl UB
       else andthen (MMK_MOCK_VA_BIND V
              (s\<lparr>bindings := (bindings s)(bnd \<mapsto>
                   \<lparr>b_matcher_ctx = NULL, b_next = NULL, b_result = res, b_params = args\<rparr>)\<rparr>) bnd args va) (\<lambda>s.
              mmk_when_impl s mock bnd)))"

text \<open>
  Any other call. Only the named parameters are compared with those of a behaviour: \<open>MMK_TRYMATCH\<close> expands to
  nothing for \<open>mmk_va_args\<close>.
\<close>

definition va_stub_run ::
  "env \<Rightarrow> 'a va_state_scheme program \<Rightarrow> ('a va_state_scheme, 'v) va_program \<Rightarrow> blueprint \<Rightarrow> frame \<Rightarrow> 'a va_state_scheme \<Rightarrow>
    int list \<Rightarrow> 'v \<Rightarrow> fault + int \<times> 'a va_state_scheme" where
  "va_stub_run E P V bp fr s args va =
     (let s = s\<lparr>mem := wr (mem s) (fr_params fr) (params_bytes (fr_junk fr) (bp_params bp) args)\<rparr>
      in andthen (MMK_MOCK_VA_REGISTER_CALL V s (fr_params fr) args va) (\<lambda>s.
         andthen (mmk_verify_register_call E s (fr_params fr) (of_nat (sizeof_params (bp_params bp)))) (\<lambda>s.
         andthen (mmk_mock_get_params s) (\<lambda>param.
         andthen (finishes (first_match (matchers s) (bindings s) (linorder_operators (predicate P)) args param))
           (\<lambda>p. if p = NULL then Inr (0, s)
                 else apply_binding (P\<lparr>delegate := \<lambda>f args s. va_delegate V f args va s\<rparr>) bp s p args)))))"

definition va_mock_stub ::
  "env \<Rightarrow> 'a va_state_scheme program \<Rightarrow> ('a va_state_scheme, 'v) va_program \<Rightarrow> blueprint \<Rightarrow> frame \<Rightarrow> 'a va_state_scheme \<Rightarrow>
    int list \<Rightarrow> 'v \<Rightarrow> fault + int \<times> 'a va_state_scheme" where
  "va_mock_stub E P V bp fr s args va =
     (if mmk_matcher_ctx s \<noteq> NULL then
        andthen (mmk_stub_context s (mmk_ctx s)) (\<lambda>mock.
        let s = mmk_mock_report_call s
        in andthen (deref (matchers s (mmk_matcher_ctx s))) (\<lambda>head.
           andthen
             (if m_kind head = 0 then va_stub_when E V bp s mock args va
              else if m_kind head = 1 then va_stub_verify P V bp s mock args va
              else Inr s)
             (\<lambda>s. Inr (0, s))))
      else va_stub_run E P V bp fr s args va)"


section \<open>What a verification of variadic arguments accepts\<close>

text \<open>The order of \<open>mmk_memcmp\<close> on runs of bytes of one length: by the first difference, as signed bytes.\<close>

fun signed_less :: "byte list \<Rightarrow> byte list \<Rightarrow> bool" where
  "signed_less (x # xs) (y # ys) = (if x = y then signed_less xs ys else sint x < sint y)"
| "signed_less _ _ = False"

definition bytes_operators :: "(addr \<Rightarrow> byte list \<Rightarrow> cint) \<Rightarrow> byte list operators" where
  "bytes_operators pr =
     \<lparr>op_eq = (=), op_lt = signed_less, op_gt = (\<lambda>r p. signed_less p r), op_predicate = pr\<rparr>"

lemma mmk_memcmp_signed_less:
  "mmk_memcmp m a b n < 0 \<longleftrightarrow> signed_less (rd m a n) (rd m b n)"
  "mmk_memcmp m a b n > 0 \<longleftrightarrow> signed_less (rd m b n) (rd m a n)"
proof -
  have "x \<noteq> y \<Longrightarrow> sint x \<noteq> sint y" for x y :: byte
    using signed_word_eqI [of x y] by auto
  then show "mmk_memcmp m a b n < 0 \<longleftrightarrow> signed_less (rd m a n) (rd m b n)"
    "mmk_memcmp m a b n > 0 \<longleftrightarrow> signed_less (rd m b n) (rd m a n)"
    by (induction m a b n rule: mmk_memcmp.induct) (auto simp: order_less_le)
qed

text \<open>The pointers in an array of \<open>n\<close> arguments, and what they hold.\<close>

definition va_ptrs :: "mem \<Rightarrow> addr \<Rightarrow> nat \<Rightarrow> addr list" where
  "va_ptrs m a n = map (\<lambda>i. ld64 m (a + of_nat (8 * i))) [0..<n]"

definition va_accepts :: "(addr \<Rightarrow> byte list \<Rightarrow> cint) \<Rightarrow> mmk_matcher list \<Rightarrow> byte list list \<Rightarrow> byte list list \<Rightarrow> bool" where
  "va_accepts pr ns cs vs \<longleftrightarrow> map length cs = map length vs \<and> accepts_all (bytes_operators pr) ns (zip cs vs)"

lemma va_operators_bytes:
  assumes "ld64 m r = ld64 m p"
  shows "op_eq (va_operators pr m) r p \<longleftrightarrow> va_data m r = va_data m p"
    and "matcher_accepts (va_operators pr m) n r p \<longleftrightarrow>
      matcher_accepts (bytes_operators pr) n (va_data m r) (va_data m p)"
  using assms by (simp_all add: va_operators_def bytes_operators_def va_data_def mmk_memcmp_zero_iff
      mmk_memcmp_signed_less matcher_accepts_def)

lemma length_va_data [simp]: "length (va_data m p) = unat (ld64 m p)"
  by (simp add: va_data_def)

lemma mmk_free_live:
  "fp_free (vit s) \<noteq> NULL \<Longrightarrow> NULL \<notin> fst ` set (live s) \<Longrightarrow> p \<in> insert NULL (fst ` set (live s)) \<Longrightarrow>
    mmk_free s p = Inr (s\<lparr>live := unblock p (live s)\<rparr>)"
proof -
  assume "fp_free (vit s) \<noteq> NULL" "NULL \<notin> fst ` set (live s)" "p \<in> insert NULL (fst ` set (live s))"
  moreover have "unblock NULL (live s) = live s" if "NULL \<notin> fst ` set (live s)"
    using that by (auto simp: unblock_def filter_id_conv)
  ultimately show ?thesis
    by (auto simp: mmk_free_def)
qed

lemma MMK_TRYMATCH_va:
  assumes "links m_next ms m (m # qs)" and "ld64 mm r = ld64 mm p"
  obtains ok m' qs' where "MMK_TRYMATCH ms (va_operators pr mm) m r p = Inr (ok, m')"
    and "links m_next ms m' (m' # qs')"
    and "\<forall>ds. accepts_all (bytes_operators pr) (map (the \<circ> ms) qs) ((va_data mm r, va_data mm p) # ds) \<longleftrightarrow>
      ok \<and> accepts_all (bytes_operators pr) (map (the \<circ> ms) qs') ds"
proof -
  obtain cur where cur: "ms m = Some cur" "links m_next ms (m_next cur) qs"
    using assms(1) by auto
  show thesis
  proof (cases qs)
    case Nil
    with cur assms show thesis
      by (intro that [of "va_data mm r = va_data mm p" m "[]"])
        (auto simp: MMK_TRYMATCH_def va_operators_bytes bytes_operators_def)
  next
    case (Cons q qs')
    with cur obtain n where "ms q = Some n" "m_next cur = q" "q \<noteq> NULL" "links m_next ms q (q # qs')"
      by auto
    with cur(1) Cons assms(2) show thesis
      by (intro that [of "matcher_accepts (bytes_operators pr) n (va_data mm r) (va_data mm p)" q qs'])
        (auto simp: MMK_TRYMATCH_def va_operators_bytes)
  qed
qed

lemma va_compare_accepts:
  fixes s :: "'a matching_scheme"
  assumes "fp_free (vit s) \<noteq> NULL" and "NULL \<notin> fst ` set (live s)"
    and "args \<in> insert NULL (fst ` set (live s))" and "args \<notin> set ps"
    and "links m_next ms m (m # qs)"
    and "ps = map (\<lambda>j. ld64 mm (args + of_nat (8 * j))) [i..<i + n]"
    and "rs = map (\<lambda>j. ld64 mm (refs + of_nat (8 * j))) [i..<i + n]"
    and "distinct ps" and "set ps \<subseteq> fst ` set (live s)" and "mem s = mm" and "matchers s = ms"
  shows "\<exists>ok bs. va_compare pr s m refs args i n = Inr (ok, s\<lparr>live := bs\<rparr>) \<and>
    (ok \<longleftrightarrow> va_accepts pr (map (the \<circ> ms) qs) (map (va_data mm) rs) (map (va_data mm) ps)) \<and>
    (ok \<longrightarrow> bs = filter (\<lambda>b. fst b \<notin> insert args (set ps)) (live s))"
  using assms
proof (induction n arbitrary: i m s qs ps rs)
  case 0
  then show ?case
    by (auto simp: mmk_free_live va_accepts_def unblock_def)
next
  case (Suc n)
  define r p where "r = ld64 mm (refs + of_nat (8 * i))" and "p = ld64 mm (args + of_nat (8 * i))"
  define ps' rs' where "ps' = map (\<lambda>j. ld64 mm (args + of_nat (8 * j))) [Suc i..<Suc i + n]"
    and "rs' = map (\<lambda>j. ld64 mm (refs + of_nat (8 * j))) [Suc i..<Suc i + n]"
  have step: "[i..<i + Suc n] = i # [Suc i..<Suc i + n]"
    by (simp add: upt_conv_Cons)
  have ps: "ps = p # ps'" and rs: "rs = r # rs'"
    unfolding Suc.prems(6,7) step by (simp_all add: p_def r_def ps'_def rs'_def)
  note acc = va_accepts_def ps rs
  show ?case
  proof (cases "ld64 mm r = ld64 mm p")
    case False
    then have "va_compare pr s m refs args i (Suc n) = Inr (False, s\<lparr>live := live s\<rparr>)"
      by (simp add: Let_def r_def p_def Suc.prems(10,11))
    moreover have "\<not> va_accepts pr ns (map (va_data mm) rs) (map (va_data mm) ps)" for ns
      using False by (simp add: acc word_unat_eq_iff)
    ultimately show ?thesis
      by blast
  next
    case True
    obtain ok m' qs' where tm: "MMK_TRYMATCH ms (va_operators pr mm) m r p = Inr (ok, m')"
      and links: "links m_next ms m' (m' # qs')"
      and all: "\<forall>ds. accepts_all (bytes_operators pr) (map (the \<circ> ms) qs) ((va_data mm r, va_data mm p) # ds) \<longleftrightarrow>
        ok \<and> accepts_all (bytes_operators pr) (map (the \<circ> ms) qs') ds"
      by (rule MMK_TRYMATCH_va [OF Suc.prems(5) True, where pr = pr])
    have acc': "va_accepts pr (map (the \<circ> ms) qs) (map (va_data mm) rs) (map (va_data mm) ps) \<longleftrightarrow>
        ok \<and> va_accepts pr (map (the \<circ> ms) qs') (map (va_data mm) rs') (map (va_data mm) ps')"
      using True all by (auto simp: acc)
    show ?thesis
    proof (cases ok)
      case False
      then have "va_compare pr s m refs args i (Suc n) = Inr (False, s\<lparr>live := live s\<rparr>)"
        using True tm by (simp add: Let_def r_def p_def Suc.prems(10,11))
      with False acc' show ?thesis
        by blast
    next
      case True': True
      let ?s = "s\<lparr>live := unblock p (live s)\<rparr>"
      have free: "mmk_free s p = Inr ?s"
        using Suc.prems(1,2,9) by (intro mmk_free_live) (auto simp: ps)
      have "fst ` set (live ?s) = fst ` set (live s) - {p}"
        by (force simp: unblock_def)
      then have "set ps' \<subseteq> fst ` set (live ?s)" "args \<in> insert NULL (fst ` set (live ?s))" "NULL \<notin> fst ` set (live ?s)"
        using Suc.prems(2,3,4,8,9) by (auto simp: ps)
      moreover have "args \<notin> set ps'" "distinct ps'"
        using Suc.prems(4,8) by (auto simp: ps)
      ultimately have "\<exists>ok bs. va_compare pr ?s m' refs args (Suc i) n = Inr (ok, ?s\<lparr>live := bs\<rparr>) \<and>
          (ok \<longleftrightarrow> va_accepts pr (map (the \<circ> ms) qs') (map (va_data mm) rs') (map (va_data mm) ps')) \<and>
          (ok \<longrightarrow> bs = filter (\<lambda>b. fst b \<notin> insert args (set ps')) (live ?s))"
        by (intro Suc.IH [OF _ _ _ _ links ps'_def rs'_def]) (simp_all add: Suc.prems(1,10,11))
      then obtain ok' bs where run: "va_compare pr ?s m' refs args (Suc i) n = Inr (ok', s\<lparr>live := bs\<rparr>)"
        and ok': "ok' \<longleftrightarrow> va_accepts pr (map (the \<circ> ms) qs') (map (va_data mm) rs') (map (va_data mm) ps')"
        and bs: "ok' \<longrightarrow> bs = filter (\<lambda>b. fst b \<notin> insert args (set ps')) (unblock p (live s))"
        by auto
      have "va_compare pr s m refs args i (Suc n) = Inr (ok', s\<lparr>live := bs\<rparr>)"
        using True True' tm free run by (simp add: Let_def r_def p_def Suc.prems(10,11))
      moreover have "ok' \<longrightarrow> bs = filter (\<lambda>b. fst b \<notin> insert args (set ps)) (live s)"
        using bs by (auto simp: ps unblock_def intro!: filter_cong)
      ultimately show ?thesis
        using acc' True' ok' by blast
    qed
  qed
qed

lemma MMK_MOCK_VA_VERIFY_accepts:
  fixes s :: "'a va_state_scheme"
  assumes ser: "serialize_va V args va s = Inr ((ok, sz, arr), s1)" "ok \<noteq> 0"
    and ps: "ps = va_ptrs (mem s1) arr (unat sz)"
    and rs: "rs = va_ptrs (mem s1) (ld64 (mem s1) (p + 16)) (unat (ld64 (mem s1) (p + 8)))"
    and free: "fp_free (vit s1) \<noteq> NULL" and live: "NULL \<notin> fst ` set (live s1)"
    and own: "arr \<in> insert NULL (fst ` set (live s1))" "distinct (arr # ps)" "set ps \<subseteq> fst ` set (live s1)"
    and ms: "links m_next (matchers s1) m (m # qs)"
  shows "\<exists>acc bs. MMK_MOCK_VA_VERIFY V s m p args va = Inr (acc, s1\<lparr>live := bs\<rparr>) \<and>
    (acc \<longleftrightarrow> va_accepts (va_predicate V) (map (the \<circ> matchers s1) qs) (map (va_data (mem s1)) rs) (map (va_data (mem s1)) ps)) \<and>
    (acc \<longrightarrow> bs = filter (\<lambda>b. fst b \<notin> insert arr (set ps)) (live s1)) \<and>
    (length rs \<noteq> length ps \<longrightarrow> bs = live s1)"
proof (cases "ld64 (mem s1) (p + 8) = sz")
  case True
  have "rs = map (\<lambda>j. ld64 (mem s1) (ld64 (mem s1) (p + 16) + of_nat (8 * j))) [0..<0 + unat sz]"
    and "ps = map (\<lambda>j. ld64 (mem s1) (arr + of_nat (8 * j))) [0..<0 + unat sz]"
    using True by (simp_all add: ps rs va_ptrs_def)
  then have "\<exists>ok bs. va_compare (va_predicate V) s1 m (ld64 (mem s1) (p + 16)) arr 0 (unat sz) = Inr (ok, s1\<lparr>live := bs\<rparr>) \<and>
      (ok \<longleftrightarrow> va_accepts (va_predicate V) (map (the \<circ> matchers s1) qs) (map (va_data (mem s1)) rs) (map (va_data (mem s1)) ps)) \<and>
      (ok \<longrightarrow> bs = filter (\<lambda>b. fst b \<notin> insert arr (set ps)) (live s1))"
    using own by (intro va_compare_accepts [OF free live own(1) _ ms]) auto
  moreover have "length rs = length ps"
    using True by (simp add: ps rs va_ptrs_def)
  ultimately show ?thesis
    using ser True by (auto simp: MMK_MOCK_VA_VERIFY_def)
next
  case False
  then have "length rs \<noteq> length ps"
    by (simp add: ps rs va_ptrs_def word_unat_eq_iff)
  then have "\<not> va_accepts (va_predicate V) ns (map (va_data (mem s1)) rs) (map (va_data (mem s1)) ps)" for ns
    by (auto simp: va_accepts_def dest: map_eq_imp_length_eq)
  moreover have "MMK_MOCK_VA_VERIFY V s m p args va = Inr (False, s1\<lparr>live := live s1\<rparr>)"
    using False ser by (simp add: MMK_MOCK_VA_VERIFY_def)
  ultimately show ?thesis
    by blast
qed

text \<open>Comparing as bytes is comparing as values for equality, and for the order of a signed byte; not for the order of wider types.\<close>

lemma store_value_inj:
  "ctype_ok ty \<Longrightarrow> in_range ty v \<Longrightarrow> in_range ty w \<Longrightarrow> store_value ty v = store_value ty w \<longleftrightarrow> v = w"
  by (metis load_store_value)

lemma signed_byte_order:
  assumes "ty_size ty = 1" and "ty_signed ty" and "in_range ty v" and "in_range ty w"
  shows "signed_less (store_value ty v) (store_value ty w) \<longleftrightarrow> v < w"
proof -
  have sint: "sint (of_nat (nat (u mod 256)) :: byte) = u" if "in_range ty u" for u
  proof -
    have u: "- 128 \<le> u" "u < 128"
      using that assms(1,2) by (simp_all add: in_range_def)
    have "(of_nat (nat (u mod 256)) :: byte) = of_int u"
      by (simp add: word_of_int_eq_iff take_bit_eq_mod)
    then show ?thesis
      using u by (simp add: signed_of_int signed_take_bit_int_eq_self)
  qed
  have "store_value ty u = [of_nat (nat (u mod 256))]" for u
    using assms(1) by (simp add: store_value_def)
  with sint [OF assms(3)] sint [OF assms(4)] show ?thesis
    by (cases "(of_nat (nat (v mod 256)) :: byte) = of_nat (nat (w mod 256))") auto
qed

lemma int_order_is_bytewise:
  "signed_less (store_value \<lparr>ty_size = 4, ty_signed = True\<rparr> 256) (store_value \<lparr>ty_size = 4, ty_signed = True\<rparr> 1)"
proof -
  have "store_value \<lparr>ty_size = 4, ty_signed = True\<rparr> 256 = [0, 1, 0, 0]"
    and "store_value \<lparr>ty_size = 4, ty_signed = True\<rparr> 1 = [1, 0, 0, 0]"
    by code_simp+
  then show ?thesis
    by simp
qed

lemma mmk_make_va_param_data:
  assumes "libc_ok (c_lib E)" and "mmk_make_va_param E s ty v = Inr (p, s')" and "ctype_ok ty"
  shows "ld64 (mem s') p = of_nat (ty_size ty)" and "va_data (mem s') p = store_value ty v"
    and "live s' = (p, of_nat (8 + ty_size ty)) # live s"
proof -
  let ?m = "st64 (mem s) p (of_nat (ty_size ty))"
  have s': "mem s' = wr ?m (p + 8) (store_value ty v)" "live s' = (p, of_nat (8 + ty_size ty)) # live s"
  proof -
    obtain s0 where "mmk_malloc (c_lib E) s (of_nat (8 + ty_size ty)) = Inr (p, s0)" "p \<noteq> NULL"
      and "s' = s0\<lparr>mem := wr (st64 (mem s0) p (of_nat (ty_size ty))) (p + 8) (store_value ty v)\<rparr>"
      using assms(2) unfolding mmk_make_va_param_def andthen_Inr_iff by (auto split: if_splits)
    then show "mem s' = wr ?m (p + 8) (store_value ty v)" "live s' = (p, of_nat (8 + ty_size ty)) # live s"
      by (simp_all add: mmk_malloc_Inr_iff)
  qed
  have sz: "ty_size ty \<le> 8"
    using assms(3) by (auto simp: ctype_ok_def)
  then have "separate (p + 8) (ty_size ty) p 8"
    by (simp add: separate_iff)
  then have "ld64 (mem s') p = ld64 ?m p"
    unfolding s' using sz by (intro ld64_cong rd_wr_separate) simp_all
  then show size: "ld64 (mem s') p = of_nat (ty_size ty)"
    by simp
  show "va_data (mem s') p = store_value ty v"
  proof -
    have "unat (ld64 (mem s') p) = ty_size ty"
      using sz by (simp add: size unat_of_nat)
    moreover have "rd (mem s') (p + 8) (ty_size ty) = store_value ty v"
      unfolding s' using sz by (intro rd_wr_same') simp_all
    ultimately show ?thesis
      by (simp add: va_data_def)
  qed
  show "live s' = (p, of_nat (8 + ty_size ty)) # live s"
    by (rule s')
qed

end
