(* ===== verification/Variadic_Properties.thy ===== *)
theory Variadic_Properties
  imports Variadic Back_Ends
begin

text \<open>
  The properties of variadic blueprints. The witness reads a small memory: the record of a call with the variadic
  argument 256, and the argument 1 of an expression.
\<close>

definition va_demo :: va_state where
  "va_demo = \<lparr>mem = image_mem [(0x200, 1), (0x201, 1), (0x202, 0x2000), (0x400, 0x3000), (0x600, 4), (0x601, 256),
       (0x800, 0x5000), (0xa00, 4), (0xa01, 1)],
     live = [(0x4000, 8), (0x5000, 12), (0x2000, 8), (0x3000, 12)], prot = (\<lambda>_. 0), vit = demo_vitals,
     initialized = 1, plt = demo_ctx, ask_ctx = 0, mmk_ctx_var = 0, stubs = (\<lambda>_. None), errno = 0,
     matchers = [0x6000 \<mapsto> \<lparr>m_kind = 1, m_prio = 0, m_data = NULL, m_next = 0x7000\<rparr>,
       0x7000 \<mapsto> \<lparr>m_kind = MMK_MATCHER_LT, m_prio = 0, m_data = NULL, m_next = NULL\<rparr>],
     matcher_ctx = 0x6000, mocks = (\<lambda>_. None), times_var = 0, cur_result = None,
     bindings = (\<lambda>_. None), mock_called = 0, bound_va = (\<lambda>_. None)\<rparr>"

definition va_demo_program :: "(va_state, unit) va_program" where
  "va_demo_program = \<lparr>va_predicate = \<lambda>_ _. 0, serialize_va = \<lambda>_ _ s. Inr ((1, 1, 0x4000), s),
     va_delegate = \<lambda>_ _ _ s. Inr (0, s)\<rparr>"

text \<open>C30: The variadic arguments of a logged call are accepted exactly when there are as many as in the expression, each has the
  size of its counterpart and its matcher accepts it, in the order of bytes; what was serialised for
  the comparison is freed when the call is accepted, and nothing of it when the numbers differ.\<close>

theorem variadic_arguments_judged:
  fixes s :: "'a va_state_scheme"
  assumes "serialize_va V args va s = Inr ((ok, sz, arr), s1)" and "ok \<noteq> 0"
    and "ps = va_ptrs (mem s1) arr (unat sz)"
    and "rs = va_ptrs (mem s1) (ld64 (mem s1) (p + 16)) (unat (ld64 (mem s1) (p + 8)))"
    and "fp_free (vit s1) \<noteq> NULL" and "NULL \<notin> fst ` set (live s1)"
    and "arr \<in> insert NULL (fst ` set (live s1))" and "distinct (arr # ps)" and "set ps \<subseteq> fst ` set (live s1)"
    and "links m_next (matchers s1) m (m # qs)"
  shows "\<exists>acc bs. MMK_MOCK_VA_VERIFY V s m p args va = Inr (acc, s1\<lparr>live := bs\<rparr>) \<and>
    (acc \<longleftrightarrow> va_accepts (va_predicate V) (map (the \<circ> matchers s1) qs) (map (va_data (mem s1)) rs) (map (va_data (mem s1)) ps)) \<and>
    (acc \<longrightarrow> bs = filter (\<lambda>b. fst b \<notin> insert arr (set ps)) (live s1)) \<and>
    (length rs \<noteq> length ps \<longrightarrow> bs = live s1)"
  using assms by (rule MMK_MOCK_VA_VERIFY_accepts)

theorem variadic_arguments_judged_witness:
  "\<exists>bs. MMK_MOCK_VA_VERIFY va_demo_program va_demo 0x6000 0x1000 [] () = Inr (True, va_demo\<lparr>live := bs\<rparr>) \<and>
     bs = [(0x2000, 8), (0x3000, 12)]"
proof -
  have m: "ld64 (mem va_demo) 0x1008 = 1" "ld64 (mem va_demo) 0x1010 = 0x2000" "ld64 (mem va_demo) 0x2000 = 0x3000"
    "ld64 (mem va_demo) 0x4000 = 0x5000" "ld64 (mem va_demo) 0x3000 = 4" "ld64 (mem va_demo) 0x5000 = 4"
    by (simp_all add: va_demo_def image_simps)
  have ptrs: "va_ptrs (mem va_demo) 0x4000 (Suc 0) = [0x5000]" "va_ptrs (mem va_demo) 0x2000 (Suc 0) = [0x3000]"
    by (simp_all add: va_ptrs_def m)
  have d: "va_data (mem va_demo) 0x3000 = [0, 1, 0, 0]" "va_data (mem va_demo) 0x5000 = [1, 0, 0, 0]"
    unfolding va_data_def m by (simp_all add: va_demo_def rd_image image_word_def upt_rec)
  have "serialize_va va_demo_program [] () va_demo = Inr ((1, 1, 0x4000), va_demo)"
    by (simp add: va_demo_program_def)
  moreover have "links m_next (matchers va_demo) 0x6000 [0x6000, 0x7000]"
    by (simp add: va_demo_def)
  moreover have "fp_free (vit va_demo) \<noteq> NULL" "live va_demo = [(0x4000, 8), (0x5000, 12), (0x2000, 8), (0x3000, 12)]"
    by (simp_all add: va_demo_def demo_vitals_def)
  moreover have "va_accepts pr (map (the \<circ> matchers va_demo) [0x7000]) [[0, 1, 0, 0]] [[1, 0, 0, 0]]" for pr
    by (simp add: va_accepts_def va_demo_def matcher_accepts_def bytes_operators_def matcher_kinds)
  ultimately show ?thesis
    using variadic_arguments_judged [of va_demo_program "[]" "()" va_demo 1 1 "0x4000" va_demo "[0x5000]" "[0x3000]" "0x1000"
        "0x6000" "[0x7000]"] by (auto simp: m ptrs d)
qed

text \<open>C31: Variadic arguments are compared as bytes. For equality, and for the order of a signed byte, that is the comparison of
  the values; for the order of wider types it is not: the \<open>int\<close> 256 is less than 1.\<close>

theorem variadic_order_is_bytewise:
  assumes "ctype_ok ty" and "in_range ty v" and "in_range ty w"
    and "va_data m r = store_value ty v" and "va_data m p = store_value ty w"
  shows "(op_eq (va_operators pr m) r p \<longleftrightarrow> v = w) \<and>
    (ty_size ty = 1 \<and> ty_signed ty \<longrightarrow> op_lt (va_operators pr m) r p = (v < w) \<and> op_gt (va_operators pr m) r p = (v > w)) \<and>
    (ty = \<lparr>ty_size = 4, ty_signed = True\<rparr> \<and> v = 256 \<and> w = 1 \<longrightarrow> op_lt (va_operators pr m) r p)"
proof -
  have n: "unat (ld64 m p) = ty_size ty" and "unat (ld64 m r) = ty_size ty"
    by (metis assms(4,5) length_store_value length_va_data)+
  then have d: "rd m (p + 8) (ty_size ty) = store_value ty w" "rd m (r + 8) (ty_size ty) = store_value ty v"
    using assms(4,5) by (simp_all add: va_data_def)
  have "op_eq (va_operators pr m) r p \<longleftrightarrow> v = w"
    using assms(1-3) by (simp add: va_operators_def n mmk_memcmp_zero_iff d store_value_inj)
  moreover have "op_lt (va_operators pr m) r p \<longleftrightarrow> signed_less (store_value ty v) (store_value ty w)"
    and "op_gt (va_operators pr m) r p \<longleftrightarrow> signed_less (store_value ty w) (store_value ty v)"
    by (simp_all add: va_operators_def n mmk_memcmp_signed_less d)
  ultimately show ?thesis
    using assms(2,3) signed_byte_order int_order_is_bytewise by auto
qed

theorem variadic_order_is_bytewise_witness:
  "op_lt (va_operators (\<lambda>_ _. 0) (mem va_demo)) 0x3000 0x5000"
proof -
  have m: "ld64 (mem va_demo) 0x3000 = 4" "ld64 (mem va_demo) 0x5000 = 4"
    by (simp_all add: va_demo_def image_simps)
  have d: "va_data (mem va_demo) 0x3000 = [0, 1, 0, 0]" "va_data (mem va_demo) 0x5000 = [1, 0, 0, 0]"
    unfolding va_data_def m by (simp_all add: va_demo_def rd_image image_word_def upt_rec)
  have "store_value \<lparr>ty_size = 4, ty_signed = True\<rparr> 256 = [0, 1, 0, 0]" "store_value \<lparr>ty_size = 4, ty_signed = True\<rparr> 1 = [1, 0, 0, 0]"
    by code_simp+
  with variadic_order_is_bytewise [of "\<lparr>ty_size = 4, ty_signed = True\<rparr>" 256 1 "mem va_demo" "0x3000" "0x5000" "\<lambda>_ _. 0"]
  show ?thesis
    by (simp add: d ctype_ok_def in_range_def)
qed

end
