(* ===== verification/R_Debug.thy ===== *)
theory R_Debug
  imports Core
begin

text \<open>
  The start of \<open>src/plt-elf.c\<close>: how the library finds the \<open>struct r_debug\<close> of the dynamic linker, whose list of
  loaded objects is its context. Which way is compiled in depends on what the build found: the symbols
  \<open>_r_debug\<close> and \<open>_DYNAMIC\<close>, or neither, and then the program headers are searched. An \<open>elf_process\<close> is what the
  linker provides; \<open>dl_iterate_phdr\<close> is the documented function of the C library.
\<close>

record elf_build =
  have_r_debug :: bool
  have_dynamic :: bool

record program_header =
  p_type :: "32 word"
  p_vaddr :: "64 word"

record dl_phdr_info =
  dlpi_addr :: addr
  dlpi_phdr :: "program_header list"

text \<open>The local variable \<open>dynamic\<close> of \<open>get_r_debug\<close> is not initialised; \<open>junk_dynamic\<close> is what it holds.\<close>

record elf_process =
  r_debug_symbol :: addr
  dynamic_symbol :: addr
  phdr_objects :: "dl_phdr_info list"
  junk_dynamic :: addr

abbreviation (input) PT_DYNAMIC :: "32 word" where "PT_DYNAMIC \<equiv> 2"
abbreviation (input) DT_DEBUG :: "64 word" where "DT_DEBUG \<equiv> 21"

section \<open>Finding the linker's record\<close>

fun dynamic_header :: "addr \<Rightarrow> program_header list \<Rightarrow> addr \<Rightarrow> cint \<times> addr" where
  "dynamic_header base [] ctx = (- 1, ctx)"
| "dynamic_header base (ph # phs) ctx =
     (if p_type ph = PT_DYNAMIC then (1, base + p_vaddr ph) else dynamic_header base phs ctx)"

definition find_dynamic :: "dl_phdr_info \<Rightarrow> addr \<Rightarrow> cint \<times> addr" where
  "find_dynamic info ctx = dynamic_header (dlpi_addr info) (dlpi_phdr info) ctx"

text \<open>The callback is called for one object after the other until it returns something other than zero.\<close>

fun dl_iterate_phdr :: "('i \<Rightarrow> 'd \<Rightarrow> cint \<times> 'd) \<Rightarrow> 'i list \<Rightarrow> 'd \<Rightarrow> cint \<times> 'd" where
  "dl_iterate_phdr callback [] d = (0, d)"
| "dl_iterate_phdr callback (i # is) d =
     (let (r, d) = callback i d in if r \<noteq> 0 then (r, d) else dl_iterate_phdr callback is d)"

partial_function (option) r_debug_from_dynamic :: "mem \<Rightarrow> addr \<Rightarrow> addr option" where
  "r_debug_from_dynamic m dyn =
     (if ld64 m dyn = DT_NULL then Some NULL
      else if ld64 m dyn = DT_DEBUG then Some (ld64 m (dyn + 8))
      else r_debug_from_dynamic m (dyn + 16))"

definition get_r_debug :: "elf_build \<Rightarrow> elf_process \<Rightarrow> mem \<Rightarrow> addr option" where
  "get_r_debug B X m =
     (if have_r_debug B then Some (r_debug_symbol X)
      else do {
        dbg \<leftarrow> (if have_dynamic B then r_debug_from_dynamic m (dynamic_symbol X) else Some NULL);
        if dbg = NULL
        then (let (r, dynamic) = dl_iterate_phdr find_dynamic (phdr_objects X) (junk_dynamic X)
              in if 0 <s r then r_debug_from_dynamic m dynamic else Some dbg)
        else Some dbg
      })"

text \<open>\<open>plt_init_ctx\<close> keeps what was found in a static variable, which is \<open>(void* ) -1\<close> before the first call.\<close>

definition plt_init_ctx_elf :: "elf_build \<Rightarrow> elf_process \<Rightarrow> mem \<Rightarrow> addr \<Rightarrow> (addr \<times> addr) option" where
  "plt_init_ctx_elf B X m dbg =
     do {
       dbg \<leftarrow> (if dbg = - 1 then get_r_debug B X m else Some dbg);
       Some (dbg, dbg)
     }"

text \<open>Initialisation on an ELF host, from the search for the record on; \<open>dbg\<close> is the static variable.\<close>

definition mmk_init_elf :: "elf_build \<Rightarrow> elf_process \<Rightarrow> addr \<Rightarrow> env \<Rightarrow> 'a core_scheme \<Rightarrow> fault + 'a core_scheme" where
  "mmk_init_elf B X dbg E s =
     (if initialized s \<noteq> 0 then Inr s
      else andthen (returns (plt_init_ctx_elf B X (mem s) dbg)) (\<lambda>(ctx, dbg).
        mmk_init (E\<lparr>plt_context := ctx\<rparr>) s))"

text \<open>The list of loaded objects in memory: what the loops over \<open>l_next\<close> from \<open>ctx->r_map\<close> on visit.\<close>

partial_function (option) link_maps :: "mem \<Rightarrow> addr \<Rightarrow> plt_ctx option" where
  "link_maps m l =
     (if l = NULL then Some []
      else do {
        name \<leftarrow> read_cstr m (ld64 m (l + 8));
        ls \<leftarrow> link_maps m (ld64 m (l + 24));
        Some (\<lparr>l_addr = ld64 m l, l_name = name, l_ld = ld64 m (l + 16)\<rparr> # ls)
      })"

declare r_debug_from_dynamic.simps [simp del] link_maps.simps [simp del]

section \<open>What is found\<close>

text \<open>\<open>names_debugger m dyn r\<close>: the first \<open>DT_DEBUG\<close> of the dynamic section at \<open>dyn\<close> holds \<open>r\<close>.\<close>

definition names_debugger :: "mem \<Rightarrow> addr \<Rightarrow> addr \<Rightarrow> bool" where
  "names_debugger m dyn r \<longleftrightarrow>
     (\<exists>n. (\<forall>i < n. ld64 m (dyn + 16 * of_nat i) \<notin> {DT_NULL, DT_DEBUG}) \<and>
        ld64 m (dyn + 16 * of_nat n) = DT_DEBUG \<and> ld64 m (dyn + 16 * of_nat n + 8) = r)"

lemma r_debug_from_dynamic_skips:
  "\<forall>i < n. ld64 m (dyn + 16 * of_nat i) \<notin> {DT_NULL, DT_DEBUG} \<Longrightarrow>
    r_debug_from_dynamic m dyn = r_debug_from_dynamic m (dyn + 16 * of_nat n)"
proof (induction n arbitrary: dyn)
  case (Suc n)
  have "ld64 m dyn \<notin> {DT_NULL, DT_DEBUG}"
    using spec [OF Suc.prems, of 0] by simp
  then have "r_debug_from_dynamic m dyn = r_debug_from_dynamic m (dyn + 16)"
    by (subst r_debug_from_dynamic.simps) simp
  also have "\<dots> = r_debug_from_dynamic m (dyn + 16 + 16 * of_nat n)"
  proof (rule Suc.IH, intro allI impI)
    fix i
    assume "i < n"
    then have "ld64 m (dyn + 16 * of_nat (Suc i)) \<notin> {DT_NULL, DT_DEBUG}"
      using Suc.prems by blast
    then show "ld64 m (dyn + 16 + 16 * of_nat i) \<notin> {DT_NULL, DT_DEBUG}"
      by (simp add: algebra_simps)
  qed
  finally show ?case
    by (simp add: algebra_simps)
qed simp

lemma r_debug_from_dynamic_found:
  assumes "names_debugger m dyn r"
  shows "r_debug_from_dynamic m dyn = Some r"
proof -
  obtain n where n: "\<forall>i < n. ld64 m (dyn + 16 * of_nat i) \<notin> {DT_NULL, DT_DEBUG}"
    and e: "ld64 m (dyn + 16 * of_nat n) = DT_DEBUG" "ld64 m (dyn + 16 * of_nat n + 8) = r"
    using assms by (auto simp: names_debugger_def)
  have "r_debug_from_dynamic m (dyn + 16 * of_nat n) = Some r"
    using e by (subst r_debug_from_dynamic.simps) simp
  with r_debug_from_dynamic_skips [OF n] show ?thesis
    by simp
qed

text \<open>The first program header of type \<open>PT_DYNAMIC\<close> is the one used, and an object without one ends the search.\<close>

definition dynamic_of :: "dl_phdr_info \<Rightarrow> addr option" where
  "dynamic_of info = map_option (\<lambda>ph. dlpi_addr info + p_vaddr ph) (find (\<lambda>ph. p_type ph = PT_DYNAMIC) (dlpi_phdr info))"

lemma dynamic_header_find:
  "dynamic_header base phs ctx =
    (case find (\<lambda>ph. p_type ph = PT_DYNAMIC) phs of None \<Rightarrow> (- 1, ctx) | Some ph \<Rightarrow> (1, base + p_vaddr ph))"
  by (induction phs) auto

lemma find_dynamic_eq:
  "find_dynamic info ctx = (case dynamic_of info of None \<Rightarrow> (- 1, ctx) | Some dyn \<Rightarrow> (1, dyn))"
  by (simp add: find_dynamic_def dynamic_header_find dynamic_of_def split: option.splits)

lemma dl_iterate_find_dynamic:
  "dl_iterate_phdr find_dynamic objs ctx =
    (case objs of [] \<Rightarrow> (0, ctx) | info # _ \<Rightarrow> find_dynamic info ctx)"
  by (cases objs) (auto simp: find_dynamic_eq split: option.splits)

lemma found_is_positive: "0 <s (1 :: cint)" and not_found_is_negative: "\<not> 0 <s (- 1 :: cint)"
  by code_simp+

lemma get_r_debug_found:
  assumes "names_debugger m dyn r" and "r \<noteq> NULL"
    and "have_r_debug B \<Longrightarrow> r_debug_symbol X = r" and "have_dynamic B \<Longrightarrow> dynamic_symbol X = dyn"
    and "phdr_objects X = main # objs" and "dynamic_of main = Some dyn"
  shows "get_r_debug B X m = Some r"
  using assms(2-) r_debug_from_dynamic_found [OF assms(1)]
  by (simp add: get_r_debug_def dl_iterate_find_dynamic find_dynamic_eq found_is_positive)

lemma get_r_debug_not_found:
  assumes "\<not> have_r_debug B" and "\<not> have_dynamic B"
    and "case phdr_objects X of [] \<Rightarrow> True | main # _ \<Rightarrow> dynamic_of main = None"
  shows "get_r_debug B X m = Some NULL"
  using assms
  by (cases "phdr_objects X")
    (simp_all add: get_r_debug_def dl_iterate_find_dynamic find_dynamic_eq not_found_is_negative)

lemma plt_init_ctx_elf_again:
  "plt_init_ctx_elf B X m dbg = Some (p, dbg') \<Longrightarrow> p \<noteq> - 1 \<Longrightarrow> plt_init_ctx_elf B X m' dbg' = Some (p, dbg')"
  by (auto simp: plt_init_ctx_elf_def bind_eq_Some_conv)

end
