(* ===== verification/Thread_Local.thy ===== *)
theory Thread_Local
  imports Vitals
begin

text \<open>
  \<open>src/threadlocal.h\<close>: the variables of the library that every thread has one of. With most compilers they are variables of
  the language; with GCC on Windows a variable holds an index of thread-local storage, whose value for a thread
  points to a cell on the heap. The model follows one such variable; a thread is a number, the
  functions of Windows do what they are documented to, and which index \<open>TlsAlloc\<close> returns is a parameter.
\<close>

type_synonym dword = "32 word"

abbreviation (input) TLS_OUT_OF_INDEXES :: dword where
  "TLS_OUT_OF_INDEXES \<equiv> - 1"

record 'v tls_state = heap +
  tls_taken :: "dword list"
  tls_values :: "nat \<Rightarrow> dword \<Rightarrow> addr"
  tls_var :: dword
  tls_cells :: "addr \<rightharpoonup> 'v"

section \<open>The functions of Windows\<close>

definition TlsAlloc :: "(dword list \<Rightarrow> dword) \<Rightarrow> ('v, 'a) tls_state_scheme \<Rightarrow> dword \<times> ('v, 'a) tls_state_scheme" where
  "TlsAlloc next_index s =
     (let i = next_index (tls_taken s)
      in (i, if i = TLS_OUT_OF_INDEXES then s
             else s\<lparr>tls_taken := i # tls_taken s, tls_values := (\<lambda>t. (tls_values s t)(i := NULL))\<rparr>))"

definition TlsSetValue :: "nat \<Rightarrow> dword \<Rightarrow> addr \<Rightarrow> ('v, 'a) tls_state_scheme \<Rightarrow> ('v, 'a) tls_state_scheme" where
  "TlsSetValue t i p s =
     (if i = TLS_OUT_OF_INDEXES then s
      else s\<lparr>tls_values := (tls_values s)(t := (tls_values s t)(i := p))\<rparr>)"

definition TlsGetValue :: "nat \<Rightarrow> dword \<Rightarrow> ('v, 'a) tls_state_scheme \<Rightarrow> addr" where
  "TlsGetValue t i s = (if i = TLS_OUT_OF_INDEXES then NULL else tls_values s t i)"

section \<open>The macros on Windows\<close>

text \<open>The first statements of \<open>tls_set\<close> and \<open>tls_op\<close>: \<open>v__\<close>, and whether it was allocated now.\<close>

definition tls_pointer :: "(dword list \<Rightarrow> dword) \<Rightarrow> libc \<Rightarrow> size_t \<Rightarrow> nat \<Rightarrow> ('v, 'a) tls_state_scheme \<Rightarrow>
    fault + addr \<times> bool \<times> ('v, 'a) tls_state_scheme" where
  "tls_pointer next_index L sz t s =
     (if tls_var s = 0 then
        let (i, s) = TlsAlloc next_index s;
            s = s\<lparr>tls_var := i\<rparr>
        in andthen (mmk_malloc L s sz) (\<lambda>(p, s). Inr (p, True, TlsSetValue t (tls_var s) p s))
      else Inr (TlsGetValue t (tls_var s) s, False, s))"

definition tls_store :: "addr \<Rightarrow> 'v \<Rightarrow> ('v, 'a) tls_state_scheme \<Rightarrow> fault + ('v, 'a) tls_state_scheme" where
  "tls_store p v s = (if p = NULL then Inl UB else Inr (s\<lparr>tls_cells := (tls_cells s)(p \<mapsto> v)\<rparr>))"

definition tls_set :: "(dword list \<Rightarrow> dword) \<Rightarrow> libc \<Rightarrow> size_t \<Rightarrow> nat \<Rightarrow> 'v \<Rightarrow> ('v, 'a) tls_state_scheme \<Rightarrow>
    fault + ('v, 'a) tls_state_scheme" where
  "tls_set next_index L sz t v s =
     andthen (tls_pointer next_index L sz t s) (\<lambda>(p, _, s). tls_store p v s)"

definition tls_get :: "nat \<Rightarrow> ('v, 'a) tls_state_scheme \<Rightarrow> fault + 'v" where
  "tls_get t s =
     (let p = TlsGetValue t (tls_var s) s
      in andthen (mmk_assert ''v__ != NULL'' (p \<noteq> NULL)) (\<lambda>_. deref (tls_cells s p)))"

definition tls_op :: "(dword list \<Rightarrow> dword) \<Rightarrow> libc \<Rightarrow> size_t \<Rightarrow> nat \<Rightarrow> ('v \<Rightarrow> 'v \<Rightarrow> 'v) \<Rightarrow> 'v :: zero \<Rightarrow>
    ('v, 'a) tls_state_scheme \<Rightarrow> fault + ('v, 'a) tls_state_scheme" where
  "tls_op next_index L sz t Op v s =
     andthen (tls_pointer next_index L sz t s) (\<lambda>(p, new, s).
     andthen (if new then tls_store p 0 s else Inr s) (\<lambda>s.
     andthen (if p = NULL then Inl UB else deref (tls_cells s p)) (\<lambda>old.
       tls_store p (Op old v) s)))"

section \<open>What the variable is meant to be\<close>

text \<open>
  The other variant of the macros, on a variable of the language: a value for each thread, zero at first. An \<open>access\<close> is
  one use of a macro by a thread; reads have results.
\<close>

datatype 'v access = Sets nat 'v | Gets nat | Ops nat "'v \<Rightarrow> 'v \<Rightarrow> 'v" 'v

primrec thread_of :: "'v access \<Rightarrow> nat" where
  "thread_of (Sets t v) = t"
| "thread_of (Gets t) = t"
| "thread_of (Ops t f v) = t"

primrec plain_access :: "'v access \<Rightarrow> (nat \<Rightarrow> 'v) \<Rightarrow> 'v list \<times> (nat \<Rightarrow> 'v)" where
  "plain_access (Sets t v) x = ([], x(t := v))"
| "plain_access (Gets t) x = ([x t], x)"
| "plain_access (Ops t f v) x = ([], x(t := f (x t) v))"

fun plain_accesses :: "'v access list \<Rightarrow> (nat \<Rightarrow> 'v) \<Rightarrow> 'v list \<times> (nat \<Rightarrow> 'v)" where
  "plain_accesses [] x = ([], x)"
| "plain_accesses (a # as) x =
     (let (rs, x) = plain_access a x; (rs', x) = plain_accesses as x in (rs @ rs', x))"

primrec tls_access :: "(dword list \<Rightarrow> dword) \<Rightarrow> libc \<Rightarrow> size_t \<Rightarrow> 'v :: zero access \<Rightarrow> ('v, 'a) tls_state_scheme \<Rightarrow>
    fault + 'v list \<times> ('v, 'a) tls_state_scheme" where
  "tls_access next_index L sz (Sets t v) s = andthen (tls_set next_index L sz t v s) (\<lambda>s. Inr ([], s))"
| "tls_access next_index L sz (Gets t) s = andthen (tls_get t s) (\<lambda>v. Inr ([v], s))"
| "tls_access next_index L sz (Ops t f v) s = andthen (tls_op next_index L sz t f v s) (\<lambda>s. Inr ([], s))"

fun tls_accesses :: "(dword list \<Rightarrow> dword) \<Rightarrow> libc \<Rightarrow> size_t \<Rightarrow> 'v :: zero access list \<Rightarrow>
    ('v, 'a) tls_state_scheme \<Rightarrow> fault + 'v list \<times> ('v, 'a) tls_state_scheme" where
  "tls_accesses next_index L sz [] s = Inr ([], s)"
| "tls_accesses next_index L sz (a # as) s =
     andthen (tls_access next_index L sz a s) (\<lambda>(rs, s).
     andthen (tls_accesses next_index L sz as s) (\<lambda>(rs', s). Inr (rs @ rs', s)))"

section \<open>When the macros on Windows agree with it\<close>

text \<open>\<open>tls_holds s t v\<close>: the variable has its cell, which belongs to thread \<open>t\<close> alone and holds \<open>v\<close>.\<close>

definition tls_holds :: "('v, 'a) tls_state_scheme \<Rightarrow> nat \<Rightarrow> 'v \<Rightarrow> bool" where
  "tls_holds s t v \<longleftrightarrow> tls_var s \<noteq> 0 \<and> tls_var s \<noteq> TLS_OUT_OF_INDEXES \<and> tls_values s t (tls_var s) \<noteq> NULL \<and>
     tls_cells s (tls_values s t (tls_var s)) = Some v \<and> (\<forall>t'. t' \<noteq> t \<longrightarrow> tls_values s t' (tls_var s) = NULL)"

lemma tls_holds_access:
  assumes "tls_holds s t v" and "thread_of a = t" and "x t = v"
  obtains s' where "tls_access next_index L sz a s = Inr (fst (plain_access a x), s')"
    and "tls_holds s' t (snd (plain_access a x) t)" and "live s' = live s"
  using assms
  by (cases a) (auto simp: tls_holds_def tls_set_def tls_get_def tls_op_def tls_pointer_def tls_store_def TlsGetValue_def
      mmk_assert_def)

lemma tls_holds_accesses:
  "tls_holds s t (x t) \<Longrightarrow> \<forall>a \<in> set as. thread_of a = t \<Longrightarrow>
    \<exists>s'. tls_accesses next_index L sz as s = Inr (fst (plain_accesses as x), s') \<and>
      tls_holds s' t (snd (plain_accesses as x) t) \<and> live s' = live s"
proof (induction as arbitrary: s x)
  case (Cons a as)
  obtain s1 where s1: "tls_access next_index L sz a s = Inr (fst (plain_access a x), s1)"
    "tls_holds s1 t (snd (plain_access a x) t)" "live s1 = live s"
    by (rule tls_holds_access [where s = s and t = t and a = a and x = x, OF Cons.prems(1)])
      (simp_all add: Cons.prems(2))
  have "\<forall>a \<in> set as. thread_of a = t"
    using Cons.prems(2) by simp
  from Cons.IH [where x = "snd (plain_access a x)", OF s1(2) this] obtain s2 where s2: "tls_accesses next_index L sz as s1 = Inr (fst (plain_accesses as (snd (plain_access a x))), s2)"
    "tls_holds s2 t (snd (plain_accesses as (snd (plain_access a x))) t)" "live s2 = live s1"
    by (elim exE conjE)
  obtain rs x1 rs' x2 where p: "plain_access a x = (rs, x1)" "plain_accesses as x1 = (rs', x2)"
    by (metis surj_pair)
  show ?case
    using s1 s2 by (simp add: p)
qed simp

text \<open>The first access of a variable allocates its cell, for the thread that makes it.\<close>

definition tls_unused :: "('v, 'a) tls_state_scheme \<Rightarrow> bool" where
  "tls_unused s \<longleftrightarrow> tls_var s = 0 \<and> fp_malloc (vit s) \<noteq> NULL"

lemma tls_first_pointer:
  assumes "tls_unused s" and "next_index (tls_taken s) \<notin> {0, TLS_OUT_OF_INDEXES}" and "libc_malloc L (live s) sz = p" and "p \<noteq> NULL"
  obtains s' where "tls_pointer next_index L sz t s = Inr (p, True, s')" and "live s' = (p, sz) # live s"
    and "\<And>v. tls_holds (s'\<lparr>tls_cells := (tls_cells s')(p \<mapsto> v)\<rparr>) t v"
  using assms
  by (auto simp: tls_unused_def tls_pointer_def TlsAlloc_def TlsSetValue_def mmk_malloc_def tls_holds_def Let_def)

lemma tls_first_access:
  assumes "tls_unused s" and "next_index (tls_taken s) \<notin> {0, TLS_OUT_OF_INDEXES}" and "libc_malloc L (live s) sz = p" and "p \<noteq> NULL"
    and "a \<noteq> Gets t" and "thread_of a = t"
  obtains s' where "tls_access next_index L sz a s = Inr ([], s')" and "live s' = (p, sz) # live s"
    and "tls_holds s' t (snd (plain_access a (\<lambda>_. 0)) t)" and "fst (plain_access a (\<lambda>_. 0)) = []"
proof -
  obtain s' where s': "tls_pointer next_index L sz t s = Inr (p, True, s')" "live s' = (p, sz) # live s"
    "\<And>v. tls_holds (s'\<lparr>tls_cells := (tls_cells s')(p \<mapsto> v)\<rparr>) t v"
    by (rule tls_first_pointer [where next_index = next_index and s = s and L = L and sz = sz and p = p and t = t])
      (use assms(1-4) in simp_all)
  with assms(4-6) that show ?thesis
    by (cases a) (simp_all add: tls_set_def tls_op_def tls_store_def)
qed

text \<open>Any other thread finds no cell.\<close>

lemma tls_other_thread:
  assumes "tls_holds s t v" and "thread_of a \<noteq> t"
  shows "\<exists>e. tls_access next_index L sz a s = Inl e"
  using assms
  by (cases a) (auto simp: tls_holds_def tls_set_def tls_get_def tls_op_def tls_pointer_def tls_store_def TlsGetValue_def
      mmk_assert_def)

text \<open>A variable that is read before it was written has no cell either, unless the index 0 is in use and has a value.\<close>

lemma tls_get_unused:
  "tls_var s = 0 \<Longrightarrow> tls_values s t 0 = NULL \<Longrightarrow> tls_get t s = Inl (Assert_failed ''v__ != NULL'')"
  by (simp add: tls_get_def TlsGetValue_def mmk_assert_def)

text \<open>When \<open>TlsAlloc\<close> returns the index 0, the next write allocates an index and a cell again.\<close>

lemma tls_set_index_zero:
  assumes "tls_unused s" and "next_index (tls_taken s) = 0" and "libc_malloc L (live s) sz = p" and "p \<noteq> NULL"
  obtains s' where "tls_set next_index L sz t v s = Inr s'" and "tls_unused s'" and "live s' = (p, sz) # live s"
  using assms
  by (auto simp: tls_unused_def tls_set_def tls_pointer_def TlsAlloc_def TlsSetValue_def mmk_malloc_def tls_store_def Let_def)

end
