(* ===== verification/Windows_Runtime.thy ===== *)
theory Windows_Runtime
  imports Plt_Pe Trampoline
begin

text \<open>
  What \<open>src/trampoline.c\<close> and \<open>src/vitals.c\<close> do otherwise on Windows: the page of a trampoline comes from
  \<open>VirtualAlloc\<close>, whose choice of an address is the parameter \<open>alloc\<close>; \<open>mprotect\<close> is not among the vital functions, and
  \<open>vfprintf\<close> may be replaced by a function of the library around \<open>__stdio_common_vfprintf\<close>.
\<close>

section \<open>Trampolines\<close>

abbreviation (input) PAGE_EXECUTE_READ :: "32 word" where
  "PAGE_EXECUTE_READ \<equiv> 0x20"

definition VirtualAlloc ::
  "(blocks \<Rightarrow> size_t \<Rightarrow> addr) \<Rightarrow> 'a pe_state_scheme \<Rightarrow> size_t \<Rightarrow> 32 word \<Rightarrow> addr \<times> 'a pe_state_scheme" where
  "VirtualAlloc alloc s n p =
     (let a = alloc (live s) n
      in (a, if a = NULL then s
             else s\<lparr>live := (a, n) # live s,
                    page_prot := (\<lambda>x. if in_region a (unat n) x then p else page_prot s x)\<rparr>))"

definition VirtualFree :: "'a pe_state_scheme \<Rightarrow> addr \<Rightarrow> 'a pe_state_scheme" where
  "VirtualFree s p = s\<lparr>live := unblock p (live s)\<rparr>"

definition create_trampoline_win ::
  "windows \<Rightarrow> (blocks \<Rightarrow> size_t \<Rightarrow> addr) \<Rightarrow> byte list \<Rightarrow> 'a pe_state_scheme \<Rightarrow> addr \<Rightarrow> addr \<Rightarrow>
    fault + addr \<times> 'a pe_state_scheme" where
  "create_trampoline_win W alloc code s ctx routine =
     andthen (mmk_assert ''trampoline_sz < PAGE_SIZE'' (length code < unat PAGE_SIZE)) (\<lambda>_.
       let (map, s) = VirtualAlloc alloc s PAGE_SIZE PAGE_EXECUTE_READWRITE
       in if map = NULL then Inl UB
          else
            let m = st64 (mem s) map ctx;
                m = st64 m (map + 8) routine;
                m = wr m (map + 16) code;
                (old, pp) = virtual_protect W (page_prot s) map PAGE_SIZE PAGE_EXECUTE_READ
            in Inr (map + 16, s\<lparr>mem := m, page_prot := pp\<rparr>))"

definition destroy_trampoline_win :: "'a pe_state_scheme \<Rightarrow> addr \<Rightarrow> 'a pe_state_scheme" where
  "destroy_trampoline_win s trampoline = VirtualFree s (trampoline - 16)"

text \<open>A page that starts at a page boundary is protected as a whole.\<close>

lemma whole_page:
  assumes "protects_pages W" and "page_of p = p" and "in_region p (unat PAGE_SIZE) x" and "page_of x = x"
  shows "snd (virtual_protect W pp p PAGE_SIZE v) x = v"
proof -
  have "\<exists>y. in_region p (unat PAGE_SIZE) y \<and> page_of y = x"
    using assms(3,4) by blast
  moreover have "virtual_protect W pp p PAGE_SIZE v =
      (pp (page_of p), \<lambda>x. if \<exists>y. in_region p (unat PAGE_SIZE) y \<and> page_of y = x then v else pp x)"
    using assms(1) by (simp only: protects_pages_def) (simp add: PAGE_SIZE_def)
  ultimately show ?thesis
    by simp
qed

text \<open>Both variants make the same page, and their destruction frees it.\<close>

lemma trampolines_alike:
  fixes s :: "'a pe_state_scheme"
  assumes "libc_ok L" and "create_trampoline L code s ctx routine = Inr (t, s1)"
    and "alloc (live s) PAGE_SIZE = libc_mmap L (live s) PAGE_SIZE"
  obtains s2 where "create_trampoline_win W alloc code s ctx routine = Inr (t, s2)"
    and "mem s2 = mem s1" and "live s2 = live s1" and "live (destroy_trampoline_win s2 t) = live s"
    and "\<lbrakk>protects_pages W; page_of (t - 16) = t - 16\<rbrakk> \<Longrightarrow> page_prot s2 (t - 16) = PAGE_EXECUTE_READ"
proof -
  obtain p pr where p: "t = p + 16" "p = libc_mmap L (live s) PAGE_SIZE" "p \<noteq> - 1" "length code < unat PAGE_SIZE"
    and s1: "s1 = s\<lparr>live := (p, PAGE_SIZE) # live s, mem := wr (mem s) p (trampoline_bytes code ctx routine), prot := pr\<rparr>"
    by (rule create_trampoline_Inr [OF assms(2)])
  have fresh: "fresh_block (live s) p PAGE_SIZE"
    using assms(1) p(2,3) by (simp add: libc_ok_def)
  then have "p \<noteq> NULL"
    by (simp add: fresh_block_def)
  define pp where "pp = (\<lambda>x. if in_region p (unat PAGE_SIZE) x then PAGE_EXECUTE_READWRITE else page_prot s x)"
  let ?s2 = "s\<lparr>live := (p, PAGE_SIZE) # live s, mem := wr (mem s) p (trampoline_bytes code ctx routine),
    page_prot := snd (virtual_protect W pp p PAGE_SIZE PAGE_EXECUTE_READ)\<rparr>"
  have run: "create_trampoline_win W alloc code s ctx routine = Inr (t, ?s2)"
    using p \<open>p \<noteq> NULL\<close> assms(3)
    by (simp add: create_trampoline_win_def VirtualAlloc_def mmk_assert_def Let_def trampoline_stores pp_def split: prod.split)
  have "page_prot ?s2 (t - 16) = PAGE_EXECUTE_READ" if "protects_pages W" and "page_of (t - 16) = t - 16"
    using whole_page [OF that(1), of p p] that(2) by (simp add: p(1) in_region_def PAGE_SIZE_def)
  moreover have "live (destroy_trampoline_win ?s2 t) = live s"
    using fresh by (simp add: destroy_trampoline_win_def VirtualFree_def p(1) unblock_head)
  ultimately show ?thesis
    by (intro that [OF run]) (simp_all add: s1)
qed

section \<open>Vital functions\<close>

text \<open>The result also has the pointer to \<open>__stdio_common_vfprintf\<close>, on which \<open>win32_vfprintf_fallback\<close> relies.\<close>

definition mmk_init_vital_functions_win ::
  "(string \<Rightarrow> fault + addr) \<Rightarrow> addr \<Rightarrow> addr \<times> vitals \<Rightarrow> fault + addr \<times> vitals" where
  "mmk_init_vital_functions_win real_fn win32_vfprintf_fallback = (\<lambda>(common, v).
     andthen (real_fn ''vfprintf'') (\<lambda>vf.
     andthen (real_fn ''abort'') (\<lambda>ab.
     andthen (if vf = NULL then real_fn ''__stdio_common_vfprintf'' else Inr common) (\<lambda>common.
       let vf = (if vf = NULL \<and> common \<noteq> NULL then win32_vfprintf_fallback else vf)
       in if ab = NULL \<or> vf = NULL then Inl (Init_error (ab = NULL) (vf = NULL))
          else
            andthen (init_vital_func real_fn ''malloc'' (\<lambda>p. fp_malloc_update (\<lambda>_. p))
                       (v\<lparr>fp_vfprintf := vf, fp_abort := ab\<rparr>)) (\<lambda>v.
            andthen (init_vital_func real_fn ''realloc'' (\<lambda>p. fp_realloc_update (\<lambda>_. p)) v) (\<lambda>v.
            andthen (init_vital_func real_fn ''free'' (\<lambda>p. fp_free_update (\<lambda>_. p)) v) (\<lambda>v.
              Inr (common, v))))))))"

text \<open>
  The library's own \<open>vfprintf\<close> is only installed together with the function that it calls.
\<close>

lemma mmk_init_vital_functions_win_Inr:
  assumes "mmk_init_vital_functions_win real_fn fallback (NULL, v) = Inr (common, v')" and "fallback \<noteq> NULL"
  shows "fp_vfprintf v' \<noteq> NULL \<and> fp_abort v' \<noteq> NULL \<and> fp_malloc v' \<noteq> NULL \<and> fp_realloc v' \<noteq> NULL \<and> fp_free v' \<noteq> NULL"
    and "real_fn ''vfprintf'' = Inr (fp_vfprintf v') \<or>
      real_fn ''vfprintf'' = Inr NULL \<and> fp_vfprintf v' = fallback \<and> common \<noteq> NULL \<and>
      real_fn ''__stdio_common_vfprintf'' = Inr common"
  using assms by (auto simp: mmk_init_vital_functions_win_def Let_def ends split: if_splits)

lemma mmk_init_vital_functions_win_missing:
  assumes "real_fn ''vfprintf'' = Inr NULL" and "real_fn ''abort'' = Inr ab" and "real_fn ''__stdio_common_vfprintf'' = Inr NULL"
  shows "mmk_init_vital_functions_win real_fn fallback (NULL, v) = Inl (Init_error (ab = NULL) True)"
  using assms by (simp add: mmk_init_vital_functions_win_def)

end
