(* ===== verification/Host_Properties.thy ===== *)
theory Host_Properties
  imports Back_Ends R_Debug Thread_Local Windows_Runtime
begin

text \<open>
  The properties of what depends on the host: how the library finds the record of the dynamic linker
  (\<open>src/plt-elf.c\<close>), its thread-local variables (\<open>src/threadlocal.h\<close>) and the trampolines and vital functions of
  Windows (\<open>src/trampoline.c\<close>, \<open>src/vitals.c\<close>).
\<close>

section \<open>The record of the dynamic linker\<close>

text \<open>C39: The three ways of finding the record of the dynamic linker agree: when the dynamic section of the program names it,
  every build of the library finds it, and finds it once; \<open>mmk_init\<close> then passes its assertion on the context and returns exactly
  when the vital functions are found in the loaded objects, which are the context from then on. A build that searches the
  program headers looks at the first object only; when that has no dynamic section, the context is \<open>NULL\<close>, and \<open>mmk_init\<close>, whose
  assertion compares with \<open>(void* ) -1\<close>, goes on to read through the null pointer. An initialised library does not search at all, and a
  search that does return \<open>(void* ) -1\<close> is what the assertion stops.\<close>

theorem contexts_found_alike:
  assumes "names_debugger (mem s) dyn r" and "r \<noteq> NULL" and "r \<noteq> - 1" and "initialized s = 0"
    and "r_debug_symbol X = r" and "dynamic_symbol X = dyn"
    and "phdr_objects X = main # objs" and "dynamic_of main = Some dyn"
  shows "plt_init_ctx_elf B X (mem s) (- 1) = Some (r, r) \<and> plt_init_ctx_elf B X m' r = Some (r, r) \<and>
    (mmk_init_elf B X (- 1) E s = Inr s' \<longleftrightarrow>
      (\<exists>v. mmk_init_vital_functions (plt_get_real_fn (mem s) (r_debug E)) (vit s) = Inr v \<and>
        s' = s\<lparr>plt := r_debug E, vit := v, initialized := 1\<rparr>)) \<and>
    (dynamic_of main' = None \<longrightarrow>
      plt_init_ctx_elf \<lparr>have_r_debug = False, have_dynamic = False\<rparr> (X\<lparr>phdr_objects := main' # objs\<rparr>) (mem s) (- 1) =
        Some (NULL, NULL) \<and>
      mmk_init_elf \<lparr>have_r_debug = False, have_dynamic = False\<rparr> (X\<lparr>phdr_objects := main' # objs\<rparr>) (- 1) E s = Inl UB) \<and>
    mmk_init_elf B X' (- 1) E (s\<lparr>initialized := 1\<rparr>) = Inr (s\<lparr>initialized := 1\<rparr>) \<and>
    (plt_init_ctx_elf B X' (mem s) (- 1) = Some (- 1, - 1) \<longrightarrow>
      mmk_init_elf B X' (- 1) E s = Inl (Assert_failed ''self.plt != (void* ) -1''))"
proof -
  have "get_r_debug B X (mem s) = Some r"
    using assms by (intro get_r_debug_found [where main = main]) simp_all
  then have found: "plt_init_ctx_elf B X (mem s) (- 1) = Some (r, r)" "plt_init_ctx_elf B X m' r = Some (r, r)"
    using assms(3) by (simp_all add: plt_init_ctx_elf_def)
  have astray: "plt_init_ctx_elf \<lparr>have_r_debug = False, have_dynamic = False\<rparr> (X\<lparr>phdr_objects := main' # objs\<rparr>) (mem s) (- 1) =
      Some (NULL, NULL)" if "dynamic_of main' = None"
    using that by (simp add: plt_init_ctx_elf_def get_r_debug_not_found)
  have "mmk_init_elf B X (- 1) E s = Inr s' \<longleftrightarrow>
      (\<exists>v. mmk_init_vital_functions (plt_get_real_fn (mem s) (r_debug E)) (vit s) = Inr v \<and>
        s' = s\<lparr>plt := r_debug E, vit := v, initialized := 1\<rparr>)"
    using assms(2-4) by (auto simp: mmk_init_elf_def found(1) mmk_init_def plt_init_ctx_def Let_def ends)
  with found astray assms(4) show ?thesis
    by (simp add: mmk_init_elf_def mmk_init_no_context mmk_init_context_rejected)
qed

text \<open>A dynamic section with \<open>DT_DEBUG\<close> as its second entry, and a program header that leads to it.\<close>

definition linked_mem :: mem where
  "linked_mem = image_mem [(0x80000, 5), (0x80001, 0x400180), (0x80002, 21), (0x80003, 0x7f0000)]"

definition linked_process :: elf_process where
  "linked_process = \<lparr>r_debug_symbol = 0x7f0000, dynamic_symbol = 0x400000,
     phdr_objects = [\<lparr>dlpi_addr = 0x3ff000, dlpi_phdr = [\<lparr>p_type = 1, p_vaddr = 0\<rparr>, \<lparr>p_type = 2, p_vaddr = 0x1000\<rparr>]\<rparr>],
     junk_dynamic = 0x1234\<rparr>"

theorem contexts_found_alike_witness:
  "plt_init_ctx_elf \<lparr>have_r_debug = False, have_dynamic = False\<rparr> linked_process linked_mem (- 1) = Some (0x7f0000, 0x7f0000) \<and>
   plt_init_ctx_elf \<lparr>have_r_debug = False, have_dynamic = True\<rparr> linked_process linked_mem (- 1) = Some (0x7f0000, 0x7f0000) \<and>
   mmk_init_elf \<lparr>have_r_debug = False, have_dynamic = False\<rparr>
     (linked_process\<lparr>phdr_objects := [\<lparr>dlpi_addr = 0, dlpi_phdr = []\<rparr>]\<rparr>) (- 1) demo_env (demo\<lparr>mem := linked_mem, initialized := 0\<rparr>) = Inl UB"
proof -
  let ?s = "demo\<lparr>mem := linked_mem, initialized := 0\<rparr>"
  have "names_debugger (mem ?s) 0x400000 0x7f0000"
    unfolding names_debugger_def
    by (intro exI [of _ 1]) (simp add: linked_mem_def image_simps)
  note found = contexts_found_alike [OF this, where X = linked_process and X' = linked_process and m' = linked_mem
      and s' = demo and E = demo_env and main' = "\<lparr>dlpi_addr = 0, dlpi_phdr = []\<rparr>"
      and main = "\<lparr>dlpi_addr = 0x3ff000, dlpi_phdr = [\<lparr>p_type = 1, p_vaddr = 0\<rparr>, \<lparr>p_type = 2, p_vaddr = 0x1000\<rparr>]\<rparr>" and objs = "[]"]
  show ?thesis
    using found [where B = "\<lparr>have_r_debug = False, have_dynamic = False\<rparr>"]
      found [where B = "\<lparr>have_r_debug = False, have_dynamic = True\<rparr>"]
    by (simp add: linked_process_def dynamic_of_def)
qed

section \<open>Thread-local variables\<close>

text \<open>C40: On Windows with GCC a thread-local variable of the library is that of one thread. From the first
  write on, the accesses of the thread that made it read what a variable of the language would hold, with one allocation in all;
  any access of another thread ends in a fault, where a variable of the language would be zero.\<close>

theorem thread_locals_emulated:
  fixes as :: "'v :: zero access list"
  assumes "tls_var s = 0" and "fp_malloc (vit s) \<noteq> NULL" and "next_index (tls_taken s) \<notin> {0, TLS_OUT_OF_INDEXES}"
    and "libc_malloc L (live s) sz = p" and "p \<noteq> NULL"
    and "a \<noteq> Gets t" and "\<forall>a' \<in> set (a # as). thread_of a' = t"
  shows "\<exists>s'. tls_accesses next_index L sz (a # as) s = Inr (fst (plain_accesses (a # as) (\<lambda>_. 0)), s') \<and>
    live s' = (p, sz) # live s \<and>
    (\<forall>a'. thread_of a' \<noteq> t \<longrightarrow> (\<exists>e. tls_access next_index L sz a' s' = Inl e))"
proof -
  have first: "tls_unused s" "thread_of a = t" and others: "\<forall>a' \<in> set as. thread_of a' = t"
    using assms by (simp_all add: tls_unused_def)
  obtain s1 where s1: "tls_access next_index L sz a s = Inr ([], s1)" "live s1 = (p, sz) # live s"
    "tls_holds s1 t (snd (plain_access a (\<lambda>_. 0)) t)" and none: "fst (plain_access a (\<lambda>_. 0)) = []"
    by (rule tls_first_access [where next_index = next_index and L = L and sz = sz and a = a, OF first(1) assms(3-6) first(2)])
  from tls_holds_accesses [where next_index = next_index and L = L and sz = sz and x = "snd (plain_access a (\<lambda>_. 0))", OF s1(3) others] obtain s2 where
    s2: "tls_accesses next_index L sz as s1 = Inr (fst (plain_accesses as (snd (plain_access a (\<lambda>_. 0)))), s2)"
    "tls_holds s2 t (snd (plain_accesses as (snd (plain_access a (\<lambda>_. 0)))) t)" "live s2 = live s1"
    by (elim exE conjE)
  obtain x1 rs x2 where p: "plain_access a (\<lambda>_. 0) = ([], x1)" "plain_accesses as x1 = (rs, x2)"
    using none by (metis prod.collapse)
  have "\<forall>a'. thread_of a' \<noteq> t \<longrightarrow> (\<exists>e. tls_access next_index L sz a' s2 = Inl e)"
    using tls_other_thread [OF s2(2)] by blast
  with s1 s2 show ?thesis
    by (simp add: p)
qed

definition demo_tls :: "nat tls_state" where
  "demo_tls = \<lparr>mem = demo_mem, live = [], prot = (\<lambda>_. 0), vit = demo_vitals, tls_taken = [1, 0],
     tls_values = (\<lambda>_ _. NULL), tls_var = 0, tls_cells = (\<lambda>_. None)\<rparr>"

theorem thread_locals_emulated_witness:
  "\<exists>s'. tls_accesses (\<lambda>is. of_nat (length is)) demo_libc 4 [Sets 7 0, Ops 7 (+) 1, Gets 7, Ops 7 (+) 1, Gets 7] demo_tls =
      Inr ([1, 2], s') \<and> live s' = [(0x10000, 4)] \<and>
    (\<exists>e. tls_access (\<lambda>is. of_nat (length is)) demo_libc 4 (Sets 8 0) s' = Inl e)"
proof -
  have "libc_malloc demo_libc (live demo_tls) 4 = 0x10000"
    by (simp add: demo_tls_def demo_allocations)
  from thread_locals_emulated [where s = demo_tls and next_index = "\<lambda>is. of_nat (length is)" and a = "Sets 7 0"
      and as = "[Ops 7 (+) 1, Gets 7, Ops 7 (+) 1, Gets 7]" and t = 7, OF _ _ _ this]
  obtain s' where "tls_accesses (\<lambda>is. of_nat (length is)) demo_libc 4 [Sets 7 0, Ops 7 (+) 1, Gets 7, Ops 7 (+) 1, Gets 7] demo_tls =
      Inr (fst (plain_accesses [Sets 7 0, Ops 7 (+) 1, Gets 7, Ops 7 (+) 1, Gets 7] (\<lambda>_. 0)), s')"
    and "live s' = (0x10000, 4) # live demo_tls"
    and "\<forall>a'. thread_of a' \<noteq> 7 \<longrightarrow> (\<exists>e. tls_access (\<lambda>is. of_nat (length is)) demo_libc 4 a' s' = Inl e)"
    by (auto simp: demo_tls_def demo_vitals_def)
  moreover from this(3) have "\<exists>e. tls_access (\<lambda>is. of_nat (length is)) demo_libc 4 (Sets 8 0) s' = Inl e"
    by (elim allE [of _ "Sets 8 0"]) simp
  moreover have "fst (plain_accesses [Sets 7 0, Ops 7 (+) 1, Gets 7, Ops 7 (+) 1, Gets 7] (\<lambda>_. 0)) = [1, 2 :: nat]"
    by simp
  ultimately show ?thesis
    by (intro exI [of _ s']) (simp add: demo_tls_def)
qed

section \<open>Trampolines on Windows\<close>

text \<open>A trampoline on Windows is the one of the other systems: in the same free page, \<open>create_trampoline\<close> writes
  the same bytes and returns the same address, leaves the page readable and executable, and its destruction
  frees it.\<close>

theorem windows_trampoline_alike:
  fixes s :: "'a pe_state_scheme"
  assumes "libc_ok L" and "create_trampoline L code s ctx routine = Inr (t, s1)"
    and "alloc (live s) PAGE_SIZE = libc_mmap L (live s) PAGE_SIZE"
    and "protects_pages W" and "page_of (t - 16) = t - 16"
  shows "\<exists>s2. create_trampoline_win W alloc code s ctx routine = Inr (t, s2) \<and> mem s2 = mem s1 \<and> live s2 = live s1 \<and>
    is_trampoline code s2 t \<and> page_prot s2 (t - 16) = PAGE_EXECUTE_READ \<and> live (destroy_trampoline_win s2 t) = live s"
proof -
  obtain s2 where s2: "create_trampoline_win W alloc code s ctx routine = Inr (t, s2)" "mem s2 = mem s1" "live s2 = live s1"
    "live (destroy_trampoline_win s2 t) = live s" "page_prot s2 (t - 16) = PAGE_EXECUTE_READ"
    by (rule trampolines_alike [where alloc = alloc and W = W, OF assms(1-3)]) (use assms(4,5) in blast)
  with create_trampoline_holds(3) [OF assms(2)] show ?thesis
    by (auto simp: is_trampoline_def)
qed

theorem windows_trampoline_alike_witness:
  "\<exists>s2. create_trampoline_win demo_windows (libc_mmap demo_libc) [0xe8, 0, 0, 0, 0] (demo_pe demo_mem) 0x10000 0x500000 =
     Inr (0x210010, s2) \<and> is_trampoline [0xe8, 0, 0, 0, 0] s2 0x210010"
proof -
  have "libc_mmap demo_libc (live (demo_pe demo_mem)) 0x1000 = 0x210000"
    by (simp add: demo_pe_def demo_allocations)
  then have "\<exists>s'. create_trampoline demo_libc [0xe8, 0, 0, 0, 0] (demo_pe demo_mem) 0x10000 0x500000 = Inr (0x210010, s')"
    by (simp add: create_trampoline_def sys_mmap_def PAGE_SIZE_def mmk_mprotect_def mmk_assert_def Let_def demo_pe_def demo_vitals_def)
  then obtain s' where "create_trampoline demo_libc [0xe8, 0, 0, 0, 0] (demo_pe demo_mem) 0x10000 0x500000 = Inr (0x210010, s')" ..
  moreover have "protects_pages demo_windows" and "page_of (0x210010 - 16) = 0x210010 - 16"
    by (simp_all add: protects_pages_def demo_windows_def page_of_def)
  ultimately show ?thesis
    using windows_trampoline_alike [OF demo_libc_ok, where alloc = "libc_mmap demo_libc" and W = demo_windows] by blast
qed

end
