(* ===== verification/Mock_System.thy ===== *)
theory Mock_System
  imports Mock_Lifecycle
begin

text \<open>
  Several mocks in one process: a state machine whose steps create a mock, let a test do something with one of the mocks,
  or reset one, in any order. The specification of the machine keeps for every mock its own history and behaviours; the
  invariant says that the memory of the process is divided among the mocks and the rest of the program.
\<close>

section \<open>The state machine\<close>

record mock_spec =
  sp_bp :: blueprint
  sp_fr :: frame
  sp_hist :: "int list list"
  sp_cs :: "contract list"

datatype action =
    Creates string blueprint frame addr
  | Performs addr event int
  | Resets addr

text \<open>\<open>img\<close> are the blocks of the program itself: its images, with the slots, and its stack, with the frames.\<close>

definition frame_in :: "blocks \<Rightarrow> blueprint \<Rightarrow> frame \<Rightarrow> bool" where
  "frame_in img bp fr \<longleftrightarrow> (\<exists>(q, k) \<in> set img. within q k (fr_params fr) (sizeof_params (bp_params bp)))"

definition slots_in :: "blocks \<Rightarrow> addr list \<Rightarrow> bool" where
  "slots_in img as \<longleftrightarrow> (\<forall>a \<in> set as. \<exists>(q, k) \<in> set img. within q k a 8)"

definition fresh_spec :: "blueprint \<Rightarrow> frame \<Rightarrow> mock_spec" where
  "fresh_spec bp fr = \<lparr>sp_bp = bp, sp_fr = fr, sp_hist = [], sp_cs = []\<rparr>"

definition after :: "event \<Rightarrow> mock_spec \<Rightarrow> mock_spec" where
  "after e sp = sp\<lparr>sp_hist := sp_hist sp @ spec_history [e], sp_cs := spec_contracts [e] (sp_cs sp)\<rparr>"

inductive acts ::
  "env \<Rightarrow> 'a mock_state_scheme program \<Rightarrow> blocks \<Rightarrow> (addr \<rightharpoonup> mock_spec) \<times> 'a mock_state_scheme \<Rightarrow> action \<Rightarrow>
    (addr \<rightharpoonup> mock_spec) \<times> 'a mock_state_scheme \<Rightarrow> bool"
  for E P img where
  creates: "\<lbrakk>list_all ctype_ok (bp_params bp); frame_in img bp fr; self_target target; mmk_init E s = Inr s1;
      target_slots s1 target = Some as; slots_apart as; slots_in img as;
      mmk_mock_create_internal E s target (bp_stub bp) noabort = Inr (t, s'); t \<noteq> NULL\<rbrakk> \<Longrightarrow>
    acts E P img (sg, s) (Creates target bp fr t) (sg(t \<mapsto> fresh_spec bp fr), s')"
| performs: "\<lbrakk>sg t = Some sp; event_ok (sp_bp sp) e; log_fits (sp_bp sp) (sp_hist sp @ spec_history [e]);
      perform E P (sp_bp sp) (sp_fr sp) s t e = Inr (r, s')\<rbrakk> \<Longrightarrow>
    acts E P img (sg, s) (Performs t e r) (sg(t \<mapsto> after e sp), s')"
| resets: "\<lbrakk>sg t = Some sp; mmk_reset E s t = Inr s'\<rbrakk> \<Longrightarrow>
    acts E P img (sg, s) (Resets t) (sg(t := None), s')"

inductive_cases acts_Performs: "acts E P img (sg, s) (Performs t e r) z"
inductive_cases acts_Resets: "acts E P img (sg, s) (Resets t) z"

text \<open>\<open>begins E img s\<close>: the process as the library finds it.\<close>

definition library_ok :: "env \<Rightarrow> bool" where
  "library_ok E \<longleftrightarrow> libc_ok (c_lib E) \<and> length (trampoline_code E) + 16 \<le> unat PAGE_SIZE"

definition begins :: "env \<Rightarrow> blocks \<Rightarrow> 'a mock_state_scheme \<Rightarrow> bool" where
  "begins E img s \<longleftrightarrow> core_wf E s \<and> live s = img \<and> matcher_ctx s = NULL \<and> mock_called s = 0 \<and>
     matchers_live s \<and> dom (bindings s) \<subseteq> fst ` set img"

inductive runs ::
  "env \<Rightarrow> 'a mock_state_scheme program \<Rightarrow> blocks \<Rightarrow> 'a mock_state_scheme \<Rightarrow> action list \<Rightarrow>
    (addr \<rightharpoonup> mock_spec) \<times> 'a mock_state_scheme \<Rightarrow> bool"
  for E P img s0 where
  start: "runs E P img s0 [] (Map.empty, s0)"
| step: "runs E P img s0 as z \<Longrightarrow> acts E P img z a z' \<Longrightarrow> runs E P img s0 (as @ [a]) z'"

section \<open>The invariant\<close>

text \<open>A mock that lives: it satisfies its invariant, and its slots and its frame belong to the program.\<close>

definition lives :: "env \<Rightarrow> blocks \<Rightarrow> 'a mock_state_scheme \<Rightarrow> mock_spec \<Rightarrow> holding \<Rightarrow> bool" where
  "lives E img s sp h \<longleftrightarrow> setting_ok E (sp_bp sp) \<and> no_calls (sp_cs sp) \<and> frame_in img (sp_bp sp) (sp_fr sp) \<and>
     slots_in img (slots (stub_offsets (h_st h))) \<and> holds s h \<and>
     mock_inv E (sp_bp sp) (sp_fr sp) s (h_stub h) (h_mp h) (sp_hist sp) (sp_cs sp)"

definition system_ok ::
  "env \<Rightarrow> blocks \<Rightarrow> (addr \<rightharpoonup> mock_spec) \<Rightarrow> 'a mock_state_scheme \<Rightarrow> (mock_spec \<times> holding) list \<Rightarrow> bool" where
  "system_ok E img sg s ms \<longleftrightarrow> core_wf E s \<and> matcher_ctx s = NULL \<and> mock_called s = 0 \<and>
     accounts (live s) (concat (map (blocks_of \<circ> snd) ms)) img \<and>
     (\<forall>(sp, h) \<in> set ms. lives E img s sp h) \<and>
     (\<forall>t sp. sg t = Some sp \<longleftrightarrow> (\<exists>h. (sp, h) \<in> set ms \<and> stub_trampoline (h_st h) = t)) \<and>
     dom (matchers s) \<subseteq> fst ` set img \<union> (\<Union>(sp, h) \<in> set ms. set (concat (h_mss h))) \<and>
     dom (bindings s) \<subseteq> fst ` set img \<union> (\<Union>(sp, h) \<in> set ms. set (h_bps h))"

lemma system_ok_perm:
  assumes "mset ms = mset ms'" and "system_ok E img sg s ms"
  shows "system_ok E img sg s ms'"
proof -
  have "mset (concat (map (blocks_of \<circ> snd) ms)) = mset (concat (map (blocks_of \<circ> snd) ms'))"
    using assms(1) by (simp add: mset_concat flip: sum_mset_sum_list)
  then show ?thesis
    using assms(2) mset_eq_setD [OF assms(1)] accounts_perm unfolding system_ok_def by metis
qed

text \<open>The mock of an action can be taken to be the first one.\<close>

lemma system_ok_first:
  assumes ok: "system_ok E img sg s ms" and t: "sg t = Some sp"
  obtains h ms' where "system_ok E img sg s ((sp, h) # ms')" and "stub_trampoline (h_st h) = t"
proof -
  obtain h where h: "(sp, h) \<in> set ms" "stub_trampoline (h_st h) = t"
    using ok t by (auto simp: system_ok_def)
  obtain ms1 ms2 where "ms = ms1 @ (sp, h) # ms2"
    using h(1) by (meson split_list)
  then have "system_ok E img sg s ((sp, h) # ms1 @ ms2)"
    by (intro system_ok_perm [OF _ ok]) simp
  with h(2) that show thesis
    by blast
qed

section \<open>Accounts of several mocks\<close>

lemma accounts_split:
  assumes "accounts bs (ps @ qs) base"
  obtains b where "accounts bs ps b" and "accounts b qs base"
proof
  show "accounts bs ps (filter (\<lambda>b. fst b \<notin> set ps) bs)"
    using assms by (simp add: accounts_def)
  show "accounts (filter (\<lambda>b. fst b \<notin> set ps) bs) qs base"
    by (rule accounts_free [OF assms])
qed

lemma accounts_join:
  assumes "accounts bs ps b" and "accounts b qs base"
  shows "accounts bs (ps @ qs) base"
proof -
  have b: "b = filter (\<lambda>x. fst x \<notin> set ps) bs" and qs: "set qs \<subseteq> fst ` set b"
    using assms by (simp_all add: accounts_def)
  then have "set qs \<inter> set ps = {}" and "set qs \<subseteq> fst ` set bs"
    by auto
  then show ?thesis
    using assms by (auto simp: accounts_def)
qed

lemma accounts_apart: "accounts bs ps b \<Longrightarrow> set b \<subseteq> set bs \<and> set ps \<inter> fst ` set b = {}"
  by (auto simp: accounts_def)

lemma accounts_disjoint: "accounts bs (ps @ qs) base \<Longrightarrow> set ps \<inter> set qs = {}"
  by (auto simp: accounts_def)

section \<open>What the other mocks notice\<close>

text \<open>
  \<open>spares s s' ps\<close>: the step from \<open>s\<close> to \<open>s'\<close> keeps the blocks at \<open>ps\<close> with their bytes, and the typed objects there.
\<close>

definition spares :: "'a mock_state_scheme \<Rightarrow> 'a mock_state_scheme \<Rightarrow> addr list \<Rightarrow> bool" where
  "spares s s' ps \<longleftrightarrow>
     (\<forall>(q, k) \<in> set (live s). q \<in> set ps \<longrightarrow>
        (q, k) \<in> set (live s') \<and> (\<forall>x. in_region q (unat k) x \<longrightarrow> mem s' x = mem s x)) \<and>
     (\<forall>p \<in> set ps. stubs s' p = stubs s p \<and> mocks s' p = mocks s p) \<and>
     (\<forall>p \<in> insert NULL (set ps). matchers s' p = matchers s p \<and> bindings s' p = bindings s p)"

lemma sparesI:
  assumes "\<And>q k x. (q, k) \<in> set (live s) \<Longrightarrow> q \<in> set ps \<Longrightarrow> in_region q (unat k) x \<Longrightarrow> mem s' x = mem s x"
    and "\<And>q k. (q, k) \<in> set (live s) \<Longrightarrow> q \<in> set ps \<Longrightarrow> (q, k) \<in> set (live s')"
    and "\<And>p. p \<in> set ps \<Longrightarrow> stubs s' p = stubs s p \<and> mocks s' p = mocks s p"
    and "\<And>p. p \<in> insert NULL (set ps) \<Longrightarrow> matchers s' p = matchers s p \<and> bindings s' p = bindings s p"
  shows "spares s s' ps"
  unfolding spares_def using assms by blast

lemma spares_objects:
  assumes "spares s s' ps"
  shows "p \<in> set ps \<Longrightarrow> stubs s' p = stubs s p" and "p \<in> set ps \<Longrightarrow> mocks s' p = mocks s p"
    and "p \<in> insert NULL (set ps) \<Longrightarrow> matchers s' p = matchers s p"
    and "p \<in> insert NULL (set ps) \<Longrightarrow> bindings s' p = bindings s p"
  using assms unfolding spares_def by blast+

definition restricted :: "'a mock_state_scheme \<Rightarrow> addr list \<Rightarrow> 'a mock_state_scheme" where
  "restricted s ps = s\<lparr>live := filter (\<lambda>b. fst b \<in> set ps) (live s)\<rparr>"

lemma spares_bytes: "spares s s' ps \<Longrightarrow> bytes_kept p (restricted s ps) s'"
  unfolding bytes_kept_def spares_def restricted_def by auto

lemma installed_spared:
  assumes inst: "installed E s stub fn ctx" and sp: "spares s s' ps"
    and in_ps: "stub \<in> set ps" "trampoline_of s stub - 16 \<in> set ps" and nn: "NULL \<notin> set ps"
    and code: "length (trampoline_code E) + 16 \<le> unat PAGE_SIZE"
  shows "installed E s' stub fn ctx" and "trampoline_of s' stub = trampoline_of s stub"
proof -
  define s0 where "s0 = restricted s ps"
  have t: "trampoline_of s0 stub = trampoline_of s stub"
    by (simp add: s0_def restricted_def trampoline_of_def)
  have inst0: "installed E s0 stub fn ctx"
    using inst in_ps(2) by (auto simp: installed_def is_trampoline_def s0_def restricted_def trampoline_of_def split: option.splits)
  have same: "stubs s' stub = stubs s0 stub"
    using spares_objects(1) [OF sp in_ps(1)] by (simp add: s0_def restricted_def)
  have kept: "bytes_kept NULL s0 s'"
    unfolding s0_def by (rule spares_bytes [OF sp])
  have "trampoline_of s0 stub - 16 \<noteq> NULL"
    using in_ps(2) nn by (metis t)
  from installed_kept [OF inst0 same kept this code] t
  show "installed E s' stub fn ctx" and "trampoline_of s' stub = trampoline_of s stub"
    by simp_all
qed

lemma call_log_spared:
  assumes log: "call_log_ok (mem s) (live s) mk n es" and sp: "spares s s' ps"
    and d: "mk_call_data mk \<noteq> NULL \<longrightarrow> mk_call_data mk \<in> set ps"
  shows "call_log_ok (mem s') (live s') mk n es"
proof (cases "mk_call_data mk = NULL")
  case True
  then show ?thesis
    using log by (simp add: call_log_ok_def)
next
  case False
  define s0 where "s0 = restricted s ps"
  have "call_log_ok (mem s0) (live s0) mk n es"
    using log d False by (simp add: call_log_ok_def log_in_block_def s0_def restricted_def)
  moreover have "bytes_kept NULL s0 s'"
    unfolding s0_def by (rule spares_bytes [OF sp])
  ultimately show ?thesis
    using False by (rule call_log_ok_kept)
qed

lemma contracts_spared:
  assumes cs: "list_all2 (contract_at s) bps cs" and ch: "chained s bps mss"
    and b: "\<And>p. p \<in> set bps \<Longrightarrow> bindings s' p = bindings s p"
    and m: "\<And>p. p \<in> set (concat mss) \<Longrightarrow> matchers s' p = matchers s p"
  shows "list_all2 (contract_at s') bps cs"
  using ch [unfolded chained_def] cs b m
proof (induction arbitrary: cs rule: list_all2_induct)
  case Nil
  then show ?case by simp
next
  case (Cons p bps ms mss)
  obtain c cs' where cs: "cs = c # cs'" "contract_at s p c" "list_all2 (contract_at s) bps cs'"
    using Cons.prems(1) by (auto simp: list_all2_Cons1)
  obtain bd ps where bd: "bindings s p = Some bd" and l: "links m_next (matchers s) (b_matcher_ctx bd) (b_matcher_ctx bd # ps)"
    and c: "c = (map (m_key (matchers s)) ps, b_params bd, b_result bd)"
    using cs(2) by (auto simp: contract_at_def)
  have ms: "ms = b_matcher_ctx bd # ps"
  proof -
    obtain b where "bindings s p = Some b" "links m_next (matchers s) (b_matcher_ctx b) ms"
      using Cons.hyps(1) by blast
    with bd have "links m_next (matchers s) (b_matcher_ctx bd) ms"
      by simp
    then show ?thesis
      using l by (rule links_functional)
  qed
  have same: "matchers s' q = matchers s q" if "q \<in> set (b_matcher_ctx bd # ps)" for q
    using that by (intro Cons.prems(3)) (auto simp: ms)
  have "links m_next (matchers s') (b_matcher_ctx bd) (b_matcher_ctx bd # ps)"
    by (rule links_cong [OF l same])
  moreover have "c = (map (m_key (matchers s')) ps, b_params bd, b_result bd)"
    using c same by (simp add: m_key_def)
  ultimately have "contract_at s' p c"
    using bd Cons.prems(2) by (auto simp: contract_at_def)
  moreover have "list_all2 (contract_at s') bps cs'"
    using Cons.prems by (intro Cons.IH [OF cs(3)]) simp_all
  ultimately show ?case
    by (simp add: cs(1))
qed

lemma holds_spared:
  assumes h: "holds s h" and sp: "spares s s' (blocks_of h)"
  shows "holds s' h"
proof -
  have same: "stubs s' (h_stub h) = stubs s (h_stub h)" "mocks s' (h_mp h) = mocks s (h_mp h)"
    and b: "\<And>p. p \<in> set (h_bps h) \<Longrightarrow> bindings s' p = bindings s p"
    and m: "\<And>p. p \<in> set (concat (h_mss h)) \<Longrightarrow> matchers s' p = matchers s p"
    by (rule spares_objects [OF sp], simp add: blocks_of_def)+
  have l: "links b_next (bindings s) (mk_params (h_mk h)) (h_bps h)" and c: "chained s (h_bps h) (h_mss h)"
    using h by (simp_all add: holds_def)
  have "links b_next (bindings s') (mk_params (h_mk h)) (h_bps h)"
    by (rule links_cong [OF l b])
  moreover have "chained s' (h_bps h) (h_mss h)"
    by (rule chained_cong [OF c b m])
  ultimately show ?thesis
    using h same by (simp add: holds_def)
qed

lemma lives_spared:
  assumes l: "lives E img s sp h" and spare: "spares s s' (blocks_of h)" and nn: "NULL \<notin> set (blocks_of h)"
    and heap: "heap_ok s'" and rest: "at_rest s'"
    and img: "set img \<subseteq> set (live s')" "fst ` set img \<inter> set (blocks_of h) = {}"
  shows "lives E img s' sp h"
proof -
  let ?bp = "sp_bp sp" and ?fr = "sp_fr sp" and ?stub = "h_stub h" and ?mp = "h_mp h" and ?mk = "h_mk h"
  have set: "setting_ok E ?bp" and h: "holds s h" and inv: "mock_inv E ?bp ?fr s ?stub ?mp (sp_hist sp) (sp_cs sp)"
    using l by (simp_all add: lives_def)
  have st: "stubs s ?stub = Some (h_st h)" and mk: "mocks s ?mp = Some ?mk"
    using h by (simp_all add: holds_def)
  have t: "trampoline_of s ?stub = stub_trampoline (h_st h)"
    using st by (simp add: trampoline_of_def)
  obtain keys where inst: "installed E s ?stub (bp_stub ?bp) ?mp" and log: "logged ?bp ?fr s ?stub ?mk keys"
    and hist: "map (decode_key (bp_params ?bp)) keys = sp_hist sp" and con: "contracted s (mk_params ?mk) (sp_cs sp)"
    using inv mk by (auto simp: mock_inv_def)
  have blocks: "?stub \<in> set (blocks_of h)" "trampoline_of s ?stub - 16 \<in> set (blocks_of h)"
    "mk_call_data ?mk \<noteq> NULL \<longrightarrow> mk_call_data ?mk \<in> set (blocks_of h)"
    by (simp_all add: blocks_of_def log_blocks_def t)
  have code: "length (trampoline_code E) + 16 \<le> unat PAGE_SIZE"
    using set by (simp add: setting_ok_def)
  note inst' = installed_spared [OF inst spare blocks(1,2) nn code]
  have holds': "holds s' h"
    by (rule holds_spared [OF h spare])
  have "call_log_ok (mem s') (live s') ?mk (sizeof_params (bp_params ?bp) - 8) (fold bump keys [])"
    using log by (intro call_log_spared [OF _ spare blocks(3)]) (simp add: logged_def)
  moreover have "mk_call_data ?mk \<notin> dom (matchers s') \<union> dom (bindings s')"
  proof -
    have "mk_call_data ?mk \<in> insert NULL (set (blocks_of h))"
      using blocks(3) by blast
    then have "matchers s' (mk_call_data ?mk) = matchers s (mk_call_data ?mk)"
      and "bindings s' (mk_call_data ?mk) = bindings s (mk_call_data ?mk)"
      by (rule spares_objects [OF spare])+
    with log show ?thesis
      by (simp add: logged_def domIff)
  qed
  moreover have "\<exists>(q, k) \<in> set (live s'). within q k (fr_params ?fr) (sizeof_params (bp_params ?bp)) \<and>
      q \<noteq> mk_call_data ?mk \<and> q \<noteq> trampoline_of s' ?stub - 16"
  proof -
    obtain q k where q: "(q, k) \<in> set img" "within q k (fr_params ?fr) (sizeof_params (bp_params ?bp))"
      using l by (auto simp: lives_def frame_in_def)
    then have "(q, k) \<in> set (live s')" and "q \<notin> set (blocks_of h)" and "q \<noteq> NULL"
      using img heap blocks_wf_NULL [of "live s'"] by (force simp: heap_ok_def)+
    then show ?thesis
      using q(2) blocks inst'(2) by (intro bexI [of _ "(q, k)"]) auto
  qed
  ultimately have "logged ?bp ?fr s' ?stub ?mk keys"
    using log inst'(2) by (simp add: logged_def)
  moreover have "contracted s' (mk_params ?mk) (sp_cs sp)"
  proof -
    obtain bps where bps: "links b_next (bindings s) (mk_params ?mk) bps" and cs: "list_all2 (contract_at s) bps (sp_cs sp)"
      using con by (auto simp: contracted_def)
    have "bps = h_bps h"
      using links_functional [OF bps] h by (simp add: holds_def)
    moreover have "list_all2 (contract_at s') (h_bps h) (sp_cs sp)"
    proof (rule contracts_spared [OF cs [unfolded calculation]])
      show "chained s (h_bps h) (h_mss h)"
        using h by (simp add: holds_def)
    qed (rule spares_objects [OF spare], simp add: blocks_of_def)+
    ultimately show ?thesis
      using holds' by (auto simp: contracted_def holds_def)
  qed
  moreover have "mocks s' ?mp = Some ?mk"
    using holds' by (simp add: holds_def)
  ultimately have "mock_inv E ?bp ?fr s' ?stub ?mp (sp_hist sp) (sp_cs sp)"
    using heap rest inst'(1) hist unfolding mock_inv_def by blast
  with l holds' show ?thesis
    by (simp add: lives_def)
qed

section \<open>Each step keeps the invariant\<close>

lemma system_blocks:
  assumes ok: "system_ok E img sg s ms" and m: "(sp, h) \<in> set ms"
  shows "set (blocks_of h) \<subseteq> fst ` set (live s)" and "NULL \<notin> set (blocks_of h)"
    and "set img \<subseteq> set (live s)" and "fst ` set img \<inter> set (blocks_of h) = {}"
proof -
  let ?all = "concat (map (blocks_of \<circ> snd) ms)"
  have acc: "accounts (live s) ?all img" and wf: "blocks_wf (live s)"
    using ok by (simp_all add: system_ok_def core_wf_def)
  have sub: "set (blocks_of h) \<subseteq> set ?all"
    using m by force
  show 1: "set (blocks_of h) \<subseteq> fst ` set (live s)"
    using sub accounts_live [OF acc] by blast
  show "NULL \<notin> set (blocks_of h)"
    using 1 blocks_wf_NULL [OF wf] by blast
  show "set img \<subseteq> set (live s)" and "fst ` set img \<inter> set (blocks_of h) = {}"
    using accounts_apart [OF acc] sub by blast+
qed

text \<open>Bytes in the blocks of a mock are outside of the frames and slots of all mocks.\<close>

lemma program_bytes_apart:
  assumes wf: "blocks_wf bs" and img: "set img \<subseteq> set bs" "(q', k') \<in> set img" "within q' k' a n"
    and q: "(q, k) \<in> set bs" "q \<notin> fst ` set img" "in_region q (unat k) x"
  shows "\<not> in_region a n x"
proof
  assume "in_region a n x"
  then have "in_region q' (unat k') x"
    by (rule within_in_region [OF img(3)])
  moreover have "q \<noteq> q'"
    using img(2) q(2) by force
  then have "separate q (unat k) q' (unat k')"
    using img(1,2) q(1) by (intro blocks_wf_separate [OF wf]) blast+
  ultimately show False
    using q(3) by (auto simp: separate_def)
qed

text \<open>The mocks of the list after the first keep living when they are spared.\<close>

lemma system_ok_spared:
  assumes ok: "system_ok E img sg s ms0" and ms: "set ms \<subseteq> set ms0"
    and spare: "\<And>sp h. (sp, h) \<in> set ms \<Longrightarrow> spares s s' (blocks_of h)"
    and heap: "heap_ok s'" and rest: "at_rest s'" and img: "set img \<subseteq> set (live s')"
  shows "\<forall>(sp, h) \<in> set ms. lives E img s' sp h"
proof (intro ballI, clarify)
  fix sp h
  assume m: "(sp, h) \<in> set ms"
  then have m0: "(sp, h) \<in> set ms0"
    using ms by blast
  have "lives E img s sp h"
    using ok m0 by (auto simp: system_ok_def)
  then show "lives E img s' sp h"
    using system_blocks [OF ok m0] heap rest img by (intro lives_spared [OF _ spare [OF m]]) simp_all
qed

lemma first_mock_apart:
  assumes ok: "system_ok E img sg s ((sp, h) # ms)" and m: "(sq, g) \<in> set ms"
  shows "set (blocks_of h) \<inter> set (blocks_of g) = {}" and "stub_trampoline (h_st g) \<noteq> stub_trampoline (h_st h)"
proof -
  let ?rest = "concat (map (blocks_of \<circ> snd) ms)"
  have "set (blocks_of h) \<inter> set ?rest = {}"
    using ok by (intro accounts_disjoint [of "live s" _ _ img]) (simp add: system_ok_def)
  moreover have "set (blocks_of g) \<subseteq> set ?rest"
    using m by force
  ultimately show apart: "set (blocks_of h) \<inter> set (blocks_of g) = {}"
    by blast
  have "stub_trampoline (h_st h) - 16 \<in> set (blocks_of h)" and "stub_trampoline (h_st g) - 16 \<in> set (blocks_of g)"
    by (simp_all add: blocks_of_def)
  then show "stub_trampoline (h_st g) \<noteq> stub_trampoline (h_st h)"
    using apart by auto
qed

lemma system_ok_separate:
  assumes "system_ok E img sg s ((sp, h) # ms)"
  obtains B where "accounts (live s) (blocks_of h) B" and "accounts B (concat (map (blocks_of \<circ> snd) ms)) img"
    and "owns s h B"
proof -
  have "accounts (live s) (blocks_of h @ concat (map (blocks_of \<circ> snd) ms)) img" and "holds s h"
    using assms by (simp_all add: system_ok_def lives_def)
  then show thesis
    using that by (auto elim: accounts_split simp: owns_def)
qed

text \<open>An event of one mock spares the others.\<close>

lemma perform_spares:
  assumes ok: "system_ok E img sg s ((sp, h) # ms)" and m: "(sq, g) \<in> set ms"
    and acc: "accounts (live s) (blocks_of h) B" and own': "owns s' h' B" and adv: "advances s s' h h'"
    and mem: "\<And>q k x. (q, k) \<in> set B \<Longrightarrow> in_region q (unat k) x \<Longrightarrow>
      \<not> in_region (fr_params (sp_fr sp)) (sizeof_params (bp_params (sp_bp sp))) x \<Longrightarrow> mem s' x = mem s x"
  shows "spares s s' (blocks_of g)"
proof -
  have m': "(sq, g) \<in> set ((sp, h) # ms)"
    using m by simp
  note b = system_blocks [OF ok m'] and apart = first_mock_apart(1) [OF ok m]
  have inB: "(q, k) \<in> set B" if "(q, k) \<in> set (live s)" "q \<in> set (blocks_of g)" for q k
    using acc that apart by (auto simp: accounts_def)
  have "mem s' x = mem s x" if q: "(q, k) \<in> set (live s)" "q \<in> set (blocks_of g)" "in_region q (unat k) x" for q k x
  proof (rule mem [OF inB [OF q(1,2)] q(3)])
    obtain q' k' where f: "(q', k') \<in> set img" "within q' k' (fr_params (sp_fr sp)) (sizeof_params (bp_params (sp_bp sp)))"
      using ok by (auto simp: system_ok_def lives_def frame_in_def)
    have "q \<notin> fst ` set img"
      using b(4) q(2) by blast
    then show "\<not> in_region (fr_params (sp_fr sp)) (sizeof_params (bp_params (sp_bp sp))) x"
      using ok by (intro program_bytes_apart [OF _ b(3) f q(1) _ q(3)]) (simp_all add: system_ok_def core_wf_def)
  qed
  moreover have "(q, k) \<in> set (live s')" if "(q, k) \<in> set (live s)" "q \<in> set (blocks_of g)" for q k
    using inB [OF that] own' accounts_apart by (auto simp: owns_def)
  moreover have "stubs s' p = stubs s p \<and> mocks s' p = mocks s p" if "p \<in> set (blocks_of g)" for p
  proof -
    have "h_mp h \<in> set (blocks_of h)"
      by (simp add: blocks_of_def)
    then have "p \<noteq> h_mp h"
      using apart that by blast
    with adv show ?thesis
      by (simp add: advances_def)
  qed
  moreover have "matchers s' p = matchers s p \<and> bindings s' p = bindings s p" if "p \<in> insert NULL (set (blocks_of g))" for p
  proof -
    have "p \<in> insert NULL (fst ` set (live s))"
      using b(1) that by blast
    with adv show ?thesis
      unfolding advances_def by blast
  qed
  ultimately show ?thesis
    by (rule sparesI)
qed

text \<open>What has to be shown of the state after a step of the first mock.\<close>

lemma system_okI:
  assumes "core_wf E s" and "at_rest s" and "accounts (live s) (blocks_of h @ concat (map (blocks_of \<circ> snd) ms)) img"
    and "lives E img s sp h" and "\<forall>(sq, g) \<in> set ms. lives E img s sq g"
    and "\<And>u sq. u \<noteq> stub_trampoline (h_st h) \<Longrightarrow>
      sg u = Some sq \<longleftrightarrow> (\<exists>g. (sq, g) \<in> set ms \<and> stub_trampoline (h_st g) = u)"
    and "sg (stub_trampoline (h_st h)) = Some sp"
    and "\<And>sq g. (sq, g) \<in> set ms \<Longrightarrow> stub_trampoline (h_st g) \<noteq> stub_trampoline (h_st h)"
    and "dom (matchers s) \<subseteq> fst ` set img \<union> (set (concat (h_mss h)) \<union> (\<Union>(sq, g) \<in> set ms. set (concat (h_mss g))))"
    and "dom (bindings s) \<subseteq> fst ` set img \<union> (set (h_bps h) \<union> (\<Union>(sq, g) \<in> set ms. set (h_bps g)))"
  shows "system_ok E img sg s ((sp, h) # ms)"
proof -
  have "sg u = Some sq \<longleftrightarrow> (\<exists>g. (sq, g) \<in> set ((sp, h) # ms) \<and> stub_trampoline (h_st g) = u)" for u sq
    using assms(6-8) by (cases "u = stub_trampoline (h_st h)") auto
  then show ?thesis
    using assms by (simp add: system_ok_def at_rest_def)
qed

lemma system_ok_perform:
  assumes ok: "system_ok E img sg s ((sp, h) # ms)" and t: "stub_trampoline (h_st h) = t"
    and e: "event_ok (sp_bp sp) e" and fits: "log_fits (sp_bp sp) (sp_hist sp @ spec_history [e])"
    and run: "perform E P (sp_bp sp) (sp_fr sp) s t e = Inr (r, s')"
  shows "\<exists>h'. system_ok E img (sg(t \<mapsto> after e sp)) s' ((after e sp, h') # ms)"
    and "r = spec_value P (sp_bp sp) (mem s') (sp_hist sp) (sp_cs sp) e"
proof -
  have l: "lives E img s sp h"
    using ok by (simp add: system_ok_def)
  then have set: "setting_ok E (sp_bp sp)" and cs: "no_calls (sp_cs sp)" and h: "holds s h"
    and inv: "mock_inv E (sp_bp sp) (sp_fr sp) s (h_stub h) (h_mp h) (sp_hist sp) (sp_cs sp)"
    by (simp_all add: lives_def)
  have tr: "trampoline_of s (h_stub h) = t"
    using h t by (simp add: holds_def trampoline_of_def)
  note R = perform_refines [OF set inv cs fits e run [folded tr]]
  show "r = spec_value P (sp_bp sp) (mem s') (sp_hist sp) (sp_cs sp) e"
    using R by blast
  obtain B where acc: "accounts (live s) (blocks_of h) B" and B: "accounts B (concat (map (blocks_of \<circ> snd) ms)) img"
    and own: "owns s h B"
    by (rule system_ok_separate [OF ok])
  note O = perform_owns [OF set inv cs fits e run [folded tr] own refl refl]
  obtain h' where own': "owns s' h' B" and adv: "advances s s' h h'"
    using O(1) by blast
  have heap: "heap_ok s'" and rest: "at_rest s'"
    using R by (simp_all add: mock_inv_def)
  have all: "accounts (live s') (blocks_of h' @ concat (map (blocks_of \<circ> snd) ms)) img"
    using own' B by (auto simp: owns_def intro: accounts_join)
  have others: "\<forall>(sq, g) \<in> set ms. lives E img s' sq g"
    using accounts_apart [OF all] perform_spares [OF ok _ acc own' adv O(2)] heap rest
    by (intro system_ok_spared [OF ok]) auto
  have st: "h_stub h' = h_stub h" "h_mp h' = h_mp h" "h_st h' = h_st h"
    using adv by (simp_all add: advances_def)
  have "system_ok E img (sg(t \<mapsto> after e sp)) s' ((after e sp, h') # ms)"
  proof (rule system_okI [OF _ rest all _ others])
    show "core_wf E s'"
      using ok adv heap by (simp add: system_ok_def core_wf_def advances_def heap_ok_def)
    show "lives E img s' (after e sp) h'"
      using R l own' by (simp add: lives_def after_def owns_def st)
    have d: "dom (matchers s) \<subseteq> fst ` set img \<union> (set (concat (h_mss h)) \<union> (\<Union>(sq, g) \<in> set ms. set (concat (h_mss g))))"
      "dom (bindings s) \<subseteq> fst ` set img \<union> (set (h_bps h) \<union> (\<Union>(sq, g) \<in> set ms. set (h_bps g)))"
      using ok by (simp_all add: system_ok_def)
    show "dom (matchers s') \<subseteq> fst ` set img \<union> (set (concat (h_mss h')) \<union> (\<Union>(sq, g) \<in> set ms. set (concat (h_mss g))))"
      using adv d(1) unfolding advances_def by blast
    show "dom (bindings s') \<subseteq> fst ` set img \<union> (set (h_bps h') \<union> (\<Union>(sq, g) \<in> set ms. set (h_bps g)))"
      using adv d(2) unfolding advances_def by blast
  qed (use ok st t first_mock_apart(2) [OF ok] in \<open>auto simp: system_ok_def\<close>)
  then show "\<exists>h'. system_ok E img (sg(t \<mapsto> after e sp)) s' ((after e sp, h') # ms)" ..
qed

text \<open>Outside of its new blocks, a creation writes the slots only.\<close>

lemma slot_bytes_apart:
  assumes wf: "blocks_wf bs" and img: "set img \<subseteq> set bs" and slots: "slots_in img as"
    and q: "(q, k) \<in> set bs" "q \<notin> fst ` set img" "in_region q (unat k) x" and a: "a \<in> set as"
  shows "\<not> in_region a 8 x"
proof -
  obtain q' k' where "(q', k') \<in> set img" "within q' k' a 8"
    using slots a by (auto simp: slots_in_def)
  then show ?thesis
    by (rule program_bytes_apart [OF wf img _ _ q])
qed

lemma slots_okI: "slots_apart as \<Longrightarrow> slots_in img as \<Longrightarrow> set img \<subseteq> set bs \<Longrightarrow> slots_ok bs as"
  unfolding slots_ok_def slots_in_def by blast

lemma system_quiet:
  assumes ok: "system_ok E img sg s ms" and fr: "frame_in img bp fr"
  shows "quiet bp fr s"
proof -
  have acc: "accounts (live s) (concat (map (blocks_of \<circ> snd) ms)) img"
    using ok by (simp add: system_ok_def)
  have img: "set img \<subseteq> set (live s)"
    using accounts_apart [OF acc] by blast
  have "set (concat (h_mss h)) \<union> set (h_bps h) \<subseteq> fst ` set (live s)" if "(sp, h) \<in> set ms" for sp h
    using system_blocks(1) [OF ok that] by (simp add: blocks_of_def)
  then have "dom (matchers s) \<subseteq> fst ` set (live s)" and "dom (bindings s) \<subseteq> fst ` set (live s)"
    using ok image_mono [OF img, of fst] unfolding system_ok_def by blast+
  then show ?thesis
    using ok fr img by (auto simp: quiet_def matchers_live_def system_ok_def frame_in_def)
qed

lemma create_spares:
  assumes ok: "system_ok E img sg s ms" and m: "(sq, g) \<in> set ms" and own: "owns s' h (live s)"
    and slots: "slots_in img (slots (stub_offsets (h_st h)))"
    and un: "\<forall>(q, k) \<in> set (live s). \<forall>x. in_region q (unat k) x \<longrightarrow> unpatch (mem s') (stub_offsets (h_st h)) x = mem s x"
    and objs: "\<forall>p. p \<noteq> h_stub h \<longrightarrow> stubs s' p = stubs s p" "\<forall>p. p \<noteq> h_mp h \<longrightarrow> mocks s' p = mocks s p"
      "matchers s' = matchers s" "bindings s' = bindings s"
  shows "spares s s' (blocks_of g)"
proof -
  note b = system_blocks [OF ok m]
  have acc: "accounts (live s') (blocks_of h) (live s)"
    using own by (simp add: owns_def)
  note new = accounts_apart [OF acc]
  have "mem s' x = mem s x" if q: "(q, k) \<in> set (live s)" "q \<in> set (blocks_of g)" "in_region q (unat k) x" for q k x
  proof -
    have "q \<notin> fst ` set img"
      using b(4) q(2) by blast
    then have "\<forall>a \<in> set (slots (stub_offsets (h_st h))). \<not> in_region a 8 x"
      using ok slot_bytes_apart [OF _ b(3) slots q(1) _ q(3)] by (simp add: system_ok_def core_wf_def)
    then have "unpatch (mem s') (stub_offsets (h_st h)) x = mem s' x"
      by (rule unpatch_outside)
    moreover have "unpatch (mem s') (stub_offsets (h_st h)) x = mem s x"
      using un q(1,3) by blast
    ultimately show ?thesis
      by simp
  qed
  moreover have "(q, k) \<in> set (live s')" if "(q, k) \<in> set (live s)" for q k
    using new that by blast
  moreover have "p \<noteq> h_stub h" "p \<noteq> h_mp h" if "p \<in> set (blocks_of g)" for p
  proof -
    have "h_stub h \<in> set (blocks_of h)" and "h_mp h \<in> set (blocks_of h)"
      by (simp_all add: blocks_of_def)
    then show "p \<noteq> h_stub h" "p \<noteq> h_mp h"
      using that new b(1) by blast+
  qed
  ultimately show ?thesis
    using objs by (intro sparesI) simp_all
qed

lemma system_ok_create:
  assumes lib: "library_ok E" and ok: "system_ok E img sg s ms" and bp: "list_all ctype_ok (bp_params bp)"
    and fr: "frame_in img bp fr" and self: "self_target target" and init: "mmk_init E s = Inr s1"
    and slots: "target_slots s1 target = Some as" "slots_apart as" "slots_in img as"
    and run: "mmk_mock_create_internal E s target (bp_stub bp) noabort = Inr (t, s')" and t: "t \<noteq> NULL"
  shows "\<exists>h. system_ok E img (sg(t \<mapsto> fresh_spec bp fr)) s' ((fresh_spec bp fr, h) # ms)"
proof -
  have set: "setting_ok E bp" and wf: "core_wf E s"
    and acc: "accounts (live s) (concat (map (blocks_of \<circ> snd) ms)) img"
    using lib bp ok by (simp_all add: setting_ok_def library_ok_def system_ok_def)
  have img: "set img \<subseteq> set (live s)"
    using accounts_apart [OF acc] by blast
  obtain h where h: "trampoline_of s' (h_stub h) = t" "mock_inv E bp fr s' (h_stub h) (h_mp h) [] []"
    and own: "owns s' h (live s)" and as: "slots (stub_offsets (h_st h)) = as" "h_bps h = []" "h_mss h = []"
    and un: "\<forall>(q, k) \<in> set (live s). \<forall>x. in_region q (unat k) x \<longrightarrow> unpatch (mem s') (stub_offsets (h_st h)) x = mem s x"
    and objs: "\<forall>p. p \<noteq> h_stub h \<longrightarrow> stubs s' p = stubs s p" "\<forall>p. p \<noteq> h_mp h \<longrightarrow> mocks s' p = mocks s p"
      "matchers s' = matchers s" "bindings s' = bindings s" and wf': "core_wf E s'"
    using mock_create_owns [OF set wf system_quiet [OF ok fr] init slots(1) slots_okI [OF slots(2,3) img] self run t] by blast
  have holds: "holds s' h" and new: "accounts (live s') (blocks_of h) (live s)"
    using own by (simp_all add: owns_def)
  have ht: "stub_trampoline (h_st h) = t"
    using h(1) holds by (simp add: holds_def trampoline_of_def)
  have heap: "heap_ok s'" and rest: "at_rest s'"
    using h(2) by (simp_all add: mock_inv_def)
  have all: "accounts (live s') (blocks_of h @ concat (map (blocks_of \<circ> snd) ms)) img"
    by (rule accounts_join [OF new acc])
  have si: "slots_in img (slots (stub_offsets (h_st h)))"
    using slots(3) as by simp
  have "system_ok E img (sg(t \<mapsto> fresh_spec bp fr)) s' ((fresh_spec bp fr, h) # ms)"
  proof (rule system_okI [OF wf' rest all])
    show "lives E img s' (fresh_spec bp fr) h"
      using set fr si holds h(2) by (simp add: lives_def fresh_spec_def no_calls_def)
    show "\<forall>(sq, g) \<in> set ms. lives E img s' sq g"
      using create_spares [OF ok _ own si un objs] heap rest accounts_apart [OF all]
      by (intro system_ok_spared [OF ok]) auto
    show "stub_trampoline (h_st g) \<noteq> stub_trampoline (h_st h)" if m: "(sq, g) \<in> set ms" for sq g
    proof
      assume "stub_trampoline (h_st g) = stub_trampoline (h_st h)"
      then have "stub_trampoline (h_st h) - 16 \<in> set (blocks_of g)" and "stub_trampoline (h_st h) - 16 \<in> set (blocks_of h)"
        by (simp_all add: blocks_of_def)
      then show False
        using system_blocks(1) [OF ok m] accounts_apart [OF new] by blast
    qed
  qed (use ok objs as ht in \<open>auto simp: system_ok_def\<close>)
  then show ?thesis ..
qed

lemma reset_spares:
  assumes ok: "system_ok E img sg s ((sp, h) # ms)" and m: "(sq, g) \<in> set ms"
    and acc: "accounts (live s) (blocks_of h) B"
    and s': "s' = s\<lparr>ask_ctx := 0, mmk_ctx_var := h_stub h, mem := unpatch (mem s) (stub_offsets (h_st h)), live := B,
      stubs := (stubs s)(h_stub h := None), matchers := matchers s |` (- set (concat (h_mss h))),
      bindings := bindings s |` (- set (h_bps h)), mocks := (mocks s)(h_mp h := None)\<rparr>"
  shows "spares s s' (blocks_of g)"
proof -
  have m': "(sq, g) \<in> set ((sp, h) # ms)" and mh: "(sp, h) \<in> set ((sp, h) # ms)"
    using m by simp_all
  note b = system_blocks [OF ok m'] and apart = first_mock_apart(1) [OF ok m]
  have "mem s' x = mem s x" if q: "(q, k) \<in> set (live s)" "q \<in> set (blocks_of g)" "in_region q (unat k) x" for q k x
  proof -
    have "q \<notin> fst ` set img" and "slots_in img (slots (stub_offsets (h_st h)))"
      using b(4) q(2) ok by (blast, simp add: system_ok_def lives_def)
    then have "\<forall>a \<in> set (slots (stub_offsets (h_st h))). \<not> in_region a 8 x"
      using ok slot_bytes_apart [OF _ b(3) _ q(1) _ q(3)] by (simp add: system_ok_def core_wf_def)
    then show ?thesis
      by (simp add: s' unpatch_outside)
  qed
  moreover have "(q, k) \<in> set (live s')" if "(q, k) \<in> set (live s)" "q \<in> set (blocks_of g)" for q k
    using acc that apart by (auto simp: accounts_def s')
  moreover have "p \<noteq> h_stub h \<and> p \<noteq> h_mp h" if "p \<in> set (blocks_of g)" for p
    using apart that by (auto simp: blocks_of_def)
  moreover have "p \<notin> set (concat (h_mss h)) \<and> p \<notin> set (h_bps h)" if "p \<in> insert NULL (set (blocks_of g))" for p
  proof -
    have "p \<notin> set (blocks_of h)"
      using that apart system_blocks(2) [OF ok mh] by blast
    then show ?thesis
      by (simp add: blocks_of_def)
  qed
  ultimately show ?thesis
    by (intro sparesI) (simp_all add: s')
qed

lemma blocks_wf_filter: "blocks_wf bs \<Longrightarrow> blocks_wf (filter P bs)"
  by (induction bs) (auto simp: fresh_block_def)

lemma system_ok_reset:
  assumes ok: "system_ok E img sg s ((sp, h) # ms)" and t: "stub_trampoline (h_st h) = t"
    and run: "mmk_reset E s t = Inr s'"
  shows "system_ok E img (sg(t := None)) s' ms"
proof -
  have l: "lives E img s sp h"
    using ok by (simp add: system_ok_def)
  then have inv: "mock_inv E (sp_bp sp) (sp_fr sp) s (h_stub h) (h_mp h) (sp_hist sp) (sp_cs sp)" and h: "holds s h"
    by (simp_all add: lives_def)
  have tr: "trampoline_of s (h_stub h) = t"
    using h t by (simp add: holds_def trampoline_of_def)
  obtain B where acc: "accounts (live s) (blocks_of h) B" and B: "accounts B (concat (map (blocks_of \<circ> snd) ms)) img"
    and own: "owns s h B"
    by (rule system_ok_separate [OF ok])
  have s': "s' = s\<lparr>ask_ctx := 0, mmk_ctx_var := h_stub h, mem := unpatch (mem s) (stub_offsets (h_st h)), live := B,
      stubs := (stubs s)(h_stub h := None), matchers := matchers s |` (- set (concat (h_mss h))),
      bindings := bindings s |` (- set (h_bps h)), mocks := (mocks s)(h_mp h := None)\<rparr>"
    using mmk_reset_owned [OF inv own refl refl] run by (simp add: tr)
  have B': "accounts (live s') (concat (map (blocks_of \<circ> snd) ms)) img" and "blocks_wf B"
    using B acc inv by (simp_all add: s' accounts_def mock_inv_def heap_ok_def blocks_wf_filter)
  have d: "dom (matchers s') \<subseteq> fst ` set img \<union> (\<Union>(sq, g) \<in> set ms. set (concat (h_mss g)))"
    "dom (bindings s') \<subseteq> fst ` set img \<union> (\<Union>(sq, g) \<in> set ms. set (h_bps g))"
    using ok by (auto simp: s' system_ok_def)
  have sub: "set (concat (h_mss g)) \<union> set (h_bps g) \<subseteq> fst ` set B" if "(sq, g) \<in> set ms" for sq g
  proof -
    have "set (concat (h_mss g)) \<union> set (h_bps g) \<subseteq> set (concat (map (blocks_of \<circ> snd) ms))"
      using that by (force simp: blocks_of_def)
    then show ?thesis
      using accounts_live [OF B] by blast
  qed
  have img: "set img \<subseteq> set B"
    using accounts_apart [OF B] by blast
  have "dom (matchers s') \<subseteq> fst ` set B" and "dom (bindings s') \<subseteq> fst ` set B"
    using d sub image_mono [OF img, of fst] by blast+
  then have heap: "heap_ok s'" and rest: "at_rest s'"
    using inv \<open>blocks_wf B\<close> by (simp_all add: s' mock_inv_def heap_ok_def at_rest_def matchers_live_def)
  have "\<forall>(sq, g) \<in> set ms. lives E img s' sq g"
    using reset_spares [OF ok _ acc s'] heap rest img by (intro system_ok_spared [OF ok]) (auto simp: s')
  moreover have "core_wf E s'"
    using ok heap by (simp add: s' system_ok_def core_wf_def heap_ok_def)
  moreover have "(sg(t := None)) u = Some sq \<longleftrightarrow> (\<exists>g. (sq, g) \<in> set ms \<and> stub_trampoline (h_st g) = u)" for u sq
    using ok t first_mock_apart(2) [OF ok] by (auto simp: system_ok_def split: if_splits)
  ultimately show ?thesis
    using B' d rest by (simp add: system_ok_def at_rest_def)
qed

section \<open>Runs\<close>

text \<open>What an action does to the specification.\<close>

primrec spec_step :: "action \<Rightarrow> (addr \<rightharpoonup> mock_spec) \<Rightarrow> (addr \<rightharpoonup> mock_spec)" where
  "spec_step (Creates target bp fr t) sg = sg(t \<mapsto> fresh_spec bp fr)"
| "spec_step (Performs t e r) sg = sg(t := map_option (after e) (sg t))"
| "spec_step (Resets t) sg = sg(t := None)"

lemma acts_spec: "acts E P img z a z' \<Longrightarrow> fst z' = spec_step a (fst z)"
  by (cases rule: acts.cases) auto

lemma runs_spec: "runs E P img s0 as z \<Longrightarrow> fst z = fold spec_step as Map.empty"
proof (induction rule: runs.induct)
  case (step as z a z')
  then show ?case
    using acts_spec [OF step.hyps(2)] by simp
qed simp

lemma begins_system_ok: "begins E img s \<Longrightarrow> system_ok E img Map.empty s []"
  by (auto simp: begins_def system_ok_def accounts_Nil matchers_live_def)

lemma acts_system_ok:
  assumes lib: "library_ok E" and act: "acts E P img z a z'" and ok: "system_ok E img (fst z) (snd z) ms"
  shows "\<exists>ms'. system_ok E img (fst z') (snd z') ms'"
  using act
proof cases
  case (creates bp fr target s s1 as noabort t s' sg)
  with ok show ?thesis
    using system_ok_create [OF lib, of img sg s ms bp fr target s1 as noabort t s'] by auto
next
  case (performs sg t sp e s r s')
  with ok obtain h ms' where "system_ok E img sg s ((sp, h) # ms')" and "stub_trampoline (h_st h) = t"
    by (auto elim: system_ok_first)
  from system_ok_perform(1) [OF this performs(5,6,7)] performs show ?thesis
    by auto
next
  case (resets sg t sp s s')
  with ok obtain h ms' where "system_ok E img sg s ((sp, h) # ms')" and "stub_trampoline (h_st h) = t"
    by (auto elim: system_ok_first)
  from system_ok_reset [OF this] resets show ?thesis
    by auto
qed

lemma runs_system_ok:
  assumes lib: "library_ok E" and s0: "begins E img s0" and run: "runs E P img s0 as z"
  shows "\<exists>ms. system_ok E img (fst z) (snd z) ms"
  using run
proof (induction rule: runs.induct)
  case start
  then show ?case
    using begins_system_ok [OF s0] by auto
next
  case (step as z a z')
  then show ?case
    using acts_system_ok [OF lib] by blast
qed

lemma system_reset_returns:
  assumes ok: "system_ok E img sg s ms" and t: "sg t = Some sp"
  shows "\<exists>s'. mmk_reset E s t = Inr s'"
proof -
  obtain h ms' where first: "system_ok E img sg s ((sp, h) # ms')" and h: "stub_trampoline (h_st h) = t"
    by (rule system_ok_first [OF ok t])
  then obtain B where own: "owns s h B"
    by (auto elim: system_ok_separate)
  have inv: "mock_inv E (sp_bp sp) (sp_fr sp) s (h_stub h) (h_mp h) (sp_hist sp) (sp_cs sp)"
    using first by (simp add: system_ok_def lives_def)
  have "trampoline_of s (h_stub h) = t"
    using own h by (simp add: owns_def holds_def trampoline_of_def)
  with mmk_reset_owned [OF inv own refl refl] show ?thesis
    by auto
qed

lemma system_empty:
  assumes "system_ok E img Map.empty s ms"
  shows "live s = img"
proof -
  have "ms = []"
  proof (rule ccontr)
    assume "ms \<noteq> []"
    then obtain sp h where "(sp, h) \<in> set ms"
      by (cases ms) auto
    moreover have "\<not> (\<exists>h. (sp, h) \<in> set ms \<and> stub_trampoline (h_st h) = t)" for t sp
      using assms by (simp add: system_ok_def)
    ultimately show False
      by blast
  qed
  with assms show ?thesis
    by (simp add: system_ok_def accounts_Nil)
qed

text \<open>The values of the events, and what is left at the end.\<close>

lemma runs_refine:
  assumes lib: "library_ok E" and s0: "begins E img s0" and run: "runs E P img s0 as (sg, s)"
    and act: "acts E P img (sg, s) (Performs t e r) (sg', s')"
  shows "\<exists>sp. fold spec_step as Map.empty t = Some sp \<and>
    r = spec_value P (sp_bp sp) (mem s') (sp_hist sp) (sp_cs sp) e"
  using act
proof (rule acts_Performs)
  fix sp s''
  assume z: "(sg', s') = (sg(t \<mapsto> after e sp), s'')" and t: "sg t = Some sp" and e: "event_ok (sp_bp sp) e"
    and fits: "log_fits (sp_bp sp) (sp_hist sp @ spec_history [e])"
    and p: "perform E P (sp_bp sp) (sp_fr sp) s t e = Inr (r, s'')"
  obtain ms where "system_ok E img sg s ms"
    using runs_system_ok [OF lib s0 run] by auto
  then obtain h ms' where "system_ok E img sg s ((sp, h) # ms')" and "stub_trampoline (h_st h) = t"
    using t by (rule system_ok_first)
  from system_ok_perform(2) [OF this e fits p] t z runs_spec [OF run] show ?thesis
    by auto
qed

end
