(* ===== verification/System_Properties.thy ===== *)
theory System_Properties
  imports Mock_System Mock_Demo
begin

text \<open>
  The property of a process with several mocks, and its witness: two mocks of the function \<open>f\<close> in the process of theory
  \<open>Demo\<close>, of which one is called and the other is verified.
\<close>

text \<open>C2: mocks are independent. In every process that the library can be brought into by creating, using and resetting mocks in
  any order, an event gives the value that the specification of its mock computes from the actions on this mock alone; every
  mock that is left can be reset; and when none is left, the live blocks are those of the program.\<close>

theorem mocks_are_independent:
  assumes "library_ok E" and "begins E img s0" and "runs E P img s0 as (sg, s)"
  shows "(acts E P img (sg, s) (Performs t e r) (sg', s') \<longrightarrow>
      (\<exists>sp. fold spec_step as Map.empty t = Some sp \<and>
        r = spec_value P (sp_bp sp) (mem s') (sp_hist sp) (sp_cs sp) e)) \<and>
    (fold spec_step as Map.empty t \<noteq> None \<longrightarrow> (\<exists>s'. mmk_reset E s t = Inr s')) \<and>
    (fold spec_step as Map.empty = Map.empty \<longrightarrow> live s = img)"
proof -
  obtain ms where ok: "system_ok E img sg s ms"
    using runs_system_ok [OF assms] by auto
  have sg: "sg = fold spec_step as Map.empty"
    using runs_spec [OF assms(3)] by simp
  show ?thesis
    using runs_refine [OF assms] system_reset_returns [OF ok] system_empty [of E img s ms] ok sg by auto
qed

section \<open>Two mocks of one function\<close>

text \<open>The state after the first creation, in which the second is made.\<close>

lemma demo_first_created:
  "\<exists>s. mmk_mock_create_internal demo_env demo ''f'' 0x500000 False = Inr (0x210010, s) \<and>
     live s = [(0x210000, 0x1000), (0x110000, 16), (0x40000, 2), (0x30000, 80), (0x10000, 40), (0x400000, 0x1000),
       (0x7f0000, 0x1000)] \<and>
     mocks s = [0x10000 \<mapsto> \<lparr>mk_params = NULL, mk_stubs = 0x30000, mk_call_data = NULL,
       mk_call_data_top = 0, mk_call_data_size = 0\<rparr>] \<and>
     initialized s = 1 \<and> plt s = demo_ctx \<and> vit s = demo_vitals \<and>
     mem s = st64 (wr (st64 (st64 demo_mem 0x210000 0x30000) 0x210008 0x500000) 0x210010 [0xe8, 0, 0, 0, 0]) 0x4001f8 0x210010"
  by (simp add: mmk_mock_create_internal_def mmk_stub_create_def mmk_init_def mmk_malloc_def Let_def
      demo_mock_allocations mmk_stub_create_static_def split_target_def mmk_plt_ctx_def plt_get_lib_def
      plt_get_offsets_def demo_find_slots [unfolded demo_ctx_def nth_Cons_0] demo_ctx_def realloc_block_def
      create_trampoline_def PAGE_SIZE_def sys_mmap_def mmk_mprotect_def mmk_free_def)

lemma demo_second_allocations:
  "libc_malloc demo_libc [(0x210000, 0x1000), (0x110000, 16), (0x40000, 2), (0x30000, 80), (0x10000, 40),
     (0x400000, 0x1000), (0x7f0000, 0x1000)] 40 = 0x20000"
  "libc_malloc demo_libc [(0x20000, 40), (0x210000, 0x1000), (0x110000, 16), (0x40000, 2), (0x30000, 80), (0x10000, 40),
     (0x400000, 0x1000), (0x7f0000, 0x1000)] 2 = 0x50000"
  "libc_malloc demo_libc [(0x50000, 2), (0x20000, 40), (0x210000, 0x1000), (0x110000, 16), (0x40000, 2), (0x30000, 80),
     (0x10000, 40), (0x400000, 0x1000), (0x7f0000, 0x1000)] 80 = 0x60000"
  "libc_malloc demo_libc [(0x60000, 80), (0x50000, 2), (0x20000, 40), (0x210000, 0x1000), (0x110000, 16), (0x40000, 2),
     (0x30000, 80), (0x10000, 40), (0x400000, 0x1000), (0x7f0000, 0x1000)] 2 = 0x70000"
  "libc_realloc demo_libc [(0x70000, 2), (0x60000, 80), (0x50000, 2), (0x20000, 40), (0x210000, 0x1000), (0x110000, 16),
     (0x40000, 2), (0x30000, 80), (0x10000, 40), (0x400000, 0x1000), (0x7f0000, 0x1000)] NULL 16 = 0x120000"
  "libc_mmap demo_libc [(0x120000, 16), (0x70000, 2), (0x60000, 80), (0x50000, 2), (0x20000, 40), (0x210000, 0x1000),
     (0x110000, 16), (0x40000, 2), (0x30000, 80), (0x10000, 40), (0x400000, 0x1000), (0x7f0000, 0x1000)] 0x1000 = 0x220000"
  by (simp_all add: demo_allocations)

text \<open>The blocks of the two mocks and of the program.\<close>

definition two_mocks :: blocks where
  "two_mocks = [(0x220000, 0x1000), (0x120000, 16), (0x70000, 2), (0x60000, 80), (0x20000, 40), (0x210000, 0x1000),
     (0x110000, 16), (0x40000, 2), (0x30000, 80), (0x10000, 40), (0x400000, 0x1000), (0x7f0000, 0x1000)]"

lemma two_mocks_allocations:
  "libc_malloc demo_libc two_mocks 4096 = 0x50000"
  "libc_malloc demo_libc ((0x50000, 4096) # two_mocks) 32 = 0x80000"
  "libc_malloc demo_libc ((0x80000, 32) # (0x50000, 4096) # two_mocks) 32 = 0x90000"
  by (simp_all add: demo_allocations two_mocks_def)

lemma demo_second_created:
  obtains s0 s where "mmk_mock_create_internal demo_env demo ''f'' 0x500000 False = Inr (0x210010, s0)"
    and "mmk_init demo_env s0 = Inr s0" and "target_slots s0 ''f'' = Some [0x4001f8]"
    and "mmk_mock_create_internal demo_env s0 ''f'' 0x500000 False = Inr (0x220010, s)"
    and "live s = two_mocks" and "\<forall>p mk. mocks s p = Some mk \<longrightarrow> mk_call_data mk = NULL"
proof -
  obtain s0 where c0: "mmk_mock_create_internal demo_env demo ''f'' 0x500000 False = Inr (0x210010, s0)"
    and s0: "live s0 = [(0x210000, 0x1000), (0x110000, 16), (0x40000, 2), (0x30000, 80), (0x10000, 40), (0x400000, 0x1000),
       (0x7f0000, 0x1000)]" "mocks s0 = [0x10000 \<mapsto> \<lparr>mk_params = NULL, mk_stubs = 0x30000, mk_call_data = NULL,
       mk_call_data_top = 0, mk_call_data_size = 0\<rparr>]" "initialized s0 = 1" "plt s0 = demo_ctx" "vit s0 = demo_vitals"
    and m: "mem s0 = st64 (wr (st64 (st64 demo_mem 0x210000 0x30000) 0x210008 0x500000) 0x210010 [0xe8, 0, 0, 0, 0])
      0x4001f8 0x210010"
    using demo_first_created by blast
  have "mem s0 x = demo_mem x" if "in_region 0x400000 0x1f8 x" for x
  proof -
    have n: "\<not> in_region 0x4001f8 8 x" "\<not> in_region 0x210010 5 x" "\<not> in_region 0x210008 8 x" "\<not> in_region 0x210000 8 x"
      using that separate_iff [of "0x400000" "0x1f8" "0x4001f8" 8] separate_iff [of "0x400000" "0x1f8" "0x210010" 5]
        separate_iff [of "0x400000" "0x1f8" "0x210008" 8] separate_iff [of "0x400000" "0x1f8" "0x210000" 8]
      by (auto simp: separate_def)
    have len: "length [0xe8 :: byte, 0, 0, 0, 0] = 5"
      by simp
    have "wr m' 0x210010 [0xe8, 0, 0, 0, 0] x = m' x" for m'
      by (rule wr_outside) (simp, simp only: len n(2) not_False_eq_True)
    then show ?thesis
      by (simp add: m st64_outside n del: wr.simps)
  qed
  then have slots: "find_slots (mem s0) (demo_ctx ! 0) ''f'' = Some [0x4001f8]"
    by (rule demo_slots_kept)
  then have ts: "target_slots s0 ''f'' = Some [0x4001f8]"
    using s0 by (simp add: target_slots_def split_target_def plt_get_lib_def demo_ctx_def)
  have "\<exists>s. mmk_mock_create_internal demo_env s0 ''f'' 0x500000 False = Inr (0x220010, s) \<and> live s = two_mocks \<and>
      (\<forall>p mk. mocks s p = Some mk \<longrightarrow> mk_call_data mk = NULL)"
    using slots [unfolded demo_ctx_def nth_Cons_0]
    by (simp add: mmk_mock_create_internal_def mmk_stub_create_def mmk_init_def mmk_malloc_def Let_def s0
        demo_second_allocations mmk_stub_create_static_def split_target_def mmk_plt_ctx_def plt_get_lib_def
        plt_get_offsets_def demo_ctx_def realloc_block_def two_mocks_def
        create_trampoline_def PAGE_SIZE_def sys_mmap_def mmk_mprotect_def mmk_free_def)
  then obtain s where s: "mmk_mock_create_internal demo_env s0 ''f'' 0x500000 False = Inr (0x220010, s)" "live s = two_mocks"
    "\<forall>p mk. mocks s p = Some mk \<longrightarrow> mk_call_data mk = NULL"
    by blast
  have "mmk_init demo_env s0 = Inr s0"
    using s0 by (simp add: mmk_init_def)
  from that [OF c0 this ts s] show thesis .
qed

section \<open>A run of two mocks\<close>

definition two_created :: "action list" where
  "two_created = [Creates ''f'' demo_blueprint demo_frame 0x210010, Creates ''f'' demo_blueprint demo_frame 0x220010]"

definition two_specs :: "addr \<rightharpoonup> mock_spec" where
  "two_specs = [0x210010 \<mapsto> fresh_spec demo_blueprint demo_frame, 0x220010 \<mapsto> fresh_spec demo_blueprint demo_frame]"

lemma demo_library: "library_ok demo_env"
  by (simp add: library_ok_def demo_libc_ok PAGE_SIZE_def)

lemma demo_begins: "begins demo_env (live demo) demo"
  by (simp add: begins_def demo_wf matchers_live_def)

lemma demo_creates:
  assumes "mmk_init demo_env s = Inr s" and "target_slots s ''f'' = Some [0x4001f8]"
    and "mmk_mock_create_internal demo_env s ''f'' 0x500000 False = Inr (t, s')" and "t \<noteq> NULL"
  shows "acts demo_env P (live demo) (sg, s) (Creates ''f'' demo_blueprint demo_frame t)
    (sg(t \<mapsto> fresh_spec demo_blueprint demo_frame), s')"
proof -
  have "frame_in (live demo) demo_blueprint demo_frame" and "slots_in (live demo) [0x4001f8]" and "slots_apart [0x4001f8]"
    by (simp_all add: frame_in_def slots_in_def within_def)
  then show ?thesis
    using assms by (intro creates) (simp_all add: ctype_ok_def self_target_def)
qed

lemma two_created_runs:
  obtains s where "runs demo_env P (live demo) demo two_created (two_specs, s)"
    and "live s = two_mocks" and "\<forall>p mk. mocks s p = Some mk \<longrightarrow> mk_call_data mk = NULL"
proof -
  obtain s0 s where c0: "mmk_mock_create_internal demo_env demo ''f'' 0x500000 False = Inr (0x210010, s0)"
    and i: "mmk_init demo_env s0 = Inr s0" "target_slots s0 ''f'' = Some [0x4001f8]"
    and c: "mmk_mock_create_internal demo_env s0 ''f'' 0x500000 False = Inr (0x220010, s)"
    and s: "live s = two_mocks" "\<forall>p mk. mocks s p = Some mk \<longrightarrow> mk_call_data mk = NULL"
    by (rule demo_second_created)
  have "acts demo_env P (live demo) (Map.empty, demo) (Creates ''f'' demo_blueprint demo_frame 0x210010)
      ([0x210010 \<mapsto> fresh_spec demo_blueprint demo_frame], s0)"
    by (rule demo_creates [OF _ demo_target_slots c0]) (simp_all add: mmk_init_def)
  moreover have "acts demo_env P (live demo) ([0x210010 \<mapsto> fresh_spec demo_blueprint demo_frame], s0)
      (Creates ''f'' demo_blueprint demo_frame 0x220010) (two_specs, s)"
    unfolding two_specs_def by (rule demo_creates [OF i c]) simp
  from runs.step [OF runs.step [OF runs.start calculation] this]
  have "runs demo_env P (live demo) demo (([] @ [Creates ''f'' demo_blueprint demo_frame 0x210010]) @
      [Creates ''f'' demo_blueprint demo_frame 0x220010]) (two_specs, s)" .
  then have "runs demo_env P (live demo) demo two_created (two_specs, s)"
    by (simp add: two_created_def)
  with s that show thesis
    by blast
qed

text \<open>A call of the second mock, and a verification of the first one that nothing was called.\<close>

lemma two_mocks_used:
  obtains s r v z where
    "runs demo_env demo_program (live demo) demo (two_created @ [Performs 0x220010 (Calls [3]) r])
      (two_specs(0x220010 \<mapsto> after (Calls [3]) (fresh_spec demo_blueprint demo_frame)), s)"
    and "acts demo_env demo_program (live demo)
      (two_specs(0x220010 \<mapsto> after (Calls [3]) (fresh_spec demo_blueprint demo_frame)), s)
      (Performs 0x210010 (Checks [(MMK_MATCHER_EQ, 0, NULL)] [3] (no_keys\<lparr>vp_never := 1\<rparr>)) v) z"
proof -
  let ?f = "fresh_spec demo_blueprint demo_frame"
  have f: "sp_bp ?f = demo_blueprint" "sp_fr ?f = demo_frame" "sp_hist ?f = []" "sp_cs ?f = []"
    by (simp_all add: fresh_spec_def)
  obtain s :: mock_state where run: "runs demo_env demo_program (live demo) demo two_created (two_specs, s)"
    and live: "live s = two_mocks" and nolog: "\<forall>p mk. mocks s p = Some mk \<longrightarrow> mk_call_data mk = NULL"
    by (rule two_created_runs)
  obtain ms where "system_ok demo_env (live demo) two_specs s ms"
    using runs_system_ok [OF demo_library demo_begins run] by auto
  then obtain h ms' where ok: "system_ok demo_env (live demo) two_specs s ((?f, h) # ms')"
    and t: "stub_trampoline (h_st h) = 0x220010"
    by (rule system_ok_first [of _ _ _ _ _ "0x220010" ?f]) (simp add: two_specs_def)
  have inv: "mock_inv demo_env demo_blueprint demo_frame s (h_stub h) (h_mp h) [] []" and h: "holds s h"
    using ok by (simp_all add: system_ok_def lives_def f)
  then have tr: "trampoline_of s (h_stub h) = 0x220010" and mk: "mocks s (h_mp h) = Some (h_mk h)"
    using t by (simp_all add: holds_def trampoline_of_def)
  have room: "log_room demo_env s (h_mk h) (sizeof_params (bp_params demo_blueprint))"
    using nolog mk by (simp add: log_room_def live two_mocks_allocations)
  obtain r s1 where call: "call_mock demo_env demo_program demo_blueprint demo_frame s 0x220010 [3] = Inr (r, s1)"
    and live1: "live s1 = (0x50000, 4096) # two_mocks"
    using call_mock_returns [OF demo_setting inv mk _ _ room, of "[3]" demo_program] nolog mk
    by (auto simp: tr in_range_def log_fits_def chosen_def calls_nothing_def log_live_def live two_mocks_allocations)
  have "acts demo_env demo_program (live demo) (two_specs, s) (Performs 0x220010 (Calls [3]) r)
      (two_specs(0x220010 \<mapsto> after (Calls [3]) ?f), s1)"
    by (rule performs) (simp_all add: two_specs_def f call in_range_def log_fits_def)
  then have run1: "runs demo_env demo_program (live demo) demo (two_created @ [Performs 0x220010 (Calls [3]) r])
      (two_specs(0x220010 \<mapsto> after (Calls [3]) ?f), s1)"
    by (rule runs.step [OF run])
  let ?sg = "two_specs(0x220010 \<mapsto> after (Calls [3]) ?f)" and ?as = "[(MMK_MATCHER_EQ, 0, NULL)]"
    and ?k = "no_keys\<lparr>vp_never := 1\<rparr>"
  obtain ms1 where "system_ok demo_env (live demo) ?sg s1 ms1"
    using runs_system_ok [OF demo_library demo_begins run1] by auto
  then obtain h1 ms2 where ok1: "system_ok demo_env (live demo) ?sg s1 ((?f, h1) # ms2)"
    and t1: "stub_trampoline (h_st h1) = 0x210010"
    by (rule system_ok_first [of _ _ _ _ _ "0x210010" ?f]) (simp add: two_specs_def)
  have inv1: "mock_inv demo_env demo_blueprint demo_frame s1 (h_stub h1) (h_mp h1) [] []" and h1: "holds s1 h1"
    using ok1 by (simp_all add: system_ok_def lives_def f)
  then have tr1: "trampoline_of s1 (h_stub h1) = 0x210010"
    using t1 by (simp add: holds_def trampoline_of_def)
  obtain v s2 where v: "mmk_verify demo_env demo_program demo_blueprint demo_frame s1 0x210010 ?as [3] ?k = Inr (v, s2)"
    using mmk_verify_returns [OF demo_setting inv1, of ?as _ demo_program "[3]" ?k]
    by (auto simp: tr1 live1 two_mocks_allocations)
  have "acts demo_env demo_program (live demo) (?sg, s1) (Performs 0x210010 (Checks ?as [3] ?k) (uint v))
      (?sg(0x210010 \<mapsto> after (Checks ?as [3] ?k) ?f), s2)"
    by (rule performs) (simp_all add: two_specs_def f v log_fits_def)
  with run1 that show thesis
    by blast
qed

theorem mocks_are_independent_witness:
  "\<exists>s r sg s' sg' s''. runs demo_env demo_program (live demo) demo (two_created @ [Performs 0x220010 (Calls [3]) r]) (sg, s) \<and>
     acts demo_env demo_program (live demo) (sg, s)
       (Performs 0x210010 (Checks [(MMK_MATCHER_EQ, 0, NULL)] [3] (no_keys\<lparr>vp_never := 1\<rparr>)) 1) (sg', s') \<and>
     mmk_reset demo_env s 0x210010 = Inr s''"
proof -
  let ?e = "Checks [(MMK_MATCHER_EQ, 0, NULL)] [3] (no_keys\<lparr>vp_never := 1\<rparr>)"
    and ?f = "fresh_spec demo_blueprint demo_frame"
  obtain s :: mock_state and r v z where
    run: "runs demo_env demo_program (live demo) demo (two_created @ [Performs 0x220010 (Calls [3]) r])
      (two_specs(0x220010 \<mapsto> after (Calls [3]) ?f), s)"
    and act: "acts demo_env demo_program (live demo) (two_specs(0x220010 \<mapsto> after (Calls [3]) ?f), s)
      (Performs 0x210010 ?e v) z"
    by (rule two_mocks_used)
  obtain sg' s' where z: "z = (sg', s')"
    by (cases z)
  note ind = mocks_are_independent [OF demo_library demo_begins run, of "0x210010" ?e v sg' s']
  have spec: "fold spec_step (two_created @ [Performs 0x220010 (Calls [3]) r]) Map.empty 0x210010 = Some ?f"
    by (simp add: two_created_def)
  obtain s'' where "mmk_reset demo_env s 0x210010 = Inr s''"
    using ind spec by auto
  moreover have "v = spec_value demo_program demo_blueprint (mem s') [] [] ?e"
    using ind act spec unfolding z by (auto simp: fresh_spec_def)
  then have "v = 1"
    by (simp add: count_of_def verdict_def mmk_verify_times_def Let_def no_keys_def truth_def)
  ultimately show ?thesis
    using run act z by blast
qed

end
