(* ===== verification/Mock_Scoped.thy ===== *)
theory Mock_Scoped
  imports Mock_Session
begin

text \<open>
  Mocks of targets with a scope. For such a target \<open>mmk_mock_create_internal\<close> makes two stubs of the same mock: one for the
  slots of the object in scope, and one, linked from the first, for those of the program itself. The theory shows that the two trampolines are
  entries to one mock: it does not matter through which one a call, a \<open>mmk_when\<close> or a \<open>mmk_verify\<close> comes.
\<close>

section \<open>Entries of a mock\<close>

text \<open>\<open>enters E bp fr s mp hist cs t\<close>: the trampoline \<open>t\<close> leads to the mock.\<close>

definition enters ::
  "env \<Rightarrow> blueprint \<Rightarrow> frame \<Rightarrow> 'a mock_state_scheme \<Rightarrow> addr \<Rightarrow> int list list \<Rightarrow> contract list \<Rightarrow> addr \<Rightarrow> bool" where
  "enters E bp fr s mp hist cs t \<longleftrightarrow> (\<exists>stub. trampoline_of s stub = t \<and> mock_inv E bp fr s stub mp hist cs)"

lemma call_keeps_entry:
  assumes set: "setting_ok E bp" and inv: "mock_inv E bp fr s stub mp hist cs"
    and inv2: "mock_inv E bp fr s stub2 mp hist cs"
    and args: "list_all2 in_range (bp_params bp) args" and fits: "log_fits bp hist"
    and reg: "mmk_verify_register_call E (frame_state bp fr s stub args) (fr_params fr)
      (of_nat (sizeof_params (bp_params bp))) = Inr s2"
  shows "mock_inv E bp fr s2 stub2 mp (hist @ [args]) cs"
proof -
  obtain mk keys where mk: "mocks s mp = Some mk" and inst: "installed E s stub2 (bp_stub bp) mp"
    and log: "logged bp fr s stub2 mk keys" and heap: "heap_ok s"
    using inv2 by (auto simp: mock_inv_def)
  obtain mk' bs m where s2: "s2 = (frame_state bp fr s stub args)\<lparr>live := bs, mem := m, mocks := (mocks s)(mp \<mapsto> mk')\<rparr>"
    and kept: "bytes_kept (mk_call_data mk) (frame_state bp fr s stub args) s2"
    and inv': "mock_inv E bp fr s2 stub mp (hist @ [args]) cs"
    and fresh: "\<forall>p \<in> fst ` set (live s). p \<noteq> mk_call_data mk \<longrightarrow> p \<noteq> mk_call_data mk'"
    by (rule register_call_inv [OF set inv mk args fits reg])
  have sz: "sizeof_params (bp_params bp) < 2 ^ 64" and code: "length (trampoline_code E) + 16 \<le> unat PAGE_SIZE"
    using fits set by (simp_all add: log_fits_def setting_ok_def)
  have "installed E (frame_state bp fr s stub2 args) stub2 (bp_stub bp) mp"
    by (rule frame_stored(2) [OF set heap inst log args sz frame_state_def])
  then have inst1: "installed E (frame_state bp fr s stub args) stub2 (bp_stub bp) mp"
    by (simp add: frame_state_def installed_def is_trampoline_def cong: option.case_cong)
  have t: "trampoline_of s2 stub2 = trampoline_of s stub2"
    "trampoline_of (frame_state bp fr s stub args) stub2 = trampoline_of s stub2"
    by (simp_all add: s2 frame_state_def trampoline_of_def)
  have page: "trampoline_of s stub2 - 16 \<noteq> mk_call_data mk"
    using log by (simp add: logged_def)
  have "installed E s2 stub2 (bp_stub bp) mp"
    by (rule installed_kept(1) [OF inst1 _ kept]) (use page t code in \<open>simp_all add: s2 frame_state_def\<close>)
  moreover have "trampoline_of s2 stub2 - 16 \<noteq> mk_call_data mk'"
  proof -
    have p: "trampoline_of s stub2 - 16 \<in> fst ` set (live s)"
      using inst by (force simp: installed_def is_trampoline_def trampoline_of_def split: option.splits)
    then show ?thesis
      using bspec [OF fresh p] page t(1) by simp
  qed
  moreover obtain q k where q: "(q, k) \<in> set (live s)" "within q k (fr_params fr) (sizeof_params (bp_params bp))"
    "q \<noteq> mk_call_data mk" "q \<noteq> trampoline_of s stub2 - 16"
    using log by (auto simp: logged_def)
  moreover have "(q, k) \<in> set (live s2)"
    using bytes_keptD [OF kept, of q k] q by (simp add: frame_state_def)
  moreover have "q \<noteq> mk_call_data mk'"
    using fresh q(1,3) by force
  moreover have "mocks s2 mp = Some mk'"
    by (simp add: s2)
  ultimately show ?thesis
    using t by (intro mock_inv_entry [OF inv', where mk = mk' and q = q and k = k]) simp_all
qed

lemma call_mock_enters:
  assumes set: "setting_ok E bp" and inv: "mock_inv E bp fr s stub mp hist cs"
    and inv2: "mock_inv E bp fr s stub2 mp hist cs"
    and args: "list_all2 in_range (bp_params bp) args" and fits: "log_fits bp hist"
    and quiet: "calls_nothing (chosen (predicate P) args cs)"
    and run: "call_mock E P bp fr s (trampoline_of s stub) args = Inr (r, s')"
  shows "mock_inv E bp fr s' stub2 mp (hist @ [args]) cs"
proof -
  obtain s2 where reg: "mmk_verify_register_call E (frame_state bp fr s stub args) (fr_params fr)
      (of_nat (sizeof_params (bp_params bp))) = Inr s2"
    and s': "s' = s2\<lparr>errno := errno_of (errno s) (chosen (predicate P) args cs)\<rparr>"
    using run unfolding call_mock_eq [OF set inv args fits quiet] by (auto simp: ends)
  show ?thesis
    using call_keeps_entry [OF set inv inv2 args fits reg] by (simp only: s' mock_inv_errno)
qed

lemma mmk_when_enters:
  assumes set: "setting_ok E bp" and inv: "mock_inv E bp fr s stub mp hist cs"
    and inv2: "mock_inv E bp fr s stub2 mp hist cs"
    and run: "mmk_when E P bp fr s (trampoline_of s stub) as args res = Inr s'"
  shows "mock_inv E bp fr s' stub2 mp hist (contract_of as args res # cs)"
proof -
  obtain mk keys where mk: "mocks s mp = Some mk" and inst: "installed E s stub2 (bp_stub bp) mp"
    and log: "logged bp fr s stub2 mk keys"
    using inv2 by (auto simp: mock_inv_def)
  obtain mk0 c ps bs ms bnd where mk0: "mocks s mp = Some mk0"
    and s': "s' = s\<lparr>live := (bnd, sizeof_binding bp) # bs @ live s, matchers := ms, matcher_ctx := NULL,
      cur_result := Some res, mmk_ctx_var := stub, ask_ctx := 0, mock_called := 0,
      bindings := (bindings s)(bnd \<mapsto>
        \<lparr>b_matcher_ctx = c, b_next = mk_params mk0, b_result = res, b_params = args\<rparr>),
      mocks := (mocks s)(mp \<mapsto> mk0\<lparr>mk_params := bnd\<rparr>)\<rparr>"
    by (rule mmk_when_state [OF set inv run])
  note w = mmk_when_Inr [OF set inv run]
  have t: "trampoline_of s' stub2 = trampoline_of s stub2"
    by (simp add: s' trampoline_of_def)
  obtain q k where q: "(q, k) \<in> set (live s)" "within q k (fr_params fr) (sizeof_params (bp_params bp))"
    "q \<noteq> mk_call_data mk" "q \<noteq> trampoline_of s stub2 - 16"
    using log by (auto simp: logged_def)
  show ?thesis
  proof (rule mock_inv_entry [OF w(1)])
    show "mocks s' mp = Some (mk\<lparr>mk_params := bnd\<rparr>)"
      using mk mk0 by (simp add: s')
    show "installed E s' stub2 (bp_stub bp) mp"
      by (rule installed_cong [OF _ _ w(5) inst]) (simp_all add: s')
    show "(q, k) \<in> set (live s')"
      using q(1) w(5) by blast
  qed (use q t log in \<open>simp_all add: logged_def\<close>)
qed

text \<open>An event through one entry is an event for every other entry.\<close>

lemma perform_enters:
  assumes set: "setting_ok E bp" and t: "enters E bp fr s mp hist cs t" and u: "enters E bp fr s mp hist cs u"
    and cs: "no_calls cs" and fits: "log_fits bp (hist @ spec_history [e])" and e: "event_ok bp e"
    and run: "perform E P bp fr s t e = Inr (r, s')"
  shows "enters E bp fr s' mp (hist @ spec_history [e]) (spec_contracts [e] cs) u"
    and "r = spec_value P bp (mem s') hist cs e" and "no_calls (spec_contracts [e] cs)"
proof -
  obtain stub where stub: "trampoline_of s stub = t" and inv: "mock_inv E bp fr s stub mp hist cs"
    using t by (auto simp: enters_def)
  obtain stub2 where stub2: "trampoline_of s stub2 = u" and inv2: "mock_inv E bp fr s stub2 mp hist cs"
    using u by (auto simp: enters_def)
  note p = perform_refines [OF set inv cs fits e run [folded stub]]
  then show "r = spec_value P bp (mem s') hist cs e" and "no_calls (spec_contracts [e] cs)"
    by simp_all
  have "stubs s' = stubs s \<and> mock_inv E bp fr s' stub2 mp (hist @ spec_history [e]) (spec_contracts [e] cs)"
  proof (cases e)
    case (Sets_up as args res)
    with run show ?thesis
      using mmk_when_enters [OF set inv inv2, of P as args res s'] mmk_when_Inr(4) [OF set inv, of P as args res s']
      by (simp add: stub ends)
  next
    case (Calls args)
    with run e show ?thesis
      using call_mock_enters [OF set inv inv2 _ log_fits_append [OF fits] no_calls_chosen [OF cs], of args P r s']
        call_mock_Inr(4) [OF set inv _ log_fits_append [OF fits] no_calls_chosen [OF cs], of args P r s']
      by (simp add: stub)
  next
    case (Checks as args params)
    with run obtain v where v: "mmk_verify E P bp fr s (trampoline_of s stub) as args params = Inr (v, s')"
      by (auto simp: stub ends)
    have sz: "sizeof_params (bp_params bp) < 2 ^ 64"
      using fits by (simp add: log_fits_def)
    have s': "s' = s\<lparr>mmk_ctx_var := stub, times_var := of_nat (count_of (predicate P) as args hist)\<rparr>"
      by (rule mmk_verify_Inr(1) [OF set inv sz v])
    have "mock_inv E bp fr s' stub2 mp hist cs"
      using mock_inv_verified [OF inv2] by (simp add: s')
    with Checks show ?thesis
      by (simp add: s')
  qed
  then show "enters E bp fr s' mp (hist @ spec_history [e]) (spec_contracts [e] cs) u"
    using stub2 by (auto simp: enters_def trampoline_of_def)
qed

text \<open>A session in which every event comes through one of the entries \<open>ts\<close>.\<close>

definition performs_via ::
  "env \<Rightarrow> 'a mock_state_scheme program \<Rightarrow> blueprint \<Rightarrow> frame \<Rightarrow> 'a mock_state_scheme \<Rightarrow> (addr \<times> event) list \<Rightarrow>
    fault + int list \<times> 'a mock_state_scheme" where
  "performs_via E P bp fr s es = run_events (\<lambda>s fe. perform E P bp fr s (fst fe) (snd fe)) s es"

lemma performs_via_simps [simp]:
  "performs_via E P bp fr s [] = Inr ([], s)"
  "performs_via E P bp fr s (fe # es) =
     andthen (perform E P bp fr s (fst fe) (snd fe)) (\<lambda>(r, s).
     andthen (performs_via E P bp fr s es) (\<lambda>(rs, s). Inr (r # rs, s)))"
  by (simp_all add: performs_via_def)

fun entries_model ::
  "env \<Rightarrow> blueprint \<Rightarrow> frame \<Rightarrow> addr \<Rightarrow> addr set \<Rightarrow> mock_abstract \<Rightarrow> 'a mock_state_scheme \<Rightarrow> bool" where
  "entries_model E bp fr mp ts (hist, cs) s \<longleftrightarrow>
     setting_ok E bp \<and> no_calls cs \<and> (\<forall>t \<in> ts. enters E bp fr s mp hist cs t)"

interpretation entries: event_contract "\<lambda>s fe. perform E P bp fr s (fst fe) (snd fe)" "entries_model E bp fr mp ts"
    "mock_follow \<circ> snd" "\<lambda>a s fe. mock_answer P bp a s (snd fe)" "\<lambda>a fe. fst fe \<in> ts \<and> mock_admits bp a (snd fe)"
  for E P bp fr mp ts
proof
  fix a s fe r s'
  assume m: "entries_model E bp fr mp ts a s" and adm: "fst fe \<in> ts \<and> mock_admits bp a (snd fe)"
    and run: "perform E P bp fr s (fst fe) (snd fe) = Inr (r, s')"
  obtain hist cs where a: "a = (hist, cs)"
    by (cases a)
  have set: "setting_ok E bp" and t: "enters E bp fr s mp hist cs (fst fe)" and all: "\<forall>t \<in> ts. enters E bp fr s mp hist cs t"
    and cs: "no_calls cs" and e: "event_ok bp (snd fe)" and fits: "log_fits bp (hist @ spec_history [snd fe])"
    using m adm by (simp_all add: a)
  note p = perform_enters [OF set t _ cs fits e run]
  show "entries_model E bp fr mp ts ((mock_follow \<circ> snd) fe a) s' \<and> r = mock_answer P bp a s' (snd fe)"
    using p(1) all p(2,3) [OF t] set by (simp add: a)
qed

section \<open>Creating a mock of a scoped target\<close>

text \<open>The name without its scope.\<close>

definition target_name :: "string \<Rightarrow> string" where
  "target_name target =
     (case mmk_strchr target (CHR ''@'') of None \<Rightarrow> target | Some e \<Rightarrow> take (length target - length e) target)"

lemma scoped_create_steps:
  assumes run: "mmk_mock_create_internal E s target fn noabort = Inr (t, s')" and t: "t \<noteq> NULL"
    and scoped: "\<not> self_target target"
  obtains s1 mp s2 np n s3 stub s4 mk s5 nx s6 st s7 st' where "mmk_init E s = Inr s1"
    and "mmk_malloc (c_lib E) s1 sizeof_mmk_mock_ctx = Inr (mp, s2)" and "mp \<noteq> NULL"
    and "mmk_malloc (c_lib E) (s2\<lparr>mocks := (mocks s2)(mp \<mapsto> \<lparr>mk_params = NULL, mk_stubs = NULL, mk_call_data = NULL,
        mk_call_data_top = 0, mk_call_data_size = 0\<rparr>)\<rparr>) n = Inr (np, s3)" and "np \<noteq> NULL"
    and "mmk_stub_create E s3 target fn mp = Inr (stub, s4)" and "stub \<noteq> NULL"
    and "mocks s4 mp = Some mk" and "s5 = s4\<lparr>mocks := (mocks s4)(mp \<mapsto> mk\<lparr>mk_stubs := stub\<rparr>)\<rparr>"
    and "mmk_stub_create E s5 (target_name target) fn mp = Inr (nx, s6)"
    and "stubs s6 stub = Some st" and "s7 = s6\<lparr>stubs := (stubs s6)(stub \<mapsto> st\<lparr>stub_next := nx\<rparr>)\<rparr>"
    and "mmk_free s7 np = Inr s'" and "stubs s' stub = Some st'" and "t = stub_trampoline st'"
  using run t scoped
  by (auto simp: mmk_mock_create_internal_def mock_fails_def self_target_def free_mock_ctx_def ends Let_def
      set_stub_next_def target_name_def split: if_splits option.splits)

lemma slots_ok_append:
  assumes "slots_ok bs (as1 @ as2)"
  shows "slots_ok bs as1" and "slots_ok bs as2"
    and "a \<in> set as1 \<Longrightarrow> b \<in> set as2 \<Longrightarrow> separate a 8 b 8"
  using assms by (induction as1) (auto simp: slots_ok_def)

lemma slots_ok_mono: "slots_ok bs as \<Longrightarrow> set bs \<subseteq> set bs' \<Longrightarrow> slots_ok bs' as"
  unfolding slots_ok_def by blast

lemma slot_kept:
  assumes wf: "slots_ok bs as" "a \<in> set as" and same: "\<And>q k x. (q, k) \<in> set bs \<Longrightarrow> in_region q (unat k) x \<Longrightarrow>
      in_region a 8 x \<Longrightarrow> m' x = m x"
  shows "ld64 m' a = ld64 m a"
proof (intro ld64_cong rd_cong)
  fix i :: nat
  assume i: "i < 8"
  obtain q k where q: "(q, k) \<in> set bs" "within q k a 8"
    using wf by (auto simp: slots_ok_def)
  have a: "in_region a 8 (a + of_nat i)"
    by (rule in_region_nth [OF i]) simp
  show "m' (a + of_nat i) = m (a + of_nat i)"
    by (rule same [OF q(1) within_in_region [OF q(2) a] a])
qed

lemma slots_apart_from:
  assumes wf: "blocks_wf bs" and base: "set base \<subseteq> set bs" and slots: "slots_ok base as"
    and q: "(q, k) \<in> set bs" "q \<notin> fst ` set base" "in_region q (unat k) x"
  shows "\<forall>a \<in> set as. \<not> in_region a 8 x"
proof (intro ballI notI)
  fix a
  assume "a \<in> set as" and a: "in_region a 8 x"
  then obtain q' k' where q': "(q', k') \<in> set base" "within q' k' a 8"
    using slots by (auto simp: slots_ok_def)
  have "in_region q' (unat k') x"
    by (rule within_in_region [OF q'(2) a])
  moreover have "q \<noteq> q'"
    using q'(1) q(2) by force
  then have "separate q (unat k) q' (unat k')"
    using q(1) q'(1) base by (intro blocks_wf_separate [OF wf]) blast+
  ultimately show False
    using q(3) by (auto simp: separate_def)
qed

text \<open>The second stub, for a mock that has its first one.\<close>

lemma second_stub:
  assumes set: "setting_ok E bp" and inv: "mock_inv E bp fr s stub mp [] []" and wf: "core_wf E s" "mmk_init E s = Inr s"
    and mk: "mocks s mp = Some mk" "mk_call_data mk = NULL"
    and slots: "target_slots s name = Some as" "slots_ok base as"
    and base: "set base \<subseteq> set (live s)" "trampoline_of s stub - 16 \<notin> fst ` set base" "stub \<in> fst ` set (live s)"
    and frame: "(q, k) \<in> set base" "within q k (fr_params fr) (sizeof_params (bp_params bp))"
    and run: "mmk_stub_create E s name (bp_stub bp) mp = Inr (nx, s')"
  shows "mock_inv E bp fr s' stub mp [] []" and "nx \<noteq> stub" and "\<exists>bs. live s' = bs @ live s"
    and "nx = NULL \<Longrightarrow> mem s' = mem s"
    and "nx = NULL \<Longrightarrow> as \<noteq> [] \<Longrightarrow> errno s' = - ENOMEM"
    and "nx \<noteq> NULL \<Longrightarrow> mock_inv E bp fr s' nx mp [] []"
    and "nx \<noteq> NULL \<Longrightarrow> \<forall>a \<in> set as. ld64 (mem s') a = trampoline_of s' nx"
    and "nx \<noteq> NULL \<Longrightarrow> trampoline_of s' nx - 16 \<notin> fst ` set (live s)"
    and "\<And>b n x. (b, n) \<in> set (live s) \<Longrightarrow> in_region b (unat n) x \<Longrightarrow> \<forall>a \<in> set as. \<not> in_region a 8 x \<Longrightarrow> mem s' x = mem s x"
    and "matchers s' = matchers s" "bindings s' = bindings s" "mocks s' = mocks s" "stubs s' stub = stubs s stub"
proof -
  have L: "libc_ok (c_lib E)" and code: "length (trampoline_code E) + 16 \<le> unat PAGE_SIZE"
    using set by (simp_all add: setting_ok_def)
  have heap: "heap_ok s" and rest: "at_rest s" and inst: "installed E s stub (bp_stub bp) mp"
    using inv by (simp_all add: mock_inv_def)
  note f = mmk_stub_create_fields [OF L wf(1) run wf(2)]
  show same: "matchers s' = matchers s" "bindings s' = bindings s" "mocks s' = mocks s"
    by (simp_all add: f)
  show live: "\<exists>bs. live s' = bs @ live s"
    using f(7) by (metis append_Nil)
  have ok: "slots_ok (live s) as"
    by (rule slots_ok_mono [OF slots(2) base(1)])
  have failed: "mem s' = mem s \<and> stubs s' = stubs s \<and> ask_ctx s' = 0 \<and> blocks_wf (live s')" if "nx = NULL"
    using L wf(1) run
  proof (cases rule: mmk_stub_create_Inr)
    case (failed s1 rc bs)
    then show ?thesis
      using wf by (auto simp: core_wf_def)
  qed (use that in simp)
  have created: "nx \<notin> fst ` set (live s)" if "nx \<noteq> NULL"
    using L wf(1) run
  proof (cases rule: mmk_stub_create_Inr)
    case (created s1 np op t as pr)
    then show ?thesis
      using blocks_wf_distinct [OF created(5)] by simp
  qed (use that in simp)
  note c = mmk_stub_create_installs [OF L wf(1) code wf(2) slots(1) ok run]
  show none: "mem s' = mem s" if "nx = NULL"
    using failed [OF that] by simp
  show "errno s' = - ENOMEM" if "nx = NULL" "as \<noteq> []"
    using mmk_stub_create_refused [OF L wf(1) _ wf(2) slots(1) that(2)] run that(1) by blast
  have "stub \<noteq> NULL"
    using inst by (simp add: installed_def)
  then show new: "nx \<noteq> stub"
    using created base(3) by blast
  have wf': "blocks_wf (live s')" and ask: "ask_ctx s' = 0"
    using failed c(4,5) by (cases "nx = NULL"; simp)+
  show st: "stubs s' stub = stubs s stub"
    using failed c(7) new by (cases "nx = NULL") simp_all
  show bytes: "mem s' x = mem s x"
    if "(b, n) \<in> set (live s)" "in_region b (unat n) x" "\<forall>a \<in> set as. \<not> in_region a 8 x" for b n x
    using none c(8) [of b n x] that by (cases "nx = NULL") simp_all
  have "fst ` set (live s) \<subseteq> fst ` set (live s')"
    using live by auto
  then have heap': "heap_ok s'"
    using wf' heap by (simp add: heap_ok_def matchers_live_def f subset_iff)
  have rest': "at_rest s'"
    using rest ask by (simp add: at_rest_def f)
  have tr: "trampoline_of s stub - 16 \<noteq> NULL" and fq: "q \<noteq> NULL" "(q, k) \<in> set (live s)" "q \<noteq> trampoline_of s stub - 16"
  proof -
    have "trampoline_of s stub - 16 \<in> fst ` set (live s)"
      using inst by (force simp: installed_def is_trampoline_def trampoline_of_def split: option.splits)
    then show "trampoline_of s stub - 16 \<noteq> NULL"
      using heap blocks_wf_NULL [of "live s"] by (metis heap_ok_def)
    show "(q, k) \<in> set (live s)"
      using frame(1) base(1) by blast
    then show "q \<noteq> NULL"
      using heap blocks_wf_NULL by (force simp: heap_ok_def)
    show "q \<noteq> trampoline_of s stub - 16"
      using frame(1) base(2) by force
  qed
  have frame': "(q, k) \<in> set (live s')"
    using fq(2) live by auto
  show inv': "mock_inv E bp fr s' stub mp [] []"
  proof (rule mock_inv_kept [OF inv mk(1) st _ same(1,2) heap' rest' code])
    fix b n x
    assume b: "(b, n) \<in> set (live s)" "b \<in> {trampoline_of s stub - 16, mk_call_data mk}"
    have "b \<noteq> NULL"
      using b(1) heap blocks_wf_NULL by (force simp: heap_ok_def)
    then have "b \<notin> fst ` set base"
      using b(2) mk(2) base(2) by auto
    then have "\<forall>a \<in> set as. \<not> in_region a 8 x" if "in_region b (unat n) x"
      using slots_apart_from [OF _ base(1) slots(2) b(1) _ that] heap by (simp add: heap_ok_def)
    then show "(b, n) \<in> set (live s') \<and> (in_region b (unat n) x \<longrightarrow> mem s' x = mem s x)"
      using b(1) live bytes [OF b(1)] by auto
  qed (use mk frame frame' fq same in simp_all)
  show page: "trampoline_of s' nx - 16 \<notin> fst ` set (live s)" if nx: "nx \<noteq> NULL"
  proof -
    obtain op m np n where "live s' = (trampoline_of s' nx - 16, PAGE_SIZE) # (op, m) # (np, n) # (nx, sizeof_mmk_stub) # live s"
      using mmk_stub_create_blocks [OF L wf(1) run nx] by blast
    then show ?thesis
      using blocks_wf_distinct [OF wf'] by simp
  qed
  show "\<forall>a \<in> set as. ld64 (mem s') a = trampoline_of s' nx" if "nx \<noteq> NULL"
    using c(3) that .
  show "mock_inv E bp fr s' nx mp [] []" if nx: "nx \<noteq> NULL"
  proof (rule mock_inv_entry [OF inv' _ c(1) [OF nx]])
    have "trampoline_of s' nx - 16 \<in> fst ` set (live s')"
      using c(1) [OF nx] by (force simp: installed_def is_trampoline_def trampoline_of_def split: option.splits)
    then show "trampoline_of s' nx - 16 \<noteq> mk_call_data mk"
      using mk(2) blocks_wf_NULL [OF wf'] by metis
    show "q \<noteq> trampoline_of s' nx - 16"
      using page [OF nx] fq(2) by force
  qed (use mk same frame' frame(2) fq in simp_all)
qed

lemma installed_next:
  assumes "stubs s stub = Some st"
  shows "installed E (s\<lparr>stubs := (stubs s)(stub \<mapsto> st\<lparr>stub_next := nx\<rparr>)\<rparr>) p fn ctx = installed E s p fn ctx"
    and "trampoline_of (s\<lparr>stubs := (stubs s)(stub \<mapsto> st\<lparr>stub_next := nx\<rparr>)\<rparr>) p = trampoline_of s p"
  using assms by (auto simp: installed_def is_trampoline_def trampoline_of_def split: option.splits)

lemma mock_inv_next:
  assumes "stubs s stub = Some st"
  shows "mock_inv E bp fr (s\<lparr>stubs := (stubs s)(stub \<mapsto> st\<lparr>stub_next := nx\<rparr>)\<rparr>) p mp hist cs =
    mock_inv E bp fr s p mp hist cs"
  by (simp add: mock_inv_def installed_next [OF assms] logged_def heap_ok_def at_rest_def matchers_live_def
      contracted_def contract_at_def [abs_def])

text \<open>
  \<open>leads_to E bp s fn mp\<close>: a call of \<open>fn\<close> jumps to the mock function of the blueprint, which finds the mock at \<open>mp\<close> as its
  context.
\<close>

definition leads_to :: "env \<Rightarrow> blueprint \<Rightarrow> 'a mock_state_scheme \<Rightarrow> addr \<Rightarrow> addr \<Rightarrow> bool" where
  "leads_to E bp s fn mp \<longleftrightarrow>
     (\<exists>w. enter_trampoline E s fn = Inr (Jumps (bp_stub bp), w) \<and> mmk_stub_context w (mmk_ctx w) = Inr mp)"

lemma enters_leads_to: "enters E bp fr s mp hist cs t \<Longrightarrow> leads_to E bp s t mp"
proof -
  assume "enters E bp fr s mp hist cs t"
  then obtain stub where t: "trampoline_of s stub = t" and inst: "installed E s stub (bp_stub bp) mp" and ask: "ask_ctx s = 0"
    by (auto simp: enters_def mock_inv_def at_rest_def)
  have "mmk_stub_context (s\<lparr>mmk_ctx_var := stub, ask_ctx := 0\<rparr>) stub = Inr mp"
    using installed_context [OF inst] by (simp add: mmk_stub_context_def split: if_splits)
  then show ?thesis
    using enter_installed [OF inst] t ask by (simp add: leads_to_def mmk_ctx_def)
qed

text \<open>
  \<open>program_slots s as name bs\<close>: the tables of the program itself give the slots \<open>bs\<close> for \<open>name\<close>, also when the slots \<open>as\<close>
  have been redirected, and whatever is in memory outside of the live blocks.
\<close>

definition program_slots :: "'a mock_state_scheme \<Rightarrow> addr list \<Rightarrow> string \<Rightarrow> addr list \<Rightarrow> bool" where
  "program_slots s as name bs \<longleftrightarrow> plt s \<noteq> [] \<and>
     (\<forall>m. (\<forall>(q, k) \<in> set (live s). \<forall>x. in_region q (unat k) x \<longrightarrow> (\<forall>a \<in> set as. \<not> in_region a 8 x) \<longrightarrow> m x = mem s x) \<longrightarrow>
       find_slots m (plt s ! 0) name = Some bs)"

lemma target_name_unscoped: "split_target (target_name target) = (target_name target, None)"
proof -
  have "CHR ''@'' \<notin> set (target_name target)"
    by (auto simp: target_name_def mmk_strchr_None_iff mmk_strchr_Some_iff split: option.splits)
  then show ?thesis
    by (simp add: split_target_def mmk_strchr_None_iff [THEN iffD2])
qed

lemma scoped_create_establishes:
  assumes set: "setting_ok E bp" and wf: "core_wf E s" and quiet: "quiet bp fr s"
    and init: "mmk_init E s = Inr s1" and slots: "target_slots s1 target = Some as" "slots_ok (live s) (as @ bs)"
    and main: "program_slots s1 as (target_name target) bs" and scoped: "\<not> self_target target"
    and run: "mmk_mock_create_internal E s target (bp_stub bp) noabort = Inr (t, s')" and t: "t \<noteq> NULL"
  shows "\<exists>mp. enters E bp fr s' mp [] [] t \<and> (\<forall>a \<in> set as. ld64 (mem s') a = t) \<and>
    (bs \<noteq> [] \<longrightarrow> (\<exists>u. u \<noteq> t \<and> enters E bp fr s' mp [] [] u \<and> (\<forall>a \<in> set bs. ld64 (mem s') a = u)) \<or>
      errno s' = - ENOMEM \<and> (\<forall>a \<in> set bs. ld64 (mem s') a = ld64 (mem s) a))"
proof -
  have keep1: "mem s1 = mem s" "live s1 = live s" and code: "length (trampoline_code E) + 16 \<le> unat PAGE_SIZE"
    using mmk_init_keeps [OF init] set by (simp_all add: setting_ok_def)
  note ok = slots_ok_append [OF slots(2)]
  obtain mp s2 np n s3 stub s4 mk s5 nx s6 st s7 st' where
    mp: "mmk_malloc (c_lib E) s1 sizeof_mmk_mock_ctx = Inr (mp, s2)" "mp \<noteq> NULL"
    and np: "mmk_malloc (c_lib E) (s2\<lparr>mocks := (mocks s2)(mp \<mapsto> \<lparr>mk_params = NULL, mk_stubs = NULL,
        mk_call_data = NULL, mk_call_data_top = 0, mk_call_data_size = 0\<rparr>)\<rparr>) n = Inr (np, s3)" "np \<noteq> NULL"
    and sc: "mmk_stub_create E s3 target (bp_stub bp) mp = Inr (stub, s4)" "stub \<noteq> NULL"
    and mk: "mocks s4 mp = Some mk" and s5: "s5 = s4\<lparr>mocks := (mocks s4)(mp \<mapsto> mk\<lparr>mk_stubs := stub\<rparr>)\<rparr>"
    and sc2: "mmk_stub_create E s5 (target_name target) (bp_stub bp) mp = Inr (nx, s6)"
    and st: "stubs s6 stub = Some st" and s7: "s7 = s6\<lparr>stubs := (stubs s6)(stub \<mapsto> st\<lparr>stub_next := nx\<rparr>)\<rparr>"
    and fin: "mmk_free s7 np = Inr s'" and st': "stubs s' stub = Some st'" "t = stub_trampoline st'"
    by (rule scoped_create_steps [OF run t scoped]) (use init in auto)
  obtain ps where live5: "live s5 = ((trampoline_of s5 stub - 16, PAGE_SIZE) # ps) @ (np, n) # (mp, sizeof_mmk_mock_ctx) # live s"
    and stub: "stub \<in> fst ` set ps" and inv5: "mock_inv E bp fr s5 stub mp [] []" and core5: "core_wf E s5" "mmk_init E s5 = Inr s5"
    and slot5: "\<forall>a \<in> set as. ld64 (mem s5) a = trampoline_of s5 stub"
    and mk5: "mocks s5 mp = Some \<lparr>mk_params = NULL, mk_stubs = stub, mk_call_data = NULL, mk_call_data_top = 0,
        mk_call_data_size = 0\<rparr>"
    and same5: "matchers s5 = matchers s" "bindings s5 = bindings s" and plt5: "plt s5 = plt s1"
    and mem5: "\<forall>(q, k) \<in> set (live s). \<forall>x. in_region q (unat k) x \<longrightarrow> (\<forall>a \<in> set as. \<not> in_region a 8 x) \<longrightarrow> mem s5 x = mem s x"
    by (rule mock_with_stub [OF set wf quiet init slots(1) ok(1) mp np sc mk s5])
  have wf5: "blocks_wf (live s5)"
    using inv5 by (simp add: mock_inv_def heap_ok_def)
  have "find_slots (mem s5) (plt s5 ! 0) (target_name target) = Some bs" and "plt s5 \<noteq> []"
    using main mem5 unfolding program_slots_def plt5 keep1 by simp_all
  then have slots5: "target_slots s5 (target_name target) = Some bs"
    by (simp add: target_slots_def target_name_unscoped plt_get_lib_def)
  note apart = name_apart [OF wf5 [unfolded live5] quiet same5]
  obtain q k where q: "(q, k) \<in> set (live s)" "within q k (fr_params fr) (sizeof_params (bp_params bp))"
    and q': "q \<noteq> trampoline_of s5 stub - 16" "q \<noteq> NULL"
    by (rule apart(3))
  have base: "set (live s) \<subseteq> set (live s5)" "trampoline_of s5 stub - 16 \<notin> fst ` set (live s)" "stub \<in> fst ` set (live s5)"
    using blocks_wf_distinct [OF wf5] stub by (auto simp: live5)
  note s6 = second_stub [OF set inv5 core5 mk5 _ slots5 ok(2) base q sc2, simplified]
  obtain cs where live6: "live s6 = cs @ live s5"
    using s6(3) by blast
  define ps' where "ps' = cs @ (trampoline_of s5 stub - 16, PAGE_SIZE) # ps"
  have live7: "live s7 = ps' @ (np, n) # (mp, sizeof_mmk_mock_ctx) # live s"
    by (simp add: s7 live6 live5 ps'_def)
  have inv7: "mock_inv E bp fr s7 p mp [] [] = mock_inv E bp fr s6 p mp [] []"
    and tr7: "trampoline_of s7 p = trampoline_of s6 p" for p
    unfolding s7 by (rule mock_inv_next [OF st], rule installed_next(2) [OF st])
  have "fp_free (vit s7) \<noteq> NULL" and wf7: "blocks_wf (live s7)"
    using s6(1) inv7 [of stub] by (simp_all add: mock_inv_def heap_ok_def vitals_ready_def)
  then have s': "s' = s7\<lparr>live := ps' @ (mp, sizeof_mmk_mock_ctx) # live s\<rparr>"
    using fin mmk_free_block [OF _ live7] by simp
  have entry: "mock_inv E bp fr s' p mp [] []"
    if inv: "mock_inv E bp fr s6 p mp [] []" and p: "trampoline_of s6 p - 16 \<notin> insert np (fst ` set (live s))" for p
  proof -
    have "q \<in> fst ` set (live s)"
      using q(1) by force
    then have "q \<noteq> trampoline_of s7 p - 16" and "np \<noteq> trampoline_of s7 p - 16"
      using p tr7 [of p] by (metis insert_iff)+
    moreover have mk7: "mocks s7 mp = Some \<lparr>mk_params = NULL, mk_stubs = stub, mk_call_data = NULL, mk_call_data_top = 0,
        mk_call_data_size = 0\<rparr>"
      and "matchers s7 = matchers s" and "bindings s7 = bindings s"
      by (simp_all add: s7 s6 same5 mk5)
    ultimately show ?thesis
      unfolding s' using apart(1) q q'(2) np(2) code
      by (intro mock_inv_freed [OF inv [folded inv7] mk7 _ live7, where q = q and k = k]) (simp_all add: same5)
  qed
  have tr: "trampoline_of s6 stub = t" "trampoline_of s5 stub = t"
    using st' tr7 [of stub] s6 by (simp_all add: trampoline_of_def s')
  have mem': "mem s' = mem s6" and tr': "trampoline_of s' p = trampoline_of s6 p" for p
    using tr7 [of p] by (simp_all add: s' s7 trampoline_of_def)
  have "enters E bp fr s' mp [] [] t"
    using entry [OF s6(1)] base(2) apart(2) tr tr' [of stub] by (auto simp: enters_def)
  moreover have "ld64 (mem s') a = t" if a: "a \<in> set as" for a
  proof -
    have "ld64 (mem s6) a = ld64 (mem s5) a"
    proof (rule slot_kept [OF ok(1) a])
      fix b n x
      assume "(b, n) \<in> set (live s)" "in_region b (unat n) x" "in_region a 8 x"
      moreover from this(3) have "\<forall>c \<in> set bs. \<not> in_region c 8 x"
        using ok(3) [OF a] by (auto simp: separate_def)
      ultimately show "mem s6 x = mem s5 x"
        using s6(9) base(1) by blast
    qed
    then show ?thesis
      using slot5 a tr(2) by (simp add: mem')
  qed
  moreover have "(\<exists>u. u \<noteq> t \<and> enters E bp fr s' mp [] [] u \<and> (\<forall>a \<in> set bs. ld64 (mem s') a = u)) \<or>
      errno s' = - ENOMEM \<and> (\<forall>a \<in> set bs. ld64 (mem s') a = ld64 (mem s) a)" if bs: "bs \<noteq> []"
  proof (cases "nx = NULL")
    case True
    have "ld64 (mem s5) a = ld64 (mem s) a" if a: "a \<in> set bs" for a
    proof (rule slot_kept [OF ok(2) a])
      fix b n x
      assume "(b, n) \<in> set (live s)" "in_region b (unat n) x" "in_region a 8 x"
      moreover from this(3) have "\<forall>c \<in> set as. \<not> in_region c 8 x"
        using ok(3) [OF _ a] by (auto simp: separate_def)
      ultimately show "mem s5 x = mem s x"
        using mem5 by blast
    qed
    moreover have "errno s' = errno s6"
      by (simp add: s' s7)
    ultimately show ?thesis
      using s6(4,5) True bs by (simp add: mem')
  next
    case nx: False
    have out: "trampoline_of s6 nx - 16 \<notin> insert np (fst ` set (live s))" and "trampoline_of s6 nx \<noteq> t"
      using s6(8) [OF nx] tr(2) by (auto simp: live5)
    moreover have "enters E bp fr s' mp [] [] (trampoline_of s6 nx)"
      using entry [OF s6(6) [OF nx] out] tr' [of nx] by (auto simp: enters_def)
    ultimately show ?thesis
      using s6(7) [OF nx] by (intro disjI1 exI [of _ "trampoline_of s6 nx"]) (simp add: mem')
  qed
  ultimately show ?thesis
    by blast
qed

end
