(* ===== verification/Scoped_Properties.thy ===== *)
theory Scoped_Properties
  imports Mock_Scoped Mock_Demo
begin

text \<open>
  The property of mocks of scoped targets, and its witness: a mock of the function \<open>f\<close> in the library \<open>x\<close> of a process with
  two objects, which is called by the program and verified through the pointer that its creation returned.
\<close>

text \<open>C12: a mock of a target with a scope is one mock with two trampolines. The slots \<open>as\<close> of the object in scope lead to the first one, which
  is also what the creation returns, and the slots \<open>bs\<close> of the program, where there are any, all lead to a second one of the same mock,
  unless there was no memory for it, which \<open>errno\<close> then says and the slots of the program are unchanged. Through whichever of the
  trampolines a test's events come, in any order, each gives the value that the specification computes from all events before it.\<close>

theorem scoped_mock_is_one_mock:
  assumes "setting_ok E bp" and "core_wf E s" and "quiet bp fr s" and "mmk_init E s = Inr s1"
    and "target_slots s1 target = Some as" and "slots_ok (live s) (as @ bs)"
    and "program_slots s1 as (target_name target) bs" and "\<not> self_target target"
    and "mmk_mock_create_internal E s target (bp_stub bp) noabort = Inr (t, s2)" and "t \<noteq> NULL"
    and "\<forall>(fn, e) \<in> set (es @ [(f, e)]). event_ok bp e \<and>
      (fn = t \<or> (\<exists>a \<in> set bs. fn = ld64 (mem s2) a \<and> fn \<noteq> ld64 (mem s) a))"
    and "log_fits bp (spec_history (map snd (es @ [(f, e)])))"
    and "performs_via E P bp fr s2 es = Inr (rs, s3)" and "perform E P bp fr s3 f e = Inr (r, s4)"
  shows "(\<exists>mp. leads_to E bp s2 t mp \<and> (\<forall>a \<in> set as. ld64 (mem s2) a = t) \<and>
      (bs \<noteq> [] \<longrightarrow> (\<exists>u. u \<noteq> t \<and> leads_to E bp s2 u mp \<and> (\<forall>a \<in> set bs. ld64 (mem s2) a = u)) \<or>
        errno s2 = - ENOMEM \<and> (\<forall>a \<in> set bs. ld64 (mem s2) a = ld64 (mem s) a))) \<and>
    r = spec_value P bp (mem s4) (spec_history (map snd es)) (spec_contracts (map snd es) []) e"
proof -
  let ?ts = "insert t {fn. \<exists>a \<in> set bs. fn = ld64 (mem s2) a \<and> fn \<noteq> ld64 (mem s) a}"
  obtain mp where t: "enters E bp fr s2 mp [] [] t" and as: "\<forall>a \<in> set as. ld64 (mem s2) a = t"
    and bs: "bs \<noteq> [] \<longrightarrow> (\<exists>u. u \<noteq> t \<and> enters E bp fr s2 mp [] [] u \<and> (\<forall>a \<in> set bs. ld64 (mem s2) a = u)) \<or>
      errno s2 = - ENOMEM \<and> (\<forall>a \<in> set bs. ld64 (mem s2) a = ld64 (mem s) a)"
    using scoped_create_establishes [OF assms(1-10)] by blast
  have all: "\<forall>u \<in> ?ts. enters E bp fr s2 mp [] [] u"
    using t bs by fastforce
  have ev: "\<forall>fe \<in> set (es @ [(f, e)]). fst fe \<in> ?ts" and ok: "\<forall>e \<in> set (map snd (es @ [(f, e)])). event_ok bp e"
    using assms(11) by auto
  have fits: "log_fits bp ([] @ spec_history (map snd (es @ [(f, e)])))"
    using assms(12) by simp
  have "entries_model E bp fr mp ?ts ([], []) s2"
    using all assms(1) by (simp add: no_calls_def)
  moreover have "admitted (mock_follow \<circ> snd) (\<lambda>a fe. fst fe \<in> ?ts \<and> mock_admits bp a (snd fe)) ([], []) (es @ [(f, e)])"
    using admitted_map [of mock_follow snd "\<lambda>fe. fst fe \<in> ?ts" "mock_admits bp"] ev mock_admitted [OF ok fits] by blast
  ultimately have "r = mock_answer P bp (fold (mock_follow \<circ> snd) es ([], [])) s4 (snd (f, e))"
    by (rule entries.run_answers) (use assms(13,14) in \<open>simp_all add: performs_via_def\<close>)
  then have "r = spec_value P bp (mem s4) (spec_history (map snd es)) (spec_contracts (map snd es) []) e"
    by (simp add: fold_mock_follow flip: fold_map)
  with t as bs enters_leads_to show ?thesis
    by blast
qed

section \<open>A process with a library\<close>

text \<open>The object \<open>x\<close> uses the tables of the program, at another base address.\<close>

definition scoped_ctx :: plt_ctx where
  "scoped_ctx = demo_ctx @ [\<lparr>l_addr = 0x400008, l_name = ''x'', l_ld = 0x400000\<rparr>]"

definition scoped_env :: env where
  "scoped_env = demo_env\<lparr>r_debug := scoped_ctx\<rparr>"

definition scoped :: mock_state where
  "scoped = demo\<lparr>plt := scoped_ctx\<rparr>"

lemma scoped_parts [simp]:
  "mem scoped = demo_mem" "live scoped = [(0x400000, 0x1000), (0x7f0000, 0x1000)]" "vit scoped = demo_vitals"
  "initialized scoped = 1" "plt scoped = scoped_ctx" "c_lib scoped_env = demo_libc"
  "trampoline_code scoped_env = [0xe8, 0, 0, 0, 0]" "r_debug scoped_env = scoped_ctx"
  "stubs scoped = Map.empty" "matchers scoped = Map.empty" "mocks scoped = Map.empty" "bindings scoped = Map.empty"
  "matcher_ctx scoped = NULL" "mock_called scoped = 0" "ask_ctx scoped = 0"
  by (simp_all add: scoped_def scoped_env_def)

lemma scoped_slots: "find_slots demo_mem \<lparr>l_addr = 0x400008, l_name = ''x'', l_ld = 0x400000\<rparr> ''f'' = Some [0x400200]"
proof -
  have "find_slots demo_mem \<lparr>l_addr = 0x400008, l_name = ''x'', l_ld = 0x400000\<rparr> ''f'' =
      Some (map (\<lambda>off. 0x400008 + off) (filter (\<lambda>off. off \<noteq> 0)
        [get_offset demo_mem \<lparr>tab = 0x400100, tab_sz = 0, entry_sz = 24\<rparr> 0x400140 0x400180 ''f'',
         get_offset demo_mem \<lparr>tab = 0x400100, tab_sz = 24, entry_sz = 24\<rparr> 0x400140 0x400180 ''f'']))"
    by (simp add: find_slots_def lib_dt_lookup_def lib_dt_lookup_val_def dt_lookup_from.simps
        dt_lookup_val_from.simps ld64_demo demo_word_simps dyn_ptr_def)
  moreover have "reloc_names demo_mem 0x400140 0x400180 ''f'' 0x400100"
    by (simp add: reloc_names_def name_at_def ld64_demo demo_word_simps sym_at_def sym_name_def
        demo_ld32 demo_name)
  ultimately show ?thesis
    by (simp add: get_offset_def reloc_loop_Suc ld64_demo demo_word_simps)
qed

lemma scoped_target: "target_slots scoped ''f@file:x'' = Some [0x400200]" "\<not> self_target ''f@file:x''" "target_name ''f@file:x'' = ''f''"
  using scoped_slots by (simp_all add: target_slots_def split_target_def plt_get_lib_def scoped_ctx_def demo_ctx_def
      plt_get_selector_def selector_prefixes lib_matches_def get_lib_name_def self_target_def target_name_def mmk_strneq_take)

lemma scoped_program: "program_slots scoped [0x400200] ''f'' [0x4001f8]"
proof -
  have "find_slots m (demo_ctx ! 0) ''f'' = Some [0x4001f8]"
    if same: "\<forall>(q, k) \<in> set (live scoped). \<forall>x. in_region q (unat k) x \<longrightarrow> (\<forall>a \<in> set [0x400200]. \<not> in_region a 8 x) \<longrightarrow>
      m x = mem scoped x" for m
  proof (rule demo_slots_kept)
    fix x :: addr
    assume "in_region 0x400000 0x1f8 x"
    then have "in_region 0x400000 0x1000 x" and "\<not> in_region 0x400200 8 x"
      using in_region_prefix [of "0x400000" "0x1f8" x "0x1000"] separate_iff [of "0x400000" "0x1f8" "0x400200" 8]
      by (auto simp: separate_def)
    then show "m x = demo_mem x"
      using same by simp
  qed
  then show ?thesis
    by (simp add: program_slots_def scoped_ctx_def demo_ctx_def)
qed

lemma scoped_allocations:
  "libc_malloc demo_libc [(0x400000, 0x1000), (0x7f0000, 0x1000)] 40 = 0x10000"
  "libc_malloc demo_libc [(0x10000, 40), (0x400000, 0x1000), (0x7f0000, 0x1000)] 2 = 0x20000"
  "libc_malloc demo_libc [(0x20000, 2), (0x10000, 40), (0x400000, 0x1000), (0x7f0000, 0x1000)] 80 = 0x30000"
  "libc_malloc demo_libc [(0x30000, 80), (0x20000, 2), (0x10000, 40), (0x400000, 0x1000), (0x7f0000, 0x1000)] 9 = 0x40000"
  "libc_realloc demo_libc [(0x40000, 9), (0x30000, 80), (0x20000, 2), (0x10000, 40), (0x400000, 0x1000), (0x7f0000, 0x1000)]
     NULL 16 = 0x110000"
  "libc_mmap demo_libc [(0x110000, 16), (0x40000, 9), (0x30000, 80), (0x20000, 2), (0x10000, 40), (0x400000, 0x1000),
     (0x7f0000, 0x1000)] 0x1000 = 0x210000"
  "libc_malloc demo_libc [(0x210000, 0x1000), (0x110000, 16), (0x40000, 9), (0x30000, 80), (0x20000, 2), (0x10000, 40),
     (0x400000, 0x1000), (0x7f0000, 0x1000)] 80 = 0x50000"
  "libc_malloc demo_libc [(0x50000, 80), (0x210000, 0x1000), (0x110000, 16), (0x40000, 9), (0x30000, 80), (0x20000, 2),
     (0x10000, 40), (0x400000, 0x1000), (0x7f0000, 0x1000)] 2 = 0x60000"
  "libc_realloc demo_libc [(0x60000, 2), (0x50000, 80), (0x210000, 0x1000), (0x110000, 16), (0x40000, 9), (0x30000, 80),
     (0x20000, 2), (0x10000, 40), (0x400000, 0x1000), (0x7f0000, 0x1000)] NULL 16 = 0x120000"
  "libc_mmap demo_libc [(0x120000, 16), (0x60000, 2), (0x50000, 80), (0x210000, 0x1000), (0x110000, 16), (0x40000, 9),
     (0x30000, 80), (0x20000, 2), (0x10000, 40), (0x400000, 0x1000), (0x7f0000, 0x1000)] 0x1000 = 0x220000"
  by (simp_all add: demo_allocations)

text \<open>The memory in which the second stub looks for its slots.\<close>

definition scoped_mem :: mem where
  "scoped_mem = st64 (wr (st64 (st64 demo_mem 0x210000 0x30000) 0x210008 0x500000) 0x210010 [0xe8, 0, 0, 0, 0]) 0x400200 0x210010"

lemma scoped_mem_slots: "find_slots scoped_mem (demo_ctx ! 0) ''f'' = Some [0x4001f8]"
proof (rule demo_slots_kept)
  fix x :: addr
  assume x: "in_region 0x400000 0x1f8 x"
  have n: "\<not> in_region 0x400200 8 x" "\<not> in_region 0x210010 5 x" "\<not> in_region 0x210008 8 x" "\<not> in_region 0x210000 8 x"
    using x separate_iff [of "0x400000" "0x1f8" "0x400200" 8] separate_iff [of "0x400000" "0x1f8" "0x210010" 5]
      separate_iff [of "0x400000" "0x1f8" "0x210008" 8] separate_iff [of "0x400000" "0x1f8" "0x210000" 8]
    by (auto simp: separate_def)
  have len: "length [0xe8 :: byte, 0, 0, 0, 0] = 5"
    by simp
  have "wr m' 0x210010 [0xe8, 0, 0, 0, 0] x = m' x" for m'
    by (rule wr_outside) (simp, simp only: len n(2) not_False_eq_True)
  then show "scoped_mem x = demo_mem x"
    by (simp add: scoped_mem_def st64_outside n del: wr.simps)
qed

lemma scoped_created:
  "\<exists>s. mmk_mock_create_internal scoped_env scoped ''f@file:x'' 0x500000 False = Inr (0x210010, s) \<and>
     live s = [(0x220000, 0x1000), (0x120000, 16), (0x60000, 2), (0x50000, 80), (0x210000, 0x1000), (0x110000, 16),
       (0x40000, 9), (0x30000, 80), (0x10000, 40), (0x400000, 0x1000), (0x7f0000, 0x1000)] \<and>
     (\<forall>p mk. mocks s p = Some mk \<longrightarrow> mk_call_data mk = NULL) \<and> ld64 (mem s) 0x4001f8 = 0x220010"
  using scoped_mem_slots [unfolded demo_ctx_def nth_Cons_0 scoped_mem_def]
  by (simp add: mmk_mock_create_internal_def mmk_stub_create_def mmk_init_def mmk_malloc_def Let_def
      scoped_allocations mmk_stub_create_static_def split_target_def mmk_plt_ctx_def plt_get_lib_def
      plt_get_offsets_def scoped_slots demo_ctx_def scoped_ctx_def realloc_block_def
      plt_get_selector_def selector_prefixes lib_matches_def get_lib_name_def set_stub_next_def mmk_strneq_take
      create_trampoline_def PAGE_SIZE_def sys_mmap_def mmk_mprotect_def mmk_free_def del: wr.simps)

lemma scoped_more_allocations:
  "libc_malloc demo_libc [(0x220000, 0x1000), (0x120000, 16), (0x60000, 2), (0x50000, 80), (0x210000, 0x1000), (0x110000, 16),
     (0x40000, 9), (0x30000, 80), (0x10000, 40), (0x400000, 0x1000), (0x7f0000, 0x1000)] 4096 = 0x20000"
  "libc_malloc demo_libc [(0x20000, 4096), (0x220000, 0x1000), (0x120000, 16), (0x60000, 2), (0x50000, 80), (0x210000, 0x1000),
     (0x110000, 16), (0x40000, 9), (0x30000, 80), (0x10000, 40), (0x400000, 0x1000), (0x7f0000, 0x1000)] 32 = 0x70000"
  "libc_malloc demo_libc [(0x70000, 32), (0x20000, 4096), (0x220000, 0x1000), (0x120000, 16), (0x60000, 2), (0x50000, 80),
     (0x210000, 0x1000), (0x110000, 16), (0x40000, 9), (0x30000, 80), (0x10000, 40), (0x400000, 0x1000), (0x7f0000, 0x1000)]
     32 = 0x80000"
  by (simp_all add: demo_allocations)

lemma scoped_setting: "setting_ok scoped_env demo_blueprint" "core_wf scoped_env scoped" "quiet demo_blueprint demo_frame scoped"
  "mmk_init scoped_env scoped = Inr scoped" "slots_ok (live scoped) ([0x400200] @ [0x4001f8])"
  "program_slots scoped [0x400200] (target_name ''f@file:x'') [0x4001f8]"
  using scoped_program scoped_target(3)
  by (simp_all add: setting_ok_def demo_libc_ok PAGE_SIZE_def ctype_ok_def core_wf_def fresh_block_def separate_iff
      quiet_def matchers_live_def within_def mmk_init_def slots_ok_def)

text \<open>A call of the program, through its own slot, and a verification through the pointer of the creation.\<close>

lemma scoped_session:
  obtains s r s' v s'' where
    "mmk_mock_create_internal scoped_env scoped ''f@file:x'' (bp_stub demo_blueprint) False = Inr (0x210010, s)"
    and "ld64 (mem s) 0x4001f8 = 0x220010"
    and "performs_via scoped_env demo_program demo_blueprint demo_frame s [(0x220010, Calls [3])] = Inr ([r], s')"
    and "perform scoped_env demo_program demo_blueprint demo_frame s' 0x210010
      (Checks [(MMK_MATCHER_EQ, 0, NULL)] [3] (no_keys\<lparr>vp_times := 1\<rparr>)) = Inr (v, s'')"
proof -
  let ?as = "[(MMK_MATCHER_EQ, 0, NULL)]" and ?k = "no_keys\<lparr>vp_times := 1\<rparr>"
  obtain s where c: "mmk_mock_create_internal scoped_env scoped ''f@file:x'' (bp_stub demo_blueprint) False = Inr (0x210010, s)"
    and live: "live s = [(0x220000, 0x1000), (0x120000, 16), (0x60000, 2), (0x50000, 80), (0x210000, 0x1000), (0x110000, 16),
       (0x40000, 9), (0x30000, 80), (0x10000, 40), (0x400000, 0x1000), (0x7f0000, 0x1000)]"
    and nolog: "\<forall>p mk. mocks s p = Some mk \<longrightarrow> mk_call_data mk = NULL" and slot: "ld64 (mem s) 0x4001f8 = 0x220010"
    using scoped_created by auto
  have old: "ld64 (mem scoped) 0x4001f8 = 0x777000"
    by (simp add: ld64_demo demo_word_simps)
  obtain mp where "enters scoped_env demo_blueprint demo_frame s mp [] [] 0x210010"
    and "enters scoped_env demo_blueprint demo_frame s mp [] [] 0x220010"
    using scoped_create_establishes [OF scoped_setting(1-4) scoped_target(1) scoped_setting(5,6) scoped_target(2) c] slot old
    by auto
  note e = this
  obtain stub where tr: "trampoline_of s stub = 0x220010"
    and inv: "mock_inv scoped_env demo_blueprint demo_frame s stub mp [] []"
    using e(2) by (auto simp: enters_def)
  obtain mk where mk: "mocks s mp = Some mk"
    using inv by (auto simp: mock_inv_def)
  have room: "log_room scoped_env s mk (sizeof_params (bp_params demo_blueprint))"
    using nolog mk by (simp add: log_room_def live scoped_more_allocations)
  obtain r s' where call: "call_mock scoped_env demo_program demo_blueprint demo_frame s 0x220010 [3] = Inr (r, s')"
    and live': "live s' = (0x20000, 4096) # live s"
    using call_mock_returns [OF scoped_setting(1) inv mk _ _ room, of "[3]" demo_program] nolog mk
    by (auto simp: tr in_range_def log_fits_def chosen_def calls_nothing_def log_live_def live scoped_more_allocations)
  have "perform scoped_env demo_program demo_blueprint demo_frame s 0x220010 (Calls [3]) = Inr (r, s')"
    using call by simp
  from perform_enters(1) [OF scoped_setting(1) e(2,1) _ _ _ this]
  have "enters scoped_env demo_blueprint demo_frame s' mp [[3]] [] 0x210010"
    by (simp add: no_calls_def log_fits_def in_range_def)
  then obtain stub' where tr': "trampoline_of s' stub' = 0x210010"
    and inv': "mock_inv scoped_env demo_blueprint demo_frame s' stub' mp [[3]] []"
    by (auto simp: enters_def)
  obtain v s'' where "mmk_verify scoped_env demo_program demo_blueprint demo_frame s' 0x210010 ?as [3] ?k = Inr (v, s'')"
    using mmk_verify_returns [OF scoped_setting(1) inv', of ?as _ demo_program "[3]" ?k]
    by (auto simp: tr' live' live scoped_more_allocations)
  with call c slot that [of s r s' "uint v" s''] show thesis
    by simp
qed

theorem scoped_mock_is_one_mock_witness:
  "\<exists>s r s' s''. mmk_mock_create_internal scoped_env scoped ''f@file:x'' 0x500000 False = Inr (0x210010, s) \<and>
     ld64 (mem s) 0x400200 = 0x210010 \<and> ld64 (mem s) 0x4001f8 = 0x220010 \<and>
     (\<exists>mp. leads_to scoped_env demo_blueprint s 0x210010 mp \<and> leads_to scoped_env demo_blueprint s 0x220010 mp) \<and>
     perform scoped_env demo_program demo_blueprint demo_frame s 0x220010 (Calls [3]) = Inr (r, s') \<and>
     perform scoped_env demo_program demo_blueprint demo_frame s' 0x210010
       (Checks [(MMK_MATCHER_EQ, 0, NULL)] [3] (no_keys\<lparr>vp_times := 1\<rparr>)) = Inr (1, s'')"
proof -
  let ?e = "Checks [(MMK_MATCHER_EQ, 0, NULL)] [3] (no_keys\<lparr>vp_times := 1\<rparr>)"
  obtain s r s' v s'' where c: "mmk_mock_create_internal scoped_env scoped ''f@file:x'' (bp_stub demo_blueprint) False = Inr (0x210010, s)"
    and slot: "ld64 (mem s) 0x4001f8 = 0x220010"
    and p: "performs_via scoped_env demo_program demo_blueprint demo_frame s [(0x220010, Calls [3])] = Inr ([r], s')"
    and v: "perform scoped_env demo_program demo_blueprint demo_frame s' 0x210010 ?e = Inr (v, s'')"
    by (rule scoped_session)
  have old: "ld64 (mem scoped) 0x4001f8 = 0x777000"
    by (simp add: ld64_demo demo_word_simps)
  note one = scoped_mock_is_one_mock [OF scoped_setting(1-4) scoped_target(1) scoped_setting(5,6) scoped_target(2) c _ _ _ p v]
  have "(\<exists>mp. leads_to scoped_env demo_blueprint s 0x210010 mp \<and> (\<forall>a \<in> set [0x400200]. ld64 (mem s) a = 0x210010) \<and>
      ([0x4001f8 :: addr] \<noteq> [] \<longrightarrow>
        (\<exists>u. u \<noteq> 0x210010 \<and> leads_to scoped_env demo_blueprint s u mp \<and> (\<forall>a \<in> set [0x4001f8]. ld64 (mem s) a = u)) \<or>
        errno s = - ENOMEM \<and> (\<forall>a \<in> set [0x4001f8]. ld64 (mem s) a = ld64 (mem scoped) a))) \<and>
      v = spec_value demo_program demo_blueprint (mem s'') (spec_history (map snd [(0x220010 :: addr, Calls [3])]))
        (spec_contracts (map snd [(0x220010 :: addr, Calls [3])]) []) ?e"
    by (rule one) (simp_all add: slot old [simplified] in_range_def log_fits_def)
  moreover have "accepts (\<lambda>_ v. if v = 3 then 1 else 0) [(0, MMK_MATCHER_EQ, NULL)] [3] [3]"
    by (simp add: accepts_def matcher_accepts_kinds node_of_def)
  ultimately have "ld64 (mem s) 0x400200 = 0x210010" and "v = 1"
    and "\<exists>mp. leads_to scoped_env demo_blueprint s 0x210010 mp \<and> leads_to scoped_env demo_blueprint s 0x220010 mp"
    by (auto simp: slot old [simplified] count_of_def verdict_def mmk_verify_times_def Let_def no_keys_def truth_def sort_key_def)
  with c slot p v show ?thesis
    by (auto simp: ends)
qed

end
