(* ===== verification/Machine.thy ===== *)
theory Machine
  imports Stub
begin

text \<open>
  Assembly code and the machine that runs it, as far as the trampolines of \<open>src/asm\<close> need them. A program is a list of
  labels and instructions; the assembler chooses the addresses of the instructions, and the processor gives
  each instruction a meaning on machine states. Memory is seen as cells of one machine word, and an access that is not
  aligned to cells is outside of the model (\<open>Stuck\<close>). The trampolines jump forward only, and so the execution is a
  recursion over the rest of the program.
\<close>

section \<open>Programs and their execution\<close>

datatype 'i line = Label string | Instr 'i

text \<open>What an instruction knows of its place: its own address, that of the next one, and those of the labels.\<close>

record 'a place =
  here :: 'a
  following :: 'a
  label_at :: "string \<Rightarrow> 'a"

datatype ('a, 'm) action =
    Next 'm
  | Goto string 'm
  | Leave 'a 'm
  | Stuck

fun after :: "string \<Rightarrow> 'i line list \<Rightarrow> 'i line list" where
  "after l [] = []"
| "after l (Label k # c) = (if k = l then c else after l c)"
| "after l (Instr i # c) = after l c"

fun instrs :: "'i line list \<Rightarrow> nat" where
  "instrs [] = 0"
| "instrs (Label k # c) = instrs c"
| "instrs (Instr i # c) = Suc (instrs c)"

lemma length_after: "length (after l c) \<le> length c"
  by (induction l c rule: after.induct) auto

text \<open>The layout gives the address of the instruction that starts the rest of the program with \<open>n\<close> instructions.\<close>

type_synonym 'w layout = "nat \<Rightarrow> 'w word"

function exec ::
  "('w::len word place \<Rightarrow> 'i \<Rightarrow> 'm \<Rightarrow> ('w word, 'm) action) \<Rightarrow> (string \<Rightarrow> 'w word) \<Rightarrow> 'w layout \<Rightarrow>
    'i line list \<Rightarrow> 'm \<Rightarrow> ('w word \<times> 'm) option" where
  "exec sem labels at [] m = None"
| "exec sem labels at (Label l # c) m = exec sem labels at c m"
| "exec sem labels at (Instr i # c) m =
     (case sem \<lparr>here = at (Suc (instrs c)), following = at (instrs c), label_at = labels\<rparr> i m of
        Next m \<Rightarrow> exec sem labels at c m
      | Goto l m \<Rightarrow> exec sem labels at (after l c) m
      | Leave a m \<Rightarrow> Some (a, m)
      | Stuck \<Rightarrow> None)"
  by pat_completeness auto

termination
  by (relation "measure (\<lambda>(_, _, _, c, _). length c)") (auto simp: le_imp_less_Suc length_after)

definition run ::
  "('w::len word place \<Rightarrow> 'i \<Rightarrow> 'm \<Rightarrow> ('w word, 'm) action) \<Rightarrow> 'w layout \<Rightarrow> 'i line list \<Rightarrow> 'm \<Rightarrow> ('w word \<times> 'm) option"
where
  "run sem at code m = exec sem (\<lambda>l. at (instrs (after l code))) at code m"

section \<open>Memory\<close>

definition cell_size :: "'w::len itself \<Rightarrow> nat" where
  "cell_size T = LENGTH('w) div 8"

abbreviation cell :: "'w::len word" where
  "cell \<equiv> of_nat (cell_size TYPE('w))"

definition aligned :: "'w::len word \<Rightarrow> bool" where
  "aligned a \<longleftrightarrow> cell_size TYPE('w) dvd unat a"

text \<open>
  \<open>lib\<close> is the state of the C library part that the code calls, and \<open>calls\<close> records the calls: target, stack pointer.
\<close>

record ('a, 's) machine =
  cells :: "'a \<Rightarrow> 'a"
  lib :: 's
  calls :: "('a \<times> 'a) list"

lemma cell_size_simps [simp]:
  "cell_size TYPE(64) = 8"
  "cell_size TYPE(32) = 4"
  by (simp_all add: cell_size_def)

definition load :: "('w::len word, 's, 'z) machine_scheme \<Rightarrow> 'w word \<Rightarrow> 'w word option" where
  "load m a = (if aligned a then Some (cells m a) else None)"

definition store ::
  "('w::len word, 's, 'z) machine_scheme \<Rightarrow> 'w word \<Rightarrow> 'w word \<Rightarrow> ('w word, 's, 'z) machine_scheme option" where
  "store m a v = (if aligned a then Some (m\<lparr>cells := (cells m)(a := v)\<rparr>) else None)"

definition act :: "'m option \<Rightarrow> ('a, 'm) action" where
  "act r = (case r of None \<Rightarrow> Stuck | Some m \<Rightarrow> Next m)"


section \<open>What the code calls\<close>

record ('a, 's) library =
  set_ctx :: "'a \<Rightarrow> 's \<Rightarrow> 's"
  asked :: "'s \<Rightarrow> cint \<times> 's"
  get_ctx :: "'s \<Rightarrow> 'a"

record ('a, 'm) process =
  callee :: "'a \<Rightarrow> 'm \<Rightarrow> 'm"
  layout :: "nat \<Rightarrow> 'a"
  limit :: 'a
  cpu :: 'm

section \<open>The stack frame of the code\<close>

text \<open>
  \<open>holds_words f a ws\<close>: the cells from \<open>a\<close> on hold the words \<open>ws\<close>. \<open>frame\<close>: the code has pushed \<open>ws\<close> below \<open>base\<close>; the stack
  can grow down to \<open>lim\<close>, and the cells outside of that part hold what they held at first.
\<close>

fun holds_words :: "('w::len word \<Rightarrow> 'w word) \<Rightarrow> 'w word \<Rightarrow> 'w word list \<Rightarrow> bool" where
  "holds_words f a [] \<longleftrightarrow> True"
| "holds_words f a (w # ws) \<longleftrightarrow> f a = w \<and> holds_words f (a + cell) ws"

definition off_stack :: "'w::len word \<Rightarrow> 'w word \<Rightarrow> 'w word \<Rightarrow> bool" where
  "off_stack lim base a \<longleftrightarrow> unat a < unat lim \<or> unat base \<le> unat a"

definition word_machine :: "'w::len itself \<Rightarrow> bool" where
  "word_machine T \<longleftrightarrow> LENGTH('w) = 32 \<or> LENGTH('w) = 64"

definition frame ::
  "'w::len word \<Rightarrow> 'w word \<Rightarrow> ('w word \<Rightarrow> 'w word) \<Rightarrow> 'w word \<Rightarrow> ('w word, 's, 'z) machine_scheme \<Rightarrow> 'w word list \<Rightarrow> bool"
where
  "frame lim base old sp m ws \<longleftrightarrow>
     word_machine TYPE('w) \<and> aligned sp \<and> unat lim + 256 \<le> unat base \<and> unat lim \<le> unat sp \<and>
     unat sp + cell_size TYPE('w) * length ws = unat base \<and> holds_words (cells m) sp ws \<and>
     (\<forall>a. off_stack lim base a \<longrightarrow> cells m a = old a)"

lemma word_machine_simps [simp]: "word_machine TYPE(32)" "word_machine TYPE(64)"
  by (simp_all add: word_machine_def)

lemma cell_facts:
  assumes "word_machine TYPE('w::len)"
  shows "unat (cell :: 'w word) = cell_size TYPE('w)" and "0 < cell_size TYPE('w)"
  using assms by (auto simp: word_machine_def cell_size_def unat_of_nat)

lemma holds_words_cong:
  assumes "holds_words f a ws" and "word_machine TYPE('w::len)"
    and "unat a + cell_size TYPE('w) * length ws < 2 ^ LENGTH('w)"
    and "\<And>x. unat a \<le> unat x \<Longrightarrow> unat x < unat a + cell_size TYPE('w) * length ws \<Longrightarrow> g x = f x"
  shows "holds_words g (a :: 'w word) ws"
  using assms
proof (induction f a ws rule: holds_words.induct)
  case (2 f a w ws)
  note c = cell_facts [OF 2(3)]
  have "unat (a + cell) = unat a + cell_size TYPE('w)"
    using 2(4) c by (subst unat_add_lem [THEN iffD1]) auto
  moreover have "g a = f a"
    using 2(5) [of a] c by auto
  ultimately show ?case
    using 2 by auto
qed simp

lemma frame_bound:
  fixes sp :: "'w::len word"
  assumes "frame lim base old sp m ws"
  shows "unat sp + cell_size TYPE('w) * length ws < 2 ^ LENGTH('w)" and "word_machine TYPE('w)"
    and "holds_words (cells m) sp ws"
proof -
  have "unat base < 2 ^ LENGTH('w)"
    by (rule unsigned_less)
  with assms show "unat sp + cell_size TYPE('w) * length ws < 2 ^ LENGTH('w)"
    by (simp only: frame_def)
qed (use assms in \<open>simp_all only: frame_def\<close>)

lemma frame_pop:
  fixes sp :: "'w::len word"
  assumes "frame lim base old sp m (w # ws)"
  shows "load m sp = Some w" and "frame lim base old (sp + cell) m ws"
proof -
  note b = frame_bound [OF assms]
  note c = cell_facts [OF b(2)]
  have u: "unat (sp + cell) = unat sp + cell_size TYPE('w)"
    using b(1) c by (subst unat_add_lem [THEN iffD1]) auto
  from assms show "load m sp = Some w"
    by (simp add: frame_def load_def)
  from assms u show "frame lim base old (sp + cell) m ws"
    by (auto simp: frame_def aligned_def)
qed

lemma frame_push:
  fixes sp :: "'w::len word" and m :: "('w word, 's, 'z) machine_scheme"
  assumes "frame lim base old sp m ws" and "cell_size TYPE('w) * Suc (length ws) \<le> 256"
  obtains m' where "store m (sp - cell) v = Some m'" and "m' = m\<lparr>cells := (cells m)(sp - cell := v)\<rparr>"
    and "frame lim base old (sp - cell) m' (v # ws)"
proof -
  let ?m = "m\<lparr>cells := (cells m)(sp - cell := v)\<rparr>"
  note b = frame_bound [OF assms(1)]
  note c = cell_facts [OF b(2)]
  have le: "unat lim + cell_size TYPE('w) \<le> unat sp"
    using assms by (auto simp: frame_def)
  then have u: "unat (sp - cell) = unat sp - cell_size TYPE('w)"
    using c by (subst unat_sub) (auto simp: word_le_nat_alt)
  have a: "aligned (sp - cell)"
    using assms(1) by (simp add: aligned_def u frame_def dvd_diff_nat)
  have "holds_words (cells ?m) sp ws"
    by (rule holds_words_cong [OF b(3,2,1)]) (use u c le in auto)
  moreover have "cells ?m x = cells m x" if "off_stack lim base x" for x
    using that u le c assms(1) by (auto simp: off_stack_def frame_def)
  ultimately have "frame lim base old (sp - cell) ?m (v # ws)"
    using assms(1) a u le by (auto simp: frame_def)
  with a show thesis
    by (intro that [of ?m]) (simp_all add: store_def)
qed

lemma frame_outside:
  "frame lim base old sp m ws \<Longrightarrow> off_stack lim base a \<Longrightarrow> aligned a \<Longrightarrow> load m a = Some (old a)"
  by (simp add: frame_def load_def)

text \<open>A function that keeps the cells which it does not own keeps the frame of its caller.\<close>

lemma frame_kept:
  fixes sp :: "'w::len word"
  assumes "frame lim base old sp m ws"
    and "\<And>a. unat a < unat lim \<or> unat sp \<le> unat a \<Longrightarrow> cells m' a = cells m a"
  shows "frame lim base old sp m' ws"
proof -
  have "holds_words (cells m') sp ws"
    by (rule holds_words_cong [OF frame_bound(3,2,1) [OF assms(1)]]) (simp add: assms(2))
  moreover have "cells m' a = cells m a" if "off_stack lim base a" for a
    using that assms(1) by (intro assms(2)) (auto simp: off_stack_def frame_def)
  ultimately show ?thesis
    using assms(1) by (auto simp: frame_def)
qed

lemma aligned_apart:
  fixes a b :: "'w::len word"
  assumes "aligned a" and "aligned b" and "unat b \<le> unat a" and "unat a < unat b + cell_size TYPE('w)"
  shows "a = b"
proof -
  have "cell_size TYPE('w) dvd unat a - unat b"
    using assms(1,2) by (simp add: aligned_def dvd_diff_nat)
  with assms(3,4) have "unat a = unat b"
    by (metis add.commute diff_is_0_eq dvd_imp_le le_antisym less_diff_conv2 linorder_not_le zero_less_diff)
  then show ?thesis
    by (simp add: word_unat_eq_iff)
qed

lemma frame_sp:
  fixes sp :: "'w::len word"
  assumes "frame lim base old sp m ws"
  shows "sp = base - of_nat (cell_size TYPE('w) * length ws)"
proof -
  define k where "k = cell_size TYPE('w) * length ws"
  have "of_nat (unat sp + k) = (of_nat (unat base) :: 'w word)"
    using assms by (simp only: frame_def k_def)
  then have "sp + of_nat k = base"
    by simp
  then show ?thesis
    by (simp only: eq_diff_eq flip: k_def)
qed

text \<open>With one word left on the frame that the stack held there at first, the memory is as it was.\<close>

lemma frame_single:
  assumes "frame lim base old sp m [old sp]" and "aligned b" and "off_stack lim sp b"
  shows "cells m b = old b"
proof (cases "off_stack lim base b")
  case True
  with assms(1) show ?thesis by (simp add: frame_def)
next
  case False
  with assms have "b = sp"
    by (intro aligned_apart) (auto simp: frame_def off_stack_def)
  with assms(1) show ?thesis by (simp add: frame_def)
qed

section \<open>Execution over views\<close>

text \<open>
  The programs are followed on views of the machine: \<open>V v m\<close> says that \<open>v\<close> is one of \<open>m\<close>. \<open>goes\<close>: from every state with the view \<open>v\<close> the code
  leaves to an address, in a state with a view of which \<open>Q\<close> holds. Each instruction has a rule for it.
\<close>

definition goes ::
  "('w::len word place \<Rightarrow> 'i \<Rightarrow> 'm \<Rightarrow> ('w word, 'm) action) \<Rightarrow> (string \<Rightarrow> 'w word) \<Rightarrow> 'w layout \<Rightarrow> ('v \<Rightarrow> 'm \<Rightarrow> bool) \<Rightarrow>
    'i line list \<Rightarrow> 'v \<Rightarrow> ('w word \<Rightarrow> 'v \<Rightarrow> bool) \<Rightarrow> bool" where
  "goes sem labels at V c v Q \<longleftrightarrow> (\<forall>m. V v m \<longrightarrow>
     (\<exists>a m' v'. exec sem labels at c m = Some (a, m') \<and> V v' m' \<and> Q a v'))"

abbreviation place_of :: "(string \<Rightarrow> 'w word) \<Rightarrow> 'w::len layout \<Rightarrow> 'i line list \<Rightarrow> 'w word place" where
  "place_of labels at c \<equiv> \<lparr>here = at (Suc (instrs c)), following = at (instrs c), label_at = labels\<rparr>"

lemma goes_label:
  "goes sem labels at V c v Q \<Longrightarrow> goes sem labels at V (Label l # c) v Q"
  by (simp add: goes_def)

lemma goes_next:
  assumes "goes sem labels at V c v' Q"
    and "\<And>m. V v m \<Longrightarrow> \<exists>m'. sem (place_of labels at c) i m = Next m' \<and> V v' m'"
  shows "goes sem labels at V (Instr i # c) v Q"
  unfolding goes_def
proof (intro allI impI)
  fix m
  assume "V v m"
  from assms(2) [OF this] obtain m' where "sem (place_of labels at c) i m = Next m'" and "V v' m'"
    by blast
  with assms(1) show "\<exists>a m' v'. exec sem labels at (Instr i # c) m = Some (a, m') \<and> V v' m' \<and> Q a v'"
    by (auto simp: goes_def)
qed

lemma goes_goto:
  assumes "goes sem labels at V (after k c) v' Q"
    and "\<And>m. V v m \<Longrightarrow> \<exists>m'. sem (place_of labels at c) i m = Goto k m' \<and> V v' m'"
  shows "goes sem labels at V (Instr i # c) v Q"
  unfolding goes_def
proof (intro allI impI)
  fix m
  assume "V v m"
  from assms(2) [OF this] obtain m' where "sem (place_of labels at c) i m = Goto k m'" and "V v' m'"
    by blast
  with assms(1) show "\<exists>a m' v'. exec sem labels at (Instr i # c) m = Some (a, m') \<and> V v' m' \<and> Q a v'"
    by (auto simp: goes_def)
qed

lemma goes_leave:
  assumes "Q a v'"
    and "\<And>m. V v m \<Longrightarrow> \<exists>m'. sem (place_of labels at c) i m = Leave a m' \<and> V v' m'"
  shows "goes sem labels at V (Instr i # c) v Q"
  unfolding goes_def
proof (intro allI impI)
  fix m
  assume "V v m"
  from assms(2) [OF this] obtain m' where "sem (place_of labels at c) i m = Leave a m'" and "V v' m'"
    by blast
  moreover from this have "exec sem labels at (Instr i # c) m = Some (a, m')"
    by simp
  ultimately show "\<exists>a m' v'. exec sem labels at (Instr i # c) m = Some (a, m') \<and> V v' m' \<and> Q a v'"
    using assms(1) by blast
qed

text \<open>An instruction that goes on in a state of which only some view is known, such as a call.\<close>

lemma goes_some:
  assumes "\<And>m. V v m \<Longrightarrow> \<exists>m' v'. sem (place_of labels at c) i m = Next m' \<and> V v' m' \<and> goes sem labels at V c v' Q"
  shows "goes sem labels at V (Instr i # c) v Q"
  unfolding goes_def
proof (intro allI impI)
  fix m
  assume "V v m"
  from assms [OF this] obtain m' v' where "sem (place_of labels at c) i m = Next m'" and "V v' m'"
    and "goes sem labels at V c v' Q"
    by blast
  then show "\<exists>a m' v'. exec sem labels at (Instr i # c) m = Some (a, m') \<and> V v' m' \<and> Q a v'"
    by (auto simp: goes_def)
qed

text \<open>Programs as lists of instructions.\<close>

lemma code_list:
  "(x # xs) @ ys = x # (xs @ ys)" "map f (xs @ ys) @ zs = map f xs @ (map f ys @ zs)"
  "map Instr (i # is) @ zs = Instr i # (map Instr is @ zs)" "map f [] @ zs = zs" "[] @ zs = zs"
  by simp_all

section \<open>Pages, stubs, and what an entry does\<close>

text \<open>
  In front of the code at \<open>t\<close> its page holds the context and the routine. The context is a stub, which starts with the addresses of
  \<open>ctx_asked\<close>, \<open>ctx_set\<close> and \<open>ctx_get\<close>. All of these cells lie outside of the part of the stack that is in use.
\<close>

definition page_ctx :: "('w::len word, 's, 'z) machine_scheme \<Rightarrow> 'w word \<Rightarrow> 'w word" where
  "page_ctx m t = cells m (t - 2 * cell)"

definition page_routine :: "('w::len word, 's, 'z) machine_scheme \<Rightarrow> 'w word \<Rightarrow> 'w word" where
  "page_routine m t = cells m (t - cell)"

definition stub_placed :: "'w::len word \<Rightarrow> 'w word \<Rightarrow> ('w word, 's, 'z) machine_scheme \<Rightarrow> 'w word \<Rightarrow> bool" where
  "stub_placed lim base m t \<longleftrightarrow> aligned t \<and> aligned (page_ctx m t) \<and>
     (\<forall>a \<in> {t - 2 * cell, t - cell, page_ctx m t, page_ctx m t + cell, page_ctx m t + 2 * cell}. off_stack lim base a)"

lemma aligned_add_diff:
  fixes a b :: "'w::len word"
  assumes "cell_size TYPE('w) dvd 2 ^ LENGTH('w)" and "aligned a" and "aligned b"
  shows "aligned (a + b)" and "aligned (a - b)"
  using assms
  by (simp_all add: aligned_def unat_word_ariths dvd_mod unat_sub_if' dvd_diff_nat dvd_add)

lemma aligned_simps [simp]:
  "aligned (a :: 64 word) \<Longrightarrow> aligned (a + 8)" "aligned (a :: 64 word) \<Longrightarrow> aligned (a + 16)"
  "aligned (a :: 64 word) \<Longrightarrow> aligned (a - 8)" "aligned (a :: 64 word) \<Longrightarrow> aligned (a - 16)"
  "aligned (b :: 32 word) \<Longrightarrow> aligned (b + 4)" "aligned (b :: 32 word) \<Longrightarrow> aligned (b + 8)"
  "aligned (b :: 32 word) \<Longrightarrow> aligned (b - 4)" "aligned (b :: 32 word) \<Longrightarrow> aligned (b - 8)"
  by (auto intro!: aligned_add_diff) (simp_all add: aligned_def)

text \<open>
  The code tests the whole register in which the \<open>int\<close> of \<open>ctx_asked\<close> comes: this says that the register is zero exactly for
  the value zero.
\<close>

definition tested_alike :: "'w::len word \<Rightarrow> cint \<Rightarrow> bool" where
  "tested_alike v i \<longleftrightarrow> (v = 0 \<longleftrightarrow> i = 0)"

lemma tested_alike_zero [simp]:
  "tested_alike 0 i \<longleftrightarrow> i = 0"
  "tested_alike v 0 \<longleftrightarrow> v = 0"
  by (auto simp: tested_alike_def)

abbreviation answer :: "('a, 's) library \<Rightarrow> 'a \<Rightarrow> 's \<Rightarrow> cint \<times> 's" where
  "answer L ctx d \<equiv> asked L (set_ctx L ctx d)"

text \<open>What entering the code at \<open>t\<close> in a state \<open>m\<close> has to give.\<close>

definition entered ::
  "('w::len word, 's) library \<Rightarrow> ('w word, 's, 'z) machine_scheme \<Rightarrow> 'w word \<Rightarrow> 'w word \<Rightarrow> (('w word, 's, 'z) machine_scheme \<Rightarrow> bool) \<Rightarrow>
    ('w word \<Rightarrow> ('w word, 's, 'z) machine_scheme \<Rightarrow> bool) \<Rightarrow> ('w word \<times> ('w word, 's, 'z) machine_scheme) option \<Rightarrow> bool" where
  "entered L m t caller passes answers r \<longleftrightarrow>
     (let d = answer L (page_ctx m t) (lib m)
      in case r of None \<Rightarrow> False
         | Some (a, n) \<Rightarrow> lib n = snd d \<and>
             (if fst d = 0 then a = page_routine m t \<and> passes n else a = caller \<and> answers (get_ctx L (snd d)) n))"

text \<open>
  The contract of a trampoline, whatever the processor: entered in a state that is ready, it sets the context and asks; then
  it jumps to the routine, with what the caller has passed, or it returns the context to the caller.
\<close>

type_synonym ('w, 's, 'z) running = "('w word, ('w word, 's, 'z) machine_scheme) process"

locale trampoline =
  fixes enter :: "('w::len, 's, 'z) running \<Rightarrow> ('w word \<times> ('w word, 's, 'z) machine_scheme) option"
    and ready :: "('w, 's, 'z) running \<Rightarrow> bool"
    and L :: "('w word, 's) library"
    and entry :: "('w, 's, 'z) running \<Rightarrow> 'w word"
    and caller :: "('w, 's, 'z) running \<Rightarrow> 'w word"
    and passes :: "('w, 's, 'z) running \<Rightarrow> ('w word, 's, 'z) machine_scheme \<Rightarrow> bool"
    and answers :: "('w, 's, 'z) running \<Rightarrow> 'w word \<Rightarrow> ('w word, 's, 'z) machine_scheme \<Rightarrow> bool"
  assumes enter_jumps: "ready p \<Longrightarrow> fst (answer L (page_ctx (cpu p) (entry p)) (lib (cpu p))) = 0 \<Longrightarrow>
      \<exists>m. enter p = Some (page_routine (cpu p) (entry p), m) \<and> passes p m \<and>
        lib m = snd (answer L (page_ctx (cpu p) (entry p)) (lib (cpu p)))"
    and enter_answers: "ready p \<Longrightarrow> fst (answer L (page_ctx (cpu p) (entry p)) (lib (cpu p))) \<noteq> 0 \<Longrightarrow>
      \<exists>m. enter p = Some (caller p, m) \<and> answers p (get_ctx L (snd (answer L (page_ctx (cpu p) (entry p)) (lib (cpu p))))) m \<and>
        lib m = snd (answer L (page_ctx (cpu p) (entry p)) (lib (cpu p)))"
begin

lemma enter_entered: "ready p \<Longrightarrow> entered L (cpu p) (entry p) (caller p) (passes p) (answers p) (enter p)"
  using enter_jumps enter_answers by (fastforce simp: entered_def)

lemma enter_returns: "ready p \<Longrightarrow> \<exists>r. enter p = Some r"
  using enter_jumps enter_answers by blast

end

end
