(* ===== verification/X86.thy ===== *)
theory X86
  imports Machine
begin

datatype reg = AX | BX | CX | DX | SI | DI | BP | SP | R8 | R9 | R10 | R11 | R12 | R13 | R14 | R15

datatype disp = Bytes int | Diff string string int

datatype x86_instr =
    Endbr64
  | Call_near string
  | Call_reg reg
  | Call_mem disp reg
  | Push reg
  | Pop reg
  | Mov reg reg
  | Load reg disp reg
  | Sub_imm reg int
  | Add_imm reg int
  | And_imm reg int
  | Movdqu_store reg nat
  | Movdqu_load nat reg
  | Test reg reg
  | Jnz string
  | Jmp_reg reg
  | Jmp_mem disp reg
  | Ret

record ('a, 's) x86 = "('a, 's) machine" +
  gpr :: "reg \<Rightarrow> 'a"
  xmm :: "nat \<Rightarrow> 'a \<times> 'a"
  zf :: bool

fun displacement :: "'w::len word place \<Rightarrow> disp \<Rightarrow> 'w word" where
  "displacement p (Bytes n) = of_int n"
| "displacement p (Diff k l n) = label_at p k - label_at p l + of_int n"

definition set_gpr :: "reg \<Rightarrow> 'a \<Rightarrow> ('a, 's) x86 \<Rightarrow> ('a, 's) x86" where
  "set_gpr r v m = m\<lparr>gpr := (gpr m)(r := v)\<rparr>"

definition push :: "'w::len word \<Rightarrow> ('w word, 's) x86 \<Rightarrow> ('w word, 's) x86 option" where
  "push v m = map_option (set_gpr SP (gpr m SP - cell)) (store m (gpr m SP - cell) v)"

definition call_out ::
  "('w::len word \<Rightarrow> ('w word, 's) x86 \<Rightarrow> ('w word, 's) x86) \<Rightarrow> 'w word \<Rightarrow> 'w word \<Rightarrow> ('w word, 's) x86 \<Rightarrow>
    ('w word, ('w word, 's) x86) action" where
  "call_out C ret f m = act (map_option (\<lambda>p. (C f p)\<lparr>calls := calls m @ [(f, gpr m SP)]\<rparr>) (push ret m))"

fun x86_sem ::
  "('w::len word \<Rightarrow> ('w word, 's) x86 \<Rightarrow> ('w word, 's) x86) \<Rightarrow> 'w word place \<Rightarrow> x86_instr \<Rightarrow> ('w word, 's) x86 \<Rightarrow>
    ('w word, ('w word, 's) x86) action" where
  "x86_sem C p Endbr64 m = Next m"
| "x86_sem C p (Call_near l) m = (case push (following p) m of None \<Rightarrow> Stuck | Some m \<Rightarrow> Goto l m)"
| "x86_sem C p (Call_reg r) m = call_out C (following p) (gpr m r) m"
| "x86_sem C p (Call_mem d r) m =
     (case load m (gpr m r + displacement p d) of None \<Rightarrow> Stuck | Some f \<Rightarrow> call_out C (following p) f m)"
| "x86_sem C p (Push r) m = act (push (gpr m r) m)"
| "x86_sem C p (Pop r) m =
     act (map_option (\<lambda>v. set_gpr r v (set_gpr SP (gpr m SP + cell) m)) (load m (gpr m SP)))"
| "x86_sem C p (Mov d r) m = Next (set_gpr d (gpr m r) m)"
| "x86_sem C p (Load d k b) m = act (map_option (\<lambda>v. set_gpr d v m) (load m (gpr m b + displacement p k)))"
| "x86_sem C p (Sub_imm r n) m = (let v = gpr m r - of_int n in Next (set_gpr r v (m\<lparr>zf := v = 0\<rparr>)))"
| "x86_sem C p (Add_imm r n) m = (let v = gpr m r + of_int n in Next (set_gpr r v (m\<lparr>zf := v = 0\<rparr>)))"
| "x86_sem C p (And_imm r n) m = (let v = and (gpr m r) (of_int n) in Next (set_gpr r v (m\<lparr>zf := v = 0\<rparr>)))"
| "x86_sem C p (Movdqu_store b x) m =
     (if LENGTH('w) \<noteq> 64 then Stuck
      else act (Option.bind (store m (gpr m b) (fst (xmm m x))) (\<lambda>m. store m (gpr m b + cell) (snd (xmm m x)))))"
| "x86_sem C p (Movdqu_load x b) m =
     (if LENGTH('w) \<noteq> 64 then Stuck
      else act (Option.bind (load m (gpr m b)) (\<lambda>lo.
             map_option (\<lambda>hi. m\<lparr>xmm := (xmm m)(x := (lo, hi))\<rparr>) (load m (gpr m b + cell)))))"
| "x86_sem C p (Test a b) m = Next (m\<lparr>zf := and (gpr m a) (gpr m b) = 0\<rparr>)"
| "x86_sem C p (Jnz l) m = (if zf m then Next m else Goto l m)"
| "x86_sem C p (Jmp_reg r) m = Leave (gpr m r) m"
| "x86_sem C p (Jmp_mem d r) m =
     (case load m (gpr m r + displacement p d) of None \<Rightarrow> Stuck | Some a \<Rightarrow> Leave a m)"
| "x86_sem C p Ret m =
     (case load m (gpr m SP) of None \<Rightarrow> Stuck | Some a \<Rightarrow> Leave a (set_gpr SP (gpr m SP + cell) m))"

definition PUSHDQ :: "nat \<Rightarrow> x86_instr list" where
  "PUSHDQ x = [Sub_imm SP 0x10, Movdqu_store SP x]"

definition POPDQ :: "nat \<Rightarrow> x86_instr list" where
  "POPDQ x = [Movdqu_load x SP, Add_imm SP 0x10]"

section \<open>Calling conventions\<close>

text \<open>
  What a convention says: the registers that hold arguments, those that a function restores (the stack pointer is always one), how many
  bytes above the return address it may use for itself, and where its first argument is. A function may write to the
  unused part of the stack, which starts at \<open>lim\<close>.
\<close>

record ('a, 's) convention =
  passed :: "reg set"
  xpassed :: "nat set"
  saved :: "reg set"
  xsaved :: "nat set"
  home :: nat
  argument :: "('a, 's) x86 \<Rightarrow> 'a"

definition systemv :: "('a, 's) convention" where
  "systemv = \<lparr>passed = {DI, SI, DX, CX, R8, R9, AX}, xpassed = {0, 1, 2, 3, 4, 5, 6, 7},
     saved = {BX, BP, R12, R13, R14, R15}, xsaved = {}, home = 0, argument = (\<lambda>m. gpr m DI)\<rparr>"

definition windows :: "('a, 's) convention" where
  "windows = \<lparr>passed = {CX, DX, R8, R9}, xpassed = {0, 1, 2, 3},
     saved = {BX, BP, SI, DI, R12, R13, R14, R15}, xsaved = {6, 7, 8, 9, 10, 11, 12, 13, 14, 15}, home = 32, argument = (\<lambda>m. gpr m CX)\<rparr>"

definition cdecl :: "('w::len word, 's) convention" where
  "cdecl = \<lparr>passed = {}, xpassed = {},
     saved = {BX, BP, SI, DI}, xsaved = {}, home = 4, argument = (\<lambda>m. cells m (gpr m SP + cell))\<rparr>"

lemma convention_simps [simp]:
  "passed (systemv :: ('a, 's) convention) = {DI, SI, DX, CX, R8, R9, AX}"
  "xpassed (systemv :: ('a, 's) convention) = {0, 1, 2, 3, 4, 5, 6, 7}"
  "saved (systemv :: ('a, 's) convention) = {BX, BP, R12, R13, R14, R15}"
  "xsaved (systemv :: ('a, 's) convention) = {}"
  "home (systemv :: ('a, 's) convention) = 0"
  "argument (systemv :: ('a, 's) convention) m = gpr m DI"
  "passed (windows :: ('a, 's) convention) = {CX, DX, R8, R9}"
  "xpassed (windows :: ('a, 's) convention) = {0, 1, 2, 3}"
  "saved (windows :: ('a, 's) convention) = {BX, BP, SI, DI, R12, R13, R14, R15}"
  "xsaved (windows :: ('a, 's) convention) = {6, 7, 8, 9, 10, 11, 12, 13, 14, 15}"
  "home (windows :: ('a, 's) convention) = 32"
  "argument (windows :: ('a, 's) convention) m = gpr m CX"
  "passed (cdecl :: ('w::len word, 's) convention) = {}"
  "xpassed (cdecl :: ('w::len word, 's) convention) = {}"
  "saved (cdecl :: ('w::len word, 's) convention) = {BX, BP, SI, DI}"
  "xsaved (cdecl :: ('w::len word, 's) convention) = {}"
  "home (cdecl :: ('w::len word, 's) convention) = 4"
  "argument (cdecl :: ('w::len word, 's) convention) m' = cells m' (gpr m' SP + cell)"
  by (simp_all add: systemv_def windows_def cdecl_def)

definition keeps ::
  "('w::len word, 's) convention \<Rightarrow> 'w word \<Rightarrow> ('w word \<Rightarrow> ('w word, 's) x86 \<Rightarrow> ('w word, 's) x86) \<Rightarrow> 'w word \<Rightarrow> bool" where
  "keeps A lim C f \<longleftrightarrow> (\<forall>m. unat lim \<le> unat (gpr m SP) \<longrightarrow>
     (\<forall>r\<in>saved A. gpr (C f m) r = gpr m r) \<and> (\<forall>x\<in>xsaved A. xmm (C f m) x = xmm m x) \<and>
     gpr (C f m) SP = gpr m SP + cell \<and>
     (\<forall>a. unat a < unat lim \<or> unat (gpr m SP) + cell_size TYPE('w) + home A \<le> unat a \<longrightarrow> cells (C f m) a = cells m a))"

text \<open>The three functions of the stub, at the addresses \<open>fs\<close>, \<open>fa\<close> and \<open>fg\<close>: what they do, and how an \<open>int\<close> is returned.\<close>

definition serves ::
  "('w::len word, 's) convention \<Rightarrow> ('w word \<Rightarrow> cint \<Rightarrow> bool) \<Rightarrow> ('w word, 's) library \<Rightarrow> 'w word \<Rightarrow>
    ('w word \<Rightarrow> ('w word, 's) x86 \<Rightarrow> ('w word, 's) x86) \<Rightarrow> 'w word \<Rightarrow> 'w word \<Rightarrow> 'w word \<Rightarrow> bool" where
  "serves A int_result L lim C fs fa fg \<longleftrightarrow>
     keeps A lim C fs \<and> keeps A lim C fa \<and> keeps A lim C fg \<and>
     (\<forall>m. unat lim \<le> unat (gpr m SP) \<longrightarrow>
        lib (C fs m) = set_ctx L (argument A m) (lib m) \<and>
        int_result (gpr (C fa m) AX) (fst (asked L (lib m))) \<and> lib (C fa m) = snd (asked L (lib m)) \<and>
        gpr (C fg m) AX = get_ctx L (lib m) \<and> lib (C fg m) = lib m)"

section \<open>Execution over frames\<close>

type_synonym ('a, 's) view = "(reg \<Rightarrow> 'a) \<times> (nat \<Rightarrow> 'a \<times> 'a) \<times> bool \<times> 'a list \<times> 's \<times> ('a \<times> 'a) list"

fun viewed ::
  "'w::len word \<Rightarrow> 'w word \<Rightarrow> ('w word \<Rightarrow> 'w word) \<Rightarrow> ('w word, 's) view \<Rightarrow> ('w word, 's) x86 \<Rightarrow> bool" where
  "viewed lim base old (g, x, z, ws, l, cs) m \<longleftrightarrow>
     frame lim base old (gpr m SP) m ws \<and> (\<forall>r. r \<noteq> SP \<longrightarrow> gpr m r = g r) \<and> xmm m = x \<and> zf m = z \<and> lib m = l \<and> calls m = cs"

lemma viewed_push:
  fixes ws :: "'w::len word list"
  assumes "viewed lim base old (g, x, z, ws, l, cs) m" and "cell_size TYPE('w) * Suc (length ws) \<le> 256"
  obtains m' where "push w m = Some m'" and "viewed lim base old (g, x, z, w # ws, l, cs) m'"
proof -
  from assms(1) have "frame lim base old (gpr m SP) m ws"
    by simp
  from this assms(2) obtain m' where "store m (gpr m SP - cell) w = Some m'"
    and "m' = m\<lparr>cells := (cells m)(gpr m SP - cell := w)\<rparr>" and "frame lim base old (gpr m SP - cell) m' (w # ws)"
    by (rule frame_push)
  with assms(1) show ?thesis
    by (intro that [of "set_gpr SP (gpr m SP - cell) m'"]) (auto simp: push_def set_gpr_def frame_def)
qed

lemma viewed_load:
  assumes "viewed lim base old (g, x, z, ws, l, cs) m" and "off_stack lim base a" and "aligned a"
  shows "load m a = Some (old a)"
  using assms by (auto intro: frame_outside)

lemma viewed_set:
  "viewed lim base old (g, x, z, ws, l, cs) m \<Longrightarrow> r \<noteq> SP \<Longrightarrow> viewed lim base old (g(r := v), x, z, ws, l, cs) (set_gpr r v m)"
  by (auto simp: set_gpr_def frame_def)

lemma goes_endbr:
  "goes (x86_sem C) labels at (viewed lim base old) c v Q \<Longrightarrow> goes (x86_sem C) labels at (viewed lim base old) (Instr Endbr64 # c) v Q"
  by (erule goes_next) auto

lemma goes_push:
  fixes ws :: "'w::len word list"
  assumes "r \<noteq> SP" and "cell_size TYPE('w) * Suc (length ws) \<le> 256"
    and "goes (x86_sem C) labels at (viewed lim base old) c (g, x, z, g r # ws, l, cs) Q"
  shows "goes (x86_sem C) labels at (viewed lim base old) (Instr (Push r) # c) (g, x, z, ws, l, cs) Q"
proof (rule goes_next [OF assms(3)])
  fix m
  assume v: "viewed lim base old (g, x, z, ws, l, cs) m"
  then obtain m' where "push (g r) m = Some m'" and "viewed lim base old (g, x, z, g r # ws, l, cs) m'"
    using assms(2) by (rule viewed_push)
  moreover have "gpr m r = g r"
    using v assms(1) by simp
  ultimately show "\<exists>m'. x86_sem C (place_of labels at c) (Push r) m = Next m' \<and> viewed lim base old (g, x, z, g r # ws, l, cs) m'"
    by (simp add: act_def)
qed

lemma goes_call_near:
  fixes ws :: "'w::len word list"
  assumes "cell_size TYPE('w) * Suc (length ws) \<le> 256"
    and "goes (x86_sem C) labels at (viewed lim base old) (after k c) (g, x, z, at (instrs c) # ws, l, cs) Q"
  shows "goes (x86_sem C) labels at (viewed lim base old) (Instr (Call_near k) # c) (g, x, z, ws, l, cs) Q"
proof (rule goes_goto [OF assms(2)])
  fix m
  assume "viewed lim base old (g, x, z, ws, l, cs) m"
  then obtain m' where "push (at (instrs c)) m = Some m'" and "viewed lim base old (g, x, z, at (instrs c) # ws, l, cs) m'"
    using assms(1) by (rule viewed_push)
  then show "\<exists>m'. x86_sem C (place_of labels at c) (Call_near k) m = Goto k m' \<and>
      viewed lim base old (g, x, z, at (instrs c) # ws, l, cs) m'"
    by simp
qed

lemma goes_pop:
  assumes "r \<noteq> SP" and "goes (x86_sem C) labels at (viewed lim base old) c (g(r := w), x, z, ws, l, cs) Q"
  shows "goes (x86_sem C) labels at (viewed lim base old) (Instr (Pop r) # c) (g, x, z, w # ws, l, cs) Q"
proof (rule goes_next [OF assms(2)])
  fix m
  assume v: "viewed lim base old (g, x, z, w # ws, l, cs) m"
  then have "frame lim base old (gpr m SP) m (w # ws)"
    by simp
  from frame_pop [OF this] v assms(1)
  show "\<exists>m'. x86_sem C (place_of labels at c) (Pop r) m = Next m' \<and> viewed lim base old (g(r := w), x, z, ws, l, cs) m'"
    by (auto simp: act_def set_gpr_def frame_def)
qed

lemma goes_mov:
  assumes "r \<noteq> SP" and "d \<noteq> SP" and "goes (x86_sem C) labels at (viewed lim base old) c (g(d := g r), x, z, ws, l, cs) Q"
  shows "goes (x86_sem C) labels at (viewed lim base old) (Instr (Mov d r) # c) (g, x, z, ws, l, cs) Q"
  using assms(1,2) by (intro goes_next [OF assms(3)]) (auto simp: set_gpr_def frame_def)

lemma goes_load:
  assumes "b \<noteq> SP" and "d \<noteq> SP" and "g b + displacement (place_of labels at c) k = a" and "off_stack lim base a" and "aligned a"
    and "goes (x86_sem C) labels at (viewed lim base old) c (g(d := old a), x, z, ws, l, cs) Q"
  shows "goes (x86_sem C) labels at (viewed lim base old) (Instr (Load d k b) # c) (g, x, z, ws, l, cs) Q"
proof (rule goes_next [OF assms(6)])
  fix m
  assume v: "viewed lim base old (g, x, z, ws, l, cs) m"
  then have "gpr m b = g b"
    using assms(1) by simp
  with viewed_load [OF v assms(4,5)] viewed_set [OF v assms(2)]
  show "\<exists>m'. x86_sem C (place_of labels at c) (Load d k b) m = Next m' \<and> viewed lim base old (g(d := old a), x, z, ws, l, cs) m'"
    by (simp add: act_def assms(3))
qed


lemma goes_and:
  assumes "r \<noteq> SP" and "\<And>z. goes (x86_sem C) labels at (viewed lim base old) c (g(r := and (g r) (of_int n)), x, z, ws, l, cs) Q"
  shows "goes (x86_sem C) labels at (viewed lim base old) (Instr (And_imm r n) # c) (g, x, z, ws, l, cs) Q"
  using assms(1) by (intro goes_next [OF assms(2)]) (auto simp: set_gpr_def frame_def Let_def)

lemma goes_test:
  assumes "r \<noteq> SP" and "q \<noteq> SP" and "goes (x86_sem C) labels at (viewed lim base old) c (g, x, and (g r) (g q) = 0, ws, l, cs) Q"
  shows "goes (x86_sem C) labels at (viewed lim base old) (Instr (Test r q) # c) (g, x, z, ws, l, cs) Q"
  using assms(1,2) by (intro goes_next [OF assms(3)]) (auto simp: frame_def)

lemma goes_jnz:
  assumes "z \<Longrightarrow> goes (x86_sem C) labels at (viewed lim base old) c (g, x, z, ws, l, cs) Q"
    and "\<not> z \<Longrightarrow> goes (x86_sem C) labels at (viewed lim base old) (after k c) (g, x, z, ws, l, cs) Q"
  shows "goes (x86_sem C) labels at (viewed lim base old) (Instr (Jnz k) # c) (g, x, z, ws, l, cs) Q"
proof (cases z)
  case True
  then show ?thesis
    by (intro goes_next [OF assms(1)]) auto
next
  case False
  then show ?thesis
    by (intro goes_goto [OF assms(2)]) auto
qed

lemma goes_jmp_reg:
  assumes "r \<noteq> SP" and "Q (g r) (g, x, z, ws, l, cs)"
  shows "goes (x86_sem C) labels at (viewed lim base old) (Instr (Jmp_reg r) # c) (g, x, z, ws, l, cs) Q"
  using assms(1) by (intro goes_leave [where Q = Q and a = "g r" and v' = "(g, x, z, ws, l, cs)", OF assms(2)]) auto

lemma goes_jmp_mem:
  assumes "b \<noteq> SP" and "g b + displacement (place_of labels at c) k = a" and "off_stack lim base a" and "aligned a"
    and "Q (old a) (g, x, z, ws, l, cs)"
  shows "goes (x86_sem C) labels at (viewed lim base old) (Instr (Jmp_mem k b) # c) (g, x, z, ws, l, cs) Q"
proof (rule goes_leave [where Q = Q and a = "old a" and v' = "(g, x, z, ws, l, cs)", OF assms(5)])
  fix m
  assume v: "viewed lim base old (g, x, z, ws, l, cs) m"
  then have "gpr m b = g b"
    using assms(1) by simp
  with viewed_load [OF v assms(3,4)] v
  show "\<exists>m'. x86_sem C (place_of labels at c) (Jmp_mem k b) m = Leave (old a) m' \<and> viewed lim base old (g, x, z, ws, l, cs) m'"
    by (simp add: assms(2))
qed

lemma goes_ret:
  assumes "Q w (g, x, z, ws, l, cs)"
  shows "goes (x86_sem C) labels at (viewed lim base old) (Instr Ret # c) (g, x, z, w # ws, l, cs) Q"
proof (rule goes_leave [where Q = Q and a = w and v' = "(g, x, z, ws, l, cs)", OF assms])
  fix m
  assume v: "viewed lim base old (g, x, z, w # ws, l, cs) m"
  then have "frame lim base old (gpr m SP) m (w # ws)"
    by simp
  from frame_pop [OF this] v
  show "\<exists>m'. x86_sem C (place_of labels at c) Ret m = Leave w m' \<and> viewed lim base old (g, x, z, ws, l, cs) m'"
    by (auto simp: set_gpr_def frame_def)
qed

text \<open>A vector register is saved in two cells.\<close>

lemma goes_pushdq:
  fixes ws :: "64 word list"
  assumes "8 * Suc (Suc (length ws)) \<le> 256"
    and "\<And>z. goes (x86_sem C) labels at (viewed lim base old) c (g, x, z, fst (x y) # snd (x y) # ws, l, cs) Q"
  shows "goes (x86_sem C) labels at (viewed lim base old) (map Instr (PUSHDQ y) @ c) (g, x, z, ws, l, cs) Q"
  unfolding goes_def
proof (intro allI impI)
  fix m
  assume v: "viewed lim base old (g, x, z, ws, l, cs) m"
  obtain m1 where m1: "m1 = m\<lparr>cells := (cells m)(gpr m SP - 8 := snd (x y))\<rparr>"
    and f1: "frame lim base old (gpr m SP - 8) m1 (snd (x y) # ws)"
    by (rule frame_push [of lim base old "gpr m SP" m ws "snd (x y)"]) (use v assms(1) in auto)
  obtain m2 where m2: "m2 = m1\<lparr>cells := (cells m1)(gpr m SP - 16 := fst (x y))\<rparr>"
    and f2: "frame lim base old (gpr m SP - 16) m2 (fst (x y) # snd (x y) # ws)"
    by (rule frame_push [OF f1, of "fst (x y)"]) (use assms(1) in auto)
  from f1 f2 have al: "aligned (gpr m SP - 8)" "aligned (gpr m SP - 16)"
    by (simp_all add: frame_def)
  let ?z = "gpr m SP - 16 = 0"
  let ?m = "m\<lparr>zf := ?z, gpr := (gpr m)(SP := gpr m SP - 16), cells := cells m2\<rparr>"
  have "cells m2 = (cells m)(gpr m SP - 16 := fst (x y), gpr m SP - 8 := snd (x y))"
    by (simp add: m1 m2 fun_upd_twist)
  with al v have "exec (x86_sem C) labels at (map Instr (PUSHDQ y) @ c) m = exec (x86_sem C) labels at c ?m"
    by (simp add: PUSHDQ_def Let_def set_gpr_def store_def act_def)
  moreover have "viewed lim base old (g, x, ?z, fst (x y) # snd (x y) # ws, l, cs) ?m"
    using v f2 by (simp add: frame_def)
  ultimately show "\<exists>a m' v'. exec (x86_sem C) labels at (map Instr (PUSHDQ y) @ c) m = Some (a, m') \<and>
      viewed lim base old v' m' \<and> Q a v'"
    using assms(2) [of ?z] unfolding goes_def by metis
qed

lemma goes_popdq:
  fixes ws :: "64 word list"
  assumes "\<And>z. goes (x86_sem C) labels at (viewed lim base old) c (g, x(y := (u, v)), z, ws, l, cs) Q"
  shows "goes (x86_sem C) labels at (viewed lim base old) (map Instr (POPDQ y) @ c) (g, x, z, u # v # ws, l, cs) Q"
  unfolding goes_def
proof (intro allI impI)
  fix m
  assume vw: "viewed lim base old (g, x, z, u # v # ws, l, cs) m"
  then have f: "frame lim base old (gpr m SP) m (u # v # ws)"
    by simp
  note p1 = frame_pop [OF this]
  note p2 = frame_pop [OF p1(2)]
  let ?z = "gpr m SP + 16 = 0"
  let ?m = "m\<lparr>xmm := x(y := (u, v)), zf := ?z, gpr := (gpr m)(SP := gpr m SP + 16)\<rparr>"
  have "exec (x86_sem C) labels at (map Instr (POPDQ y) @ c) m = exec (x86_sem C) labels at c ?m"
    using p1 p2 vw by (simp add: POPDQ_def Let_def set_gpr_def act_def)
  moreover have "viewed lim base old (g, x(y := (u, v)), ?z, ws, l, cs) ?m"
    using vw p2(2) by (simp add: frame_def add.assoc)
  ultimately show "\<exists>a m' v'. exec (x86_sem C) labels at (map Instr (POPDQ y) @ c) m = Some (a, m') \<and>
      viewed lim base old v' m' \<and> Q a v'"
    using assms [of ?z] unfolding goes_def by metis
qed


section \<open>Calls\<close>

text \<open>
  After a call the registers that the convention does not save have unknown values; with \<open>result\<close> this includes what is known
  of \<open>AX\<close>. The stack pointer of the call is recorded.
\<close>

lemma viewed_call:
  fixes ws :: "'w::len word list"
  assumes "viewed lim base old (g, x, z, ws, l, cs) m" and "cell_size TYPE('w) * Suc (length ws) \<le> 256"
    and "keeps A lim C f" and "home A = 0" and "SP \<notin> saved A"
    and "\<And>m. viewed lim base old (g, x, z, ret # ws, l, cs) m \<Longrightarrow> lib (C f m) = l' \<and> result (gpr (C f m) AX)"
  obtains m' g' x' z' where "call_out C ret f m = Next m'"
    and "viewed lim base old (g', x', z', ws, l', cs @ [(f, base - of_nat (cell_size TYPE('w) * length ws))]) m'"
    and "\<And>r. r \<in> saved A \<Longrightarrow> g' r = g r" and "\<And>y. y \<in> xsaved A \<Longrightarrow> x' y = x y" and "result (g' AX)"
proof -
  have sp: "gpr m SP = base - of_nat (cell_size TYPE('w) * length ws)"
    using assms(1) frame_sp by auto
  have "calls m = cs"
    using assms(1) by simp
  obtain p where p: "push ret m = Some p" and v: "viewed lim base old (g, x, z, ret # ws, l, cs) p"
    using assms(1,2) by (rule viewed_push)
  then have f: "frame lim base old (gpr p SP) p (ret # ws)"
    by simp
  then have lim: "unat lim \<le> unat (gpr p SP)"
    by (simp add: frame_def)
  have k: "\<forall>r\<in>saved A. gpr (C f p) r = gpr p r" "\<forall>y\<in>xsaved A. xmm (C f p) y = xmm p y"
    "gpr (C f p) SP = gpr p SP + cell"
    "\<forall>a. unat a < unat lim \<or> unat (gpr p SP) + cell_size TYPE('w) \<le> unat a \<longrightarrow> cells (C f p) a = cells p a"
    using assms(3,4) lim by (simp_all add: keeps_def)
  from frame_bound(1) [OF f] cell_facts [OF frame_bound(2) [OF f]]
  have u: "unat (gpr p SP + cell) = unat (gpr p SP) + cell_size TYPE('w)"
    by (subst unat_add_lem [THEN iffD1]) auto
  let ?m = "(C f p)\<lparr>calls := calls m @ [(f, gpr m SP)]\<rparr>"
  have "frame lim base old (gpr p SP + cell) ?m ws"
    using frame_pop(2) [OF f] by (rule frame_kept) (use k(4) u in auto)
  moreover have "lib (C f p) = l'" "result (gpr (C f p) AX)"
    using assms(6) [OF v] by simp_all
  moreover have "gpr (C f p) r = g r" if "r \<in> saved A" for r
    using that k(1) v assms(5) by (metis viewed.simps)
  ultimately show thesis
    using k(2,3) v p sp \<open>calls m = cs\<close>
    by (intro that [of ?m "gpr (C f p)" "xmm (C f p)" "zf (C f p)"]) (auto simp: call_out_def act_def)
qed


lemma goes_call:
  fixes ws :: "'w::len word list"
  assumes i: "\<And>m. viewed lim base old (g, x, z, ws, l, cs) m \<Longrightarrow>
      x86_sem C (place_of labels at c) i m = call_out C (at (instrs c)) f m"
    and "cell_size TYPE('w) * Suc (length ws) \<le> 256"
    and "keeps A lim C f" and "home A = 0" and "SP \<notin> saved A"
    and "\<And>m ret. viewed lim base old (g, x, z, ret # ws, l, cs) m \<Longrightarrow> lib (C f m) = l' \<and> result (gpr (C f m) AX)"
    and go: "\<And>g' x' z'. (\<And>r. r \<in> saved A \<Longrightarrow> g' r = g r) \<Longrightarrow> (\<And>y. y \<in> xsaved A \<Longrightarrow> x' y = x y) \<Longrightarrow> result (g' AX) \<Longrightarrow>
      goes (x86_sem C) labels at (viewed lim base old) c (g', x', z', ws, l', cs @ [(f, base - of_nat (cell_size TYPE('w) * length ws))]) Q"
  shows "goes (x86_sem C) labels at (viewed lim base old) (Instr i # c) (g, x, z, ws, l, cs) Q"
  unfolding goes_def
proof (intro allI impI)
  fix m
  assume v: "viewed lim base old (g, x, z, ws, l, cs) m"
  obtain m' g' x' z' where m': "call_out C (at (instrs c)) f m = Next m'"
    "viewed lim base old (g', x', z', ws, l', cs @ [(f, base - of_nat (cell_size TYPE('w) * length ws))]) m'"
    and k: "\<And>r. r \<in> saved A \<Longrightarrow> g' r = g r" "\<And>y. y \<in> xsaved A \<Longrightarrow> x' y = x y" "result (g' AX)"
    by (rule viewed_call [OF v assms(2-6), where ret = "at (instrs c)"]) blast+
  from go [OF k] m'(2) obtain a m'' v' where "exec (x86_sem C) labels at c m' = Some (a, m'')"
    and "viewed lim base old v' m''" and "Q a v'"
    unfolding goes_def by blast
  moreover from this(1) i [OF v] m'(1) have "exec (x86_sem C) labels at (Instr i # c) m = Some (a, m'')"
    by simp
  ultimately show "\<exists>a m' v'. exec (x86_sem C) labels at (Instr i # c) m = Some (a, m') \<and> viewed lim base old v' m' \<and> Q a v'"
    by blast
qed

text \<open>\<open>calls_to\<close>: what an instruction must be in a state with registers \<open>g\<close> to call the function at \<open>f\<close>.\<close>

fun calls_to ::
  "'w::len word \<Rightarrow> 'w word \<Rightarrow> ('w word \<Rightarrow> 'w word) \<Rightarrow> 'w word place \<Rightarrow> (reg \<Rightarrow> 'w word) \<Rightarrow> x86_instr \<Rightarrow> 'w word \<Rightarrow> bool" where
  "calls_to lim base old p g (Call_reg r) f \<longleftrightarrow> r \<noteq> SP \<and> g r = f"
| "calls_to lim base old p g (Call_mem k b) f \<longleftrightarrow>
     b \<noteq> SP \<and> (let a = g b + displacement p k in off_stack lim base a \<and> aligned a \<and> old a = f)"
| "calls_to lim base old p g i f \<longleftrightarrow> False"

lemma calls_to_call_out:
  assumes "calls_to lim base old (place_of labels at c) g i f" and v: "viewed lim base old (g, x, z, ws, l, cs) m"
  shows "x86_sem C (place_of labels at c) i m = call_out C (at (instrs c)) f m"
proof (cases i)
  case (Call_reg r)
  with assms show ?thesis
    by auto
next
  case (Call_mem k b)
  with assms(1) viewed_load [OF v, of "g b + displacement (place_of labels at c) k"]
  have "load m (g b + displacement (place_of labels at c) k) = Some f" and "gpr m b = g b"
    using v by (auto simp: Let_def)
  then show ?thesis
    using Call_mem by simp
qed (use assms(1) in simp_all)

text \<open>The three functions of a stub.\<close>

lemma goes_set_ctx:
  fixes ws :: "'w::len word list"
  assumes "calls_to lim base old (place_of labels at c) g i fs"
    and "cell_size TYPE('w) * Suc (length ws) \<le> 256"
    and "serves A R L lim C fs fa fg" and "home A = 0" and "SP \<notin> saved A"
    and "\<And>m ret. viewed lim base old (g, x, z, ret # ws, l, cs) m \<Longrightarrow> argument A m = v"
    and "\<And>g' x' z'. (\<And>r. r \<in> saved A \<Longrightarrow> g' r = g r) \<Longrightarrow> (\<And>y. y \<in> xsaved A \<Longrightarrow> x' y = x y) \<Longrightarrow>
      goes (x86_sem C) labels at (viewed lim base old) c
        (g', x', z', ws, set_ctx L v l, cs @ [(fs, base - of_nat (cell_size TYPE('w) * length ws))]) Q"
  shows "goes (x86_sem C) labels at (viewed lim base old) (Instr i # c) (g, x, z, ws, l, cs) Q"
proof (rule goes_call [OF calls_to_call_out assms(2) _ assms(4,5), where result = "\<lambda>_. True"])
  show "calls_to lim base old (place_of labels at c) g i fs"
    by (rule assms(1))
  show "keeps A lim C fs"
    using assms(3) by (simp add: serves_def)
  show "lib (C fs m) = set_ctx L v l \<and> True" if "viewed lim base old (g, x, z, ret # ws, l, cs) m" for m ret
    using that assms(6) [OF that] assms(3) by (auto simp: serves_def frame_def)
qed (use assms(7) in \<open>auto simp del: viewed.simps\<close>)

lemma goes_asked:
  fixes ws :: "'w::len word list"
  assumes "calls_to lim base old (place_of labels at c) g i fa"
    and "cell_size TYPE('w) * Suc (length ws) \<le> 256"
    and "serves A R L lim C fs fa fg" and "home A = 0" and "SP \<notin> saved A"
    and "\<And>g' x' z'. (\<And>r. r \<in> saved A \<Longrightarrow> g' r = g r) \<Longrightarrow> (\<And>y. y \<in> xsaved A \<Longrightarrow> x' y = x y) \<Longrightarrow> R (g' AX) (fst (asked L l)) \<Longrightarrow>
      goes (x86_sem C) labels at (viewed lim base old) c
        (g', x', z', ws, snd (asked L l), cs @ [(fa, base - of_nat (cell_size TYPE('w) * length ws))]) Q"
  shows "goes (x86_sem C) labels at (viewed lim base old) (Instr i # c) (g, x, z, ws, l, cs) Q"
proof (rule goes_call [OF calls_to_call_out assms(2) _ assms(4,5), where result = "\<lambda>v. R v (fst (asked L l))"])
  show "calls_to lim base old (place_of labels at c) g i fa"
    by (rule assms(1))
  show "keeps A lim C fa"
    using assms(3) by (simp add: serves_def)
  show "lib (C fa m) = snd (asked L l) \<and> R (gpr (C fa m) AX) (fst (asked L l))"
    if "viewed lim base old (g, x, z, ret # ws, l, cs) m" for m ret
    using that assms(3) by (auto simp: serves_def frame_def)
qed (use assms(6) in \<open>auto simp del: viewed.simps\<close>)

lemma goes_get_ctx:
  fixes ws :: "'w::len word list"
  assumes "calls_to lim base old (place_of labels at c) g i fg"
    and "cell_size TYPE('w) * Suc (length ws) \<le> 256"
    and "serves A R L lim C fs fa fg" and "home A = 0" and "SP \<notin> saved A"
    and "\<And>g' x' z'. (\<And>r. r \<in> saved A \<Longrightarrow> g' r = g r) \<Longrightarrow> (\<And>y. y \<in> xsaved A \<Longrightarrow> x' y = x y) \<Longrightarrow> g' AX = get_ctx L l \<Longrightarrow>
      goes (x86_sem C) labels at (viewed lim base old) c
        (g', x', z', ws, l, cs @ [(fg, base - of_nat (cell_size TYPE('w) * length ws))]) Q"
  shows "goes (x86_sem C) labels at (viewed lim base old) (Instr i # c) (g, x, z, ws, l, cs) Q"
proof (rule goes_call [OF calls_to_call_out assms(2) _ assms(4,5), where result = "\<lambda>v. v = get_ctx L l"])
  show "calls_to lim base old (place_of labels at c) g i fg"
    by (rule assms(1))
  show "keeps A lim C fg"
    using assms(3) by (simp add: serves_def)
  show "lib (C fg m) = l \<and> gpr (C fg m) AX = get_ctx L l"
    if "viewed lim base old (g, x, z, ret # ws, l, cs) m" for m ret
    using that assms(3) by (auto simp: serves_def frame_def)
qed (use assms(6) in \<open>auto simp del: viewed.simps\<close>)

end
