(* ===== verification/X86_Trampolines.thy ===== *)
theory X86_Trampolines
  imports X86
begin

text \<open>
  The trampolines of \<open>src/asm\<close> for x86: \<open>trampoline-x86_64-systemv.S\<close>, the two versions for Windows and the two for 32 bits (\<open>cdecl\<close>), one for
  the GNU assembler and one for that of Microsoft. Each is shown to fulfil the contract \<open>trampoline\<close>.
\<close>

section \<open>The programs\<close>

definition systemv_body :: "x86_instr line list" where
  "systemv_body =
     map Instr (
       [Pop R11,
        Push R11,
        Load R11 (Diff ''start'' ''next'' (- 0x10)) R11,
        Push DI, Push SI, Push DX, Push CX, Push R8, Push R9]
       @ PUSHDQ 0 @ PUSHDQ 1 @ PUSHDQ 2 @ PUSHDQ 3 @ PUSHDQ 4 @ PUSHDQ 5 @ PUSHDQ 6 @ PUSHDQ 7
       @ [Push AX,
          Mov DI R11, Push R11, Load R11 (Bytes 0x8) R11, Call_reg R11, Pop R11,
          Load R11 (Bytes 0) R11, Call_reg R11,
          Mov R11 AX, Pop AX]
       @ POPDQ 7 @ POPDQ 6 @ POPDQ 5 @ POPDQ 4 @ POPDQ 3 @ POPDQ 2 @ POPDQ 1 @ POPDQ 0
       @ [Pop R9, Pop R8, Pop CX, Pop DX, Pop SI, Pop DI,
          Test R11 R11, Jnz ''ret_ctx'',
          Pop R11, Load R11 (Diff ''start'' ''next'' (- 0x8)) R11, Jmp_reg R11])
     @ Label ''ret_ctx''
     # map Instr [Pop R11, Load R11 (Diff ''start'' ''next'' (- 0x10)) R11, Load R11 (Bytes 0x10) R11, Call_reg R11, Ret]"

definition trampoline_systemv :: "bool \<Rightarrow> x86_instr line list" where
  "trampoline_systemv cet =
     (let mmk_cet = (if cet then [Instr Endbr64] else [])
      in Label ''start'' # mmk_cet @ Instr (Call_near ''next'') # Label ''next'' # mmk_cet @ systemv_body)"

text \<open>For Windows the registers of the System V version that hold arguments are other ones, and \<open>rax\<close> is free.\<close>

definition win_body :: "x86_instr line list" where
  "win_body =
     map Instr (
       [Pop AX,
        Push AX,
        Load AX (Diff ''start'' ''next'' (- 0x10)) AX,
        Push DX, Push CX, Push R8, Push R9]
       @ PUSHDQ 0 @ PUSHDQ 1 @ PUSHDQ 2 @ PUSHDQ 3
       @ [Mov CX AX, Push AX, Load AX (Bytes 0x8) AX, Call_reg AX, Pop AX,
          Load AX (Bytes 0) AX, Call_reg AX]
       @ POPDQ 3 @ POPDQ 2 @ POPDQ 1 @ POPDQ 0
       @ [Pop R9, Pop R8, Pop CX, Pop DX,
          Test AX AX, Jnz ''ret_ctx'',
          Pop AX, Load AX (Diff ''start'' ''next'' (- 0x8)) AX, Jmp_reg AX])
     @ Label ''ret_ctx''
     # map Instr [Pop AX, Load AX (Diff ''start'' ''next'' (- 0x10)) AX, Load AX (Bytes 0x10) AX, Call_reg AX, Ret]"

definition trampoline_win :: "x86_instr line list" where
  "trampoline_win = Label ''start'' # Instr (Call_near ''next'') # Label ''next'' # win_body"

definition win_asm_body :: "x86_instr line list" where
  "win_asm_body =
     map Instr (
       [Pop AX,
        And_imm AX 0xfffffffffffff000,
        Push AX,
        Load AX (Bytes 0) AX,
        Push CX, Push DX, Push R8, Push R9]
       @ PUSHDQ 0 @ PUSHDQ 1 @ PUSHDQ 2 @ PUSHDQ 3
       @ [Mov CX AX, Push AX, Call_mem (Bytes 0x8) AX, Pop AX,
          Call_mem (Bytes 0) AX]
       @ POPDQ 3 @ POPDQ 2 @ POPDQ 1 @ POPDQ 0
       @ [Pop R9, Pop R8, Pop DX, Pop CX,
          Test AX AX, Jnz ''ret_ctx'',
          Pop AX, Jmp_mem (Bytes 0x8) AX])
     @ Label ''ret_ctx''
     # map Instr [Pop AX, Load AX (Bytes 0) AX, Ret]"

definition trampoline_win_asm :: "x86_instr line list" where
  "trampoline_win_asm = Instr (Call_near ''next'') # Label ''next'' # win_asm_body"

definition i386_body :: "x86_instr line list" where
  "i386_body =
     map Instr
       [Pop AX,
        Push AX, Load AX (Diff ''start'' ''next'' (- 0x8)) AX,
        Push AX, Load AX (Bytes 0x4) AX, Call_reg AX, Pop AX,
        Load AX (Bytes 0) AX, Call_reg AX,
        Test AX AX, Jnz ''ret_ctx'',
        Pop AX, Load AX (Diff ''start'' ''next'' (- 0x4)) AX, Jmp_reg AX]
     @ Label ''ret_ctx''
     # map Instr [Pop AX, Load AX (Diff ''start'' ''next'' (- 0x8)) AX, Load AX (Bytes 0x8) AX, Call_reg AX, Ret]"

definition trampoline_i386 :: "x86_instr line list" where
  "trampoline_i386 = Label ''start'' # Instr (Call_near ''next'') # Label ''next'' # i386_body"

definition i386_asm_body :: "x86_instr line list" where
  "i386_asm_body =
     map Instr
       [Pop AX,
        And_imm AX 0xfffff000,
        Push AX, Load AX (Bytes 0) AX,
        Push AX, Call_mem (Bytes 0x4) AX, Pop AX,
        Call_mem (Bytes 0) AX,
        Test AX AX, Jnz ''ret_ctx'',
        Pop AX, Jmp_mem (Bytes 0x4) AX]
     @ Label ''ret_ctx''
     # map Instr [Pop AX, Load AX (Bytes 0) AX, Call_mem (Bytes 0x8) AX, Ret]"

definition trampoline_i386_asm :: "x86_instr line list" where
  "trampoline_i386_asm = Instr (Call_near ''next'') # Label ''next'' # i386_asm_body"

section \<open>The contract on x86\<close>

definition x86_ready ::
  "('w::len word, 's) convention \<Rightarrow> ('w word \<Rightarrow> cint \<Rightarrow> bool) \<Rightarrow> ('w word, 's) library \<Rightarrow> x86_instr line list \<Rightarrow>
    ('w word, ('w word, 's) x86) process \<Rightarrow> bool" where
  "x86_ready A R L code p \<longleftrightarrow>
     (let m = cpu p; t = layout p (instrs code); sp = gpr m SP; ctx = page_ctx m t
      in word_machine TYPE('w) \<and> aligned sp \<and> unat (limit p) + 256 \<le> unat sp \<and> unat sp + cell_size TYPE('w) < 2 ^ LENGTH('w) \<and>
         stub_placed (limit p) (sp + cell) m t \<and>
         serves A R L (limit p) (callee p) (cells m (ctx + cell)) (cells m ctx) (cells m (ctx + 2 * cell)))"

definition x86_enter ::
  "x86_instr line list \<Rightarrow> ('w::len word, ('w word, 's) x86) process \<Rightarrow> ('w word \<times> ('w word, 's) x86) option" where
  "x86_enter code p = run (x86_sem (callee p)) (layout p) code (cpu p)"

definition x86_entry :: "x86_instr line list \<Rightarrow> ('w::len word, ('w word, 's) x86) process \<Rightarrow> 'w word" where
  "x86_entry code p = layout p (instrs code)"

definition x86_caller :: "('w::len word, ('w word, 's) x86) process \<Rightarrow> 'w word" where
  "x86_caller p = cells (cpu p) (gpr (cpu p) SP)"

definition x86_passes ::
  "('w::len word, 's) convention \<Rightarrow> ('w word, ('w word, 's) x86) process \<Rightarrow> ('w word, 's) x86 \<Rightarrow> bool" where
  "x86_passes A p m \<longleftrightarrow>
     (\<forall>r \<in> {SP} \<union> passed A \<union> saved A. gpr m r = gpr (cpu p) r) \<and> (\<forall>y \<in> xpassed A \<union> xsaved A. xmm m y = xmm (cpu p) y) \<and>
     (\<forall>a. aligned a \<longrightarrow> off_stack (limit p) (gpr (cpu p) SP) a \<longrightarrow> cells m a = cells (cpu p) a)"

definition x86_answers ::
  "('w::len word, 's) convention \<Rightarrow> ('w word, ('w word, 's) x86) process \<Rightarrow> 'w word \<Rightarrow> ('w word, 's) x86 \<Rightarrow> bool" where
  "x86_answers A p v m \<longleftrightarrow>
     gpr m AX = v \<and> gpr m SP = gpr (cpu p) SP + cell \<and>
     (\<forall>r \<in> saved A. gpr m r = gpr (cpu p) r) \<and> (\<forall>y \<in> xsaved A. xmm m y = xmm (cpu p) y) \<and>
     (\<forall>a. aligned a \<longrightarrow> off_stack (limit p) (gpr (cpu p) SP + cell) a \<longrightarrow> cells m a = cells (cpu p) a)"

text \<open>
  The postcondition of a program on views: from registers \<open>g\<close> and \<open>x\<close> and the library's state \<open>l\<close>, the code goes to \<open>a\<close>, in a
  state that is as the contract says, after the calls \<open>trace\<close>.
\<close>

fun x86_done ::
  "('a, 's) convention \<Rightarrow> ('a, 's) library \<Rightarrow> 'a \<Rightarrow> 'a \<Rightarrow> 'a \<Rightarrow> (cint \<Rightarrow> ('a \<times> 'a) list) \<Rightarrow>
    (reg \<Rightarrow> 'a) \<Rightarrow> (nat \<Rightarrow> 'a \<times> 'a) \<Rightarrow> 's \<Rightarrow> 'a \<Rightarrow> ('a, 's) view \<Rightarrow> bool" where
  "x86_done A L ctx routine caller trace g x l a (g', x', z', ws, l', cs) \<longleftrightarrow>
     l' = snd (answer L ctx l) \<and> cs = trace (fst (answer L ctx l)) \<and>
     (\<forall>r \<in> saved A. g' r = g r) \<and> (\<forall>y \<in> xsaved A. x' y = x y) \<and>
     (if fst (answer L ctx l) = 0
      then a = routine \<and> ws = [caller] \<and> (\<forall>r \<in> passed A. g' r = g r) \<and> (\<forall>y \<in> xpassed A. x' y = x y)
      else a = caller \<and> ws = [] \<and> g' AX = get_ctx L l')"

lemma x86_start:
  assumes "x86_ready A R L code p"
  shows "viewed (limit p) (gpr (cpu p) SP + cell) (cells (cpu p))
    (gpr (cpu p), xmm (cpu p), zf (cpu p), [x86_caller p], lib (cpu p), calls (cpu p)) (cpu p :: ('w::len word, 's) x86)"
proof -
  let ?sp = "gpr (cpu p) SP"
  have r: "word_machine TYPE('w)" "aligned ?sp" "unat (limit p) + 256 \<le> unat ?sp" "unat ?sp + cell_size TYPE('w) < 2 ^ LENGTH('w)"
    using assms by (simp_all add: x86_ready_def Let_def)
  note c = cell_facts [OF r(1)]
  have u: "unat (?sp + cell) = unat ?sp + cell_size TYPE('w)"
    using r(4) c by (subst unat_add_lem [THEN iffD1]) auto
  show ?thesis
    using r u by (simp add: frame_def x86_caller_def)
qed

text \<open>
  \<open>x86_proceeds\<close>: from the state of the process, but with the words \<open>ws\<close> on its frame, the code ends as it should for the
  trampoline at \<open>t\<close>. When a program does, it fulfils the contract.
\<close>

definition x86_proceeds ::
  "('w::len word, 's) convention \<Rightarrow> ('w word, 's) library \<Rightarrow> ('w word, ('w word, 's) x86) process \<Rightarrow> 'w word \<Rightarrow>
    (string \<Rightarrow> 'w word) \<Rightarrow> x86_instr line list \<Rightarrow> 'w word list \<Rightarrow> (cint \<Rightarrow> ('w word \<times> 'w word) list) \<Rightarrow> bool" where
  "x86_proceeds A L p t labels code ws trace \<longleftrightarrow>
     (let m = cpu p
      in goes (x86_sem (callee p)) labels (layout p) (viewed (limit p) (gpr m SP + cell) (cells m)) code
           (gpr m, xmm m, zf m, ws, lib m, calls m)
           (x86_done A L (page_ctx m t) (page_routine m t) (x86_caller p) trace (gpr m) (xmm m) (lib m)))"

definition labels_of :: "x86_instr line list \<Rightarrow> ('w::len word, 'm) process \<Rightarrow> string \<Rightarrow> 'w word" where
  "labels_of code p l = layout p (instrs (after l code))"

lemma x86_proceeds_run:
  fixes p :: "('w::len word, ('w word, 's) x86) process"
  assumes "x86_ready A R L code p" and "x86_proceeds A L p (x86_entry code p) (labels_of code p) code [x86_caller p] trace" and "SP \<notin> saved A"
  defines "d \<equiv> answer L (page_ctx (cpu p) (x86_entry code p)) (lib (cpu p))"
  obtains a m where "x86_enter code p = Some (a, m)" and "lib m = snd d" and "calls m = trace (fst d)"
    and "fst d = 0 \<Longrightarrow> a = page_routine (cpu p) (x86_entry code p) \<and> x86_passes A p m"
    and "fst d \<noteq> 0 \<Longrightarrow> a = x86_caller p \<and> x86_answers A p (get_ctx L (snd d)) m"
proof -
  let ?sp = "gpr (cpu p) SP" and ?old = "cells (cpu p)"
  note start = x86_start [OF assms(1)]
  then obtain a m v where run: "x86_enter code p = Some (a, m)" and v: "viewed (limit p) (?sp + cell) ?old v m"
    and q: "x86_done A L (page_ctx (cpu p) (x86_entry code p)) (page_routine (cpu p) (x86_entry code p)) (x86_caller p)
       trace (gpr (cpu p)) (xmm (cpu p)) (lib (cpu p)) a v"
    using assms(2) by (auto simp: x86_proceeds_def labels_of_def [abs_def] goes_def x86_enter_def run_def x86_entry_def Let_def simp del: viewed.simps)
  obtain g' x' z' ws l' cs' where vv: "v = (g', x', z', ws, l', cs')"
    by (metis prod_cases6)
  have f: "frame (limit p) (?sp + cell) ?old (gpr m SP) m ws" and same: "\<And>r. r \<noteq> SP \<Longrightarrow> gpr m r = g' r" "xmm m = x'"
    and l: "lib m = l'" "calls m = cs'"
    using v vv by simp_all
  have out: "cells m b = ?old b" if "off_stack (limit p) (?sp + cell) b" for b
    using f that by (simp add: frame_def)
  have sp: "gpr m SP = ?sp + cell - of_nat (cell_size TYPE('w) * length ws)"
    using f by (rule frame_sp)
  show thesis
  proof (rule that [OF run])
    show "lib m = snd d" "calls m = trace (fst d)"
      using q vv l by (auto simp: d_def)
    assume z: "fst d = 0"
    with q vv have ws: "ws = [x86_caller p]" "a = page_routine (cpu p) (x86_entry code p)"
      and r: "\<forall>r \<in> passed A \<union> saved A. g' r = gpr (cpu p) r" "\<forall>y \<in> xpassed A \<union> xsaved A. x' y = xmm (cpu p) y"
      by (auto simp: d_def)
    have e: "gpr m SP = ?sp"
      using sp ws by simp
    from e f ws have "cells m b = ?old b" if "aligned b" "off_stack (limit p) ?sp b" for b
      using frame_single [of "limit p" "?sp + cell" ?old ?sp m b] that by (simp add: x86_caller_def)
    moreover have "gpr m k = gpr (cpu p) k" if "k \<in> {SP} \<union> passed A \<union> saved A" for k
      using that r(1) same(1) [of k] e by (cases "k = SP") auto
    ultimately show "a = page_routine (cpu p) (x86_entry code p) \<and> x86_passes A p m"
      using ws r(2) same(2) by (simp add: x86_passes_def)
  next
    assume "fst d \<noteq> 0"
    with q vv have "ws = []" "a = x86_caller p" "g' AX = get_ctx L (snd d)"
      and "\<forall>r \<in> saved A. g' r = gpr (cpu p) r" "\<forall>y \<in> xsaved A. x' y = xmm (cpu p) y"
      by (auto simp: d_def)
    moreover from this(4) same(1) assms(3) have "\<forall>r \<in> saved A. gpr m r = gpr (cpu p) r"
      by metis
    ultimately show "a = x86_caller p \<and> x86_answers A p (get_ctx L (snd d)) m"
      using sp out same by (simp add: x86_answers_def)
  qed
qed


section \<open>The programs are correct\<close>

text \<open>The calls that a program makes, with its stack pointers relative to that of the entry.\<close>

definition stub_calls :: "('w::len word, 's) x86 \<Rightarrow> 'w word \<Rightarrow> nat \<Rightarrow> nat \<Rightarrow> nat option \<Rightarrow> cint \<Rightarrow> ('w word \<times> 'w word) list" where
  "stub_calls m ctx i j k r =
     calls m @ [(cells m (ctx + cell), gpr m SP - of_nat i), (cells m ctx, gpr m SP - of_nat j)]
     @ (case k of None \<Rightarrow> [] | Some k \<Rightarrow> if r = 0 then [] else [(cells m (ctx + 2 * cell), gpr m SP - of_nat k)])"

text \<open>What a process that is ready says about the functions that the code calls and the cells that it reads.\<close>

lemma ready_serves:
  fixes p :: "('w::len word, ('w word, 's) x86) process"
  assumes "x86_ready A R L code p" and "x86_entry code p = t"
  shows "serves A R L (limit p) (callee p) (cells (cpu p) (page_ctx (cpu p) t + cell)) (cells (cpu p) (page_ctx (cpu p) t))
      (cells (cpu p) (page_ctx (cpu p) t + 2 * cell))"
  using assms by (simp add: x86_ready_def x86_entry_def Let_def)

lemma ready_cells:
  fixes p :: "('w::len word, ('w word, 's) x86) process"
  assumes "x86_ready A R L code p" and "x86_entry code p = t"
  defines "base \<equiv> gpr (cpu p) SP + cell"
  shows "aligned t" "aligned (page_ctx (cpu p) t)" "off_stack (limit p) base (t - 2 * cell)" "off_stack (limit p) base (t - cell)"
    "off_stack (limit p) base (page_ctx (cpu p) t)" "off_stack (limit p) base (page_ctx (cpu p) t + cell)"
    "off_stack (limit p) base (page_ctx (cpu p) t + 2 * cell)"
    "cells (cpu p) (t - 2 * cell) = page_ctx (cpu p) t" "cells (cpu p) (t - cell) = page_routine (cpu p) t"
  using assms by (auto simp: x86_ready_def x86_entry_def Let_def stub_placed_def) (simp_all add: page_ctx_def page_routine_def)

lemma systemv_body_proceeds:
  fixes p :: "(64 word, (64 word, 's) x86) process"
  assumes r: "x86_ready systemv tested_alike L code p"
    and l: "x86_entry code p = t" "labels ''start'' = t"
  shows "x86_proceeds systemv L p t labels systemv_body [labels ''next'', x86_caller p]
    (stub_calls (cpu p) (page_ctx (cpu p) t) 200 192 (Some 0))"
proof -
  note s = ready_serves [OF r l(1), simplified]
  note t = l ready_cells [OF r l(1), simplified]
  show ?thesis
    unfolding x86_proceeds_def Let_def systemv_body_def code_list
    apply (rule goes_pop goes_push goes_load [where a = "t - 16"]; (simp add: t)?)+
    apply (rule goes_pushdq, simp)+
    apply (rule goes_push goes_mov goes_load [where a = "page_ctx (cpu p) t + 8"]; (simp add: t)?)+
    apply (rule goes_set_ctx [OF _ _ s, where v = "page_ctx (cpu p) t"]; (simp add: t)?)
    apply (rule goes_pop goes_load [where a = "page_ctx (cpu p) t"]; (simp add: t)?)+
    apply (rule goes_asked [OF _ _ s]; (simp add: t)?)
    apply (rule goes_pop goes_mov goes_popdq; simp?)+
    apply (rule goes_test goes_jnz; simp?)+
     apply (rule goes_pop goes_load [where a = "t - 8"]; (simp add: t)?)+
     apply (rule goes_jmp_reg; (simp add: t stub_calls_def)?)
    apply (rule goes_pop, simp, rule goes_load [where a = "t - 16"]; (simp add: t)?)
    apply (rule goes_load [where a = "page_ctx (cpu p) t + 16"]; (simp add: t)?)
    apply (rule goes_get_ctx [OF _ _ s]; (simp add: t)?)
    apply (rule goes_ret, simp add: stub_calls_def, rule notI, simp)
    done
qed


lemma win_body_proceeds:
  fixes p :: "(64 word, (64 word, 's) x86) process"
  assumes r: "x86_ready (windows\<lparr>home := 0\<rparr>) tested_alike L code p"
    and l: "x86_entry code p = t" "labels ''start'' = t"
  shows "x86_proceeds (windows\<lparr>home := 0\<rparr>) L p t labels win_body [labels ''next'', x86_caller p]
    (stub_calls (cpu p) (page_ctx (cpu p) t) 112 104 (Some 0))"
proof -
  note s = ready_serves [OF r l(1), simplified]
  note t = l ready_cells [OF r l(1), simplified]
  show ?thesis
    unfolding x86_proceeds_def Let_def win_body_def code_list
    apply (rule goes_pop goes_push goes_load [where a = "t - 16"]; (simp add: t)?)+
    apply (rule goes_pushdq, simp)+
    apply (rule goes_push goes_mov goes_load [where a = "page_ctx (cpu p) t + 8"]; (simp add: t)?)+
    apply (rule goes_set_ctx [OF _ _ s, where v = "page_ctx (cpu p) t"]; (simp add: t)?)
    apply (rule goes_pop goes_load [where a = "page_ctx (cpu p) t"]; (simp add: t)?)+
    apply (rule goes_asked [OF _ _ s]; (simp add: t)?)
    apply (rule goes_pop goes_mov goes_popdq; simp?)+
    apply (rule goes_test goes_jnz; simp?)+
     apply (rule goes_pop goes_load [where a = "t - 8"]; (simp add: t)?)+
     apply (rule goes_jmp_reg; (simp add: t stub_calls_def)?)
    apply (rule goes_pop, simp, rule goes_load [where a = "t - 16"]; (simp add: t)?)
    apply (rule goes_load [where a = "page_ctx (cpu p) t + 16"]; (simp add: t)?)
    apply (rule goes_get_ctx [OF _ _ s]; (simp add: t)?)
    apply (rule goes_ret, simp add: stub_calls_def, rule notI, simp)
    done
qed

lemma win_asm_body_proceeds:
  fixes p :: "(64 word, (64 word, 's) x86) process"
  assumes r: "x86_ready (windows\<lparr>home := 0\<rparr>) tested_alike L code p"
    and l: "x86_entry code p = t" "and (labels ''next'') 0xfffffffffffff000 = t - 16"
    and c: "get_ctx L (snd (answer L (page_ctx (cpu p) t) (lib (cpu p)))) = page_ctx (cpu p) t"
  shows "x86_proceeds (windows\<lparr>home := 0\<rparr>) L p t labels win_asm_body [labels ''next'', x86_caller p]
    (stub_calls (cpu p) (page_ctx (cpu p) t) 112 104 None)"
proof -
  note s = ready_serves [OF r l(1), simplified]
  note t = l ready_cells [OF r l(1), simplified]
  show ?thesis
    unfolding x86_proceeds_def Let_def win_asm_body_def code_list
    apply (rule goes_pop goes_and goes_push goes_load [where a = "t - 16"]; (simp add: t)?)+
    apply (rule goes_pushdq, simp)+
    apply (rule goes_push goes_mov; (simp add: t)?)+
    apply (rule goes_set_ctx [OF _ _ s, where v = "page_ctx (cpu p) t"]; (simp add: t)?)
    apply (rule goes_pop; (simp add: t)?)+
    apply (rule goes_asked [OF _ _ s]; (simp add: t)?)
    apply (rule goes_pop goes_popdq; simp?)+
    apply (rule goes_test goes_jnz; simp?)+
     apply (rule goes_pop; (simp add: t)?)+
     apply (rule goes_jmp_mem [where a = "t - 8"]; (simp add: t stub_calls_def)?)
    apply (rule goes_pop, simp, rule goes_load [where a = "t - 16"]; (simp add: t)?)
    apply (rule goes_ret, simp add: stub_calls_def c, rule notI, simp)
    done
qed

lemma i386_body_proceeds:
  fixes p :: "(32 word, (32 word, 's) x86) process"
  assumes r: "x86_ready (cdecl\<lparr>home := 0\<rparr>) tested_alike L code p"
    and l: "x86_entry code p = t" "labels ''start'' = t"
  shows "x86_proceeds (cdecl\<lparr>home := 0\<rparr>) L p t labels i386_body [labels ''next'', x86_caller p]
    (stub_calls (cpu p) (page_ctx (cpu p) t) 8 4 (Some 0))"
proof -
  note s = ready_serves [OF r l(1), simplified]
  note t = l ready_cells [OF r l(1), simplified]
  show ?thesis
    unfolding x86_proceeds_def Let_def i386_body_def code_list
    apply (rule goes_pop goes_push; (simp add: t)?)+
    apply (rule goes_load [where a = "t - 8"]; (simp add: t)?)
    apply (rule goes_push goes_load [where a = "page_ctx (cpu p) t + 4"]; (simp add: t)?)+
    apply (rule goes_set_ctx [OF _ _ s, where v = "page_ctx (cpu p) t"]; (simp add: t frame_def)?)
    apply (rule goes_pop goes_load [where a = "page_ctx (cpu p) t"]; (simp add: t)?)+
    apply (rule goes_asked [OF _ _ s]; (simp add: t)?)
    apply (rule goes_test goes_jnz; simp?)+
     apply (rule goes_pop goes_load [where a = "t - 4"]; (simp add: t)?)+
     apply (rule goes_jmp_reg; (simp add: t stub_calls_def)?)
    apply (rule goes_pop, simp, rule goes_load [where a = "t - 8"]; (simp add: t)?)
    apply (rule goes_load [where a = "page_ctx (cpu p) t + 8"]; (simp add: t)?)
    apply (rule goes_get_ctx [OF _ _ s]; (simp add: t)?)
    apply (rule goes_ret, simp add: stub_calls_def, rule notI, simp)
    done
qed

lemma i386_asm_body_proceeds:
  fixes p :: "(32 word, (32 word, 's) x86) process"
  assumes r: "x86_ready (cdecl\<lparr>home := 0\<rparr>) tested_alike L code p"
    and l: "x86_entry code p = t" "and (labels ''next'') 0xfffff000 = t - 8"
  shows "x86_proceeds (cdecl\<lparr>home := 0\<rparr>) L p t labels i386_asm_body [labels ''next'', x86_caller p]
    (stub_calls (cpu p) (page_ctx (cpu p) t) 8 4 (Some 0))"
proof -
  note s = ready_serves [OF r l(1), simplified]
  note t = l ready_cells [OF r l(1), simplified]
  show ?thesis
    unfolding x86_proceeds_def Let_def i386_asm_body_def code_list
    apply (rule goes_pop goes_and goes_push goes_load [where a = "t - 8"]; (simp add: t)?)+
    apply (rule goes_set_ctx [OF _ _ s, where v = "page_ctx (cpu p) t"]; (simp add: t frame_def)?)
    apply (rule goes_pop; (simp add: t)?)+
    apply (rule goes_asked [OF _ _ s]; (simp add: t)?)
    apply (rule goes_test goes_jnz; simp?)+
     apply (rule goes_pop; (simp add: t)?)+
     apply (rule goes_jmp_mem [where a = "t - 4"]; (simp add: t stub_calls_def)?)
    apply (rule goes_pop, simp, rule goes_load [where a = "t - 8"]; (simp add: t)?)
    apply (rule goes_get_ctx [OF _ _ s]; (simp add: t)?)
    apply (rule goes_ret, simp add: stub_calls_def, rule notI, simp)
    done
qed


text \<open>Every program calls its label \<open>next\<close> first, which leaves the address of the label on the stack.\<close>

lemma proceeds_first:
  fixes p :: "('w::len word, ('w word, 's) x86) process"
  assumes "x86_proceeds A L p t labels body [labels ''next'', x86_caller p] trace"
    and "labels ''next'' = layout p (instrs body)" and "word_machine TYPE('w)"
  shows "x86_proceeds A L p t labels (Instr (Call_near ''next'') # Label ''next'' # body) [x86_caller p] trace"
  unfolding x86_proceeds_def Let_def
proof (rule goes_call_near)
  show "cell_size TYPE('w) * Suc (length [x86_caller p]) \<le> 256"
    using assms(3) by (auto simp: word_machine_def cell_size_def)
qed (use assms(1,2) in \<open>simp add: x86_proceeds_def Let_def\<close>)

lemma proceeds_label:
  "x86_proceeds A L p t labels code ws trace \<Longrightarrow> x86_proceeds A L p t labels (Label l # code) ws trace"
  by (simp add: x86_proceeds_def Let_def goes_label)

lemma proceeds_endbr:
  "x86_proceeds A L p t labels code ws trace \<Longrightarrow> x86_proceeds A L p t labels (Instr Endbr64 # code) ws trace"
  by (simp add: x86_proceeds_def Let_def goes_endbr)

text \<open>For the control-flow protection of System V both labels are followed by an \<open>endbr64\<close>.\<close>

lemma proceeds_code:
  fixes p :: "('w::len word, ('w word, 's) x86) process"
  assumes "x86_proceeds A L p t (labels_of code p) body [labels_of code p ''next'', x86_caller p] trace"
    and "code = Instr (Call_near ''next'') # Label ''next'' # body \<or>
      code = Label ''start'' # Instr (Call_near ''next'') # Label ''next'' # body"
    and "word_machine TYPE('w)"
  shows "x86_proceeds A L p t (labels_of code p) code [x86_caller p] trace"
proof -
  have "labels_of code p ''next'' = layout p (instrs body)"
    using assms(2) by (auto simp: labels_of_def)
  from proceeds_first [OF assms(1) this assms(3)] show ?thesis
    using assms(2) proceeds_label by metis
qed

lemma systemv_proceeds:
  fixes p :: "(64 word, (64 word, 's) x86) process"
  assumes "x86_ready systemv tested_alike L (trampoline_systemv cet) p"
  defines "t \<equiv> x86_entry (trampoline_systemv cet) p"
  shows "x86_proceeds systemv L p t (labels_of (trampoline_systemv cet) p) (trampoline_systemv cet) [x86_caller p]
    (stub_calls (cpu p) (page_ctx (cpu p) t) 200 192 (Some 0))"
proof -
  let ?code = "trampoline_systemv cet" and ?body = "(if cet then [Instr Endbr64] else []) @ systemv_body"
  let ?trace = "stub_calls (cpu p) (page_ctx (cpu p) t) 200 192 (Some 0)"
  have "x86_proceeds systemv L p t (labels_of ?code p) systemv_body [labels_of ?code p ''next'', x86_caller p] ?trace"
    by (rule systemv_body_proceeds [OF assms(1)])
      (simp_all add: t_def labels_of_def x86_entry_def trampoline_systemv_def Let_def)
  then have "x86_proceeds systemv L p t (labels_of ?code p) ?body [labels_of ?code p ''next'', x86_caller p] ?trace"
    by (cases cet) (simp_all add: proceeds_endbr)
  then have "x86_proceeds systemv L p t (labels_of ?code p) (Instr (Call_near ''next'') # Label ''next'' # ?body) [x86_caller p] ?trace"
    by (rule proceeds_first) (simp_all add: labels_of_def trampoline_systemv_def Let_def)
  then have "x86_proceeds systemv L p t (labels_of ?code p)
      (Label ''start'' # (if cet then [Instr Endbr64] else []) @ Instr (Call_near ''next'') # Label ''next'' # ?body) [x86_caller p] ?trace"
    by (cases cet) (simp_all add: proceeds_label proceeds_endbr)
  then show ?thesis
    by (simp only: trampoline_systemv_def Let_def)
qed

lemma win_proceeds:
  fixes p :: "(64 word, (64 word, 's) x86) process"
  assumes "x86_ready (windows\<lparr>home := 0\<rparr>) tested_alike L trampoline_win p"
  defines "t \<equiv> x86_entry trampoline_win p"
  shows "x86_proceeds (windows\<lparr>home := 0\<rparr>) L p t (labels_of trampoline_win p) trampoline_win [x86_caller p]
    (stub_calls (cpu p) (page_ctx (cpu p) t) 112 104 (Some 0))"
proof (rule proceeds_code)
  show "x86_proceeds (windows\<lparr>home := 0\<rparr>) L p t (labels_of trampoline_win p) win_body
      [labels_of trampoline_win p ''next'', x86_caller p] (stub_calls (cpu p) (page_ctx (cpu p) t) 112 104 (Some 0))"
    by (rule win_body_proceeds [OF assms(1)]) (simp_all add: t_def labels_of_def x86_entry_def trampoline_win_def)
qed (simp_all add: trampoline_win_def)

lemma win_asm_proceeds:
  fixes p :: "(64 word, (64 word, 's) x86) process"
  assumes "x86_ready (windows\<lparr>home := 0\<rparr>) tested_alike L trampoline_win_asm p"
    and "and (labels_of trampoline_win_asm p ''next'') 0xfffffffffffff000 = x86_entry trampoline_win_asm p - 16"
    and "get_ctx L (snd (answer L (page_ctx (cpu p) (x86_entry trampoline_win_asm p)) (lib (cpu p)))) =
      page_ctx (cpu p) (x86_entry trampoline_win_asm p)"
  defines "t \<equiv> x86_entry trampoline_win_asm p"
  shows "x86_proceeds (windows\<lparr>home := 0\<rparr>) L p t (labels_of trampoline_win_asm p) trampoline_win_asm [x86_caller p]
    (stub_calls (cpu p) (page_ctx (cpu p) t) 112 104 None)"
proof (rule proceeds_code)
  show "x86_proceeds (windows\<lparr>home := 0\<rparr>) L p t (labels_of trampoline_win_asm p) win_asm_body
      [labels_of trampoline_win_asm p ''next'', x86_caller p] (stub_calls (cpu p) (page_ctx (cpu p) t) 112 104 None)"
    by (rule win_asm_body_proceeds [OF assms(1)]) (use assms(2,3) in \<open>simp_all add: t_def\<close>)
qed (simp_all add: trampoline_win_asm_def)

lemma i386_proceeds:
  fixes p :: "(32 word, (32 word, 's) x86) process"
  assumes "x86_ready (cdecl\<lparr>home := 0\<rparr>) tested_alike L trampoline_i386 p"
  defines "t \<equiv> x86_entry trampoline_i386 p"
  shows "x86_proceeds (cdecl\<lparr>home := 0\<rparr>) L p t (labels_of trampoline_i386 p) trampoline_i386 [x86_caller p]
    (stub_calls (cpu p) (page_ctx (cpu p) t) 8 4 (Some 0))"
proof (rule proceeds_code)
  show "x86_proceeds (cdecl\<lparr>home := 0\<rparr>) L p t (labels_of trampoline_i386 p) i386_body
      [labels_of trampoline_i386 p ''next'', x86_caller p] (stub_calls (cpu p) (page_ctx (cpu p) t) 8 4 (Some 0))"
    by (rule i386_body_proceeds [OF assms(1)]) (simp_all add: t_def labels_of_def x86_entry_def trampoline_i386_def)
qed (simp_all add: trampoline_i386_def)

lemma i386_asm_proceeds:
  fixes p :: "(32 word, (32 word, 's) x86) process"
  assumes "x86_ready (cdecl\<lparr>home := 0\<rparr>) tested_alike L trampoline_i386_asm p"
    and "and (labels_of trampoline_i386_asm p ''next'') 0xfffff000 = x86_entry trampoline_i386_asm p - 8"
  defines "t \<equiv> x86_entry trampoline_i386_asm p"
  shows "x86_proceeds (cdecl\<lparr>home := 0\<rparr>) L p t (labels_of trampoline_i386_asm p) trampoline_i386_asm [x86_caller p]
    (stub_calls (cpu p) (page_ctx (cpu p) t) 8 4 (Some 0))"
proof (rule proceeds_code)
  show "x86_proceeds (cdecl\<lparr>home := 0\<rparr>) L p t (labels_of trampoline_i386_asm p) i386_asm_body
      [labels_of trampoline_i386_asm p ''next'', x86_caller p] (stub_calls (cpu p) (page_ctx (cpu p) t) 8 4 (Some 0))"
    by (rule i386_asm_body_proceeds [OF assms(1)]) (use assms(2) in \<open>simp_all add: t_def\<close>)
qed (simp_all add: trampoline_i386_asm_def)


section \<open>The contract fulfilled\<close>

text \<open>
  The versions for the assembler of Microsoft find the page by clearing the lower bits of the address of \<open>next\<close>, and the one for 64 bits
  returns the context itself and not what \<open>ctx_get\<close> would.
\<close>

definition in_page :: "x86_instr line list \<Rightarrow> ('w::len word, ('w word, 's) x86) process \<Rightarrow> bool" where
  "in_page code p \<longleftrightarrow> and (labels_of code p ''next'') (- 0x1000) = x86_entry code p - 2 * cell"

lemma page_mask:
  "(- 0x1000 :: 64 word) = 0xfffffffffffff000"
  "(- 0x1000 :: 32 word) = 0xfffff000"
  by simp_all

definition remembers :: "('a, 's) library \<Rightarrow> bool" where
  "remembers L \<longleftrightarrow> (\<forall>ctx d. get_ctx L (snd (answer L ctx d)) = ctx)"

lemma x86_fulfils:
  assumes "\<And>p. ready p \<Longrightarrow> x86_ready A R L code p"
    and "\<And>p. ready p \<Longrightarrow> x86_proceeds A L p (x86_entry code p) (labels_of code p) code [x86_caller p] (trace p)"
    and "SP \<notin> saved A"
  shows "trampoline (x86_enter code) ready L (x86_entry code) x86_caller (x86_passes A) (x86_answers A)"
proof
  fix p
  assume "ready p"
  note run = x86_proceeds_run [OF assms(1,2) [OF this] assms(3)]
  let ?d = "answer L (page_ctx (cpu p) (x86_entry code p)) (lib (cpu p))"
  show "\<exists>m. x86_enter code p = Some (page_routine (cpu p) (x86_entry code p), m) \<and> x86_passes A p m \<and> lib m = snd ?d"
    if "fst ?d = 0"
    by (rule run) (use that in auto)
  show "\<exists>m. x86_enter code p = Some (x86_caller p, m) \<and> x86_answers A p (get_ctx L (snd ?d)) m \<and> lib m = snd ?d"
    if "fst ?d \<noteq> 0"
    by (rule run) (use that in auto)
qed

interpretation on_systemv: trampoline "x86_enter (trampoline_systemv cet)"
  "x86_ready systemv tested_alike L (trampoline_systemv cet)"
  "L :: (64 word, 's) library" "x86_entry (trampoline_systemv cet)" x86_caller "x86_passes systemv" "x86_answers systemv"
  by (rule x86_fulfils [where R = tested_alike, OF _ systemv_proceeds]) simp_all

interpretation on_win: trampoline "x86_enter trampoline_win" "x86_ready (windows\<lparr>home := 0\<rparr>) tested_alike L trampoline_win"
  "L :: (64 word, 's) library" "x86_entry trampoline_win" x86_caller "x86_passes (windows\<lparr>home := 0\<rparr>)" "x86_answers (windows\<lparr>home := 0\<rparr>)"
  by (rule x86_fulfils [where R = tested_alike, OF _ win_proceeds]) simp_all

interpretation on_win_asm: trampoline "x86_enter trampoline_win_asm"
  "\<lambda>p. x86_ready (windows\<lparr>home := 0\<rparr>) tested_alike L trampoline_win_asm p \<and> in_page trampoline_win_asm p \<and> remembers L"
  "L :: (64 word, 's) library" "x86_entry trampoline_win_asm" x86_caller "x86_passes (windows\<lparr>home := 0\<rparr>)" "x86_answers (windows\<lparr>home := 0\<rparr>)"
  by (rule x86_fulfils [where R = tested_alike, OF _ win_asm_proceeds]) (simp_all add: in_page_def page_mask remembers_def)

interpretation on_i386: trampoline "x86_enter trampoline_i386" "x86_ready (cdecl\<lparr>home := 0\<rparr>) tested_alike L trampoline_i386"
  "L :: (32 word, 's) library" "x86_entry trampoline_i386" x86_caller "x86_passes (cdecl\<lparr>home := 0\<rparr>)" "x86_answers (cdecl\<lparr>home := 0\<rparr>)"
  by (rule x86_fulfils [where R = tested_alike, OF _ i386_proceeds]) simp_all

interpretation on_i386_asm: trampoline "x86_enter trampoline_i386_asm"
  "\<lambda>p. x86_ready (cdecl\<lparr>home := 0\<rparr>) tested_alike L trampoline_i386_asm p \<and> in_page trampoline_i386_asm p"
  "L :: (32 word, 's) library" "x86_entry trampoline_i386_asm" x86_caller "x86_passes (cdecl\<lparr>home := 0\<rparr>)" "x86_answers (cdecl\<lparr>home := 0\<rparr>)"
  by (rule x86_fulfils [where R = tested_alike, OF _ i386_asm_proceeds]) (simp_all add: in_page_def page_mask)

end
