(* ===== verification/Arm.thy ===== *)
theory Arm
  imports Machine
begin

text \<open>
  The instructions of ARM and AArch64 that the trampolines use, their calling conventions (AAPCS), and rules for the execution of
  programs over frames. Both processors have numbered registers, keep a return address in a link register and save registers in
  pairs or lists; the register \<open>link\<close> (14 or 30) is a parameter. Of a vector register the model has the 64 bits that a function may have to
  restore.
\<close>

section \<open>Instructions\<close>

datatype arm_instr =
    Adr_here nat
  | Push_regs "nat list"
  | Pop_regs "nat list"
  | Read_regs "nat list"
  | Ldr nat nat int
  | Blx nat
  | Cmp_zero nat
  | Bne string
  | Bx nat
  | Ldr_pc nat int
  | Pop_pc "nat list"

record ('a, 's) arm = "('a, 's) machine" +
  reg :: "nat \<Rightarrow> 'a"
  sp :: 'a
  vreg :: "nat \<Rightarrow> 64 word"
  zflag :: bool

text \<open>A list of registers is stored with its first register at the lowest address.\<close>

fun push_regs :: "nat list \<Rightarrow> ('w::len word, 's) arm \<Rightarrow> ('w word, 's) arm option" where
  "push_regs [] m = Some m"
| "push_regs (r # rs) m =
     Option.bind (push_regs rs m) (\<lambda>m'. map_option (\<lambda>m. m\<lparr>sp := sp m' - cell\<rparr>) (store m' (sp m' - cell) (reg m r)))"

fun load_regs :: "nat list \<Rightarrow> 'w::len word \<Rightarrow> ('w word, 's) arm \<Rightarrow> ('w word, 's) arm option" where
  "load_regs [] a m = Some m"
| "load_regs (r # rs) a m =
     Option.bind (load m a) (\<lambda>w. map_option (\<lambda>m. m\<lparr>reg := (reg m)(r := w)\<rparr>) (load_regs rs (a + cell) m))"

definition pop_regs :: "nat list \<Rightarrow> ('w::len word, 's) arm \<Rightarrow> ('w word, 's) arm option" where
  "pop_regs rs m = map_option (\<lambda>m'. m'\<lparr>sp := sp m + of_nat (cell_size TYPE('w) * length rs)\<rparr>) (load_regs rs (sp m) m)"

fun arm_sem ::
  "nat \<Rightarrow> ('w::len word \<Rightarrow> ('w word, 's) arm \<Rightarrow> ('w word, 's) arm) \<Rightarrow> 'w word place \<Rightarrow> arm_instr \<Rightarrow> ('w word, 's) arm \<Rightarrow>
    ('w word, ('w word, 's) arm) action" where
  "arm_sem link C p (Adr_here r) m = Next (m\<lparr>reg := (reg m)(r := here p)\<rparr>)"
| "arm_sem link C p (Push_regs rs) m = act (push_regs rs m)"
| "arm_sem link C p (Pop_regs rs) m = act (pop_regs rs m)"
| "arm_sem link C p (Read_regs rs) m = act (load_regs rs (sp m) m)"
| "arm_sem link C p (Ldr d b n) m = act (map_option (\<lambda>w. m\<lparr>reg := (reg m)(d := w)\<rparr>) (load m (reg m b + of_int n)))"
| "arm_sem link C p (Blx r) m =
     (let f = reg m r
      in Next ((C f (m\<lparr>reg := (reg m)(link := following p)\<rparr>))\<lparr>calls := calls m @ [(f, sp m)]\<rparr>))"
| "arm_sem link C p (Cmp_zero r) m = Next (m\<lparr>zflag := reg m r = 0\<rparr>)"
| "arm_sem link C p (Bne l) m = (if zflag m then Next m else Goto l m)"
| "arm_sem link C p (Bx r) m = Leave (reg m r) m"
| "arm_sem link C p (Ldr_pc b n) m = (case load m (reg m b + of_int n) of None \<Rightarrow> Stuck | Some a \<Rightarrow> Leave a m)"
| "arm_sem link C p (Pop_pc rs) m =
     (case pop_regs rs m of None \<Rightarrow> Stuck
      | Some m \<Rightarrow> (case load m (sp m) of None \<Rightarrow> Stuck | Some a \<Rightarrow> Leave a (m\<lparr>sp := sp m + cell\<rparr>)))"

section \<open>Calling conventions\<close>

record aapcs =
  arguments :: "nat set"
  varguments :: "nat set"
  preserved :: "nat set"
  vpreserved :: "nat set"
  link_register :: nat

definition aapcs32 :: aapcs where
  "aapcs32 = \<lparr>arguments = {0, 1, 2, 3}, varguments = {0, 1, 2, 3, 4, 5, 6, 7},
     preserved = {4, 5, 6, 7, 8, 9, 10, 11}, vpreserved = {8, 9, 10, 11, 12, 13, 14, 15}, link_register = 14\<rparr>"

text \<open>Register 8 of AArch64 holds the address for a result that is a structure.\<close>

definition aapcs64 :: aapcs where
  "aapcs64 = \<lparr>arguments = {0, 1, 2, 3, 4, 5, 6, 7, 8}, varguments = {0, 1, 2, 3, 4, 5, 6, 7},
     preserved = {19, 20, 21, 22, 23, 24, 25, 26, 27, 28, 29}, vpreserved = {8, 9, 10, 11, 12, 13, 14, 15}, link_register = 30\<rparr>"

lemma aapcs_simps [simp]:
  "arguments aapcs32 = {0, 1, 2, 3}" "varguments aapcs32 = {0, 1, 2, 3, 4, 5, 6, 7}"
  "preserved aapcs32 = {4, 5, 6, 7, 8, 9, 10, 11}" "vpreserved aapcs32 = {8, 9, 10, 11, 12, 13, 14, 15}"
  "link_register aapcs32 = 14"
  "arguments aapcs64 = {0, 1, 2, 3, 4, 5, 6, 7, 8}" "varguments aapcs64 = {0, 1, 2, 3, 4, 5, 6, 7}"
  "preserved aapcs64 = {19, 20, 21, 22, 23, 24, 25, 26, 27, 28, 29}" "vpreserved aapcs64 = {8, 9, 10, 11, 12, 13, 14, 15}"
  "link_register aapcs64 = 30"
  by (simp_all add: aapcs32_def aapcs64_def)

definition arm_keeps :: "aapcs \<Rightarrow> 'w::len word \<Rightarrow> ('w word \<Rightarrow> ('w word, 's) arm \<Rightarrow> ('w word, 's) arm) \<Rightarrow> 'w word \<Rightarrow> bool" where
  "arm_keeps A lim C f \<longleftrightarrow> (\<forall>m. unat lim \<le> unat (sp m) \<longrightarrow>
     (\<forall>r\<in>preserved A. reg (C f m) r = reg m r) \<and> (\<forall>v\<in>vpreserved A. vreg (C f m) v = vreg m v) \<and> sp (C f m) = sp m \<and>
     (\<forall>a. unat a < unat lim \<or> unat (sp m) \<le> unat a \<longrightarrow> cells (C f m) a = cells m a))"

definition arm_serves ::
  "aapcs \<Rightarrow> ('w::len word \<Rightarrow> cint \<Rightarrow> bool) \<Rightarrow> ('w word, 's) library \<Rightarrow> 'w word \<Rightarrow>
    ('w word \<Rightarrow> ('w word, 's) arm \<Rightarrow> ('w word, 's) arm) \<Rightarrow> 'w word \<Rightarrow> 'w word \<Rightarrow> 'w word \<Rightarrow> bool" where
  "arm_serves A int_result L lim C fs fa fg \<longleftrightarrow>
     arm_keeps A lim C fs \<and> arm_keeps A lim C fa \<and> arm_keeps A lim C fg \<and>
     (\<forall>m. unat lim \<le> unat (sp m) \<longrightarrow>
        lib (C fs m) = set_ctx L (reg m 0) (lib m) \<and>
        int_result (reg (C fa m) 0) (fst (asked L (lib m))) \<and> lib (C fa m) = snd (asked L (lib m)) \<and>
        reg (C fg m) 0 = get_ctx L (lib m) \<and> lib (C fg m) = lib m)"

section \<open>Rules\<close>

type_synonym ('a, 's) arm_view = "(nat \<Rightarrow> 'a) \<times> (nat \<Rightarrow> 64 word) \<times> bool \<times> 'a list \<times> 's \<times> ('a \<times> 'a) list"

fun arm_viewed ::
  "'w::len word \<Rightarrow> 'w word \<Rightarrow> ('w word \<Rightarrow> 'w word) \<Rightarrow> ('w word, 's) arm_view \<Rightarrow> ('w word, 's) arm \<Rightarrow> bool" where
  "arm_viewed lim base old (g, v, z, ws, l, cs) m \<longleftrightarrow>
     frame lim base old (sp m) m ws \<and> reg m = g \<and> vreg m = v \<and> zflag m = z \<and> lib m = l \<and> calls m = cs"

lemma viewed_push_regs:
  fixes ws :: "'w::len word list"
  assumes "arm_viewed lim base old (g, v, z, ws, l, cs) m" and "cell_size TYPE('w) * (length rs + length ws) \<le> 256"
  shows "\<exists>m'. push_regs rs m = Some m' \<and> arm_viewed lim base old (g, v, z, map g rs @ ws, l, cs) m'"
  using assms(2)
proof (induction rs)
  case Nil
  then show ?case
    using assms(1) by simp
next
  case (Cons r rs)
  then have "cell_size TYPE('w) * (length rs + length ws) \<le> 256"
    by (simp add: algebra_simps)
  from Cons.IH [OF this] obtain m' where m': "push_regs rs m = Some m'"
    and v: "arm_viewed lim base old (g, v, z, map g rs @ ws, l, cs) m'"
    by blast
  then have "frame lim base old (sp m') m' (map g rs @ ws)"
    by simp
  then obtain n where "store m' (sp m' - cell) (g r) = Some n" and "n = m'\<lparr>cells := (cells m')(sp m' - cell := g r)\<rparr>"
    and "frame lim base old (sp m' - cell) n (g r # map g rs @ ws)"
    by (rule frame_push) (use Cons.prems in simp)
  with m' v assms(1) show ?case
    by (auto simp: frame_def)
qed

fun set_regs :: "nat list \<Rightarrow> 'a list \<Rightarrow> (nat \<Rightarrow> 'a) \<Rightarrow> nat \<Rightarrow> 'a" where
  "set_regs (r # rs) (w # ws) g = (set_regs rs ws g)(r := w)"
| "set_regs rs ws g = g"

lemma load_regs_frame:
  fixes ws :: "'w::len word list"
  assumes "frame lim base old a m (us @ ws)" and "length rs = length us"
  shows "load_regs rs a m = Some (m\<lparr>reg := set_regs rs us (reg m)\<rparr>) \<and> frame lim base old (a + of_nat (cell_size TYPE('w) * length rs)) m ws"
  using assms(2,1)
proof (induction rs us arbitrary: a rule: list_induct2)
  case Nil
  then show ?case by simp
next
  case (Cons r rs u us)
  note p = frame_pop [of lim base old a m u "us @ ws"]
  from Cons.prems p show ?case
    using Cons.IH [of "a + cell"] by (simp add: algebra_simps flip: fun_upd_def)
qed


lemma goes_adr:
  assumes "goes (arm_sem k C) labels at (arm_viewed lim base old) c (g(r := at (Suc (instrs c))), v, z, ws, l, cs) Q"
  shows "goes (arm_sem k C) labels at (arm_viewed lim base old) (Instr (Adr_here r) # c) (g, v, z, ws, l, cs) Q"
  by (intro goes_next [OF assms]) (auto simp: frame_def)

lemma goes_push_regs:
  fixes ws :: "'w::len word list"
  assumes "cell_size TYPE('w) * (length rs + length ws) \<le> 256"
    and "goes (arm_sem k C) labels at (arm_viewed lim base old) c (g, v, z, map g rs @ ws, l, cs) Q"
  shows "goes (arm_sem k C) labels at (arm_viewed lim base old) (Instr (Push_regs rs) # c) (g, v, z, ws, l, cs) Q"
proof (rule goes_next [OF assms(2)])
  fix m
  assume "arm_viewed lim base old (g, v, z, ws, l, cs) m"
  from viewed_push_regs [OF this assms(1)]
  show "\<exists>m'. arm_sem k C (place_of labels at c) (Push_regs rs) m = Next m' \<and>
      arm_viewed lim base old (g, v, z, map g rs @ ws, l, cs) m'"
    by (auto simp: act_def simp del: arm_viewed.simps)
qed

lemma viewed_pop_regs:
  fixes ws :: "'w::len word list"
  assumes "arm_viewed lim base old (g, v, z, us @ ws, l, cs) m" and "length rs = length us"
  shows "\<exists>m'. pop_regs rs m = Some m' \<and> arm_viewed lim base old (set_regs rs us g, v, z, ws, l, cs) m'"
proof -
  from assms(1) have "frame lim base old (sp m) m (us @ ws)"
    by simp
  from load_regs_frame [OF this assms(2)] assms show ?thesis
    by (auto simp: pop_regs_def frame_def)
qed

lemma goes_pop_regs:
  assumes "length rs = length us"
    and "goes (arm_sem k C) labels at (arm_viewed lim base old) c (set_regs rs us g, v, z, ws, l, cs) Q"
  shows "goes (arm_sem k C) labels at (arm_viewed lim base old) (Instr (Pop_regs rs) # c) (g, v, z, us @ ws, l, cs) Q"
proof (rule goes_next [OF assms(2)])
  fix m
  assume "arm_viewed lim base old (g, v, z, us @ ws, l, cs) m"
  from viewed_pop_regs [OF this assms(1)]
  show "\<exists>m'. arm_sem k C (place_of labels at c) (Pop_regs rs) m = Next m' \<and>
      arm_viewed lim base old (set_regs rs us g, v, z, ws, l, cs) m'"
    by (auto simp: act_def simp del: arm_viewed.simps)
qed

lemma goes_read_regs:
  assumes "length rs = length us"
    and "goes (arm_sem k C) labels at (arm_viewed lim base old) c (set_regs rs us g, v, z, us @ ws, l, cs) Q"
  shows "goes (arm_sem k C) labels at (arm_viewed lim base old) (Instr (Read_regs rs) # c) (g, v, z, us @ ws, l, cs) Q"
proof (rule goes_next [OF assms(2)])
  fix m
  assume v: "arm_viewed lim base old (g, v, z, us @ ws, l, cs) m"
  then have "frame lim base old (sp m) m (us @ ws)"
    by simp
  from load_regs_frame [OF this assms(1)] v
  show "\<exists>m'. arm_sem k C (place_of labels at c) (Read_regs rs) m = Next m' \<and>
      arm_viewed lim base old (set_regs rs us g, v, z, us @ ws, l, cs) m'"
    by (auto simp: act_def frame_def)
qed

lemma goes_ldr:
  assumes "g b + of_int n = a" and "off_stack lim base a" and "aligned a"
    and "goes (arm_sem k C) labels at (arm_viewed lim base old) c (g(d := old a), v, z, ws, l, cs) Q"
  shows "goes (arm_sem k C) labels at (arm_viewed lim base old) (Instr (Ldr d b n) # c) (g, v, z, ws, l, cs) Q"
proof (rule goes_next [OF assms(4)])
  fix m
  assume v: "arm_viewed lim base old (g, v, z, ws, l, cs) m"
  then have "load m (reg m b + of_int n) = Some (old a)"
    using frame_outside [OF _ assms(2,3), of old "sp m" m ws] assms(1) by auto
  with v show "\<exists>m'. arm_sem k C (place_of labels at c) (Ldr d b n) m = Next m' \<and>
      arm_viewed lim base old (g(d := old a), v, z, ws, l, cs) m'"
    by (auto simp: act_def frame_def)
qed

lemma goes_cmp_zero:
  assumes "goes (arm_sem k C) labels at (arm_viewed lim base old) c (g, v, g r = 0, ws, l, cs) Q"
  shows "goes (arm_sem k C) labels at (arm_viewed lim base old) (Instr (Cmp_zero r) # c) (g, v, z, ws, l, cs) Q"
  by (intro goes_next [OF assms]) (auto simp: frame_def)

lemma goes_bne:
  assumes "z \<Longrightarrow> goes (arm_sem k C) labels at (arm_viewed lim base old) c (g, v, z, ws, l, cs) Q"
    and "\<not> z \<Longrightarrow> goes (arm_sem k C) labels at (arm_viewed lim base old) (after b c) (g, v, z, ws, l, cs) Q"
  shows "goes (arm_sem k C) labels at (arm_viewed lim base old) (Instr (Bne b) # c) (g, v, z, ws, l, cs) Q"
proof (cases z)
  case True
  then show ?thesis
    by (intro goes_next [OF assms(1)]) auto
next
  case False
  then show ?thesis
    by (intro goes_goto [OF assms(2)]) auto
qed

lemma goes_bx:
  assumes "Q (g r) (g, v, z, ws, l, cs)"
  shows "goes (arm_sem k C) labels at (arm_viewed lim base old) (Instr (Bx r) # c) (g, v, z, ws, l, cs) Q"
  by (intro goes_leave [where Q = Q and a = "g r" and v' = "(g, v, z, ws, l, cs)", OF assms]) auto

lemma goes_ldr_pc:
  assumes "g b + of_int n = a" and "off_stack lim base a" and "aligned a" and "Q (old a) (g, v, z, ws, l, cs)"
  shows "goes (arm_sem k C) labels at (arm_viewed lim base old) (Instr (Ldr_pc b n) # c) (g, v, z, ws, l, cs) Q"
proof (rule goes_leave [where Q = Q and a = "old a" and v' = "(g, v, z, ws, l, cs)", OF assms(4)])
  fix m
  assume v: "arm_viewed lim base old (g, v, z, ws, l, cs) m"
  then have "load m (reg m b + of_int n) = Some (old a)"
    using frame_outside [OF _ assms(2,3), of old "sp m" m ws] assms(1) by auto
  with v show "\<exists>m'. arm_sem k C (place_of labels at c) (Ldr_pc b n) m = Leave (old a) m' \<and>
      arm_viewed lim base old (g, v, z, ws, l, cs) m'"
    by simp
qed

lemma goes_pop_pc:
  assumes "length rs = length us" and "Q w (set_regs rs us g, v, z, ws, l, cs)"
  shows "goes (arm_sem k C) labels at (arm_viewed lim base old) (Instr (Pop_pc rs) # c) (g, v, z, us @ w # ws, l, cs) Q"
proof (rule goes_leave [where Q = Q and a = w and v' = "(set_regs rs us g, v, z, ws, l, cs)", OF assms(2)])
  fix m
  assume "arm_viewed lim base old (g, v, z, us @ w # ws, l, cs) m"
  from viewed_pop_regs [OF this assms(1)] obtain m' where m': "pop_regs rs m = Some m'"
    and v: "arm_viewed lim base old (set_regs rs us g, v, z, w # ws, l, cs) m'"
    by blast
  then have "frame lim base old (sp m') m' (w # ws)"
    by simp
  from frame_pop [OF this] m' v
  show "\<exists>m'. arm_sem k C (place_of labels at c) (Pop_pc rs) m = Leave w m' \<and>
      arm_viewed lim base old (set_regs rs us g, v, z, ws, l, cs) m'"
    by (auto simp: frame_def)
qed

text \<open>A call of a function that keeps to the convention.\<close>

lemma goes_blx:
  fixes ws :: "'w::len word list"
  assumes "g r = f" and "arm_keeps A lim C f"
    and "\<And>m w. arm_viewed lim base old (g(k := w), v, z, ws, l, cs) m \<Longrightarrow> lib (C f m) = l' \<and> result (reg (C f m) 0)"
    and go: "\<And>g' v' z'. (\<And>r. r \<in> preserved A \<Longrightarrow> r \<noteq> k \<Longrightarrow> g' r = g r) \<Longrightarrow> (\<And>y. y \<in> vpreserved A \<Longrightarrow> v' y = v y) \<Longrightarrow> result (g' 0) \<Longrightarrow>
      goes (arm_sem k C) labels at (arm_viewed lim base old) c
        (g', v', z', ws, l', cs @ [(f, base - of_nat (cell_size TYPE('w) * length ws))]) Q"
  shows "goes (arm_sem k C) labels at (arm_viewed lim base old) (Instr (Blx r) # c) (g, v, z, ws, l, cs) Q"
proof (rule goes_some)
  fix m
  assume v: "arm_viewed lim base old (g, v, z, ws, l, cs) m"
  let ?p = "m\<lparr>reg := (reg m)(k := at (instrs c))\<rparr>"
  let ?m = "(C f ?p)\<lparr>calls := calls m @ [(f, sp m)]\<rparr>"
  have p: "arm_viewed lim base old (g(k := at (instrs c)), v, z, ws, l, cs) ?p"
    using v by (auto simp: frame_def)
  then have f: "frame lim base old (sp m) ?p ws" and lim: "unat lim \<le> unat (sp ?p)"
    by (simp_all add: frame_def)
  have kept: "\<forall>r\<in>preserved A. reg (C f ?p) r = reg ?p r" "\<forall>y\<in>vpreserved A. vreg (C f ?p) y = vreg ?p y" "sp (C f ?p) = sp m"
    "\<forall>a. unat a < unat lim \<or> unat (sp m) \<le> unat a \<longrightarrow> cells (C f ?p) a = cells ?p a"
    using assms(2) lim by (simp_all add: arm_keeps_def)
  have sp: "sp m = base - of_nat (cell_size TYPE('w) * length ws)"
    using v frame_sp by auto
  have "frame lim base old (sp m) ?m ws"
    using f by (rule frame_kept) (use kept(4) in auto)
  then have "arm_viewed lim base old (reg (C f ?p), vreg (C f ?p), zflag (C f ?p), ws, l',
      cs @ [(f, base - of_nat (cell_size TYPE('w) * length ws))]) ?m"
    using v kept(3) sp assms(3) [OF p] by simp
  moreover have "arm_sem k C (place_of labels at c) (Blx r) m = Next ?m"
    using v assms(1) by (auto simp: Let_def)
  ultimately show "\<exists>m' v'. arm_sem k C (place_of labels at c) (Blx r) m = Next m' \<and> arm_viewed lim base old v' m' \<and>
      goes (arm_sem k C) labels at (arm_viewed lim base old) c v' Q"
    using go [of "reg (C f ?p)" "vreg (C f ?p)" "zflag (C f ?p)"] kept(1,2) v assms(3) [OF p] by fastforce
qed

text \<open>The lists of registers that occur.\<close>

lemmas goes_pop_list =
  goes_pop_regs [where rs = "[q, r]" and us = "[a, b]" for q r a b, simplified]
  goes_pop_regs [where rs = "[q, r, s, t]" and us = "[a, b, d, e]" for q r s t a b d e, simplified]

lemmas goes_read_list =
  goes_read_regs [where rs = "[q, r]" and us = "[a, b]" for q r a b, simplified]

lemmas goes_pop_pc_list =
  goes_pop_pc [where rs = "[q]" and us = "[a]" for q a, simplified]

text \<open>The three functions of a stub.\<close>

lemma goes_set_ctx_arm:
  fixes ws :: "'w::len word list"
  assumes "g r = fs" and "arm_serves A R L lim C fs fa fg" and "k \<noteq> 0" and "g 0 = ctx"
    and "\<And>g' v' z' cs'. (\<And>r. r \<in> preserved A \<Longrightarrow> r \<noteq> k \<Longrightarrow> g' r = g r) \<Longrightarrow> (\<And>y. y \<in> vpreserved A \<Longrightarrow> v' y = v y) \<Longrightarrow>
      goes (arm_sem k C) labels at (arm_viewed lim base old) c (g', v', z', ws, set_ctx L ctx l, cs') Q"
  shows "goes (arm_sem k C) labels at (arm_viewed lim base old) (Instr (Blx r) # c) (g, v, z, ws, l, cs) Q"
proof (rule goes_blx [where g = g and r = r and result = "\<lambda>_. True"])
  show "g r = fs"
    by (rule assms(1))
  show "arm_keeps A lim C fs"
    using assms(2) by (simp add: arm_serves_def)
  show "lib (C fs m) = set_ctx L ctx l \<and> True" if "arm_viewed lim base old (g(k := w), v, z, ws, l, cs) m" for m w
    using that assms(2-4) by (auto simp: arm_serves_def frame_def)
qed (use assms(5) in auto)

lemma goes_asked_arm:
  fixes ws :: "'w::len word list"
  assumes "g r = fa" and "arm_serves A R L lim C fs fa fg"
    and "\<And>g' v' z' cs'. (\<And>r. r \<in> preserved A \<Longrightarrow> r \<noteq> k \<Longrightarrow> g' r = g r) \<Longrightarrow> (\<And>y. y \<in> vpreserved A \<Longrightarrow> v' y = v y) \<Longrightarrow>
      R (g' 0) (fst (asked L l)) \<Longrightarrow>
      goes (arm_sem k C) labels at (arm_viewed lim base old) c (g', v', z', ws, snd (asked L l), cs') Q"
  shows "goes (arm_sem k C) labels at (arm_viewed lim base old) (Instr (Blx r) # c) (g, v, z, ws, l, cs) Q"
proof (rule goes_blx [where g = g and r = r and result = "\<lambda>v. R v (fst (asked L l))"])
  show "g r = fa"
    by (rule assms(1))
  show "arm_keeps A lim C fa"
    using assms(2) by (simp add: arm_serves_def)
  show "lib (C fa m) = snd (asked L l) \<and> R (reg (C fa m) 0) (fst (asked L l))"
    if "arm_viewed lim base old (g(k := w), v, z, ws, l, cs) m" for m w
    using that assms(2) by (auto simp: arm_serves_def frame_def)
qed (use assms(3) in auto)

lemma goes_get_ctx_arm:
  fixes ws :: "'w::len word list"
  assumes "g r = fg" and "arm_serves A R L lim C fs fa fg"
    and "\<And>g' v' z' cs'. (\<And>r. r \<in> preserved A \<Longrightarrow> r \<noteq> k \<Longrightarrow> g' r = g r) \<Longrightarrow> (\<And>y. y \<in> vpreserved A \<Longrightarrow> v' y = v y) \<Longrightarrow>
      g' 0 = get_ctx L l \<Longrightarrow>
      goes (arm_sem k C) labels at (arm_viewed lim base old) c (g', v', z', ws, l, cs') Q"
  shows "goes (arm_sem k C) labels at (arm_viewed lim base old) (Instr (Blx r) # c) (g, v, z, ws, l, cs) Q"
proof (rule goes_blx [where g = g and r = r and result = "\<lambda>v. v = get_ctx L l"])
  show "g r = fg"
    by (rule assms(1))
  show "arm_keeps A lim C fg"
    using assms(2) by (simp add: arm_serves_def)
  show "lib (C fg m) = l \<and> reg (C fg m) 0 = get_ctx L l"
    if "arm_viewed lim base old (g(k := w), v, z, ws, l, cs) m" for m w
    using that assms(2) by (auto simp: arm_serves_def frame_def)
qed (use assms(3) in auto)

end
