(* ===== verification/Arm_Trampolines.thy ===== *)
theory Arm_Trampolines
  imports Arm
begin

text \<open>
  The trampolines of \<open>src/asm/trampoline-arm.S\<close> and \<open>src/asm/trampoline-aarch64.S\<close>, with the proofs that they fulfil the contract \<open>trampoline\<close>
  for functions whose arguments are in the registers that they save.
\<close>

section \<open>The programs\<close>

text \<open>\<open>ip\<close> is register 12 and \<open>lr\<close> register 14.\<close>

definition trampoline_arm :: "arm_instr line list" where
  "trampoline_arm =
     Label ''mmk_trampoline''
     # map Instr
       [Adr_here 12,
        Push_regs [0, 1, 2, 3],
        Push_regs [12, 14],
        Ldr 0 12 (- 8), Ldr 12 0 4, Blx 12,
        Pop_regs [12, 14],
        Push_regs [12, 14],
        Ldr 12 12 (- 8), Ldr 12 12 0, Blx 12, Cmp_zero 0, Bne ''ret_ctx'',
        Pop_regs [12, 14],
        Pop_regs [0, 1, 2, 3],
        Ldr_pc 12 (- 4)]
     @ Label ''ret_ctx''
     # map Instr
       [Pop_regs [12, 14],
        Pop_regs [0, 1, 2, 3],
        Push_regs [12, 14],
        Ldr 12 12 (- 8), Ldr 12 12 8, Blx 12,
        Pop_pc [12]]"

definition trampoline_aarch64 :: "arm_instr line list" where
  "trampoline_aarch64 =
     Label ''mmk_trampoline''
     # map Instr
       [Adr_here 16,
        Push_regs [7, 6], Push_regs [5, 4], Push_regs [3, 2], Push_regs [1, 0],
        Push_regs [16, 30],
        Ldr 0 16 (- 16), Ldr 16 0 8, Blx 16,
        Read_regs [16, 30],
        Ldr 16 16 (- 16), Ldr 16 16 0, Blx 16, Cmp_zero 0, Bne ''ret_ctx'',
        Pop_regs [16, 30],
        Pop_regs [1, 0], Pop_regs [3, 2], Pop_regs [5, 4], Pop_regs [7, 6],
        Ldr 16 16 (- 8), Bx 16]
     @ Label ''ret_ctx''
     # map Instr
       [Pop_regs [16, 30],
        Pop_regs [1, 0], Pop_regs [3, 2], Pop_regs [5, 4], Pop_regs [7, 6],
        Push_regs [16, 30],
        Ldr 16 16 (- 16), Ldr 16 16 16, Blx 16,
        Pop_regs [16, 30],
        Bx 30]"

section \<open>The contract\<close>

definition arm_ready ::
  "aapcs \<Rightarrow> ('w::len word \<Rightarrow> cint \<Rightarrow> bool) \<Rightarrow> ('w word, 's) library \<Rightarrow> arm_instr line list \<Rightarrow>
    ('w word, ('w word, 's) arm) process \<Rightarrow> bool" where
  "arm_ready A R L code p \<longleftrightarrow>
     (let m = cpu p; t = layout p (instrs code); ctx = page_ctx m t
      in word_machine TYPE('w) \<and> aligned (sp m) \<and> unat (limit p) + 256 \<le> unat (sp m) \<and> stub_placed (limit p) (sp m) m t \<and>
         arm_serves A R L (limit p) (callee p) (cells m (ctx + cell)) (cells m ctx) (cells m (ctx + 2 * cell)))"

definition arm_enter ::
  "aapcs \<Rightarrow> arm_instr line list \<Rightarrow> ('w::len word, ('w word, 's) arm) process \<Rightarrow> ('w word \<times> ('w word, 's) arm) option" where
  "arm_enter A code p = run (arm_sem (link_register A) (callee p)) (layout p) code (cpu p)"

definition arm_entry :: "arm_instr line list \<Rightarrow> ('w::len word, ('w word, 's) arm) process \<Rightarrow> 'w word" where
  "arm_entry code p = layout p (instrs code)"

definition arm_caller :: "aapcs \<Rightarrow> ('w::len word, ('w word, 's) arm) process \<Rightarrow> 'w word" where
  "arm_caller A p = reg (cpu p) (link_register A)"

definition arm_passes :: "aapcs \<Rightarrow> ('w::len word, ('w word, 's) arm) process \<Rightarrow> ('w word, 's) arm \<Rightarrow> bool" where
  "arm_passes A p m \<longleftrightarrow>
     (\<forall>r \<in> {link_register A} \<union> arguments A \<union> preserved A. reg m r = reg (cpu p) r) \<and>
     (\<forall>v \<in> varguments A \<union> vpreserved A. vreg m v = vreg (cpu p) v) \<and> sp m = sp (cpu p) \<and>
     (\<forall>a. off_stack (limit p) (sp (cpu p)) a \<longrightarrow> cells m a = cells (cpu p) a)"

definition arm_answers :: "aapcs \<Rightarrow> ('w::len word, ('w word, 's) arm) process \<Rightarrow> 'w word \<Rightarrow> ('w word, 's) arm \<Rightarrow> bool" where
  "arm_answers A p v m \<longleftrightarrow>
     reg m 0 = v \<and> (\<forall>r \<in> preserved A. reg m r = reg (cpu p) r) \<and> (\<forall>v \<in> vpreserved A. vreg m v = vreg (cpu p) v) \<and>
     sp m = sp (cpu p) \<and> (\<forall>a. off_stack (limit p) (sp (cpu p)) a \<longrightarrow> cells m a = cells (cpu p) a)"

fun arm_done ::
  "aapcs \<Rightarrow> ('a, 's) library \<Rightarrow> 'a \<Rightarrow> 'a \<Rightarrow> (nat \<Rightarrow> 'a) \<Rightarrow> (nat \<Rightarrow> 64 word) \<Rightarrow> 's \<Rightarrow> 'a \<Rightarrow> ('a, 's) arm_view \<Rightarrow> bool" where
  "arm_done A L ctx routine g v l a (g', v', z', ws, l', cs) \<longleftrightarrow>
     ws = [] \<and> l' = snd (answer L ctx l) \<and> (\<forall>r \<in> preserved A. g' r = g r) \<and> (\<forall>y \<in> vpreserved A. v' y = v y) \<and>
     (if fst (answer L ctx l) = 0
      then a = routine \<and> g' (link_register A) = g (link_register A) \<and> (\<forall>r \<in> arguments A. g' r = g r) \<and> (\<forall>y \<in> varguments A. v' y = v y)
      else a = g (link_register A) \<and> g' 0 = get_ctx L l')"

definition arm_proceeds ::
  "aapcs \<Rightarrow> ('w::len word, 's) library \<Rightarrow> ('w word, ('w word, 's) arm) process \<Rightarrow> arm_instr line list \<Rightarrow> bool" where
  "arm_proceeds A L p code \<longleftrightarrow>
     (let m = cpu p; t = arm_entry code p
      in goes (arm_sem (link_register A) (callee p)) (\<lambda>l. layout p (instrs (after l code))) (layout p) (arm_viewed (limit p) (sp m) (cells m)) code
           (reg m, vreg m, zflag m, [], lib m, calls m)
           (arm_done A L (page_ctx m t) (page_routine m t) (reg m) (vreg m) (lib m)))"

lemma arm_fulfils:
  assumes "\<And>p. ready p \<Longrightarrow> arm_ready A R L code p" and "\<And>p. ready p \<Longrightarrow> arm_proceeds A L p code"
  shows "trampoline (arm_enter A code) ready L (arm_entry code) (arm_caller A) (arm_passes A) (arm_answers A)"
proof -
  have run: "\<exists>a m. arm_enter A code p = Some (a, m) \<and> lib m = snd d \<and>
      (fst d = 0 \<longrightarrow> a = page_routine (cpu p) (arm_entry code p) \<and> arm_passes A p m) \<and>
      (fst d \<noteq> 0 \<longrightarrow> a = arm_caller A p \<and> arm_answers A p (get_ctx L (snd d)) m)"
    if "ready p" and d: "d = answer L (page_ctx (cpu p) (arm_entry code p)) (lib (cpu p))" for p d
  proof -
    have "arm_viewed (limit p) (sp (cpu p)) (cells (cpu p))
        (reg (cpu p), vreg (cpu p), zflag (cpu p), [], lib (cpu p), calls (cpu p)) (cpu p)"
      using assms(1) [OF \<open>ready p\<close>] by (auto simp: arm_ready_def Let_def frame_def)
    with assms(2) [OF \<open>ready p\<close>] obtain a m v where "arm_enter A code p = Some (a, m)"
      and "arm_viewed (limit p) (sp (cpu p)) (cells (cpu p)) v m"
      and "arm_done A L (page_ctx (cpu p) (arm_entry code p)) (page_routine (cpu p) (arm_entry code p))
        (reg (cpu p)) (vreg (cpu p)) (lib (cpu p)) a v"
      by (auto simp: arm_proceeds_def goes_def arm_enter_def run_def Let_def simp del: arm_viewed.simps)
    moreover obtain g' v' z' ws l' cs where "v = (g', v', z', ws, l', cs)"
      by (metis prod_cases6)
    ultimately show ?thesis
      using frame_sp [of "limit p" "sp (cpu p)" "cells (cpu p)" "sp m" m "[]"]
      by (auto simp: d arm_passes_def arm_answers_def arm_caller_def frame_def split: if_splits)
  qed
  show ?thesis
  proof
    fix p
    let ?d = "answer L (page_ctx (cpu p) (arm_entry code p)) (lib (cpu p))"
    assume "ready p"
    note r = run [OF this refl]
    show "\<exists>m. arm_enter A code p = Some (page_routine (cpu p) (arm_entry code p), m) \<and> arm_passes A p m \<and> lib m = snd ?d"
      if "fst ?d = 0"
      using r that by auto
    show "\<exists>m. arm_enter A code p = Some (arm_caller A p, m) \<and> arm_answers A p (get_ctx L (snd ?d)) m \<and> lib m = snd ?d"
      if "fst ?d \<noteq> 0"
      using r that by auto
  qed
qed

section \<open>The programs are correct\<close>

text \<open>
  What the code saves are the registers for integer arguments: all of them on ARM, the first eight on AArch64. So the contract is that of a
  convention whose arguments are these.
\<close>

definition integers32 :: aapcs where
  "integers32 = aapcs32\<lparr>varguments := {}\<rparr>"

definition integers64 :: aapcs where
  "integers64 = aapcs64\<lparr>arguments := {0, 1, 2, 3, 4, 5, 6, 7}, varguments := {}\<rparr>"

lemma arm_ready_cells:
  fixes p :: "('w::len word, ('w word, 's) arm) process"
  assumes "arm_ready A R L code p" and "arm_entry code p = t"
  shows "aligned t" "aligned (page_ctx (cpu p) t)" "off_stack (limit p) (sp (cpu p)) (t - 2 * cell)" "off_stack (limit p) (sp (cpu p)) (t - cell)"
    "off_stack (limit p) (sp (cpu p)) (page_ctx (cpu p) t)" "off_stack (limit p) (sp (cpu p)) (page_ctx (cpu p) t + cell)"
    "off_stack (limit p) (sp (cpu p)) (page_ctx (cpu p) t + 2 * cell)"
    "cells (cpu p) (t - 2 * cell) = page_ctx (cpu p) t" "cells (cpu p) (t - cell) = page_routine (cpu p) t"
    "arm_serves A R L (limit p) (callee p) (cells (cpu p) (page_ctx (cpu p) t + cell)) (cells (cpu p) (page_ctx (cpu p) t))
      (cells (cpu p) (page_ctx (cpu p) t + 2 * cell))"
  using assms by (auto simp: arm_ready_def arm_entry_def Let_def stub_placed_def) (simp_all add: page_ctx_def page_routine_def)

lemma arm32_proceeds:
  fixes p :: "(32 word, (32 word, 's) arm) process"
  assumes r: "arm_ready integers32 tested_alike L trampoline_arm p"
  shows "arm_proceeds integers32 L p trampoline_arm"
proof -
  define t where "t = arm_entry trampoline_arm p"
  note cells = arm_ready_cells [OF r t_def [symmetric], simplified]
  note s = cells(10)
  note h = t_def [unfolded arm_entry_def trampoline_arm_def, simplified, symmetric]
  note t = cells(1-9) h integers32_def
  show ?thesis
    unfolding arm_proceeds_def Let_def t_def [symmetric]
    apply (subst (2) trampoline_arm_def)
    apply (simp add: integers32_def)
    apply (rule goes_label goes_adr goes_push_regs; (simp add: t)?)+
    apply (rule goes_ldr [where a = "t - 8"]; (simp add: t)?)
    apply (rule goes_ldr [where a = "page_ctx (cpu p) t + 4"]; (simp add: t)?)
    apply (rule goes_set_ctx_arm [OF _ s]; (simp add: t)?)
    apply (rule goes_pop_list goes_push_regs; (simp add: t)?)+
    apply (rule goes_ldr [where a = "t - 8"]; (simp add: t)?)
    apply (rule goes_ldr [where a = "page_ctx (cpu p) t"]; (simp add: t)?)
    apply (rule goes_asked_arm [OF _ s]; (simp add: t)?)
    apply (rule goes_cmp_zero goes_bne; simp?)+
     apply (rule goes_pop_list; (simp add: t)?)+
     apply (rule goes_ldr_pc [where a = "t - 4"]; (simp add: t)?)
    apply (rule goes_pop_list goes_push_regs; (simp add: t)?)+
    apply (rule goes_ldr [where a = "t - 8"]; (simp add: t)?)
    apply (rule goes_ldr [where a = "page_ctx (cpu p) t + 8"]; (simp add: t)?)
    apply (rule goes_get_ctx_arm [OF _ s]; (simp add: t)?)
    apply (rule goes_pop_pc_list; (simp add: t)?)
    apply (rule impI, simp)
    done
qed

lemma aarch64_proceeds:
  fixes p :: "(64 word, (64 word, 's) arm) process"
  assumes r: "arm_ready integers64 tested_alike L trampoline_aarch64 p"
  shows "arm_proceeds integers64 L p trampoline_aarch64"
proof -
  define t where "t = arm_entry trampoline_aarch64 p"
  note cells = arm_ready_cells [OF r t_def [symmetric], simplified]
  note s = cells(10)
  note h = t_def [unfolded arm_entry_def trampoline_aarch64_def, simplified, symmetric]
  note t = cells(1-9) h integers64_def
  show ?thesis
    unfolding arm_proceeds_def Let_def t_def [symmetric]
    apply (subst (2) trampoline_aarch64_def)
    apply (simp add: integers64_def)
    apply (rule goes_label goes_adr goes_push_regs; (simp add: t)?)+
    apply (rule goes_ldr [where a = "t - 16"]; (simp add: t)?)
    apply (rule goes_ldr [where a = "page_ctx (cpu p) t + 8"]; (simp add: t)?)
    apply (rule goes_set_ctx_arm [OF _ s]; (simp add: t)?)
    apply (rule goes_read_list; (simp add: t)?)
    apply (rule goes_ldr [where a = "t - 16"]; (simp add: t)?)
    apply (rule goes_ldr [where a = "page_ctx (cpu p) t"]; (simp add: t)?)
    apply (rule goes_asked_arm [OF _ s]; (simp add: t)?)
    apply (rule goes_cmp_zero goes_bne; simp?)+
     apply (rule goes_pop_list; (simp add: t)?)+
     apply (rule goes_ldr [where a = "t - 8"]; (simp add: t)?)
     apply (rule goes_bx; (simp add: t)?)
    apply (rule goes_pop_list goes_push_regs; (simp add: t)?)+
    apply (rule goes_ldr [where a = "t - 16"]; (simp add: t)?)
    apply (rule goes_ldr [where a = "page_ctx (cpu p) t + 16"]; (simp add: t)?)
    apply (rule goes_get_ctx_arm [OF _ s]; (simp add: t)?)
    apply (rule goes_pop_list; (simp add: t)?)
    apply (rule goes_bx; (simp add: t)?)
    apply (rule impI, simp)
    done
qed

interpretation on_arm: trampoline "arm_enter integers32 trampoline_arm" "arm_ready integers32 tested_alike L trampoline_arm"
  "L :: (32 word, 's) library" "arm_entry trampoline_arm" "arm_caller integers32" "arm_passes integers32" "arm_answers integers32"
  by (rule arm_fulfils [OF _ arm32_proceeds]) simp_all

interpretation on_aarch64: trampoline "arm_enter integers64 trampoline_aarch64"
  "arm_ready integers64 tested_alike L trampoline_aarch64"
  "L :: (64 word, 's) library" "arm_entry trampoline_aarch64" "arm_caller integers64" "arm_passes integers64" "arm_answers integers64"
  by (rule arm_fulfils [OF _ aarch64_proceeds]) simp_all

end
