(* ===== verification/Trampoline_Code.thy ===== *)
theory Trampoline_Code
  imports X86_Trampolines Arm_Trampolines
begin

text \<open>
  The assembled trampolines in the library: what they call are \<open>mmk_set_ctx\<close>, \<open>mmk_ctx_asked\<close> and \<open>mmk_ctx\<close>, and
  the words in front of the code are those of the page that \<open>create_trampoline\<close> has made. The locale derives from the contract of the code
  that it does what \<open>enter_trampoline\<close> says, which the rest of the development builds on.
\<close>

definition stub_library :: "(addr, 'a stubbed_scheme) library" where
  "stub_library = \<lparr>set_ctx = (\<lambda>stub s. mmk_set_ctx s stub), asked = mmk_ctx_asked, get_ctx = mmk_ctx\<rparr>"

lemma stub_library_simps [simp]:
  "set_ctx stub_library stub s = s\<lparr>mmk_ctx_var := stub\<rparr>"
  "asked stub_library s = (ask_ctx s, s\<lparr>ask_ctx := 0\<rparr>)"
  "get_ctx stub_library s = mmk_ctx_var s"
  by (simp_all add: stub_library_def mmk_set_ctx_def mmk_ctx_asked_def mmk_ctx_def)

lemma stub_library_remembers: "remembers stub_library"
  by (simp add: remembers_def)

text \<open>The cells of the machine in front of the code are the bytes of the process.\<close>

definition sees_page :: "(addr, 'a stubbed_scheme, 'z) machine_scheme \<Rightarrow> addr \<Rightarrow> bool" where
  "sees_page m t \<longleftrightarrow> page_ctx m t = trampoline_ctx (mem (lib m)) t \<and> page_routine m t = trampoline_routine (mem (lib m)) t"

locale stub_trampoline = trampoline enter ready "stub_library :: (addr, 'a stubbed_scheme) library" entry caller passes answers
  for enter :: "(64, 'a stubbed_scheme, 'z) running \<Rightarrow> (addr \<times> (addr, 'a stubbed_scheme, 'z) machine_scheme) option"
    and ready entry caller passes answers
begin

lemma implements_model:
  assumes "ready p" and "sees_page (cpu p) (entry p)" and "enter_trampoline E (lib (cpu p)) (entry p) = Inr (r, s)"
  shows "\<exists>m. lib m = s \<and> (case r of Jumps fn \<Rightarrow> enter p = Some (fn, m) \<and> passes p m
    | Returns v \<Rightarrow> enter p = Some (caller p, m) \<and> answers p v m)"
proof (cases "ask_ctx (lib (cpu p)) = 0")
  case True
  with enter_jumps [OF assms(1)] assms(2,3) show ?thesis
    by (auto simp: enter_trampoline_def sees_page_def andthen_Inr_iff deref_Inr_iff mmk_set_ctx_def mmk_ctx_asked_def
        split: if_splits)
next
  case False
  with enter_answers [OF assms(1)] assms(2,3) show ?thesis
    by (auto simp: enter_trampoline_def sees_page_def andthen_Inr_iff deref_Inr_iff mmk_set_ctx_def mmk_ctx_asked_def mmk_ctx_def
        split: if_splits)
qed

lemma enters_installed:
  assumes "ready p" and "sees_page (cpu p) (entry p)" and "installed E (lib (cpu p)) stub fn ctx"
    and "entry p = trampoline_of (lib (cpu p)) stub"
  shows "\<exists>m. lib m = (lib (cpu p))\<lparr>mmk_ctx_var := stub, ask_ctx := 0\<rparr> \<and>
    (if ask_ctx (lib (cpu p)) = 0 then enter p = Some (fn, m) \<and> passes p m
     else enter p = Some (caller p, m) \<and> answers p stub m)"
  using implements_model [OF assms(1,2), of E] enter_installed [OF assms(3)] assms(4) by (auto split: if_splits)

end

interpretation stub_on_systemv: stub_trampoline "x86_enter (trampoline_systemv cet)"
  "x86_ready systemv tested_alike stub_library (trampoline_systemv cet)"
  "x86_entry (trampoline_systemv cet)" x86_caller "x86_passes systemv" "x86_answers systemv"
  by (rule stub_trampoline.intro) (rule on_systemv.trampoline_axioms)

interpretation stub_on_win: stub_trampoline "x86_enter trampoline_win"
  "x86_ready (windows\<lparr>home := 0\<rparr>) tested_alike stub_library trampoline_win"
  "x86_entry trampoline_win" x86_caller "x86_passes (windows\<lparr>home := 0\<rparr>)" "x86_answers (windows\<lparr>home := 0\<rparr>)"
  by (rule stub_trampoline.intro) (rule on_win.trampoline_axioms)

interpretation stub_on_win_asm: stub_trampoline "x86_enter trampoline_win_asm"
  "\<lambda>p. x86_ready (windows\<lparr>home := 0\<rparr>) tested_alike stub_library trampoline_win_asm p \<and> in_page trampoline_win_asm p"
  "x86_entry trampoline_win_asm" x86_caller "x86_passes (windows\<lparr>home := 0\<rparr>)" "x86_answers (windows\<lparr>home := 0\<rparr>)"
  by (rule stub_trampoline.intro) (use on_win_asm.trampoline_axioms [where L = stub_library] in \<open>simp add: stub_library_remembers\<close>)

interpretation stub_on_aarch64: stub_trampoline "arm_enter integers64 trampoline_aarch64"
  "arm_ready integers64 tested_alike stub_library trampoline_aarch64"
  "arm_entry trampoline_aarch64" "arm_caller integers64" "arm_passes integers64" "arm_answers integers64"
  by (rule stub_trampoline.intro) (rule on_aarch64.trampoline_axioms)

end
