(* ===== verification/Code_Demo.thy ===== *)
theory Code_Demo
  imports Trampoline_Code Demo
begin

text \<open>
  Concrete processes at which the properties of the trampolines are evaluated: the stub of \<open>Demo\<close> with its trampoline at \<open>0x210010\<close>, instructions
  that take one byte each, and functions that keep no register which the convention does not make them keep.
\<close>

section \<open>Processes for x86\<close>

definition demo_callee ::
  "('w::len word, 's) convention \<Rightarrow> ('w word, 's) library \<Rightarrow> (cint \<Rightarrow> 'w word) \<Rightarrow> 'w word \<Rightarrow> ('w word, 's) x86 \<Rightarrow> ('w word, 's) x86" where
  "demo_callee A L int_register f m =
     (let n = m\<lparr>gpr := (\<lambda>r. if r = SP then gpr m SP + cell else if r \<in> saved A then gpr m r else 0),
               xmm := (\<lambda>y. if y \<in> xsaved A then xmm m y else (0, 0))\<rparr>
      in if f = 0x601000 then n\<lparr>lib := set_ctx L (argument A m) (lib m)\<rparr>
         else if f = 0x602000 then n\<lparr>gpr := (gpr n)(AX := int_register (fst (asked L (lib m)))), lib := snd (asked L (lib m))\<rparr>
         else if f = 0x603000 then n\<lparr>gpr := (gpr n)(AX := get_ctx L (lib m))\<rparr>
         else n)"

definition code_cells :: "addr \<Rightarrow> addr" where
  "code_cells = (\<lambda>_. 0)(0x210000 := 0x10000, 0x210008 := 0x500000,
     0x10000 := 0x602000, 0x10008 := 0x601000, 0x10010 := 0x603000, 0x7ffff008 := 0x401234)"

definition code_process ::
  "(addr \<Rightarrow> (addr, 's) x86 \<Rightarrow> (addr, 's) x86) \<Rightarrow> x86_instr line list \<Rightarrow> 's \<Rightarrow> (addr, (addr, 's) x86) process" where
  "code_process C code s =
     \<lparr>callee = C, layout = (\<lambda>n. 0x210010 + of_nat (instrs code - n)), limit = 0x7ffe0000,
      cpu = \<lparr>cells = code_cells, lib = s, calls = [], gpr = (\<lambda>r. if r = SP then 0x7ffff008 else 7), xmm = (\<lambda>y. (1, 2)), zf = False\<rparr>\<rparr>"

lemma code_process_simps [simp]:
  "callee (code_process C code s) = C"
  "layout (code_process C code s) n = 0x210010 + of_nat (instrs code - n)"
  "limit (code_process C code s) = 0x7ffe0000"
  "cells (cpu (code_process C code s)) = code_cells"
  "lib (cpu (code_process C code s)) = s"
  "calls (cpu (code_process C code s)) = []"
  "gpr (cpu (code_process C code s)) SP = 0x7ffff008"
  "x86_entry code (code_process C code s) = 0x210010"
  "x86_caller (code_process C code s) = 0x401234"
  by (simp_all add: code_process_def x86_entry_def x86_caller_def code_cells_def)

lemma code_process_ready:
  assumes "serves A R L 0x7ffe0000 C 0x601000 0x602000 0x603000"
  shows "x86_ready A R L code (code_process C code s)"
  using assms by (simp add: x86_ready_def stub_placed_def page_ctx_def code_cells_def aligned_def off_stack_def)

lemma code_process_in_page: "in_page trampoline_win_asm (code_process C trampoline_win_asm s)"
  by (simp add: in_page_def labels_of_def trampoline_win_asm_def)

lemma demo_callee_serves:
  assumes "AX \<notin> saved A" and "SP \<notin> saved A" and "\<And>i. R (int_register i) i"
  shows "serves A R (L :: (addr, 's) library) lim (demo_callee A L int_register) 0x601000 0x602000 0x603000"
  using assms by (auto simp: serves_def keeps_def demo_callee_def Let_def)

lemma ucast_tested: "tested_alike (ucast (i :: cint) :: addr) i"
  unfolding tested_alike_def by transfer simp

lemma code_page [simp]:
  "page_ctx (cpu (code_process C code s)) 0x210010 = 0x10000"
  "page_routine (cpu (code_process C code s)) 0x210010 = 0x500000"
  by (simp_all add: page_ctx_def page_routine_def code_cells_def)

lemma demo_stub_code:
  "\<exists>s'. mmk_stub_create demo_env demo ''f'' fn ctx = Inr (0x10000, s') \<and> trampoline_of s' 0x10000 = 0x210010"
  by (simp add: mmk_stub_create_def mmk_init_def mmk_malloc_def Let_def demo_stub_allocations
      mmk_stub_create_static_def split_target_def mmk_plt_ctx_def plt_get_lib_def plt_get_offsets_def
      demo_find_slots [unfolded demo_ctx_def nth_Cons_0] demo_ctx_def realloc_block_def
      create_trampoline_def PAGE_SIZE_def sys_mmap_def mmk_mprotect_def trampoline_of_def)

lemma installed_page:
  "installed E s stub fn ctx \<Longrightarrow>
     trampoline_ctx (mem s) (trampoline_of s stub) = stub \<and> trampoline_routine (mem s) (trampoline_of s stub) = fn"
  by (auto simp: installed_def trampoline_of_def split: option.splits)

section \<open>Programs run step by step\<close>

lemma exec_next:
  "sem (place_of labels at c) i m = Next m' \<Longrightarrow> exec sem labels at c m' = r \<Longrightarrow> exec sem labels at (Instr i # c) m = r"
  by simp

lemma exec_goto:
  "sem (place_of labels at c) i m = Goto l m' \<Longrightarrow> exec sem labels at (after l c) m' = r \<Longrightarrow> exec sem labels at (Instr i # c) m = r"
  by simp

lemma exec_leave:
  "sem (place_of labels at c) i m = Leave a m' \<Longrightarrow> exec sem labels at (Instr i # c) m = Some (a, m')"
  by simp

lemma exec_label:
  "exec sem labels at c m = r \<Longrightarrow> exec sem labels at (Label l # c) m = r"
  by simp

named_theorems steps

text \<open>A function of Windows that uses the place above its return address which its caller has to leave to it.\<close>

definition home_user :: "addr \<Rightarrow> (addr, mock_state) x86 \<Rightarrow> (addr, mock_state) x86" where
  "home_user f m =
     (let n = demo_callee windows stub_library ucast f m
      in if f = 0x601000 \<and> gpr m SP < 0x80000000 then n\<lparr>cells := (cells m)(gpr m SP + 8 := gpr m CX + 0x10)\<rparr> else n)"

lemma home_user_serves: "serves windows tested_alike stub_library 0x7ffe0000 home_user 0x601000 0x602000 0x603000"
proof -
  have "0x7ffe0000 \<le> unat a \<and> unat a < unat sp + 40" if "a = sp + 8" "sp < 0x80000000" "0x7ffe0000 \<le> unat sp" for a sp :: addr
    using that by (auto simp: unat_word_ariths word_less_nat_alt)
  then show ?thesis
    by (fastforce simp: serves_def keeps_def home_user_def demo_callee_def Let_def ucast_tested)
qed

declare push_def [steps] set_gpr_def [steps] store_def [steps] load_def [steps] aligned_def [steps] act_def [steps]
  Let_def [steps] code_cells_def [steps] call_out_def [steps] home_user_def [steps] demo_callee_def [steps]

lemma home_user_run:
  assumes l: "labels ''start'' = 0x210010" "labels ''next'' = 0x210011" and n: "at (instrs win_body) = 0x210011"
  shows "\<exists>m. exec (x86_sem home_user) labels at trampoline_win (cpu (code_process home_user code demo)) = Some (0x401234, m) \<and>
    gpr m AX = 0x10000"
  unfolding code_process_def process.simps trampoline_win_def win_body_def PUSHDQ_def POPDQ_def append.simps list.map
  using n [unfolded win_body_def PUSHDQ_def POPDQ_def, simplified]
  apply -
  apply (rule exI, rule conjI)
   apply (rule exec_label, rule exec_goto, simp add: steps, simp del: exec.simps)
   apply (rule exec_next, (simp add: steps l; fail))+
   apply (rule exec_goto, simp add: steps, simp del: exec.simps)
   apply (rule exec_next, (simp add: steps l; fail))+
   apply (rule exec_leave)
   apply (simp add: steps)
  apply (simp add: steps)
  done

section \<open>Processes for AArch64\<close>

text \<open>All registers of the caller differ; a function clears those that it may use.\<close>

definition arm_callee ::
  "aapcs \<Rightarrow> ('w::len word, 's) library \<Rightarrow> (cint \<Rightarrow> 'w word) \<Rightarrow> 'w word \<Rightarrow> ('w word, 's) arm \<Rightarrow> ('w word, 's) arm" where
  "arm_callee A L int_register f m =
     (let n = m\<lparr>reg := (\<lambda>r. if r \<in> preserved A then reg m r else 0),
               vreg := (\<lambda>v. if v \<in> vpreserved A then vreg m v else 0)\<rparr>
      in if f = 0x601000 then n\<lparr>lib := set_ctx L (reg m 0) (lib m)\<rparr>
         else if f = 0x602000 then n\<lparr>reg := (reg n)(0 := int_register (fst (asked L (lib m)))), lib := snd (asked L (lib m))\<rparr>
         else if f = 0x603000 then n\<lparr>reg := (reg n)(0 := get_ctx L (lib m))\<rparr>
         else n)"

lemma arm_callee_serves:
  assumes "0 \<notin> preserved A" and "\<And>i. R (int_register i) i"
  shows "arm_serves A R (L :: (addr, 's) library) lim (arm_callee A L int_register) 0x601000 0x602000 0x603000"
  using assms by (auto simp: arm_serves_def arm_keeps_def arm_callee_def Let_def)

definition arm_process ::
  "(addr \<Rightarrow> (addr, 's) arm \<Rightarrow> (addr, 's) arm) \<Rightarrow> 's \<Rightarrow> (addr, (addr, 's) arm) process" where
  "arm_process C s =
     \<lparr>callee = C, layout = (\<lambda>n. 0x210010 + 4 * of_nat (instrs trampoline_aarch64 - n)), limit = 0x7ffe0000,
      cpu = \<lparr>cells = code_cells, lib = s, calls = [], reg = (\<lambda>r. of_nat r + 100), sp = 0x7ffff000, vreg = (\<lambda>v. of_nat v + 200), zflag = False\<rparr>\<rparr>"

lemma arm_process_simps [simp]:
  "callee (arm_process C s) = C"
  "layout (arm_process C s) n = 0x210010 + 4 * of_nat (instrs trampoline_aarch64 - n)"
  "limit (arm_process C s) = 0x7ffe0000"
  "cells (cpu (arm_process C s)) = code_cells"
  "lib (cpu (arm_process C s)) = s"
  "sp (cpu (arm_process C s)) = 0x7ffff000"
  "reg (cpu (arm_process C s)) r = of_nat r + 100"
  "vreg (cpu (arm_process C s)) r = of_nat r + 200"
  "arm_entry trampoline_aarch64 (arm_process C s) = 0x210010"
  "page_ctx (cpu (arm_process C s)) 0x210010 = 0x10000"
  "page_routine (cpu (arm_process C s)) 0x210010 = 0x500000"
  by (simp_all add: arm_process_def arm_entry_def page_ctx_def page_routine_def code_cells_def)

lemma arm_process_ready:
  assumes "arm_serves A R L 0x7ffe0000 C 0x601000 0x602000 0x603000"
  shows "arm_ready A R L trampoline_aarch64 (arm_process C s)"
  using assms by (simp add: arm_ready_def stub_placed_def page_ctx_def code_cells_def aligned_def off_stack_def
      arm_process_def arm_entry_def)

lemma arm_callee_run:
  assumes "at (instrs trampoline_aarch64) = 0x210010"
  shows "\<exists>m. exec (arm_sem 30 (arm_callee integers64 stub_library ucast)) labels at trampoline_aarch64
      (cpu (arm_process (arm_callee integers64 stub_library ucast) demo)) = Some (0x500000, m) \<and> vreg m 0 = 0 \<and> reg m 8 = 0"
  using assms [unfolded trampoline_aarch64_def, simplified]
  unfolding arm_process_def process.simps trampoline_aarch64_def append.simps list.map
  apply -
  apply (rule exI, rule conjI)
   apply (rule exec_label)
   apply (rule exec_next, (simp add: steps pop_regs_def; fail))+
   apply (rule exec_next, (simp add: steps arm_callee_def integers64_def pop_regs_def demo_def; fail))+
   apply (rule exec_leave)
   apply (simp add: steps)
  apply (simp add: steps)
  done

section \<open>Functions that return more than their \<open>int\<close>\<close>

text \<open>A function that leaves a bit above an \<open>int\<close> which it returns.\<close>

abbreviation upper_bit :: "cint \<Rightarrow> addr" where
  "upper_bit i \<equiv> ucast i + 0x100000000"

lemma upper_bit:
  "ucast (upper_bit i) = i" "upper_bit i \<noteq> 0"
proof -
  have "unat i < 2 ^ 32"
    using unsigned_less [of i] by simp
  then have u: "unat (upper_bit i) = unat i + 0x100000000"
    by (simp add: unat_word_ariths unsigned_ucast_eq unsigned_take_bit_eq take_bit_nat_eq_self)
  then show "upper_bit i \<noteq> 0"
    by auto
  show "ucast (upper_bit i) = i"
    by (rule word_unat_eq_iff [THEN iffD2]) (use u \<open>unat i < 2 ^ 32\<close> in \<open>simp add: unsigned_ucast_eq take_bit_eq_mod\<close>)
qed

text \<open>To the code, this function says yes whenever it is asked.\<close>

abbreviation yes_library :: "(addr, mock_state) library" where
  "yes_library \<equiv> stub_library\<lparr>asked := \<lambda>s. (1, s\<lparr>ask_ctx := 0\<rparr>)\<rparr>"

lemma upper_bit_serves:
  assumes "AX \<notin> saved A" and "SP \<notin> saved A"
  shows "serves A (\<lambda>v i. ucast v = i) stub_library lim (demo_callee A stub_library upper_bit) 0x601000 0x602000 0x603000"
    and "serves A tested_alike yes_library lim (demo_callee A stub_library upper_bit) 0x601000 0x602000 0x603000"
  using assms by (auto simp: serves_def keeps_def demo_callee_def Let_def tested_alike_def upper_bit)

lemma upper_bit_arm_serves:
  "arm_serves integers64 (\<lambda>v i. ucast v = i) stub_library lim (arm_callee integers64 stub_library upper_bit) 0x601000 0x602000 0x603000"
  "arm_serves integers64 tested_alike yes_library lim (arm_callee integers64 stub_library upper_bit) 0x601000 0x602000 0x603000"
  by (auto simp: arm_serves_def arm_keeps_def arm_callee_def integers64_def Let_def tested_alike_def upper_bit)

lemma yes_library_remembers: "remembers yes_library"
  by (simp add: remembers_def)

section \<open>Processes of 32 bits\<close>

text \<open>The library is reduced to its two variables: the context and whether it was asked for.\<close>

definition two_variables :: "('a, 'a \<times> cint) library" where
  "two_variables = \<lparr>set_ctx = (\<lambda>c d. (c, snd d)), asked = (\<lambda>d. (snd d, (fst d, 0))), get_ctx = fst\<rparr>"

definition cells_32 :: "32 word \<Rightarrow> 32 word" where
  "cells_32 = (\<lambda>_. 0)(0x210000 := 0x10000, 0x210004 := 0x500000,
     0x10000 := 0x602000, 0x10004 := 0x601000, 0x10008 := 0x603000, 0x7ffff004 := 0x401234)"

definition i386_process :: "x86_instr line list \<Rightarrow> cint \<Rightarrow> (32 word, (32 word, 32 word \<times> cint) x86) process" where
  "i386_process code i =
     \<lparr>callee = demo_callee (cdecl\<lparr>home := 0\<rparr>) two_variables (\<lambda>i. i), layout = (\<lambda>n. 0x210008 + of_nat (instrs code - n)),
      limit = 0x7ffe0000,
      cpu = \<lparr>cells = cells_32, lib = (0, i), calls = [], gpr = (\<lambda>r. if r = SP then 0x7ffff004 else 7), xmm = (\<lambda>y. (1, 2)), zf = False\<rparr>\<rparr>"

definition arm32_process :: "cint \<Rightarrow> (32 word, (32 word, 32 word \<times> cint) arm) process" where
  "arm32_process i =
     \<lparr>callee = arm_callee integers32 two_variables (\<lambda>i. i), layout = (\<lambda>n. 0x210008 + 4 * of_nat (instrs trampoline_arm - n)),
      limit = 0x7ffe0000,
      cpu = \<lparr>cells = cells_32, lib = (0, i), calls = [], reg = (\<lambda>r. of_nat r + 100), sp = 0x7ffff000, vreg = (\<lambda>v. of_nat v + 200), zflag = False\<rparr>\<rparr>"

lemma process_32_ready:
  "x86_ready (cdecl\<lparr>home := 0\<rparr>) tested_alike two_variables code (i386_process code i)"
  "arm_ready integers32 tested_alike two_variables trampoline_arm (arm32_process i)"
  by (auto simp: x86_ready_def arm_ready_def i386_process_def arm32_process_def stub_placed_def page_ctx_def cells_32_def
      aligned_def off_stack_def serves_def keeps_def demo_callee_def arm_serves_def arm_keeps_def arm_callee_def integers32_def
      tested_alike_def Let_def)

lemma process_32_simps [simp]:
  "x86_entry code (i386_process code i) = 0x210008"
  "x86_caller (i386_process code i) = 0x401234"
  "page_ctx (cpu (i386_process code i)) 0x210008 = 0x10000"
  "page_routine (cpu (i386_process code i)) 0x210008 = 0x500000"
  "lib (cpu (i386_process code i)) = (0, i)"
  "arm_entry trampoline_arm (arm32_process i) = 0x210008"
  "arm_caller integers32 (arm32_process i) = 114"
  "page_ctx (cpu (arm32_process i)) 0x210008 = 0x10000"
  "page_routine (cpu (arm32_process i)) 0x210008 = 0x500000"
  "lib (cpu (arm32_process i)) = (0, i)"
  "reg (cpu (arm32_process i)) r = of_nat r + 100"
  by (simp_all add: i386_process_def arm32_process_def x86_entry_def arm_entry_def x86_caller_def arm_caller_def
      page_ctx_def page_routine_def cells_32_def integers32_def)

end
