(* ===== verification/Code_Properties.thy ===== *)
theory Code_Properties
  imports Code_Demo
begin

text \<open>
  The properties of the assembled trampolines: what the codes do, as facts of the interpretations of \<open>trampoline\<close> and \<open>stub_trampoline\<close>, and
  where the codes break what a calling convention promises.
\<close>

abbreviation systemv_demo :: "bool \<Rightarrow> mock_state \<Rightarrow> (addr, (addr, mock_state) x86) process" where
  "systemv_demo cet \<equiv> code_process (demo_callee systemv stub_library ucast) (trampoline_systemv cet)"

lemma systemv_demo_ready: "x86_ready systemv tested_alike stub_library (trampoline_systemv cet) (systemv_demo cet s)"
  by (intro code_process_ready demo_callee_serves) (simp_all add: ucast_tested)

text \<open>C5: a stub on x86_64 (System V), down to the instructions: after its creation every slot of the target holds the
  address of the trampoline, and a processor that executes the trampoline from there, with the C functions behind the addresses in the
  stub, arrives at the replacement function with the argument registers, the stack pointer and the stack of the
  caller, the stub being the current context. Hypotheses on the process: the functions keep the calling convention, the page is what
  \<open>mmk_stub_create\<close> has written, and 256 bytes of stack are left.\<close>

theorem stub_runs_on_x86_64:
  fixes p :: "(addr, (addr, 'a stubbed_scheme) x86) process"
  assumes "libc_ok (c_lib E)" and "core_wf E s" and "length (trampoline_code E) + 16 \<le> unat PAGE_SIZE"
    and "mmk_init E s = Inr s1" and "target_slots s1 target = Some as" and "slots_ok (live s) as"
    and "mmk_stub_create E s target fn ctx = Inr (stub, s')" and "stub \<noteq> NULL"
    and "x86_ready systemv tested_alike stub_library (trampoline_systemv cet) p" and "lib (cpu p) = s'"
    and "x86_entry (trampoline_systemv cet) p = trampoline_of s' stub" and "sees_page (cpu p) (trampoline_of s' stub)"
  shows "(\<forall>a \<in> set as. ld64 (mem s') a = x86_entry (trampoline_systemv cet) p) \<and>
    (\<exists>m. x86_enter (trampoline_systemv cet) p = Some (fn, m) \<and> x86_passes systemv p m \<and>
      mmk_ctx (lib m) = stub \<and> mmk_stub_context (lib m) (mmk_ctx (lib m)) = Inr ctx)"
proof -
  note c = mmk_stub_create_installs [OF assms(1-8)]
  have "\<exists>m. lib m = s'\<lparr>mmk_ctx_var := stub, ask_ctx := 0\<rparr> \<and> x86_enter (trampoline_systemv cet) p = Some (fn, m) \<and> x86_passes systemv p m"
    using stub_on_systemv.enters_installed [OF assms(9), of E stub fn ctx] assms(10-12) c(1,4) by simp
  with assms(11) c(3) installed_context [OF c(1)] show ?thesis
    by (auto simp: mmk_ctx_def mmk_stub_context_def)
qed

theorem stub_runs_on_x86_64_witness:
  "\<exists>s' m. mmk_stub_create demo_env demo ''f'' 0x500000 0x77 = Inr (0x10000, s') \<and>
     ld64 (mem s') 0x4001f8 = x86_entry (trampoline_systemv True) (systemv_demo True s') \<and>
     x86_enter (trampoline_systemv True) (systemv_demo True s') = Some (0x500000, m) \<and>
     x86_passes systemv (systemv_demo True s') m \<and> mmk_stub_context (lib m) (mmk_ctx (lib m)) = Inr 0x77"
proof -
  obtain s' where s': "mmk_stub_create demo_env demo ''f'' 0x500000 0x77 = Inr (0x10000, s')" "trampoline_of s' 0x10000 = 0x210010"
    using demo_stub_code by blast
  have wf: "libc_ok (c_lib demo_env)" "core_wf demo_env demo" "length (trampoline_code demo_env) + 16 \<le> unat PAGE_SIZE"
    "mmk_init demo_env demo = Inr demo" "target_slots demo ''f'' = Some [0x4001f8]" "slots_ok (live demo) [0x4001f8]"
    using demo_wf(1) by (simp_all add: demo_libc_ok PAGE_SIZE_def mmk_init_def demo_target_slots demo_slots_ok)
  have "installed demo_env s' 0x10000 0x500000 0x77"
    by (rule mmk_stub_create_installs(1) [OF wf s'(1)]) simp
  from installed_page [OF this] s'(2) have "sees_page (cpu (systemv_demo True s')) (trampoline_of s' 0x10000)"
    by (simp add: sees_page_def)
  from stub_runs_on_x86_64 [OF wf s'(1) _ systemv_demo_ready _ _ this] s' show ?thesis
    by simp blast
qed

text \<open>C13: the three trampolines for 64-bit x86 do what \<open>enter_trampoline\<close> says, on which the rest of the development rests: they end in the
  state that it computes, either at the routine, with everything that the caller passed, or back at the caller with the
  context in the result register and all registers restored that a function has to restore. The Windows versions need
  functions that do not use the home space of their caller.\<close>

theorem x86_64_code_implements_model:
  fixes p :: "(addr, (addr, 'a stubbed_scheme) x86) process"
  assumes "(A, code) \<in> {(systemv, trampoline_systemv cet), (windows\<lparr>home := 0\<rparr>, trampoline_win), (windows\<lparr>home := 0\<rparr>, trampoline_win_asm)}"
    and "x86_ready A tested_alike stub_library code p" and "code = trampoline_win_asm \<longrightarrow> in_page code p"
    and "sees_page (cpu p) (x86_entry code p)" and "enter_trampoline E (lib (cpu p)) (x86_entry code p) = Inr (r, s)"
  shows "\<exists>m. lib m = s \<and>
    (case r of Jumps fn \<Rightarrow> x86_enter code p = Some (fn, m) \<and> x86_passes A p m
     | Returns v \<Rightarrow> x86_enter code p = Some (x86_caller p, m) \<and> x86_answers A p v m)"
  using assms(1)
proof (elim insertE emptyE Pair_inject)
  assume "A = systemv" and "code = trampoline_systemv cet"
  then show ?thesis
    using stub_on_systemv.implements_model assms(2,4,5) by blast
next
  assume "A = windows\<lparr>home := 0\<rparr>" and "code = trampoline_win"
  then show ?thesis
    using stub_on_win.implements_model assms(2,4,5) by blast
next
  assume "A = windows\<lparr>home := 0\<rparr>" and "code = trampoline_win_asm"
  then show ?thesis
    using stub_on_win_asm.implements_model assms(2-5) by blast
qed

abbreviation win_asm_demo :: "mock_state \<Rightarrow> (addr, (addr, mock_state) x86) process" where
  "win_asm_demo \<equiv> code_process (demo_callee (windows\<lparr>home := 0\<rparr>) stub_library ucast) trampoline_win_asm"

lemma win_asm_demo_ready:
  "x86_ready (windows\<lparr>home := 0\<rparr>) tested_alike stub_library trampoline_win_asm (win_asm_demo s)"
  "in_page trampoline_win_asm (win_asm_demo s)"
proof -
  show "x86_ready (windows\<lparr>home := 0\<rparr>) tested_alike stub_library trampoline_win_asm (win_asm_demo s)"
    by (intro code_process_ready demo_callee_serves) (simp_all add: ucast_tested)
  show "in_page trampoline_win_asm (win_asm_demo s)"
    by (rule code_process_in_page)
qed

theorem x86_64_code_implements_model_witness:
  "\<exists>s' m. mmk_stub_create demo_env demo ''f'' 0x500000 0x77 = Inr (0x10000, s') \<and>
     x86_enter trampoline_win_asm (win_asm_demo (s'\<lparr>ask_ctx := 1\<rparr>)) = Some (0x401234, m) \<and> gpr m AX = 0x10000"
proof -
  obtain s' where s': "mmk_stub_create demo_env demo ''f'' 0x500000 0x77 = Inr (0x10000, s')" "trampoline_of s' 0x10000 = 0x210010"
    using demo_stub_code by blast
  let ?s = "s'\<lparr>ask_ctx := 1\<rparr>" and ?p = "win_asm_demo (s'\<lparr>ask_ctx := 1\<rparr>)"
  have "installed demo_env s' 0x10000 0x500000 0x77"
    by (rule mmk_stub_create_installs(1) [OF _ demo_wf(1) _ _ _ _ s'(1), of demo "[0x4001f8]"])
      (simp_all add: demo_libc_ok PAGE_SIZE_def mmk_init_def demo_target_slots demo_slots_ok)
  then have i: "installed demo_env ?s 0x10000 0x500000 0x77" "trampoline_of ?s 0x10000 = 0x210010"
    using s'(2) by (auto simp: installed_def trampoline_of_def is_trampoline_def split: option.splits)
  have "enter_trampoline demo_env ?s 0x210010 = Inr (Returns 0x10000, s'\<lparr>mmk_ctx_var := 0x10000, ask_ctx := 0\<rparr>)"
    using enter_installed [OF i(1)] i(2) by simp
  moreover have "sees_page (cpu ?p) 0x210010"
    using installed_page [OF i(1)] i(2) by (simp add: sees_page_def)
  ultimately show ?thesis
    using x86_64_code_implements_model [OF _ win_asm_demo_ready(1) [of ?s], where E = demo_env
        and r = "Returns 0x10000" and s = "s'\<lparr>mmk_ctx_var := 0x10000, ask_ctx := 0\<rparr>"] win_asm_demo_ready(2) s'(1)
    by (auto simp: x86_answers_def)
qed

text \<open>C26: on Windows a function may use the 32 bytes above its return address, which its caller has to leave to it. The trampoline
  leaves none: there is a function for \<open>ctx_set\<close> that keeps the convention, and with it the trampoline returns the context to
  a caller who has not asked for it, instead of the call of the routine.\<close>

theorem windows_needs_shadow_space:
  "\<exists>(p :: (addr, (addr, mock_state) x86) process) m.
     x86_ready windows tested_alike stub_library trampoline_win p \<and> ask_ctx (lib (cpu p)) = 0 \<and>
     x86_enter trampoline_win p = Some (x86_caller p, m) \<and> gpr m AX = page_ctx (cpu p) (x86_entry trampoline_win p)"
proof -
  let ?p = "code_process home_user trampoline_win demo"
  have "x86_ready windows tested_alike stub_library trampoline_win ?p"
    by (rule code_process_ready [OF home_user_serves])
  moreover have "ask_ctx (lib (cpu ?p)) = 0"
    by (simp add: demo_def)
  moreover have "labels_of trampoline_win ?p ''start'' = 0x210010" "labels_of trampoline_win ?p ''next'' = 0x210011"
    by (simp_all add: labels_of_def trampoline_win_def win_body_def PUSHDQ_def POPDQ_def)
  moreover have "layout ?p (instrs win_body) = 0x210011"
    by (simp add: trampoline_win_def)
  moreover have "x86_enter trampoline_win ?p = exec (x86_sem home_user) (labels_of trampoline_win ?p) (layout ?p) trampoline_win (cpu ?p)"
    by (simp add: x86_enter_def run_def labels_of_def [abs_def])
  ultimately show ?thesis
    using home_user_run [of "labels_of trampoline_win ?p" "layout ?p" trampoline_win]
    by (auto intro!: exI [of _ ?p])
qed

abbreviation arm_demo :: "mock_state \<Rightarrow> (addr, (addr, mock_state) arm) process" where
  "arm_demo \<equiv> arm_process (arm_callee integers64 stub_library ucast)"

lemma arm_demo_ready: "arm_ready integers64 tested_alike stub_library trampoline_aarch64 (arm_demo s)"
  by (intro arm_process_ready arm_callee_serves) (simp_all add: ucast_tested integers64_def)

text \<open>C14: the trampolines for i386 (both assemblers), ARM and AArch64 fulfil the same contract over the C functions that they call:
  the context is set and asked for, then the code is at the routine with what was passed, or at the caller with the context as
  result. On ARM and AArch64 this is shown for arguments in integer registers.\<close>

theorem other_codes_fulfil_contract:
  fixes p :: "(32 word, (32 word, 's) x86) process" and q :: "(32 word, (32 word, 's) arm) process"
    and w :: "(64 word, (64 word, 'u) arm) process"
  defines "A \<equiv> cdecl\<lparr>home := 0\<rparr>"
  shows "(code \<in> {trampoline_i386, trampoline_i386_asm} \<longrightarrow> x86_ready A tested_alike L code p \<longrightarrow>
      (code = trampoline_i386_asm \<longrightarrow> in_page code p) \<longrightarrow>
      entered L (cpu p) (x86_entry code p) (x86_caller p) (x86_passes A p) (x86_answers A p) (x86_enter code p)) \<and>
    (arm_ready integers32 tested_alike L trampoline_arm q \<longrightarrow>
      entered L (cpu q) (arm_entry trampoline_arm q) (arm_caller integers32 q) (arm_passes integers32 q) (arm_answers integers32 q)
        (arm_enter integers32 trampoline_arm q)) \<and>
    (arm_ready integers64 tested_alike K trampoline_aarch64 w \<longrightarrow>
      entered K (cpu w) (arm_entry trampoline_aarch64 w) (arm_caller integers64 w) (arm_passes integers64 w) (arm_answers integers64 w)
        (arm_enter integers64 trampoline_aarch64 w))"
  using on_i386.enter_entered [of L p] on_i386_asm.enter_entered [of L p] on_arm.enter_entered [of L q] on_aarch64.enter_entered [of K w]
  by (auto simp: A_def)

theorem other_codes_fulfil_contract_witness:
  "(\<exists>m. x86_enter trampoline_i386 (i386_process trampoline_i386 1) = Some (0x401234, m) \<and> gpr m AX = 0x10000 \<and> lib m = (0x10000, 0)) \<and>
   (\<exists>m. arm_enter integers32 trampoline_arm (arm32_process 0) = Some (0x500000, m) \<and> reg m 3 = 103 \<and> lib m = (0x10000, 0)) \<and>
   (\<exists>m. arm_enter integers64 trampoline_aarch64 (arm_demo demo) = Some (0x500000, m) \<and> reg m 7 = 107)"
proof -
  note c = other_codes_fulfil_contract [where code = trampoline_i386 and L = two_variables and p = "i386_process trampoline_i386 1"
    and q = "arm32_process 0" and K = stub_library and w = "arm_demo demo"]
  have "trampoline_i386 \<noteq> trampoline_i386_asm"
    by (simp add: trampoline_i386_def trampoline_i386_asm_def)
  with c have e: "entered two_variables (cpu (i386_process trampoline_i386 1)) 0x210008 0x401234
      (x86_passes (cdecl\<lparr>home := 0\<rparr>) (i386_process trampoline_i386 1)) (x86_answers (cdecl\<lparr>home := 0\<rparr>) (i386_process trampoline_i386 1))
      (x86_enter trampoline_i386 (i386_process trampoline_i386 1))"
    and f: "entered two_variables (cpu (arm32_process 0)) 0x210008 114 (arm_passes integers32 (arm32_process 0))
      (arm_answers integers32 (arm32_process 0)) (arm_enter integers32 trampoline_arm (arm32_process 0))"
    and g: "entered stub_library (cpu (arm_demo demo)) 0x210010 (arm_caller integers64 (arm_demo demo))
      (arm_passes integers64 (arm_demo demo)) (arm_answers integers64 (arm_demo demo)) (arm_enter integers64 trampoline_aarch64 (arm_demo demo))"
    by (simp_all add: process_32_ready arm_demo_ready)
  from e have "\<exists>m. x86_enter trampoline_i386 (i386_process trampoline_i386 1) = Some (0x401234, m) \<and> gpr m AX = 0x10000 \<and>
      lib m = (0x10000, 0)"
    by (auto simp: entered_def two_variables_def x86_answers_def split: option.splits)
  moreover from f have "\<exists>m. arm_enter integers32 trampoline_arm (arm32_process 0) = Some (0x500000, m) \<and> reg m 3 = 103 \<and>
      lib m = (0x10000, 0)"
    by (auto simp: entered_def two_variables_def arm_passes_def integers32_def split: option.splits)
  moreover from g have "\<exists>m. arm_enter integers64 trampoline_aarch64 (arm_demo demo) = Some (0x500000, m) \<and> reg m 7 = 107"
    by (auto simp: entered_def arm_passes_def integers64_def demo_def split: option.splits)
  ultimately show ?thesis
    by blast
qed

text \<open>C28: entered with the stack pointer that the System V convention prescribes (8 modulo 16 at the first instruction of a
  function), the trampoline calls \<open>ctx_set\<close> with the stack aligned to 16 bytes, but \<open>ctx_asked\<close> and \<open>ctx_get\<close> with a stack that is not
  aligned, although the convention promises it to them.\<close>

theorem systemv_stack_alignment:
  fixes p :: "(addr, (addr, 's) x86) process"
  assumes "x86_ready systemv tested_alike L (trampoline_systemv cet) p" and "calls (cpu p) = []"
    and "unat (gpr (cpu p) SP) mod 16 = 8"
  shows "\<exists>a m first later. x86_enter (trampoline_systemv cet) p = Some (a, m) \<and> calls m = first # later \<and> later \<noteq> [] \<and>
    unat (snd first) mod 16 = 0 \<and> (\<forall>c \<in> set later. unat (snd c) mod 16 = 8)"
proof -
  let ?sp = "gpr (cpu p) SP"
  have "unat (limit p) + 256 \<le> unat ?sp"
    using assms(1) by (simp add: x86_ready_def Let_def)
  then have "unat (?sp - 200) = unat ?sp - 200" "unat (?sp - 192) = unat ?sp - 192" "200 \<le> unat ?sp"
    by (simp_all add: unat_sub word_le_nat_alt)
  moreover obtain k where "unat ?sp = 16 * k + 8"
    using assms(3) by (metis mod_div_decomp mult.commute)
  ultimately have "unat (?sp - 200) = 16 * (k - 12)" "unat (?sp - 192) = 16 * (k - 12) + 8"
    by simp_all
  then have "unat (?sp - 200) mod 16 = 0" "unat (?sp - 192) mod 16 = 8"
    by simp_all
  moreover obtain a m where "x86_enter (trampoline_systemv cet) p = Some (a, m)" and "calls m = stub_calls (cpu p)
      (page_ctx (cpu p) (x86_entry (trampoline_systemv cet) p)) 200 192 (Some 0)
      (fst (answer L (page_ctx (cpu p) (x86_entry (trampoline_systemv cet) p)) (lib (cpu p))))"
    by (rule x86_proceeds_run [OF assms(1) systemv_proceeds [OF assms(1)]]) simp_all
  ultimately show ?thesis
    using assms(2,3) by (auto simp: stub_calls_def)
qed

theorem systemv_stack_alignment_witness:
  "\<exists>a m. x86_enter (trampoline_systemv False) (systemv_demo False demo) = Some (a, m) \<and> unat (snd (calls m ! 1)) mod 16 = 8"
  using systemv_stack_alignment [OF systemv_demo_ready [of False demo]] by (auto simp: code_process_def neq_Nil_conv)

text \<open>An \<open>int\<close> in a register whose upper half is not zero.\<close>

lemma x86_64_int_register:
  assumes "(A, code) \<in> {(systemv, trampoline_systemv cet), (windows\<lparr>home := 0\<rparr>, trampoline_win), (windows\<lparr>home := 0\<rparr>, trampoline_win_asm)}"
  shows "\<exists>(p :: (addr, (addr, mock_state) x86) process) m.
      x86_ready A (\<lambda>v i. ucast v = i) stub_library code p \<and> (code = trampoline_win_asm \<longrightarrow> in_page code p) \<and>
      ask_ctx (lib (cpu p)) = 0 \<and> x86_enter code p = Some (x86_caller p, m) \<and> gpr m AX = page_ctx (cpu p) (x86_entry code p)"
proof -
  let ?p = "code_process (demo_callee A stub_library upper_bit) code demo"
  have A: "AX \<notin> saved A" "SP \<notin> saved A"
    using assms by auto
  note ready = code_process_ready [OF upper_bit_serves(2) [OF A], of code demo]
  have "\<exists>m. x86_enter code ?p = Some (0x401234, m) \<and> x86_answers A ?p 0x10000 m"
    using assms
  proof (elim insertE emptyE Pair_inject)
    assume "A = systemv" and "code = trampoline_systemv cet"
    with on_systemv.enter_answers [where cet = cet and p = ?p and L = yes_library] ready show ?thesis
      by auto
  next
    assume "A = windows\<lparr>home := 0\<rparr>" and "code = trampoline_win"
    with on_win.enter_answers [where p = ?p and L = yes_library] ready show ?thesis
      by auto
  next
    assume "A = windows\<lparr>home := 0\<rparr>" and "code = trampoline_win_asm"
    with on_win_asm.enter_answers [where p = ?p and L = yes_library] ready yes_library_remembers
      code_process_in_page [of "demo_callee A stub_library upper_bit" demo] show ?thesis
      by auto
  qed
  moreover have "x86_ready A (\<lambda>v i. ucast v = i) stub_library code ?p"
    by (rule code_process_ready [OF upper_bit_serves(1) [OF A]])
  moreover have "code = trampoline_win_asm \<longrightarrow> in_page code ?p"
    by (auto simp: code_process_in_page)
  ultimately show ?thesis
    by (intro exI [of _ ?p]) (auto simp: demo_def x86_answers_def)
qed

lemma aarch64_int_register:
  "\<exists>(p :: (addr, (addr, mock_state) arm) process) m.
      arm_ready integers64 (\<lambda>v i. ucast v = i) stub_library trampoline_aarch64 p \<and> ask_ctx (lib (cpu p)) = 0 \<and>
      arm_enter integers64 trampoline_aarch64 p = Some (arm_caller integers64 p, m) \<and>
      reg m 0 = page_ctx (cpu p) (arm_entry trampoline_aarch64 p)"
proof -
  let ?p = "arm_process (arm_callee integers64 stub_library upper_bit) demo"
  have "\<exists>m. arm_enter integers64 trampoline_aarch64 ?p = Some (arm_caller integers64 ?p, m) \<and> reg m 0 = 0x10000"
    using on_aarch64.enter_answers [OF arm_process_ready [OF upper_bit_arm_serves(2), of demo]]
    by (auto simp: arm_answers_def)
  moreover have "arm_ready integers64 (\<lambda>v i. ucast v = i) stub_library trampoline_aarch64 ?p"
    by (rule arm_process_ready [OF upper_bit_arm_serves(1)])
  ultimately show ?thesis
    by (auto intro!: exI [of _ ?p] simp: demo_def)
qed

text \<open>C25: an \<open>int\<close> result occupies 32 bits, and the conventions leave the upper half of the register open. All trampolines for
  x86_64, that for System V and both for Windows, and the one for AArch64 test the whole register: for a \<open>ctx_asked\<close> that leaves a bit
  there they return the context to a caller who has not asked. The functions that show it keep everything that their convention makes them
  keep; on Windows they do not use the home space either, so that nothing but the upper half is to blame.\<close>

theorem int_tested_as_register:
  assumes "(A, code) \<in> {(systemv, trampoline_systemv cet), (windows\<lparr>home := 0\<rparr>, trampoline_win), (windows\<lparr>home := 0\<rparr>, trampoline_win_asm)}"
  shows "(\<exists>(p :: (addr, (addr, mock_state) x86) process) m.
      x86_ready A (\<lambda>v i. ucast v = i) stub_library code p \<and> (code = trampoline_win_asm \<longrightarrow> in_page code p) \<and>
      ask_ctx (lib (cpu p)) = 0 \<and> x86_enter code p = Some (x86_caller p, m) \<and> gpr m AX = page_ctx (cpu p) (x86_entry code p)) \<and>
   (\<exists>(p :: (addr, (addr, mock_state) arm) process) m.
      arm_ready integers64 (\<lambda>v i. ucast v = i) stub_library trampoline_aarch64 p \<and> ask_ctx (lib (cpu p)) = 0 \<and>
      arm_enter integers64 trampoline_aarch64 p = Some (arm_caller integers64 p, m) \<and>
      reg m 0 = page_ctx (cpu p) (arm_entry trampoline_aarch64 p))"
  using x86_64_int_register [OF assms] aarch64_int_register by (rule conjI)

theorem int_tested_as_register_witness:
  "\<exists>(p :: (addr, (addr, mock_state) x86) process) m.
     x86_ready (windows\<lparr>home := 0\<rparr>) (\<lambda>v i. ucast v = i) stub_library trampoline_win_asm p \<and> ask_ctx (lib (cpu p)) = 0 \<and>
     x86_enter trampoline_win_asm p = Some (x86_caller p, m)"
  using int_tested_as_register [of "windows\<lparr>home := 0\<rparr>" trampoline_win_asm False] by auto

text \<open>C27: with functions that only keep what the convention makes them keep, the trampoline for AArch64 jumps to the routine with
  the floating-point argument in the first vector register and the address for a structure result in \<open>x8\<close> lost.\<close>

theorem aarch64_loses_arguments:
  "\<exists>(p :: (addr, (addr, mock_state) arm) process) m.
     arm_ready aapcs64 tested_alike stub_library trampoline_aarch64 p \<and> ask_ctx (lib (cpu p)) = 0 \<and>
     arm_enter aapcs64 trampoline_aarch64 p = Some (page_routine (cpu p) (arm_entry trampoline_aarch64 p), m) \<and>
     \<not> arm_passes aapcs64 p m \<and> vreg m 0 \<noteq> vreg (cpu p) 0 \<and> reg m 8 \<noteq> reg (cpu p) 8"
proof -
  let ?p = "arm_demo demo"
  have "arm_ready aapcs64 tested_alike stub_library trampoline_aarch64 ?p"
    using arm_demo_ready [of demo] by (simp add: arm_ready_def arm_serves_def arm_keeps_def integers64_def)
  moreover have "link_register aapcs64 = 30"
    by simp
  ultimately show ?thesis
    using arm_callee_run [of "layout ?p" "\<lambda>l. layout ?p (instrs (after l trampoline_aarch64))"]
    by (intro exI [of _ ?p]) (auto simp: arm_enter_def run_def arm_passes_def demo_def)
qed

end
