(* ===== verification/Failures.thy ===== *)
theory Failures
  imports Mock Windows_Runtime
begin

text \<open>
  How a failure shows outside of the process: \<open>mmk_fprintf\<close>, \<open>mmk_abort\<close> and \<open>mmk_panic\<close> of \<open>src/vitals.c\<close>, which go through the
  pointers that \<open>mmk_init_vital_functions\<close> sets, the messages of the library, and what becomes of each \<open>fault\<close> of the model.
  The other theories need none of this, since the process ends there.
\<close>

section \<open>Formatted output\<close>

datatype printed = Text string | Signed cint | Unsigned cint

fun decimal :: "nat \<Rightarrow> string" where
  "decimal n = (if n < 10 then [char_of (48 + n)] else decimal (n div 10) @ [char_of (48 + n mod 10)])"

declare decimal.simps [simp del]

text \<open>The conversions that the messages use; for \<open>None\<close> the arguments do not fit to the format.\<close>

fun formatted :: "string \<Rightarrow> printed list \<Rightarrow> string option" where
  "formatted [] as = Some []"
| "formatted (c # f) as =
     (if c \<noteq> CHR ''%'' then map_option ((#) c) (formatted f as)
      else case f of
        [] \<Rightarrow> None
      | d # f' \<Rightarrow>
          if d = CHR ''.'' then
            (case as of
               Signed n # Text t # as' \<Rightarrow>
                 if take 2 f' = ''*s''
                 then map_option ((@) (if sint n < 0 then t else take (nat (sint n)) t)) (formatted (drop 2 f') as')
                 else None
             | _ \<Rightarrow> None)
          else
            (case as of
               Text t # as' \<Rightarrow> if d = CHR ''s'' then map_option ((@) t) (formatted f' as') else None
             | Signed n # as' \<Rightarrow>
                 if d = CHR ''d''
                 then map_option ((@) ((if sint n < 0 then ''-'' else []) @ decimal (nat \<bar>sint n\<bar>))) (formatted f' as')
                 else None
             | Unsigned n # as' \<Rightarrow> if d = CHR ''u'' then map_option ((@) (decimal (unat n))) (formatted f' as') else None
             | [] \<Rightarrow> None))"

section \<open>The functions that end the process\<close>

text \<open>What has been printed on \<open>stderr\<close> when the process ends by a signal of its own fault, or by \<open>abort\<close>; or it never ends.\<close>

datatype ending = Crashed string | Aborted string | Hangs

text \<open>
  \<open>printer p\<close>: the function of type \<open>vfprintf\<close> at the address \<open>p\<close>, which adds to the output. \<open>win32_vfprintf_fallback\<close> is one that passes all
  but the options and the locale on; the pointer that it uses was checked by \<open>mmk_init_vital_functions\<close>.
\<close>

type_synonym vfprintf = "string \<Rightarrow> printed list \<Rightarrow> string \<Rightarrow> fault + string"

definition vfprintf_libc :: vfprintf where
  "vfprintf_libc fmt as out = (case formatted fmt as of None \<Rightarrow> Inl UB | Some t \<Rightarrow> Inr (out @ t))"

definition win32_vfprintf_fallback :: "(addr \<Rightarrow> 'options \<Rightarrow> vfprintf) \<Rightarrow> 'options \<Rightarrow> addr \<Rightarrow> vfprintf" where
  "win32_vfprintf_fallback stdio_common CRT_INTERNAL_LOCAL_PRINTF_OPTIONS mmk_stdio_common fmt as out =
     (if mmk_stdio_common = NULL then Inl UB
      else stdio_common mmk_stdio_common CRT_INTERNAL_LOCAL_PRINTF_OPTIONS fmt as out)"

definition mmk_fprintf :: "(addr \<Rightarrow> vfprintf) \<Rightarrow> vitals \<Rightarrow> string \<Rightarrow> printed list \<Rightarrow> string \<Rightarrow> fault + string" where
  "mmk_fprintf printer v str as out = (if fp_vfprintf v = NULL then Inl UB else printer (fp_vfprintf v) str as out)"

definition mmk_abort :: "vitals \<Rightarrow> string \<Rightarrow> ending" where
  "mmk_abort v out = (if fp_abort v = NULL then Crashed out else Aborted out)"

definition mmk_panic :: "(addr \<Rightarrow> vfprintf) \<Rightarrow> vitals \<Rightarrow> string \<Rightarrow> printed list \<Rightarrow> string \<Rightarrow> ending" where
  "mmk_panic printer v str as out =
     (case mmk_fprintf printer v str as out of Inl e \<Rightarrow> Crashed out | Inr out \<Rightarrow> mmk_abort v out)"

text \<open>\<open>mmk_assert\<close> does the same with its own message.\<close>

definition assertion_failed :: "(addr \<Rightarrow> vfprintf) \<Rightarrow> vitals \<Rightarrow> string \<Rightarrow> cint \<Rightarrow> string \<Rightarrow> string \<Rightarrow> ending" where
  "assertion_failed printer v file line cond out =
     mmk_panic printer v (''%s:%d: Assertion failed: %s'' @ [CHR 0x0A]) [Text file, Signed line, Text cond] out"

section \<open>The messages\<close>

text \<open>\<open>file\<close> and \<open>line\<close> are those of the \<open>mmk_when\<close> or \<open>mmk_verify\<close> whose call expression is at fault.\<close>

fun message :: "string \<Rightarrow> cint \<Rightarrow> panic \<Rightarrow> string \<times> printed list" where
  "message file line (Unknown_selector sel) =
     (''mimick: unknown '' @ [CHR 0x27] @ ''%.*s'' @ [CHR 0x27] @ '' selector.'' @ [CHR 0x0A], [Signed (of_nat (length sel)), Text sel])"
| "message file line (Unknown_target target) =
     (''mimick: unknown target kind '' @ [CHR 0x27] @ ''%s'' @ [CHR 0x27] @ ''.'' @ [CHR 0x0A], [Text target])"
| "message file line (Mock_allocation_failed target) = (''mimick: Mock allocation for %s failed.'' @ [CHR 0x0A], [Text target])"
| "message file line (No_got_entry target) =
     (''mimick: Could not find GOT entry for function %s.'' @ [CHR 0x0A], [Text target])"
| "message file line Never_called =
     (''mimick: %s:%d: mocked function was never called -- was it optimized away?'' @ [CHR 0x0A], [Text file, Signed line])"
| "message file line (Called_more_than_once val) =
     (''mimick: %s:%d: mocked function was called more than once (exactly %u times) in the call expression.'' @ [CHR 0x0A],
      [Text file, Signed line, Unsigned val])"
| "message file line (Vital_not_found ident) =
     (''mimick: Initialization error: could not find definition for vital function '' @ [CHR 0x27] @ ident @ [CHR 0x27] @ ''.'' @ [CHR 0x0A], [])"

text \<open>The message before the pointers are set, which is printed and followed by \<open>abort\<close> without them.\<close>

definition init_message :: "bool \<Rightarrow> bool \<Rightarrow> string \<times> printed list" where
  "init_message no_abort no_vfprintf =
     (''mimick: Initialization error: could not find definitions for vital function(s): %s %s'' @ [CHR 0x0A],
      [Text (if no_abort then [CHR 0x27] @ ''abort'' @ [CHR 0x27] else []),
       Text (if no_vfprintf then [CHR 0x27] @ ''vfprintf'' @ [CHR 0x27] else [])])"

fun ending_of :: "(addr \<Rightarrow> vfprintf) \<Rightarrow> vitals \<Rightarrow> string \<Rightarrow> cint \<Rightarrow> fault \<Rightarrow> string \<Rightarrow> ending" where
  "ending_of printer v file line UB out = Crashed out"
| "ending_of printer v file line Diverges out = Hangs"
| "ending_of printer v file line (Assert_failed cond) out = assertion_failed printer v file line cond out"
| "ending_of printer v file line (Init_error no_abort no_vfprintf) out =
     (let (str, as) = init_message no_abort no_vfprintf
      in case vfprintf_libc str as out of Inl e \<Rightarrow> Crashed out | Inr out \<Rightarrow> Aborted out)"
| "ending_of printer v file line (Panic m) out = (let (str, as) = message file line m in mmk_panic printer v str as out)"

section \<open>Every failure is reported, once the pointers are set\<close>

lemma formatted_plain: "CHR ''%'' \<notin> set t \<Longrightarrow> formatted (t @ f) as = map_option ((@) t) (formatted f as)"
  by (induction t) (cases "formatted f as"; auto)+

lemma formatted_message:
  assumes "message file line m = (str, as)" and "\<And>i. m = Vital_not_found i \<Longrightarrow> CHR ''%'' \<notin> set i"
  shows "\<exists>t. formatted str as = Some (''mimick: '' @ t)"
  using assms by (cases m) (auto simp: formatted_plain)

definition reports :: "(addr \<Rightarrow> vfprintf) \<Rightarrow> vitals \<Rightarrow> bool" where
  "reports printer v \<longleftrightarrow> fp_vfprintf v \<noteq> NULL \<and> fp_abort v \<noteq> NULL \<and> printer (fp_vfprintf v) = vfprintf_libc"

lemma panic_reported:
  assumes "reports printer v" and "\<And>i. m = Vital_not_found i \<Longrightarrow> CHR ''%'' \<notin> set i"
  shows "\<exists>t. ending_of printer v file line (Panic m) out = Aborted (out @ ''mimick: '' @ t)"
proof -
  obtain str as where m: "message file line m = (str, as)"
    by (cases "message file line m")
  from formatted_message [OF m assms(2)] show ?thesis
    using assms(1) m by (auto simp: mmk_panic_def mmk_fprintf_def mmk_abort_def vfprintf_libc_def reports_def)
qed

lemma assertion_reported:
  assumes "reports printer v"
  shows "ending_of printer v file line (Assert_failed cond) out = Aborted (out @ file @ '':'' @
    (if sint line < 0 then ''-'' else []) @ decimal (nat \<bar>sint line\<bar>) @ '': Assertion failed: '' @ cond @ [CHR 0x0A])"
  using assms by (simp add: assertion_failed_def mmk_panic_def mmk_fprintf_def mmk_abort_def vfprintf_libc_def reports_def)

text \<open>
  \<open>mmk_init_vital_functions\<close> panics only once the two pointers are set on which this relies, whether the library's pointer is the function
  itself or the fallback; with one of them missing it prints its message directly.
\<close>

lemma init_panic_reported:
  assumes "mmk_init_vital_functions real_fn v = Inl (Panic m)" and "\<And>i e. real_fn i \<noteq> Inl (Panic e)"
  obtains ident vf ab where "m = Vital_not_found ident" and "real_fn ''vfprintf'' = Inr vf" and "vf \<noteq> NULL"
    and "real_fn ''abort'' = Inr ab" and "ab \<noteq> NULL" and "ident \<in> {''malloc'', ''realloc'', ''free'', ''mprotect''}"
  using assms by (auto simp: mmk_init_vital_functions_def init_vital_func_def andthen_def split: sum.splits if_splits)

lemma init_error_reported:
  "ending_of printer v file line (Init_error no_abort no_vfprintf) out =
     Aborted (out @ ''mimick: Initialization error: could not find definitions for vital function(s): '' @
       (if no_abort then [CHR 0x27] @ ''abort'' @ [CHR 0x27] else []) @ '' '' @
       (if no_vfprintf then [CHR 0x27] @ ''vfprintf'' @ [CHR 0x27] else []) @ [CHR 0x0A])"
  by (simp add: init_message_def vfprintf_libc_def)

lemma fallback_reports:
  assumes "mmk_init_vital_functions_win real_fn fallback (NULL, v) = Inr (common, v')" and "fallback \<noteq> NULL"
    and "\<And>p. printer p = (if p = fallback then win32_vfprintf_fallback (\<lambda>_ _. vfprintf_libc) options common else vfprintf_libc)"
    and "real_fn ''vfprintf'' \<noteq> Inr fallback"
  shows "reports printer v'"
  using mmk_init_vital_functions_win_Inr [OF assms(1,2)] assms(3,4)
  by (auto simp: reports_def win32_vfprintf_fallback_def fun_eq_iff)

text \<open>A failed assertion before that, such as the one of \<open>mmk_init\<close> on the context, calls \<open>NULL\<close>.\<close>

lemma assertion_before_init: "fp_vfprintf v = NULL \<Longrightarrow> ending_of printer v file line (Assert_failed cond) out = Crashed out"
  by (simp add: assertion_failed_def mmk_panic_def mmk_fprintf_def)

end
