(* ===== verification/Spec2Isabelle.thy ===== *)
theory Spec2Isabelle
  imports Stub_Properties Mock_Properties Blueprint Back_Ends Library_Properties Variadic_Properties Host_Properties
    System_Properties Scoped_Properties Code_Properties Failures
begin

text \<open>
  Mimick is a library for C programs that replaces functions at run time. A dynamically linked program calls a function of
  another object through a slot: a word of the global offset table that holds the address of the function. Mimick finds
  the slots of a function, writes the address of a trampoline into them, and lets the trampoline run a replacement. On top
  of such stubs it offers mocks: a mock keeps a log of its calls, follows the behaviours that a test has set up with
  \<open>mmk_when\<close>, and lets the test count its past calls with \<open>mmk_verify\<close>.

  \<^bold>\<open>The parts of the program and how they interact.\<close> \<open>mmk_mock_create\<close> (\<open>src/mock.c\<close>) allocates the context of a mock and calls
  \<open>mmk_stub_create\<close> (\<open>src/stub.c\<close>), which asks the back end (\<open>src/plt-elf.c\<close>, \<open>src/plt-mach-o.c\<close> or \<open>src/plt-pe.c\<close>, with
  the scopes of \<open>src/plt.c\<close>) for the slots, makes a page with a copy of the assembled trampoline (\<open>src/trampoline.c\<close>) and
  patches the slots. A call through a slot enters the trampoline, which sets the thread-local context to the stub and
  jumps to the stub function that \<open>mmk_mock_define\<close> (\<open>include/mimick/mock.h\<close>, with the macros of
  \<open>include/mimick/preprocess.h\<close>) has generated. \<open>mmk_when\<close> and \<open>mmk_verify\<close> call the mocked function too: they first put a
  list of matchers (\<open>src/matcher.c\<close>) into a thread-local variable, and the stub function does what the kind of this list
  says: it registers a behaviour (\<open>src/when.c\<close>), counts the logged calls that the matchers accept (\<open>src/verify.c\<close>), or, without
  a list, logs the call and follows the newest behaviour that accepts it. \<open>mmk_reset\<close> (\<open>src/core.c\<close>) finds the mock by asking the trampoline
  for its context, restores the slots and frees the mock. The library cannot call the functions that it may have replaced, so it
  keeps copies of the string functions and looks the others up in the symbol tables (\<open>src/vitals.c\<close>).
\<close>

text \<open>
  \<^bold>\<open>Theories, bottom up.\<close>

  \<^item> \<open>Prelude\<close>: machine types, the faults in which a call can end, sequencing, linked lists in the heap, and
    the locale \<open>event_contract\<close>: a handler of events that follows an abstract state. It is interpreted for the events of a test with
    one mock (\<open>session\<close>), with their account of blocks (\<open>account\<close>), and through several trampolines (\<open>entries\<close>).
    \<open>Memory\<close>: bytes at addresses, regions, integers and strings in memory, the blocks of the heap.
  \<^item> \<open>Vitals\<close> (\<open>src/vitals.c\<close>, \<open>include/mimick/assert.h\<close>): the string and memory functions twice, on lists and on memory, with the lemmas that the
    second implement the first; the heap functions, over an allocator that is a parameter; \<open>mmk_init_vital_functions\<close>.
  \<^item> \<open>Plt\<close> (\<open>src/plt.h\<close>, \<open>src/plt.c\<close>): scopes, slots, and the locale \<open>got_patcher\<close>: what the rest of the library relies on
    in a back end. It is interpreted for the three of them: \<open>Plt_Elf\<close>, \<open>Plt_Mach_O\<close> and \<open>Plt_Pe\<close> (the files \<open>src/plt-*.c\<close>), each
    with its tables read from memory as the code reads them. \<open>R_Debug\<close> is the start of \<open>src/plt-elf.c\<close>, which finds the
    record of the dynamic linker.
  \<^item> \<open>Trampoline\<close> and \<open>Windows_Runtime\<close> (\<open>src/trampoline.c\<close>): the page of a trampoline, with \<open>mmap\<close> and with
    \<open>VirtualAlloc\<close>. \<open>Core\<close> (\<open>src/core.c\<close>): the environment, \<open>mmk_init\<close>. \<open>Thread_Local\<close> (\<open>src/threadlocal.h\<close>): the variables of a
    thread, with the compiler's support and without.
  \<^item> \<open>Stub\<close> (\<open>src/stub.c\<close>, and as \<open>enter_trampoline\<close> what the code of a trampoline does with a stub).
  \<^item> \<open>Machine\<close>: programs of labels and instructions, their execution, memory as cells of one word, the stack frame of a program, and the
    locale \<open>trampoline\<close>, the contract of a trampoline on any processor. \<open>X86\<close> and \<open>Arm\<close>: registers, instructions, calling
    conventions, and for each instruction a rule for its execution over frames. \<open>X86_Trampolines\<close> and \<open>Arm_Trampolines\<close>: the seven programs of
    \<open>src/asm\<close>, instruction by instruction, each with the interpretation of \<open>trampoline\<close> (\<open>on_systemv\<close>, \<open>on_win\<close>, \<open>on_win_asm\<close>,
    \<open>on_i386\<close>, \<open>on_i386_asm\<close>, \<open>on_arm\<close>, \<open>on_aarch64\<close>). \<open>Trampoline_Code\<close>: the locale \<open>stub_trampoline\<close> extends the contract by the library's own
    functions and derives \<open>enter_trampoline\<close> from it; it is interpreted for the programs of 64 bits.
  \<^item> \<open>Matcher\<close> (\<open>src/matcher.c\<close>), \<open>Call_Log\<close> and \<open>Verify\<close> (\<open>src/verify.c\<close>, the iteration of \<open>src/mock.c\<close>), \<open>Params\<close> (the structures
    of parameters of \<open>include/mimick/mock.h\<close>), \<open>When\<close> (\<open>src/when.c\<close>) and \<open>Mock\<close> (\<open>src/mock.c\<close>, \<open>mmk_reset\<close>, and the stub
    function of a blueprint as a function on states). \<open>Call_Log\<close> has the locale \<open>call_log\<close>, a counter of past calls, interpreted
    on the list of entries that the bytes of the log stand for.
  \<^item> \<open>Preprocess\<close> (\<open>include/mimick/preprocess.h\<close>) and \<open>Blueprint\<close> (the definition macros of \<open>include/mimick/mock.h\<close>): macros as functions
    on preprocessing tokens. \<open>Variadic\<close>: the lines of \<open>mock.h\<close> for variadic functions, \<open>include/mimick/va.h\<close>.
  \<^item> \<open>Mock_Invariant\<close>, \<open>Mock_Refinement\<close>, \<open>Mock_Session\<close>, \<open>Mock_Scoped\<close>, \<open>Mock_Lifecycle\<close>, \<open>Mock_System\<close>: see below.
  \<^item> \<open>Failures\<close>: what a failure prints before the process ends (\<open>mmk_panic\<close>, \<open>mmk_fprintf\<close>, \<open>mmk_abort\<close> of \<open>src/vitals.c\<close>), with the messages of the
    library.
  \<^item> \<open>Demo\<close>, \<open>Mock_Demo\<close>, \<open>Code_Demo\<close>: small processes, for the witnesses. The theories whose names end in \<open>_Properties\<close>, with \<open>Blueprint\<close> and
    \<open>Back_Ends\<close>, hold the properties; each has the witness that its hypotheses can hold right after it.

  \<^bold>\<open>State.\<close> A C structure is a record, at its address in a map of typed objects (\<open>stubs\<close>, \<open>matchers\<close>, \<open>bindings\<close>, \<open>mocks\<close>), and
  its bytes are a block of the heap (\<open>live\<close>). What the code reads byte by byte (the tables of the loaded objects, the slots, the
  trampolines, the log, the frame of parameters) is in the memory \<open>mem\<close>. The static and thread-local variables are
  fields of the state, which each theory extends by its own. A function of C that may panic, fail an assertion,
  access what is not there or loop forever returns \<open>fault + result\<close>. A loop whose end depends on the data is a
  \<open>partial_function (option)\<close>, so that not returning is the value \<open>None\<close> (the fault \<open>Diverges\<close> where it is used): no fuel occurs
  anywhere, and every theorem that a function returns is proved as such. Pointers, sizes, counters and \<open>int\<close> are words of
  their width; the products and sums that could wrap are bounded in the hypotheses (\<open>log_fits\<close>: the log of the history at
  hand fits into the address space).
\<close>

text \<open>
  \<^bold>\<open>What the lemmas and properties show.\<close>

  \<^item> \<^emph>\<open>Below the mocks.\<close> The string functions compute the list functions. The search for slots ends. In an ELF object it finds exactly
    what the first relocations for the name within the bounds of the two tables give (\<open>elf_slots_found\<close>); on the other hosts every slot
    belongs to an indirect symbol or an import with the right name. The lookup of a definition in the hash tables returns the first
    symbol with this name and a size. The three back ends redirect and restore slots alike
    (\<open>back_ends_redirect_alike\<close>, from the locale). A stub leads its slots to its function with its context, and its
    destruction undoes this, in the reverse order of creation only (\<open>undone_in_order_of_creation\<close>).
  \<^item> \<^emph>\<open>Assembly.\<close> Each of the seven programs, entered with its page in front of it, a stack with 256 bytes left and functions that keep
    the calling convention, sets the context, asks, and ends at the routine with everything that was passed, or at the caller with the
    context as result. So \<open>enter_trampoline\<close> is what a processor does (\<open>x86_64_code_implements_model\<close>), and \<open>stub_runs_on_x86_64\<close> follows a
    call from \<open>mmk_stub_create\<close> to the replacement. The contracts say what they need, and where it is more than the convention promises there
    is a function that breaks the program: home space on Windows, the upper half of an \<open>int\<close> (all three programs for x86_64 and AArch64), vector registers on AArch64; the stack
    alignment of System V is computed. No loop occurs in these programs, and \<open>exec\<close> is a total function.
  \<^item> \<^emph>\<open>Matchers.\<close> The list stays sorted by the counters, so that the unspecified order in which C evaluates arguments does not
    matter (\<open>evaluation_order_is_irrelevant\<close>); each kind accepts what its name says, for values that are linearly ordered.
  \<^item> \<^emph>\<open>The log.\<close> The bytes of the log implement a list of records of parameters with counts: reading it back with the iteration of the code gives
    that list, before and after a call is registered (\<open>registered_calls_read_back\<close>), and the counts are those of the calls so far.
  \<^item> \<^emph>\<open>One mock.\<close> \<open>Mock_Invariant\<close>: \<open>mock_inv\<close> relates the state to an abstract mock, which is a list of past calls (each the list of its
    arguments) and a list of contracts (matchers, reference values, result). \<open>Mock_Refinement\<close>: a call, \<open>mmk_when\<close> and
    \<open>mmk_verify\<close> preserve it and act on the abstract mock as they should; a call with a delegate runs it in a state of this kind.
    \<open>Mock_Session\<close>: so does every sequence of them (\<open>mock_session_refines\<close>), and they return when their allocations succeed.
    \<open>Mock_Scoped\<close>: a target with a scope gets two stubs; the slots of the object in scope lead to the first, those of the program to the second
    (unless memory ran out), and both are entries to one mock (\<open>scoped_mock_is_one_mock\<close>).
    \<open>Mock_Lifecycle\<close>: the blocks that a mock owns are accounted for exactly, and \<open>mmk_reset\<close> returns all of them and restores the slots
    (\<open>mock_life_cycle\<close>).
  \<^item> \<^emph>\<open>Several mocks.\<close> \<open>Mock_System\<close>: a step relation with creations, uses and resets of mocks in any order. Its invariant
    divides the live blocks among the mocks and the program; from it, the mocks are independent (\<open>mocks_are_independent\<close>).
  \<^item> \<^emph>\<open>Blueprints.\<close> The unrolled macros compute the list functions up to their bound (64 arguments, so 61 parameters: \<open>define_limit\<close>
    shows that more do not work), the lists of parameters agree, and the right variant is chosen; a return through a
    delegate ends the lists of variadic arguments first. Variadic arguments are judged as
    documented, apart from their order.
  \<^item> \<^emph>\<open>Hosts.\<close> Each way to find the linker's record finds the same, and \<open>mmk_init\<close> goes on from it alike; a search that fails passes the
    assertion of \<open>mmk_init\<close> and ends in a null pointer (\<open>contexts_found_alike\<close>). The variables of Windows threads agree with those of the
    language for one thread only; a trampoline made with \<open>VirtualAlloc\<close> or from \<open>/dev/zero\<close> is the one of anonymous memory. Every
    failure other than an access through a bad pointer or an endless loop prints its message, once the two pointers are set that this needs;
    \<open>mmk_init_vital_functions\<close> panics no earlier, but the assertion in front of it fails with a call of \<open>NULL\<close>.

  \<^bold>\<open>What is a parameter.\<close> The allocator, \<open>mmap\<close> and \<open>realloc\<close> of the C library: functions of the live blocks, of which \<open>libc_ok\<close> says that
  what they return is \<open>NULL\<close> or a block apart from those. The addresses that the assembler gives to instructions, and the compiled functions of the
  library that a trampoline calls: functions on the state of the processor, of which \<open>serves\<close> says that they do what the C code does and
  keep the calling convention. The objects that the dynamic linker, \<open>dyld\<close> or \<open>toolhelp\<close> list, \<open>dlsym\<close>,
  \<open>GetProcAddress\<close> and \<open>VirtualProtect\<close>. The functions of the tested program: predicates, delegates, serializers. The bytes of the
  assembled trampoline.

  \<^bold>\<open>What is not modelled, and why.\<close> The encoding of instructions, so that the bytes of a page and its program are related by
  hypothesis only (\<open>sees_page\<close> relates the words in front of them); vector registers beyond 128 bits, and on ARM beyond the 64 bits that a
  function may have to restore; accesses that are not aligned to words, which the trampolines do not make. Threads, other than in \<open>Thread_Local\<close>: a state belongs to one thread. Parameters that
  are structures or floating-point numbers, and targets of 32 bits or of the other byte order. The branch of \<open>get_offsets\<close> for FreeBSD, in which
  the base address of the main program counts as zero; in the Mach-O back end, handles of libraries other than the indices of images
  and the \<open>- 1\<close> that stands for none. In sessions and systems of mocks: behaviours with
  \<open>then_call\<close>, since a delegate may do anything to the process (single calls have them, \<open>call_delegates\<close>). In the life cycle and in
  systems of mocks: targets with a scope, whose mocks have two stubs. Tests, samples and build files.
\<close>

end
